(* ===== verification/Haze_Prelude.thy ===== *)
theory Haze_Prelude
  imports Main "HOL-Library.Word"
begin

text \<open>
  Shared vocabulary of the development: the machine types of the source
  (\<open>uint64_t\<close>, \<open>uint8_t\<close>, \<open>uintptr_t\<close>), little-endian byte access to a vector of
  64-bit limbs, \<open>std::to_string\<close>, and the small container operations the components
  use (\<open>emplace\<close>/\<open>erase\<close>/\<open>insert\<close> of the unordered containers that the code
  iterates over, kept as lists because their iteration order is observable).
  The locales at the end are the contracts several components share.
\<close>

unbundle bit_operations_syntax

type_synonym u64 = "64 word"
type_synonym byte = "8 word"

text \<open>
  \<open>DevAddr\<close> of common/handle.hpp is a strong typedef of \<open>uintptr_t\<close>; host and device
  pointers are 64-bit addresses, \<open>nullptr\<close> is 0.
\<close>

type_synonym DevAddr = u64
type_synonym hostptr = u64
type_synonym hostmem = "hostptr \<Rightarrow> byte"

named_theorems frame_simps \<open>fields an operation leaves alone\<close>
named_theorems codec_simps \<open>round trips of the byte codecs\<close>

section \<open>Decimal numerals (\<open>std::to_string\<close>)\<close>

definition digit_char :: "nat \<Rightarrow> char" where
  "digit_char d = char_of (48 + d)"

fun to_string :: "nat \<Rightarrow> string" where
  "to_string n =
     (if n < 10 then [digit_char n] else to_string (n div 10) @ [digit_char (n mod 10)])"

declare to_string.simps [simp del]

definition string_val :: "string \<Rightarrow> nat" where
  "string_val s = foldl (\<lambda>acc c. 10 * acc + (of_char c - 48)) 0 s"

lemma string_val_snoc: "string_val (s @ [c]) = 10 * string_val s + (of_char c - 48)"
  by (simp add: string_val_def)

lemma digit_char_val: "d < 10 \<Longrightarrow> of_char (digit_char d) - 48 = d"
  by (simp add: digit_char_def take_bit_eq_mod)

lemma string_val_to_string [codec_simps]: "string_val (to_string n) = n"
proof (induction n rule: to_string.induct)
  case (1 n)
  show ?case
  proof (cases "n < 10")
    case True
    then show ?thesis
      using string_val_snoc [of "[]"]
      by (simp add: to_string.simps [of n] digit_char_val string_val_def)
  next
    case False
    then have "string_val (to_string (n div 10)) = n div 10" by (rule "1.IH")
    with False show ?thesis
      by (simp add: to_string.simps [of n] string_val_snoc digit_char_val)
  qed
qed

lemma to_string_inject [simp]: "to_string m = to_string n \<longleftrightarrow> m = n"
  by (metis string_val_to_string)

section \<open>Bytes of a limb vector\<close>

text \<open>
  The C ABI reads and writes shadow vectors through \<open>uint8_t*\<close>. All supported hosts
  are little-endian: byte \<open>i\<close> of a limb holds its bits \<open>8*i .. 8*i+7\<close>.
\<close>

definition limb_bytes :: "u64 \<Rightarrow> byte list" where
  "limb_bytes w = map (\<lambda>i. ucast (drop_bit (8 * i) w)) [0..<8]"

fun bytes_limb :: "byte list \<Rightarrow> u64" where
  "bytes_limb [] = 0"
| "bytes_limb (b # bs) = ucast b OR push_bit 8 (bytes_limb bs)"

definition vec_bytes :: "u64 list \<Rightarrow> byte list" where
  "vec_bytes v = concat (map limb_bytes v)"

fun bytes_vec :: "byte list \<Rightarrow> u64 list" where
  "bytes_vec [] = []"
| "bytes_vec (b # bs) = bytes_limb (take 8 (b # bs)) # bytes_vec (drop 8 (b # bs))"

lemma length_limb_bytes [simp]: "length (limb_bytes w) = 8"
  by (simp add: limb_bytes_def)

lemma length_vec_bytes [simp]: "length (vec_bytes v) = 8 * length v"
  by (induction v) (simp_all add: vec_bytes_def)

lemma bit_bytes_limb:
  "bit (bytes_limb bs) n \<longleftrightarrow> n < 64 \<and> n div 8 < length bs \<and> bit (bs ! (n div 8)) (n mod 8)"
proof (induction bs arbitrary: n)
  case Nil
  then show ?case by simp
next
  case (Cons b bs)
  show ?case
  proof (cases "n < 8")
    case True
    then show ?thesis
      by (auto simp: bit_or_iff bit_push_bit_iff bit_ucast_iff)
  next
    case False
    then have "n div 8 = Suc ((n - 8) div 8)" and "n mod 8 = (n - 8) mod 8"
      by (simp_all add: le_div_geq le_mod_geq)
    moreover have "\<not> bit b n" using False by (auto dest: bit_imp_le_length)
    ultimately show ?thesis using False
      by (auto simp: bit_or_iff bit_push_bit_iff bit_ucast_iff Cons.IH dest: bit_imp_le_length)
  qed
qed

lemma bytes_limb_limb_bytes [codec_simps, simp]: "bytes_limb (limb_bytes w) = w"
proof (rule bit_eqI)
  fix n
  assume "possible_bit TYPE(64 word) n"
  then have n: "n < 64" by simp
  then have "n div 8 < 8" and "n mod 8 < 8" and "8 * (n div 8) + n mod 8 = n" by simp_all
  then show "bit (bytes_limb (limb_bytes w)) n = bit w n"
    using n by (auto simp: bit_bytes_limb limb_bytes_def bit_ucast_iff bit_drop_bit_eq)
qed

lemma limb_bytes_bytes_limb [codec_simps]:
  assumes "length bs = 8"
  shows "limb_bytes (bytes_limb bs) = bs"
proof (rule nth_equalityI)
  show "length (limb_bytes (bytes_limb bs)) = length bs" using assms by simp
next
  fix i
  assume "i < length (limb_bytes (bytes_limb bs))"
  then have i: "i < 8" by simp
  show "limb_bytes (bytes_limb bs) ! i = bs ! i"
  proof (rule bit_eqI)
    fix n
    assume "possible_bit TYPE(8 word) n"
    then have n: "n < 8" by simp
    then have "(8 * i + n) div 8 = i" and "(8 * i + n) mod 8 = n" and "8 * i + n < 64"
      using i by simp_all
    then show "bit (limb_bytes (bytes_limb bs) ! i) n = bit (bs ! i) n"
      using i n assms
      by (simp add: limb_bytes_def bit_ucast_iff bit_drop_bit_eq bit_bytes_limb add.commute)
  qed
qed

lemma bytes_vec_append8:
  "length bs = 8 \<Longrightarrow> bytes_vec (bs @ cs) = bytes_limb bs # bytes_vec cs"
  by (cases bs) simp_all

lemma bytes_vec_vec_bytes [codec_simps, simp]: "bytes_vec (vec_bytes v) = v"
  by (induction v) (simp_all add: vec_bytes_def bytes_vec_append8)

lemma length_bytes_vec: "length bs = 8 * n \<Longrightarrow> length (bytes_vec bs) = n"
proof (induction n arbitrary: bs)
  case 0
  then show ?case by simp
next
  case (Suc n)
  then show ?case by (cases bs) simp_all
qed

lemma vec_bytes_bytes_vec [codec_simps]:
  "length bs = 8 * n \<Longrightarrow> vec_bytes (bytes_vec bs) = bs"
proof (induction n arbitrary: bs)
  case 0
  then show ?case by (simp add: vec_bytes_def)
next
  case (Suc n)
  define hd8 tl8 where "hd8 = take 8 bs" and "tl8 = drop 8 bs"
  have bs: "bs = hd8 @ tl8" and l8: "length hd8 = 8" and l: "length tl8 = 8 * n"
    using Suc.prems by (simp_all add: hd8_def tl8_def)
  have "vec_bytes (bytes_vec bs) = limb_bytes (bytes_limb hd8) @ vec_bytes (bytes_vec tl8)"
    unfolding bs bytes_vec_append8 [OF l8] by (simp add: vec_bytes_def)
  then show ?case using bs l8 Suc.IH [OF l] by (simp add: limb_bytes_bytes_limb)
qed

text \<open>\<open>memcpy\<close> of a prefix into a limb vector, \<open>memset\<close> of a prefix.\<close>

definition overwrite_prefix :: "byte list \<Rightarrow> u64 list \<Rightarrow> u64 list" where
  "overwrite_prefix bs v = bytes_vec (bs @ drop (length bs) (vec_bytes v))"

lemma length_overwrite_prefix [simp]:
  "length bs \<le> 8 * length v \<Longrightarrow> length (overwrite_prefix bs v) = length v"
  by (simp add: overwrite_prefix_def length_bytes_vec)

lemma vec_bytes_overwrite_prefix [codec_simps]:
  "length bs \<le> 8 * length v \<Longrightarrow>
   vec_bytes (overwrite_prefix bs v) = bs @ drop (length bs) (vec_bytes v)"
  by (simp add: overwrite_prefix_def vec_bytes_bytes_vec [where n = "length v"])

section \<open>Host memory\<close>

definition read_host :: "hostmem \<Rightarrow> hostptr \<Rightarrow> nat \<Rightarrow> byte list" where
  "read_host hm p n = map (\<lambda>i. hm (p + of_nat i)) [0..<n]"

definition write_host :: "hostmem \<Rightarrow> hostptr \<Rightarrow> byte list \<Rightarrow> hostmem" where
  "write_host hm p bs =
     (\<lambda>q. let i = unat (q - p) in if i < length bs then bs ! i else hm q)"

lemma length_read_host [simp]: "length (read_host hm p n) = n"
  by (simp add: read_host_def)

lemma read_write_host:
  "length bs \<le> 2 ^ 64 \<Longrightarrow> read_host (write_host hm p bs) p (length bs) = bs"
  by (rule nth_equalityI)
     (simp_all add: read_host_def write_host_def unat_of_nat take_bit_nat_eq_self_iff Let_def)

section \<open>Iterated containers\<close>

text \<open>
  \<open>std::unordered_map\<close> and \<open>std::unordered_set\<close> whose elements the code iterates over
  are lists; the position of a new element (here: last) stands for one of the orders the
  standard allows.
\<close>

definition al_keys :: "('k \<times> 'v) list \<Rightarrow> 'k set" where
  "al_keys ps = fst ` set ps"

definition al_emplace :: "'k \<Rightarrow> 'v \<Rightarrow> ('k \<times> 'v) list \<Rightarrow> ('k \<times> 'v) list" where
  "al_emplace k v ps = (if k \<in> al_keys ps then ps else ps @ [(k, v)])"

definition al_erase :: "'k \<Rightarrow> ('k \<times> 'v) list \<Rightarrow> ('k \<times> 'v) list" where
  "al_erase k ps = filter (\<lambda>p. fst p \<noteq> k) ps"

definition ls_insert :: "'a \<Rightarrow> 'a list \<Rightarrow> 'a list" where
  "ls_insert x xs = (if x \<in> set xs then xs else xs @ [x])"

lemma al_keys_simps [simp]:
  "al_keys [] = {}"
  "al_keys (p # ps) = insert (fst p) (al_keys ps)"
  "al_keys (ps @ qs) = al_keys ps \<union> al_keys qs"
  by (auto simp: al_keys_def)

lemma al_keys_emplace [simp]: "al_keys (al_emplace k v ps) = insert k (al_keys ps)"
  by (auto simp: al_emplace_def)

lemma al_keys_erase [simp]: "al_keys (al_erase k ps) = al_keys ps - {k}"
  by (auto simp: al_erase_def al_keys_def)

lemma al_erase_absent: "k \<notin> al_keys ps \<Longrightarrow> al_erase k ps = ps"
  by (auto simp: al_erase_def al_keys_def filter_id_conv)

lemma distinct_al_emplace [simp]:
  "distinct (map fst (al_emplace k v ps)) \<longleftrightarrow> distinct (map fst ps)"
  by (auto simp: al_emplace_def al_keys_def)

lemma distinct_al_erase [intro]:
  "distinct (map fst ps) \<Longrightarrow> distinct (map fst (al_erase k ps))"
  by (auto simp: al_erase_def distinct_map_filter)

lemma set_ls_insert [simp]: "set (ls_insert x xs) = insert x (set xs)"
  by (auto simp: ls_insert_def)

lemma distinct_ls_insert [simp]: "distinct (ls_insert x xs) \<longleftrightarrow> distinct xs"
  by (auto simp: ls_insert_def)

lemma length_ls_insert_single [simp]: "ls_insert x [x] = [x]"
  by (simp add: ls_insert_def)

text \<open>\<open>vector::resize(n, 0)\<close>: truncate or zero-pad.\<close>

definition resize0 :: "nat \<Rightarrow> u64 list \<Rightarrow> u64 list" where
  "resize0 n v = take n v @ replicate (n - length v) 0"

lemma length_resize0 [simp]: "length (resize0 n v) = n"
  by (simp add: resize0_def)

lemma resize0_id [simp]: "length v = n \<Longrightarrow> resize0 n v = v"
  by (simp add: resize0_def)

section \<open>Shared contracts\<close>

text \<open>
  A component whose operations all keep an invariant: then every history of operations
  from the start state does. Interpreted for the allocator and for the configuration with
  the allocator it drives.
\<close>

locale stateful_component =
  fixes start :: "'s" and step :: "'s \<Rightarrow> 'o \<Rightarrow> 's" and invar :: "'s \<Rightarrow> bool"
  assumes invar_start: "invar start"
    and invar_step: "invar s \<Longrightarrow> invar (step s x)"
begin

lemma invar_from: "invar s \<Longrightarrow> invar (foldl step s xs)"
  by (induction xs arbitrary: s) (simp_all add: invar_step)

lemma invar_run: "invar (foldl step start xs)"
  by (rule invar_from [OF invar_start])

end

text \<open>
  Names made from a prefix and a counter, as all trace names are: distinct counter values
  give distinct names, so extending a set of names drawn below the counter by the
  counter's own name never collides.
\<close>

locale counter_names =
  fixes name_of :: "u64 \<Rightarrow> string"
  assumes name_inj: "name_of i = name_of j \<Longrightarrow> i = j"
begin

definition below :: "u64 \<Rightarrow> string set" where
  "below c = name_of ` {i. unat i < unat c}"

lemma fresh: "name_of c \<notin> below c"
  by (auto simp: below_def dest: name_inj)

lemma below_step: "c + 1 \<noteq> 0 \<Longrightarrow> below (c + 1) = insert (name_of c) (below c)"
proof -
  assume "c + 1 \<noteq> 0"
  then have "unat (c + 1) = Suc (unat c)" by (simp add: unatSuc add.commute)
  then have "{i. unat i < unat (c + 1)} = insert c {i. unat i < unat c}"
    by (auto simp: less_Suc_eq word_unat_eq_iff)
  then show ?thesis by (simp add: below_def)
qed

end

end
