(* ===== verification/Haze_Errors.thy ===== *)
theory Haze_Errors
  imports Haze_Prelude
begin

text \<open>
  Error values (common/errors.hpp, common/errors.cpp, api/error.cpp, the error codes of
  haze_types.h). \<open>std::expected<T, HazeInternalError>\<close> is the sum
  \<open>HazeInternalError + 'a\<close>, \<open>Inl\<close> being \<open>std::unexpected\<close>. The thread-local
  \<open>g_last_error\<close> is a cell of type \<open>hazeError_t\<close> that its operations return updated.
\<close>

datatype HazeInternalError =
    InvalidArgument | NotConfigured | UnknownAddress | NoData | AllocTooSmall
  | BackendInitFailed | BackendReplayFailed | BackendShapeMismatch
  | MrpGroupAddrModuliMismatch | MissingPolyMapBinding | ShadowSizeMismatch
  | BackendOutputMissing | BackendOutputDecodeFailed | BridgeHookFailed | PoolMapDesync
  | SourceUnavailable | OutputNotFlushed | UnsupportedDataFormat

type_synonym 'a expected = "HazeInternalError + 'a"

datatype hazeError_t =
    HAZE_SUCCESS | HAZE_ERROR_INVALID_VALUE | HAZE_ERROR_OUT_OF_MEMORY
  | HAZE_ERROR_NOT_SUPPORTED | HAZE_ERROR_CONFIGERR | HAZE_ERROR_UNKNOWN_ADDRESS
  | HAZE_ERROR_NO_DATA | HAZE_ERROR_ALLOC_TOO_SMALL | HAZE_ERROR_SOURCE_UNAVAILABLE
  | HAZE_ERROR_NOT_FLUSHED | HAZE_ERROR_INTERNAL

text \<open>The enumerators' values in the public header.\<close>

fun err_code :: "hazeError_t \<Rightarrow> int" where
  "err_code HAZE_SUCCESS = 0"
| "err_code HAZE_ERROR_INVALID_VALUE = 1"
| "err_code HAZE_ERROR_OUT_OF_MEMORY = 2"
| "err_code HAZE_ERROR_NOT_SUPPORTED = 3"
| "err_code HAZE_ERROR_CONFIGERR = 4"
| "err_code HAZE_ERROR_UNKNOWN_ADDRESS = 5"
| "err_code HAZE_ERROR_NO_DATA = 6"
| "err_code HAZE_ERROR_ALLOC_TOO_SMALL = 7"
| "err_code HAZE_ERROR_SOURCE_UNAVAILABLE = 8"
| "err_code HAZE_ERROR_NOT_FLUSHED = 9"
| "err_code HAZE_ERROR_INTERNAL = 1024"

lemma err_code_inject [simp]: "err_code a = err_code b \<longleftrightarrow> a = b"
  by (cases a; cases b) simp_all

text \<open>C compares enumerators by value.\<close>

instantiation hazeError_t :: linorder
begin

definition less_eq_hazeError_t :: "hazeError_t \<Rightarrow> hazeError_t \<Rightarrow> bool" where
  "less_eq_hazeError_t a b \<longleftrightarrow> err_code a \<le> err_code b"

definition less_hazeError_t :: "hazeError_t \<Rightarrow> hazeError_t \<Rightarrow> bool" where
  "less_hazeError_t a b \<longleftrightarrow> err_code a < err_code b"

instance
  by standard (auto simp: less_eq_hazeError_t_def less_hazeError_t_def)

end

section \<open>Translation to the public codes\<close>

fun to_public_error :: "HazeInternalError \<Rightarrow> hazeError_t" where
  "to_public_error InvalidArgument = HAZE_ERROR_INVALID_VALUE"
| "to_public_error NotConfigured = HAZE_ERROR_CONFIGERR"
| "to_public_error UnknownAddress = HAZE_ERROR_UNKNOWN_ADDRESS"
| "to_public_error NoData = HAZE_ERROR_NO_DATA"
| "to_public_error AllocTooSmall = HAZE_ERROR_ALLOC_TOO_SMALL"
| "to_public_error SourceUnavailable = HAZE_ERROR_SOURCE_UNAVAILABLE"
| "to_public_error OutputNotFlushed = HAZE_ERROR_NOT_FLUSHED"
| "to_public_error UnsupportedDataFormat = HAZE_ERROR_NOT_SUPPORTED"
| "to_public_error BackendInitFailed = HAZE_ERROR_INTERNAL"
| "to_public_error BackendReplayFailed = HAZE_ERROR_INTERNAL"
| "to_public_error BackendShapeMismatch = HAZE_ERROR_INTERNAL"
| "to_public_error MrpGroupAddrModuliMismatch = HAZE_ERROR_INTERNAL"
| "to_public_error MissingPolyMapBinding = HAZE_ERROR_INTERNAL"
| "to_public_error ShadowSizeMismatch = HAZE_ERROR_INTERNAL"
| "to_public_error BackendOutputMissing = HAZE_ERROR_INTERNAL"
| "to_public_error BackendOutputDecodeFailed = HAZE_ERROR_INTERNAL"
| "to_public_error BridgeHookFailed = HAZE_ERROR_INTERNAL"
| "to_public_error PoolMapDesync = HAZE_ERROR_INTERNAL"

fun internal_error_name :: "HazeInternalError \<Rightarrow> string" where
  "internal_error_name InvalidArgument = ''invalid argument''"
| "internal_error_name NotConfigured = ''not configured''"
| "internal_error_name UnknownAddress = ''unknown address''"
| "internal_error_name NoData = ''no data''"
| "internal_error_name AllocTooSmall = ''allocation too small''"
| "internal_error_name BackendInitFailed = ''backend init failed''"
| "internal_error_name BackendReplayFailed = ''backend replay failed''"
| "internal_error_name BackendShapeMismatch = ''backend returned unexpected shape''"
| "internal_error_name MrpGroupAddrModuliMismatch =
     ''MRP group addrs/moduli span size mismatch''"
| "internal_error_name MissingPolyMapBinding = ''addr missing from poly_map_''"
| "internal_error_name ShadowSizeMismatch = ''shadow buffer length != ring_dim''"
| "internal_error_name BackendOutputMissing = ''backend output missing''"
| "internal_error_name BackendOutputDecodeFailed = ''backend output decode failed''"
| "internal_error_name BridgeHookFailed = ''post-recording hook reported failures''"
| "internal_error_name PoolMapDesync = ''pool/map desync''"
| "internal_error_name SourceUnavailable =
     ''compute / D2D source has no shadow data and no poly_map_ binding''"
| "internal_error_name OutputNotFlushed =
     ''D2H read of address with no materialized bytes (tag output + flush before D2H)''"
| "internal_error_name UnsupportedDataFormat =
     ''montgomery/bit-reversal not supported on this target (use FUNC_SIM, not local)''"

text \<open>
  \<open>debug_logging_enabled\<close> on the value of \<open>getenv("HAZE_DEBUG")\<close> (\<open>None\<close>: unset), and the
  line \<open>record_internal_error\<close> prints to stderr (\<open>None\<close>: nothing).
\<close>

definition debug_logging_enabled :: "string option \<Rightarrow> bool" where
  "debug_logging_enabled v =
     (case v of None \<Rightarrow> False | Some cs \<Rightarrow> cs \<noteq> [] \<and> hd cs \<noteq> CHR ''0'')"

definition record_internal_error ::
    "string option \<Rightarrow> HazeInternalError \<Rightarrow> string option \<Rightarrow> string option" where
  "record_internal_error env err ctxt =
     (if debug_logging_enabled env
      then (case ctxt of
              Some c \<Rightarrow> Some (''[haze] internal error: '' @ internal_error_name err
                              @ '' ('' @ c @ '')'' @ [CHR 0x0A])
            | None \<Rightarrow> Some (''[haze] internal error: '' @ internal_error_name err
                            @ [CHR 0x0A]))
      else None)"

definition log_error :: "string \<Rightarrow> string \<Rightarrow> string" where
  "log_error tag body = ''[haze] '' @ tag @ '': '' @ body @ [CHR 0x0A]"

section \<open>The thread's last error\<close>

text \<open>\<open>set_error\<close> returns the code and leaves it in the thread's cell.\<close>

definition set_error :: "hazeError_t \<Rightarrow> hazeError_t \<times> hazeError_t" where
  "set_error err = (err, err)"

definition set_internal_result :: "unit expected \<Rightarrow> hazeError_t \<times> hazeError_t" where
  "set_internal_result r =
     (case r of Inr _ \<Rightarrow> set_error HAZE_SUCCESS | Inl e \<Rightarrow> set_error (to_public_error e))"

definition hazeGetLastError :: "hazeError_t \<Rightarrow> hazeError_t \<times> hazeError_t" where
  "hazeGetLastError g_last_error = (let err = g_last_error in (err, HAZE_SUCCESS))"

text \<open>\<open>hazeGetErrorString\<close> takes any \<open>int\<close> a C caller casts to the enum.\<close>

definition hazeGetErrorString :: "int \<Rightarrow> string" where
  "hazeGetErrorString error =
     (if error = err_code HAZE_SUCCESS then ''no error''
      else if error = err_code HAZE_ERROR_INVALID_VALUE then ''invalid value''
      else if error = err_code HAZE_ERROR_OUT_OF_MEMORY then ''out of memory''
      else if error = err_code HAZE_ERROR_NOT_SUPPORTED then ''not supported''
      else if error = err_code HAZE_ERROR_CONFIGERR then ''configuration error''
      else if error = err_code HAZE_ERROR_UNKNOWN_ADDRESS then ''unknown device address''
      else if error = err_code HAZE_ERROR_NO_DATA then ''no data at device address''
      else if error = err_code HAZE_ERROR_ALLOC_TOO_SMALL
        then ''allocation size below polynomial size''
      else if error = err_code HAZE_ERROR_SOURCE_UNAVAILABLE
        then ''compute / D2D source has no shadow data and no poly_map_ binding''
      else if error = err_code HAZE_ERROR_NOT_FLUSHED
        then ''D2H of an untagged / unflushed address (tag output + hazeFlush first)''
      else if error = err_code HAZE_ERROR_INTERNAL
        then ''internal haze error (set HAZE_DEBUG=1 for details)''
      else ''unknown error'')"

section \<open>Lemmas\<close>

lemma set_internal_result_simps [simp]:
  "set_internal_result (Inr u) = (HAZE_SUCCESS, HAZE_SUCCESS)"
  "set_internal_result (Inl e) = (to_public_error e, to_public_error e)"
  by (simp_all add: set_internal_result_def set_error_def)

lemma to_public_error_never_success [simp]: "to_public_error e \<noteq> HAZE_SUCCESS"
  by (cases e) simp_all

lemma err_code_nonneg: "0 \<le> err_code e"
  by (cases e) simp_all

text \<open>
  The codes are laid out so that one bit tells the caller whether haze itself broke:
  bit 10 of a translated code is set exactly for the ten internal classifications, every
  other translation is a user-actionable code strictly between success and
  HAZE_ERROR_INTERNAL, and no failure translates to success.
\<close>

theorem to_public_error_internal_bit:
  "(bit (err_code (to_public_error e)) 10 \<longleftrightarrow>
      e \<in> {BackendInitFailed, BackendReplayFailed, BackendShapeMismatch,
           MrpGroupAddrModuliMismatch, MissingPolyMapBinding, ShadowSizeMismatch,
           BackendOutputMissing, BackendOutputDecodeFailed, BridgeHookFailed, PoolMapDesync})
   \<and> (bit (err_code (to_public_error e)) 10 \<or>
      HAZE_SUCCESS < to_public_error e \<and> to_public_error e < HAZE_ERROR_INTERNAL)
   \<and> to_public_error e \<noteq> HAZE_SUCCESS"
  by (cases e) (simp_all add: less_hazeError_t_def bit_iff_odd)

end
