(* ===== verification/Haze_Allocator.thy ===== *)
theory Haze_Allocator
  imports Haze_Errors
begin

text \<open>
  \<open>DeviceAllocator\<close> (core/allocator.hpp, core/allocator.cpp). The record has the class's
  fields; \<open>alloc_set_\<close>, \<open>shadow_data_\<close> and \<open>host_set_\<close> are never iterated, so they are
  a set, a map and a set. The free list \<open>pool_free_\<close> is a vector used as a stack: its
  back is the last element. Sizes and addresses are 64-bit words, so \<open>next_addr_\<close> wraps as
  \<open>uintptr_t\<close> does. Every method takes \<open>mutex_\<close> for its whole body and is one atomic
  step here.
\<close>

definition kHbmBase :: DevAddr where
  "kHbmBase = 0x4000000000"

definition to_dev_addr :: "hostptr \<Rightarrow> DevAddr" where
  "to_dev_addr p = p"

definition to_void_ptr :: "DevAddr \<Rightarrow> hostptr" where
  "to_void_ptr a = a"

lemma dev_addr_void_ptr [simp]: "to_dev_addr (to_void_ptr a) = a" "to_void_ptr (to_dev_addr p) = p"
  by (simp_all add: to_dev_addr_def to_void_ptr_def)

record allocator =
  alloc_set :: "DevAddr set"
  shadow_data :: "DevAddr \<rightharpoonup> u64 list"
  pool_free :: "DevAddr list"
  host_set :: "hostptr set"
  poly_bytes :: u64
  next_addr :: u64

definition allocator_init :: allocator where
  "allocator_init = \<lparr>alloc_set = {}, shadow_data = Map.empty, pool_free = [], host_set = {},
     poly_bytes = 0, next_addr = kHbmBase\<rparr>"

text \<open>\<open>poly_bytes_ / sizeof(uint64_t)\<close>.\<close>

definition want_elems :: "allocator \<Rightarrow> nat" where
  "want_elems al = unat (poly_bytes al) div 8"

section \<open>Pool and liveness\<close>

definition clear_pool_locked :: "allocator \<Rightarrow> allocator" where
  "clear_pool_locked al =
     (let al' = foldl (\<lambda>al a. al\<lparr>alloc_set := alloc_set al - {a},
                                shadow_data := (shadow_data al)(a := None)\<rparr>)
                  al (pool_free al)
      in al'\<lparr>pool_free := []\<rparr>)"

definition set_polynomial_size :: "u64 \<Rightarrow> allocator \<Rightarrow> allocator" where
  "set_polynomial_size bytes al =
     (if poly_bytes al \<noteq> bytes then (clear_pool_locked al)\<lparr>poly_bytes := bytes\<rparr> else al)"

definition polynomial_size :: "allocator \<Rightarrow> u64" where
  "polynomial_size al = poly_bytes al"

definition validate_poly_size_locked :: "u64 \<Rightarrow> allocator \<Rightarrow> unit expected" where
  "validate_poly_size_locked bytes al =
     (if poly_bytes al = 0 then Inl NotConfigured
      else if bytes \<noteq> poly_bytes al then Inl AllocTooSmall
      else Inr ())"

definition allocate_one_locked :: "allocator \<Rightarrow> DevAddr expected \<times> allocator" where
  "allocate_one_locked al =
     (if pool_free al \<noteq> [] then
        let addr = last (pool_free al); al1 = al\<lparr>pool_free := butlast (pool_free al)\<rparr> in
        if addr \<in> alloc_set al1 then (Inl PoolMapDesync, al1)
        else (Inr addr, al1\<lparr>alloc_set := insert addr (alloc_set al1)\<rparr>)
      else
        let addr = next_addr al in
        (Inr addr, al\<lparr>next_addr := next_addr al + poly_bytes al,
                     alloc_set := insert addr (alloc_set al)\<rparr>))"

definition free_one_locked :: "DevAddr \<Rightarrow> allocator \<Rightarrow> unit expected \<times> allocator" where
  "free_one_locked addr al =
     (if addr \<notin> alloc_set al then (Inl UnknownAddress, al)
      else (Inr (), al\<lparr>alloc_set := alloc_set al - {addr},
                      shadow_data := (shadow_data al)(addr := None),
                      pool_free := pool_free al @ [addr]\<rparr>))"

definition allocate :: "u64 \<Rightarrow> allocator \<Rightarrow> DevAddr expected \<times> allocator" where
  "allocate bytes al =
     (case validate_poly_size_locked bytes al of
        Inl e \<Rightarrow> (Inl e, al)
      | Inr _ \<Rightarrow> allocate_one_locked al)"

text \<open>The reservation loop, \<open>out\<close> being the addresses reserved so far.\<close>

fun allocate_loop ::
    "nat \<Rightarrow> DevAddr list \<Rightarrow> allocator \<Rightarrow> DevAddr list expected \<times> allocator" where
  "allocate_loop 0 out al = (Inr out, al)"
| "allocate_loop (Suc n) out al =
     (case allocate_one_locked al of
        (Inl e, al1) \<Rightarrow> (Inl e, foldl (\<lambda>al a. snd (free_one_locked a al)) al1 out)
      | (Inr a, al1) \<Rightarrow> allocate_loop n (out @ [a]) al1)"

definition allocate_many :: "u64 \<Rightarrow> u64 \<Rightarrow> allocator \<Rightarrow> DevAddr list expected \<times> allocator" where
  "allocate_many count bytes al =
     (if count = 0 then (Inr [], al)
      else case validate_poly_size_locked bytes al of
             Inl e \<Rightarrow> (Inl e, al)
           | Inr _ \<Rightarrow> allocate_loop (unat count) [] al)"

definition alloc_free :: "DevAddr \<Rightarrow> allocator \<Rightarrow> unit expected \<times> allocator" where
  "alloc_free addr al = (if addr = 0 then (Inr (), al) else free_one_locked addr al)"

text \<open>\<open>first_error\<close> keeps the first failure; later addresses are still freed.\<close>

fun free_many_loop ::
    "DevAddr list \<Rightarrow> unit expected \<Rightarrow> allocator \<Rightarrow> unit expected \<times> allocator" where
  "free_many_loop [] first_error al = (first_error, al)"
| "free_many_loop (a # as) first_error al =
     (if a = 0 then free_many_loop as first_error al
      else case free_one_locked a al of
             (Inl e, al1) \<Rightarrow>
               free_many_loop as
                 (case first_error of Inr _ \<Rightarrow> Inl e | Inl e0 \<Rightarrow> Inl e0) al1
           | (Inr _, al1) \<Rightarrow> free_many_loop as first_error al1)"

definition free_many :: "DevAddr list \<Rightarrow> allocator \<Rightarrow> unit expected \<times> allocator" where
  "free_many addrs al = (if addrs = [] then (Inr (), al) else free_many_loop addrs (Inr ()) al)"

section \<open>Shadow components\<close>

definition extract_polynomial_components ::
    "DevAddr \<Rightarrow> u64 \<Rightarrow> allocator \<Rightarrow> u64 list expected \<times> allocator" where
  "extract_polynomial_components addr ring_dim al =
     (if ring_dim = 0 then (Inl NotConfigured, al)
      else if addr \<notin> alloc_set al then (Inl UnknownAddress, al)
      else if poly_bytes al < ring_dim * 8 then (Inl AllocTooSmall, al)
      else case shadow_data al addr of
             None \<Rightarrow> (Inl NoData, al)
           | Some components \<Rightarrow>
               let al1 = al\<lparr>shadow_data := (shadow_data al)(addr := None)\<rparr> in
               if of_nat (length components) \<noteq> ring_dim then (Inl ShadowSizeMismatch, al1)
               else (Inr components, al1))"

definition read_polynomial_components ::
    "DevAddr \<Rightarrow> u64 \<Rightarrow> allocator \<Rightarrow> u64 list expected" where
  "read_polynomial_components addr ring_dim al =
     (if ring_dim = 0 then Inl NotConfigured
      else if addr \<notin> alloc_set al then Inl UnknownAddress
      else if poly_bytes al < ring_dim * 8 then Inl AllocTooSmall
      else case shadow_data al addr of
             None \<Rightarrow> Inl NoData
           | Some components \<Rightarrow>
               if of_nat (length components) \<noteq> ring_dim then Inl ShadowSizeMismatch
               else Inr components)"

text \<open>
  The entry \<open>shadow_data_[addr]\<close> as the write paths find it: created, or re-zeroed when it
  has a length other than \<open>want_elems\<close>.
\<close>

definition shadow_for_write :: "DevAddr \<Rightarrow> allocator \<Rightarrow> u64 list" where
  "shadow_for_write addr al =
     (case shadow_data al addr of
        Some v \<Rightarrow> if length v \<noteq> want_elems al then replicate (want_elems al) 0 else v
      | None \<Rightarrow> replicate (want_elems al) 0)"

definition copy_h2d ::
    "hostmem \<Rightarrow> DevAddr \<Rightarrow> hostptr \<Rightarrow> u64 \<Rightarrow> allocator \<Rightarrow> unit expected \<times> allocator" where
  "copy_h2d hm dst src count al =
     (if src = 0 then (Inl InvalidArgument, al)
      else if dst \<notin> alloc_set al then (Inl UnknownAddress, al)
      else if count > poly_bytes al then (Inl AllocTooSmall, al)
      else (Inr (), al\<lparr>shadow_data := (shadow_data al)
              (dst \<mapsto> overwrite_prefix (read_host hm src (unat count)) (shadow_for_write dst al))\<rparr>))"

definition alloc_memset :: "DevAddr \<Rightarrow> int \<Rightarrow> u64 \<Rightarrow> allocator \<Rightarrow> unit expected \<times> allocator" where
  "alloc_memset addr value count al =
     (if addr \<notin> alloc_set al then (Inl UnknownAddress, al)
      else if count > poly_bytes al then (Inl AllocTooSmall, al)
      else (Inr (), al\<lparr>shadow_data := (shadow_data al)
              (addr \<mapsto> overwrite_prefix (replicate (unat count) (word_of_int value))
                                     (shadow_for_write addr al))\<rparr>))"

text \<open>
  \<open>copy_to_host\<close> returns the host memory it leaves, and \<open>None\<close> where its \<open>memcpy\<close> reads
  past the end of the shadow vector: that behaviour is undefined, so the model gives it no
  result. The size test of the code compares \<open>count\<close> with the current \<open>poly_bytes_\<close>, not
  with the length of the vector.
\<close>

definition copy_to_host ::
    "hostmem \<Rightarrow> hostptr \<Rightarrow> DevAddr \<Rightarrow> u64 \<Rightarrow> allocator \<Rightarrow> (unit expected \<times> hostmem) option" where
  "copy_to_host hm dst src count al =
     (if dst = 0 then Some (Inl InvalidArgument, hm)
      else if src \<notin> alloc_set al then Some (Inl UnknownAddress, hm)
      else if count > poly_bytes al then Some (Inl AllocTooSmall, hm)
      else case shadow_data al src of
             None \<Rightarrow> Some (Inl OutputNotFlushed, hm)
           | Some v \<Rightarrow>
               if unat count > length (vec_bytes v) then None
               else Some (Inr (), write_host hm dst (take (unat count) (vec_bytes v))))"

definition update_shadow :: "DevAddr \<Rightarrow> u64 list \<Rightarrow> allocator \<Rightarrow> unit expected \<times> allocator" where
  "update_shadow addr values al =
     (if addr \<notin> alloc_set al then (Inl UnknownAddress, al)
      else let values' = (if length values \<noteq> want_elems al
                          then resize0 (want_elems al) values else values)
           in (Inr (), al\<lparr>shadow_data := (shadow_data al)(addr \<mapsto> values')\<rparr>))"

section \<open>Pointer attributes and host registrations\<close>

datatype hazeMemoryType =
  HAZE_MEMORY_TYPE_UNREGISTERED | HAZE_MEMORY_TYPE_HOST | HAZE_MEMORY_TYPE_DEVICE

record hazePointerAttributes =
  pa_type :: hazeMemoryType
  pa_device :: int
  pa_devicePointer :: hostptr
  pa_hostPointer :: hostptr

text \<open>\<open>attrs_null\<close>: the caller passed a null \<open>attrs\<close>; otherwise the struct written.\<close>

definition pointer_attributes ::
    "bool \<Rightarrow> hostptr \<Rightarrow> allocator \<Rightarrow> hazePointerAttributes expected" where
  "pointer_attributes attrs_null p al =
     (if attrs_null then Inl InvalidArgument
      else let attrs = \<lparr>pa_type = HAZE_MEMORY_TYPE_UNREGISTERED, pa_device = 0,
                        pa_devicePointer = 0, pa_hostPointer = 0\<rparr> in
           if p \<noteq> 0 \<and> to_dev_addr p \<in> alloc_set al
           then Inr (attrs\<lparr>pa_type := HAZE_MEMORY_TYPE_DEVICE, pa_devicePointer := p\<rparr>)
           else if p \<noteq> 0 \<and> p \<in> host_set al
           then Inr (attrs\<lparr>pa_type := HAZE_MEMORY_TYPE_HOST, pa_hostPointer := p\<rparr>)
           else Inr (attrs\<lparr>pa_type := HAZE_MEMORY_TYPE_UNREGISTERED\<rparr>))"

definition register_host_pointer :: "hostptr \<Rightarrow> allocator \<Rightarrow> allocator" where
  "register_host_pointer p al =
     (if p \<noteq> 0 then al\<lparr>host_set := insert p (host_set al)\<rparr> else al)"

definition unregister_host_pointer :: "hostptr \<Rightarrow> allocator \<Rightarrow> allocator" where
  "unregister_host_pointer p al =
     (if p \<noteq> 0 then al\<lparr>host_set := host_set al - {p}\<rparr> else al)"

definition allocator_reset :: "allocator \<Rightarrow> allocator" where
  "allocator_reset al = al\<lparr>alloc_set := {}, shadow_data := Map.empty, pool_free := [],
     host_set := {}, next_addr := kHbmBase, poly_bytes := 0\<rparr>"

end
