(* ===== verification/Haze_Allocator_Inv.thy ===== *)
theory Haze_Allocator_Inv
  imports Haze_Allocator
begin

text \<open>
  The allocator's invariants. \<open>alloc_inv\<close> ties the free list, the live set and the sparse
  shadow map together and holds in every reachable state; \<open>issued_inv\<close> says where issued
  addresses lie (while \<open>next_addr_\<close> has not wrapped); \<open>sized\<close> says that every shadow
  vector has the length the current polynomial size asks for. Then the functional
  behaviour of allocation, release and the byte transfers.
\<close>

definition alloc_inv :: "allocator \<Rightarrow> bool" where
  "alloc_inv al \<longleftrightarrow>
     distinct (pool_free al) \<and> set (pool_free al) \<inter> alloc_set al = {} \<and>
     dom (shadow_data al) \<subseteq> alloc_set al"

definition issued :: "allocator \<Rightarrow> DevAddr set" where
  "issued al = alloc_set al \<union> set (pool_free al)"

definition issued_inv :: "allocator \<Rightarrow> bool" where
  "issued_inv al \<longleftrightarrow>
     unat kHbmBase \<le> unat (next_addr al) \<and>
     (\<forall>a \<in> issued al. unat kHbmBase \<le> unat a \<and> unat a < unat (next_addr al))"

definition sized :: "allocator \<Rightarrow> bool" where
  "sized al \<longleftrightarrow>
     8 dvd unat (poly_bytes al) \<and>
     (\<forall>a v. shadow_data al a = Some v \<longrightarrow> length v = want_elems al)"

lemma alloc_invI [intro?]:
  assumes "distinct (pool_free al)" and "set (pool_free al) \<inter> alloc_set al = {}"
    and "dom (shadow_data al) \<subseteq> alloc_set al"
  shows "alloc_inv al"
  using assms by (simp add: alloc_inv_def)

lemma alloc_invE [elim?]:
  assumes "alloc_inv al"
  obtains "distinct (pool_free al)" "set (pool_free al) \<inter> alloc_set al = {}"
    "dom (shadow_data al) \<subseteq> alloc_set al"
  using assms by (simp add: alloc_inv_def)

lemma alloc_inv_init: "alloc_inv allocator_init"
  by (simp add: alloc_inv_def allocator_init_def)

lemma alloc_inv_reset: "alloc_inv (allocator_reset al)"
  by (simp add: alloc_inv_def allocator_reset_def)

section \<open>Clearing the pool\<close>

lemma clear_pool_fold:
  "foldl (\<lambda>al a. al\<lparr>alloc_set := alloc_set al - {a}, shadow_data := (shadow_data al)(a := None)\<rparr>)
     al as =
   al\<lparr>alloc_set := alloc_set al - set as,
      shadow_data := (\<lambda>x. if x \<in> set as then None else shadow_data al x)\<rparr>"
proof (induction as arbitrary: al)
  case Nil
  then show ?case by simp
next
  case (Cons a as)
  show ?case
    unfolding foldl_Cons Cons.IH by (rule allocator.equality) auto
qed

text \<open>
  Under the invariant the pooled addresses are in neither container, so draining the pool
  forgets the free list and nothing else.
\<close>

lemma clear_pool_inv:
  assumes "alloc_inv al"
  shows "clear_pool_locked al = al\<lparr>pool_free := []\<rparr>"
proof -
  from assms have s: "alloc_set al - set (pool_free al) = alloc_set al"
    by (auto simp: alloc_inv_def)
  have "shadow_data al x = None" if "x \<in> set (pool_free al)" for x
    using assms that by (auto simp: alloc_inv_def)
  then have m: "(\<lambda>x. if x \<in> set (pool_free al) then None else shadow_data al x) = shadow_data al"
    by auto
  show ?thesis by (simp add: clear_pool_locked_def clear_pool_fold s m)
qed

lemma set_polynomial_size_inv:
  assumes "alloc_inv al"
  shows "set_polynomial_size n al =
    (if poly_bytes al = n then al else al\<lparr>pool_free := [], poly_bytes := n\<rparr>)"
  using assms by (simp add: set_polynomial_size_def clear_pool_inv)

lemma alloc_inv_set_polynomial_size:
  "alloc_inv al \<Longrightarrow> alloc_inv (set_polynomial_size n al)"
  by (auto simp: set_polynomial_size_inv alloc_inv_def)

section \<open>Allocation\<close>

lemma allocate_one_bump:
  "pool_free al = [] \<Longrightarrow> allocate_one_locked al =
     (Inr (next_addr al), al\<lparr>next_addr := next_addr al + poly_bytes al,
        alloc_set := insert (next_addr al) (alloc_set al)\<rparr>)"
  by (simp add: allocate_one_locked_def Let_def)

lemma pool_last_inv:
  assumes "alloc_inv al" and "pool_free al \<noteq> []"
  shows "last (pool_free al) \<notin> alloc_set al"
    and "last (pool_free al) \<notin> set (butlast (pool_free al))"
proof -
  from assms(2) have "last (pool_free al) \<in> set (pool_free al)" by simp
  with assms(1) show "last (pool_free al) \<notin> alloc_set al" by (auto simp: alloc_inv_def)
  from assms have "distinct (butlast (pool_free al) @ [last (pool_free al)])"
    by (simp add: alloc_inv_def)
  then show "last (pool_free al) \<notin> set (butlast (pool_free al))" by simp
qed

lemma allocate_one_pool:
  assumes "alloc_inv al" and "pool_free al \<noteq> []"
  shows "allocate_one_locked al = (Inr (last (pool_free al)),
    al\<lparr>pool_free := butlast (pool_free al),
       alloc_set := insert (last (pool_free al)) (alloc_set al)\<rparr>)"
  using assms pool_last_inv [OF assms] by (simp add: allocate_one_locked_def Let_def)

text \<open>The address the next allocation hands out.\<close>

definition next_alloc :: "allocator \<Rightarrow> DevAddr" where
  "next_alloc al = (if pool_free al = [] then next_addr al else last (pool_free al))"

lemma allocate_one_inv:
  assumes "alloc_inv al"
  obtains al' where "allocate_one_locked al = (Inr (next_alloc al), al')"
    and "alloc_inv al'" and "alloc_set al' = insert (next_alloc al) (alloc_set al)"
    and "shadow_data al' = shadow_data al" and "poly_bytes al' = poly_bytes al"
    and "host_set al' = host_set al"
proof (cases "pool_free al = []")
  case True
  with assms that show thesis
    by (auto simp: allocate_one_bump next_alloc_def alloc_inv_def)
next
  case False
  note last = pool_last_inv [OF assms False]
  from False have "set (pool_free al) = insert (last (pool_free al)) (set (butlast (pool_free al)))"
    by (metis append_butlast_last_id list.simps(15) rotate1.simps(2) set_rotate1)
  with last assms have "alloc_inv (al\<lparr>pool_free := butlast (pool_free al),
      alloc_set := insert (last (pool_free al)) (alloc_set al)\<rparr>)"
    by (auto simp: alloc_inv_def distinct_butlast)
  with False that show thesis
    by (simp add: allocate_one_pool [OF assms False] next_alloc_def)
qed

lemma next_alloc_fresh:
  assumes "alloc_inv al" and "issued_inv al"
  shows "next_alloc al \<notin> alloc_set al" and "next_alloc al \<noteq> 0"
proof -
  have last: "last (pool_free al) \<in> issued al" if "pool_free al \<noteq> []"
    using that by (simp add: issued_def)
  have "next_addr al \<notin> alloc_set al"
    using assms(2) by (auto simp: issued_inv_def issued_def)
  with pool_last_inv(1) [OF assms(1)] show "next_alloc al \<notin> alloc_set al"
    by (simp add: next_alloc_def)
  have "unat kHbmBase \<le> unat (next_alloc al)"
    using assms(2) last by (auto simp: next_alloc_def issued_inv_def)
  then show "next_alloc al \<noteq> 0" by (auto simp: kHbmBase_def)
qed

lemma unat_next_addr:
  assumes "unat (next_addr al) + unat (poly_bytes al) < 2 ^ 64"
  shows "unat (next_addr al + poly_bytes al) = unat (next_addr al) + unat (poly_bytes al)"
  using assms by (simp add: unat_word_ariths take_bit_nat_eq_self)

lemma allocate_one_issued:
  assumes "alloc_inv al" and "issued_inv al" and "poly_bytes al \<noteq> 0"
    and "unat (next_addr al) + unat (poly_bytes al) < 2 ^ 64"
    and "allocate_one_locked al = (r, al')"
  shows "issued_inv al'"
    and "unat (next_addr al') \<le> unat (next_addr al) + unat (poly_bytes al)"
proof -
  have pb: "0 < unat (poly_bytes al)" using assms(3) by (simp add: unat_gt_0)
  note nx = unat_next_addr [OF assms(4)]
  have "issued_inv al' \<and> unat (next_addr al') \<le> unat (next_addr al) + unat (poly_bytes al)"
  proof (cases "pool_free al = []")
    case True
    from assms(5) have al': "al' = al\<lparr>next_addr := next_addr al + poly_bytes al,
        alloc_set := insert (next_addr al) (alloc_set al)\<rparr>"
      by (simp add: allocate_one_bump [OF True])
    have "issued al' = insert (next_addr al) (issued al)"
      by (auto simp: al' issued_def)
    with assms(2) nx pb show ?thesis
      by (fastforce simp: issued_inv_def al')
  next
    case False
    from assms(5) have al': "al' = al\<lparr>pool_free := butlast (pool_free al),
        alloc_set := insert (last (pool_free al)) (alloc_set al)\<rparr>"
      by (simp add: allocate_one_pool [OF assms(1) False])
    have "issued al' \<subseteq> issued al"
      using False by (auto simp: al' issued_def dest: in_set_butlastD)
    with assms(2) show ?thesis by (auto simp: issued_inv_def al')
  qed
  then show "issued_inv al'"
    and "unat (next_addr al') \<le> unat (next_addr al) + unat (poly_bytes al)" by simp_all
qed

text \<open>The loop of \<open>allocate_many\<close>: under the invariant it always reserves \<open>n\<close> addresses.\<close>

lemma allocate_loop_inv:
  assumes "alloc_inv al"
  obtains new al' where "allocate_loop n out al = (Inr (out @ new), al')" and "length new = n"
    and "alloc_inv al'" and "alloc_set al' = alloc_set al \<union> set new"
    and "shadow_data al' = shadow_data al"
  using assms
proof (induction n arbitrary: al out thesis)
  case 0
  then show ?case by auto
next
  case (Suc n)
  obtain al1 where a: "allocate_one_locked al = (Inr (next_alloc al), al1)" "alloc_inv al1"
      "alloc_set al1 = insert (next_alloc al) (alloc_set al)" "shadow_data al1 = shadow_data al"
    using allocate_one_inv [OF Suc.prems(2)] by metis
  obtain new al' where
    IH: "allocate_loop n (out @ [next_alloc al]) al1 = (Inr ((out @ [next_alloc al]) @ new), al')"
        "length new = n" "alloc_inv al'" "alloc_set al' = alloc_set al1 \<union> set new"
        "shadow_data al' = shadow_data al1"
    using Suc.IH [OF _ a(2)] by metis
  show ?case
    by (rule Suc.prems(1) [of "next_alloc al # new" al']) (use IH a in simp_all)
qed

section \<open>Release\<close>

lemma free_one_frame [frame_simps]:
  "poly_bytes (snd (free_one_locked a al)) = poly_bytes al"
  "next_addr (snd (free_one_locked a al)) = next_addr al"
  "host_set (snd (free_one_locked a al)) = host_set al"
  by (simp_all add: free_one_locked_def)

lemma alloc_inv_free_one: "alloc_inv al \<Longrightarrow> alloc_inv (snd (free_one_locked a al))"
  by (auto simp: free_one_locked_def alloc_inv_def)

lemma alloc_inv_free: "alloc_inv al \<Longrightarrow> alloc_inv (snd (alloc_free a al))"
  by (simp add: alloc_free_def alloc_inv_free_one)

lemma free_many_loop_spec:
  "fst (free_many_loop as fe al) =
     (case fe of
        Inl e \<Rightarrow> Inl e
      | Inr _ \<Rightarrow> if distinct (filter (\<lambda>a. a \<noteq> 0) as) \<and> set as - {0} \<subseteq> alloc_set al
                 then Inr () else Inl UnknownAddress)
   \<and> alloc_set (snd (free_many_loop as fe al)) = alloc_set al - (set as - {0})"
proof (induction as arbitrary: fe al)
  case Nil
  then show ?case by (auto split: sum.splits)
next
  case (Cons a as)
  consider "a = 0" | "a \<noteq> 0" "a \<notin> alloc_set al" | "a \<noteq> 0" "a \<in> alloc_set al" by blast
  then show ?case
  proof cases
    case 1
    have "set (0 # as) - {0} = set as - {0}" by auto
    with 1 show ?thesis using Cons.IH [of fe al] by (auto split: sum.splits)
  next
    case 2
    then have "free_many_loop (a # as) fe al =
        free_many_loop as (case fe of Inr _ \<Rightarrow> Inl UnknownAddress | Inl e0 \<Rightarrow> Inl e0) al"
      by (simp add: free_one_locked_def)
    then show ?thesis
      using Cons.IH [of "case fe of Inr _ \<Rightarrow> Inl UnknownAddress | Inl e0 \<Rightarrow> Inl e0" al] 2
      by (auto split: sum.splits)
  next
    case 3
    let ?al1 = "al\<lparr>alloc_set := alloc_set al - {a}, shadow_data := (shadow_data al)(a := None),
                  pool_free := pool_free al @ [a]\<rparr>"
    from 3 have "free_many_loop (a # as) fe al = free_many_loop as fe ?al1"
      by (simp add: free_one_locked_def)
    then show ?thesis using Cons.IH [of fe ?al1] 3 by (auto split: sum.splits)
  qed
qed

lemma free_many_loop_inv: "alloc_inv al \<Longrightarrow> alloc_inv (snd (free_many_loop as fe al))"
proof (induction as arbitrary: fe al)
  case Nil
  then show ?case by simp
next
  case (Cons a as)
  have "alloc_inv (snd (free_one_locked a al))" using Cons.prems by (rule alloc_inv_free_one)
  then show ?case using Cons by (auto split: prod.splits sum.splits)
qed

lemma alloc_inv_free_many: "alloc_inv al \<Longrightarrow> alloc_inv (snd (free_many as al))"
  by (simp add: free_many_def free_many_loop_inv)

section \<open>What the byte operations leave alone\<close>

lemma copy_h2d_frame [frame_simps]:
  "alloc_set (snd (copy_h2d hm d p n al)) = alloc_set al"
  "pool_free (snd (copy_h2d hm d p n al)) = pool_free al"
  "host_set (snd (copy_h2d hm d p n al)) = host_set al"
  "poly_bytes (snd (copy_h2d hm d p n al)) = poly_bytes al"
  "next_addr (snd (copy_h2d hm d p n al)) = next_addr al"
  by (auto simp: copy_h2d_def Let_def split: option.splits)

lemma alloc_memset_frame [frame_simps]:
  "alloc_set (snd (alloc_memset a x n al)) = alloc_set al"
  "pool_free (snd (alloc_memset a x n al)) = pool_free al"
  "host_set (snd (alloc_memset a x n al)) = host_set al"
  "poly_bytes (snd (alloc_memset a x n al)) = poly_bytes al"
  "next_addr (snd (alloc_memset a x n al)) = next_addr al"
  by (auto simp: alloc_memset_def Let_def split: option.splits)

lemma update_shadow_frame [frame_simps]:
  "alloc_set (snd (update_shadow a v al)) = alloc_set al"
  "pool_free (snd (update_shadow a v al)) = pool_free al"
  "host_set (snd (update_shadow a v al)) = host_set al"
  "poly_bytes (snd (update_shadow a v al)) = poly_bytes al"
  "next_addr (snd (update_shadow a v al)) = next_addr al"
  by (auto simp: update_shadow_def Let_def split: option.splits)

lemma extract_frame [frame_simps]:
  "alloc_set (snd (extract_polynomial_components a rd al)) = alloc_set al"
  "pool_free (snd (extract_polynomial_components a rd al)) = pool_free al"
  "host_set (snd (extract_polynomial_components a rd al)) = host_set al"
  "poly_bytes (snd (extract_polynomial_components a rd al)) = poly_bytes al"
  "next_addr (snd (extract_polynomial_components a rd al)) = next_addr al"
  by (auto simp: extract_polynomial_components_def Let_def split: option.splits)

lemma host_pointer_frame [frame_simps]:
  "alloc_set (register_host_pointer p al) = alloc_set al"
  "pool_free (register_host_pointer p al) = pool_free al"
  "shadow_data (register_host_pointer p al) = shadow_data al"
  "poly_bytes (register_host_pointer p al) = poly_bytes al"
  "next_addr (register_host_pointer p al) = next_addr al"
  "alloc_set (unregister_host_pointer p al) = alloc_set al"
  "pool_free (unregister_host_pointer p al) = pool_free al"
  "shadow_data (unregister_host_pointer p al) = shadow_data al"
  "poly_bytes (unregister_host_pointer p al) = poly_bytes al"
  "next_addr (unregister_host_pointer p al) = next_addr al"
  by (simp_all add: register_host_pointer_def unregister_host_pointer_def)

section \<open>The remaining operations keep the invariant\<close>

lemma alloc_inv_allocate:
  assumes "alloc_inv al"
  shows "alloc_inv (snd (allocate n al))"
  using allocate_one_inv [OF assms] assms
  by (fastforce simp: allocate_def split: sum.splits)

lemma allocate_many_inv:
  assumes "alloc_inv al" and "poly_bytes al \<noteq> 0" and "bytes = poly_bytes al"
  obtains new al' where "allocate_many count bytes al = (Inr new, al')"
    and "length new = unat count" and "alloc_inv al'"
    and "alloc_set al' = alloc_set al \<union> set new" and "shadow_data al' = shadow_data al"
proof (cases "count = 0")
  case True
  with assms that [of "[]" al] show thesis by (simp add: allocate_many_def)
next
  case False
  obtain new al' where "allocate_loop (unat count) [] al = (Inr ([] @ new), al')"
      "length new = unat count" "alloc_inv al'" "alloc_set al' = alloc_set al \<union> set new"
      "shadow_data al' = shadow_data al"
    using allocate_loop_inv [OF assms(1)] by metis
  with False assms that show thesis
    by (simp add: allocate_many_def validate_poly_size_locked_def)
qed

lemma alloc_inv_allocate_many:
  assumes "alloc_inv al"
  shows "alloc_inv (snd (allocate_many count bytes al))"
proof (cases "poly_bytes al \<noteq> 0 \<and> bytes = poly_bytes al")
  case True
  then show ?thesis using allocate_many_inv [OF assms] by (metis snd_conv)
next
  case False
  then show ?thesis
    using assms by (auto simp: allocate_many_def validate_poly_size_locked_def)
qed

lemma alloc_inv_writes:
  assumes "alloc_inv al"
  shows "alloc_inv (snd (copy_h2d hm dst src n al))"
    and "alloc_inv (snd (alloc_memset a value n al))"
    and "alloc_inv (snd (update_shadow a v al))"
    and "alloc_inv (snd (extract_polynomial_components a rd al))"
    and "alloc_inv (register_host_pointer p al)"
    and "alloc_inv (unregister_host_pointer p al)"
  using assms
  by (auto simp: alloc_inv_def copy_h2d_def alloc_memset_def update_shadow_def Let_def
      extract_polynomial_components_def register_host_pointer_def unregister_host_pointer_def
      split: option.splits if_splits)

section \<open>Histories of allocator calls\<close>

datatype alloc_op =
    AoSetSize u64 | AoAllocate u64 | AoAllocateMany u64 u64 | AoFree DevAddr
  | AoFreeMany "DevAddr list" | AoExtract DevAddr u64 | AoH2D hostmem DevAddr hostptr u64
  | AoMemset DevAddr int u64 | AoUpdateShadow DevAddr "u64 list" | AoRegisterHost hostptr
  | AoUnregisterHost hostptr | AoReset

fun alloc_step :: "allocator \<Rightarrow> alloc_op \<Rightarrow> allocator" where
  "alloc_step al (AoSetSize n) = set_polynomial_size n al"
| "alloc_step al (AoAllocate n) = snd (allocate n al)"
| "alloc_step al (AoAllocateMany c n) = snd (allocate_many c n al)"
| "alloc_step al (AoFree a) = snd (alloc_free a al)"
| "alloc_step al (AoFreeMany as) = snd (free_many as al)"
| "alloc_step al (AoExtract a rd) = snd (extract_polynomial_components a rd al)"
| "alloc_step al (AoH2D hm d s n) = snd (copy_h2d hm d s n al)"
| "alloc_step al (AoMemset a v n) = snd (alloc_memset a v n al)"
| "alloc_step al (AoUpdateShadow a v) = snd (update_shadow a v al)"
| "alloc_step al (AoRegisterHost p) = register_host_pointer p al"
| "alloc_step al (AoUnregisterHost p) = unregister_host_pointer p al"
| "alloc_step al AoReset = allocator_reset al"

lemmas alloc_inv_ops = alloc_inv_set_polynomial_size alloc_inv_allocate alloc_inv_allocate_many
  alloc_inv_free alloc_inv_free_many alloc_inv_writes alloc_inv_reset

interpretation alloc_history: stateful_component allocator_init alloc_step alloc_inv
proof unfold_locales
  show "alloc_inv allocator_init" by (rule alloc_inv_init)
next
  fix al x
  assume "alloc_inv al"
  then show "alloc_inv (alloc_step al x)" by (cases x) (simp_all add: alloc_inv_ops)
qed

end
