(* ===== verification/Haze_Config.thy ===== *)
theory Haze_Config
  imports Haze_Allocator_Inv
begin

text \<open>
  \<open>Config\<close> (core/config.hpp, core/config.cpp): the FHE parameters and the program metadata
  handed to the compiler. C strings are \<open>string option\<close>, \<open>None\<close> being the null pointer;
  the C type \<open>int\<close> of an index is \<open>int\<close>. \<open>set_ring_dimension\<close> calls the allocator while
  holding the Config lock, so its model takes and returns both states.
\<close>

definition kLocalTarget :: string where
  "kLocalTarget = ''local''"

record config =
  cf_ring_dim :: u64
  cf_moduli :: "u64 list"
  cf_twiddle_generators :: "u64 list"
  cf_configured :: bool
  cf_program_name :: string
  cf_program_version :: string
  cf_program_description :: string
  cf_target :: string
  cf_program_dir :: string
  cf_program_info_set :: bool
  cf_target_set :: bool
  cf_program_dir_set :: bool
  cf_montgomery :: bool
  cf_bit_reversal :: bool
  cf_reduced_noise :: bool

definition config_init :: config where
  "config_init = \<lparr>cf_ring_dim = 0, cf_moduli = [], cf_twiddle_generators = [],
     cf_configured = False, cf_program_name = [], cf_program_version = [],
     cf_program_description = [], cf_target = [], cf_program_dir = [],
     cf_program_info_set = False, cf_target_set = False, cf_program_dir_set = False,
     cf_montgomery = False, cf_bit_reversal = False, cf_reduced_noise = False\<rparr>"

section \<open>FHE parameters\<close>

definition is_supported_ring_dim :: "u64 \<Rightarrow> bool" where
  "is_supported_ring_dim n \<longleftrightarrow> n \<noteq> 0 \<and> n AND (n - 1) = 0"

definition set_ring_dimension ::
    "u64 \<Rightarrow> config \<Rightarrow> allocator \<Rightarrow> unit expected \<times> config \<times> allocator" where
  "set_ring_dimension n c al =
     (if \<not> is_supported_ring_dim n then (Inl InvalidArgument, c, al)
      else if cf_configured c \<and> cf_ring_dim c \<noteq> n then (Inl NotConfigured, c, al)
      else (Inr (), c\<lparr>cf_ring_dim := n\<rparr>, set_polynomial_size (n * 8) al))"

definition set_modulus :: "int \<Rightarrow> u64 \<Rightarrow> config \<Rightarrow> unit expected \<times> config" where
  "set_modulus idx modulus c =
     (if idx < 0 then (Inl InvalidArgument, c)
      else if modulus = 0 then (Inl InvalidArgument, c)
      else if cf_configured c then
        (let i = nat idx in
         if length (cf_moduli c) \<le> i \<or> cf_moduli c ! i \<noteq> modulus then (Inl NotConfigured, c)
         else (Inr (), c))
      else if int (length (cf_moduli c)) < idx then (Inl InvalidArgument, c)
      else if int (length (cf_moduli c)) = idx
        then (Inr (), c\<lparr>cf_moduli := cf_moduli c @ [modulus]\<rparr>)
      else (Inr (), c\<lparr>cf_moduli := (cf_moduli c)[nat idx := modulus]\<rparr>))"

definition set_twiddle_generator :: "int \<Rightarrow> u64 \<Rightarrow> config \<Rightarrow> unit expected \<times> config" where
  "set_twiddle_generator idx generator c =
     (if idx < 0 then (Inl InvalidArgument, c)
      else if cf_configured c then
        (let i = nat idx in
         if length (cf_twiddle_generators c) \<le> i \<or> cf_twiddle_generators c ! i \<noteq> generator
         then (Inl NotConfigured, c) else (Inr (), c))
      else
        let gens = (if int (length (cf_twiddle_generators c)) \<le> idx
                    then resize0 (nat idx + 1) (cf_twiddle_generators c)
                    else cf_twiddle_generators c)
        in (Inr (), c\<lparr>cf_twiddle_generators := gens[nat idx := generator]\<rparr>))"

definition configure_device :: "config \<Rightarrow> unit expected \<times> config" where
  "configure_device c =
     (if cf_ring_dim c = 0 then (Inl NotConfigured, c)
      else (Inr (), c\<lparr>cf_configured := True\<rparr>))"

definition cfg_ring_dim :: "config \<Rightarrow> u64" where
  "cfg_ring_dim c = cf_ring_dim c"

definition cfg_modulus :: "int \<Rightarrow> config \<Rightarrow> u64" where
  "cfg_modulus idx c =
     (if idx < 0 \<or> length (cf_moduli c) \<le> nat idx then 0 else cf_moduli c ! nat idx)"

section \<open>Program metadata and toggles\<close>

definition set_program_info ::
    "string option \<Rightarrow> string option \<Rightarrow> string option \<Rightarrow> config \<Rightarrow> unit expected \<times> config" where
  "set_program_info name version description c =
     (case (name, version, description) of
        (Some n, Some v, Some d) \<Rightarrow>
          (Inr (), c\<lparr>cf_program_name := n, cf_program_version := v,
                     cf_program_description := d, cf_program_info_set := True\<rparr>)
      | _ \<Rightarrow> (Inl InvalidArgument, c))"

definition set_target :: "string option \<Rightarrow> config \<Rightarrow> unit expected \<times> config" where
  "set_target target c =
     (case target of
        None \<Rightarrow> (Inl InvalidArgument, c)
      | Some t \<Rightarrow> (Inr (), c\<lparr>cf_target := t, cf_target_set := True\<rparr>))"

definition set_program_directory :: "string option \<Rightarrow> config \<Rightarrow> unit expected \<times> config" where
  "set_program_directory dir c =
     (case dir of
        None \<Rightarrow> (Inl InvalidArgument, c)
      | Some d \<Rightarrow> (Inr (), c\<lparr>cf_program_dir := d, cf_program_dir_set := True\<rparr>))"

definition program_name :: "config \<Rightarrow> string" where
  "program_name c = (if cf_program_info_set c then cf_program_name c else ''haze'')"

definition program_version :: "config \<Rightarrow> string" where
  "program_version c = (if cf_program_info_set c then cf_program_version c else ''0.1'')"

definition program_description :: "config \<Rightarrow> string" where
  "program_description c =
     (if cf_program_info_set c then cf_program_description c else ''HAZE runtime'')"

definition cfg_target :: "config \<Rightarrow> string" where
  "cfg_target c = (if cf_target_set c then cf_target c else kLocalTarget)"

definition has_program_directory :: "config \<Rightarrow> bool" where
  "has_program_directory c = cf_program_dir_set c"

definition program_directory :: "config \<Rightarrow> string" where
  "program_directory c = cf_program_dir c"

definition set_montgomery :: "bool \<Rightarrow> config \<Rightarrow> config" where
  "set_montgomery enable c = c\<lparr>cf_montgomery := enable\<rparr>"

definition set_bit_reversal :: "bool \<Rightarrow> config \<Rightarrow> config" where
  "set_bit_reversal enable c = c\<lparr>cf_bit_reversal := enable\<rparr>"

definition set_reduced_noise :: "bool \<Rightarrow> config \<Rightarrow> config" where
  "set_reduced_noise enable c = c\<lparr>cf_reduced_noise := enable\<rparr>"

definition config_reset :: "config \<Rightarrow> config" where
  "config_reset c = c\<lparr>cf_ring_dim := 0, cf_moduli := [], cf_twiddle_generators := [],
     cf_configured := False, cf_program_name := [], cf_program_version := [],
     cf_program_description := [], cf_target := [], cf_program_dir := [],
     cf_program_info_set := False, cf_target_set := False, cf_program_dir_set := False,
     cf_montgomery := False, cf_bit_reversal := False, cf_reduced_noise := False\<rparr>"

lemma config_reset_init: "config_reset c = config_init"
  by (rule config.equality) (simp_all add: config_reset_def config_init_def)

section \<open>Ring dimensions are the powers of two\<close>

lemma power_of_two_and_pred: "(2 ^ k :: u64) AND (2 ^ k - 1) = 0"
proof (rule bit_eqI)
  fix n
  have "(2 ^ k - 1 :: u64) = mask k" by (simp add: mask_eq_exp_minus_1)
  then show "bit ((2 ^ k :: u64) AND (2 ^ k - 1)) n \<longleftrightarrow> bit (0 :: u64) n"
    by (auto simp only: bit_and_iff bit_exp_iff bit_mask_iff bit_0_eq)
qed

lemma leading_bit:
  assumes "0 < m"
  shows "\<exists>k. 2 ^ k \<le> m \<and> m < (2 :: nat) ^ Suc k"
proof -
  from ex_power_ivl1 [of 2 m] assms obtain k where "2 ^ k \<le> m" "m < 2 ^ (k + 1)" by auto
  then show ?thesis by auto
qed

lemma bit_of_leading:
  assumes "2 ^ k \<le> unat w" and "unat w < 2 ^ Suc k"
  shows "bit (w :: u64) k"
proof -
  have "unat w div 2 ^ k = 1"
    using assms by (simp add: div_nat_eqI)
  then have "bit (unat w) k" by (simp add: bit_iff_odd)
  then show ?thesis by (simp add: bit_unsigned_iff)
qed

text \<open>
  The ring-dimension test is exact: the bit trick accepts a 64-bit value if and only if
  it is a power of two (zero and every non-power are rejected).
\<close>

theorem ring_dim_power_of_two: "is_supported_ring_dim n \<longleftrightarrow> (\<exists>k < 64. n = 2 ^ k)"
proof
  assume s: "is_supported_ring_dim n"
  then have n0: "0 < unat n" by (simp add: is_supported_ring_dim_def unat_gt_0)
  from leading_bit [OF this] obtain k where k: "2 ^ k \<le> unat n" "unat n < 2 ^ Suc k" by blast
  have k64: "k < 64"
  proof (rule ccontr)
    assume "\<not> k < 64"
    then have "(2 :: nat) ^ 64 \<le> 2 ^ k" by (intro power_increasing) simp_all
    with k(1) unsigned_less [of n, where 'a = nat] show False by simp
  qed
  have "unat n = 2 ^ k"
  proof (rule ccontr)
    assume "unat n \<noteq> 2 ^ k"
    with k have "2 ^ k \<le> unat n - 1" "unat n - 1 < 2 ^ Suc k" by linarith+
    moreover have "unat (n - 1) = unat n - 1" using n0 by (simp add: unat_minus_one unat_gt_0)
    ultimately have "bit (n - 1) k" by (intro bit_of_leading) simp_all
    moreover have "bit n k" using k by (rule bit_of_leading)
    ultimately have "bit (n AND (n - 1)) k" by (simp add: bit_and_iff)
    with s show False by (simp add: is_supported_ring_dim_def)
  qed
  then have "of_nat (unat n) = (2 ^ k :: u64)" by simp
  then have "n = 2 ^ k" by simp
  with k64 show "\<exists>k < 64. n = 2 ^ k" by blast
next
  assume "\<exists>k < 64. n = 2 ^ k"
  then obtain k where k: "k < 64" "n = 2 ^ k" by blast
  have "bit n k" using k by (simp add: bit_exp_iff)
  then have "n \<noteq> 0" by auto
  with k show "is_supported_ring_dim n"
    by (simp add: is_supported_ring_dim_def power_of_two_and_pred)
qed

section \<open>Histories\<close>

text \<open>
  Calls that change the configuration, interleaved with allocator calls. \<open>CoReset\<close> is the
  pair of resets of \<open>reset_all\<close>; only \<open>set_ring_dimension\<close> and the reset change the
  allocator's polynomial size, so the allocator operations listed are the others.
\<close>

datatype cfg_op =
    CoSetRing u64 | CoSetModulus int u64 | CoSetTwiddle int u64 | CoConfigure
  | CoProgramInfo "string option" "string option" "string option"
  | CoTarget "string option" | CoDirectory "string option"
  | CoMontgomery bool | CoBitReversal bool | CoReducedNoise bool
  | CoAlloc alloc_op | CoReset

fun cfg_step :: "config \<times> allocator \<Rightarrow> cfg_op \<Rightarrow> config \<times> allocator" where
  "cfg_step (c, al) (CoSetRing n) = snd (set_ring_dimension n c al)"
| "cfg_step (c, al) (CoSetModulus i q) = (snd (set_modulus i q c), al)"
| "cfg_step (c, al) (CoSetTwiddle i g) = (snd (set_twiddle_generator i g c), al)"
| "cfg_step (c, al) CoConfigure = (snd (configure_device c), al)"
| "cfg_step (c, al) (CoProgramInfo n v d) = (snd (set_program_info n v d c), al)"
| "cfg_step (c, al) (CoTarget t) = (snd (set_target t c), al)"
| "cfg_step (c, al) (CoDirectory d) = (snd (set_program_directory d c), al)"
| "cfg_step (c, al) (CoMontgomery b) = (set_montgomery b c, al)"
| "cfg_step (c, al) (CoBitReversal b) = (set_bit_reversal b c, al)"
| "cfg_step (c, al) (CoReducedNoise b) = (set_reduced_noise b c, al)"
| "cfg_step (c, al) (CoAlloc x) =
     (c, case x of AoSetSize _ \<Rightarrow> al | AoReset \<Rightarrow> al | _ \<Rightarrow> alloc_step al x)"
| "cfg_step (c, al) CoReset = (config_reset c, allocator_reset al)"

definition cfg_inv :: "config \<times> allocator \<Rightarrow> bool" where
  "cfg_inv = (\<lambda>(c, al).
     alloc_inv al \<and> poly_bytes al = cf_ring_dim c * 8 \<and> 0 \<notin> set (cf_moduli c) \<and>
     (cf_ring_dim c = 0 \<or> is_supported_ring_dim (cf_ring_dim c)) \<and>
     (cf_configured c \<longrightarrow> cf_ring_dim c \<noteq> 0))"

lemma free_many_loop_poly_bytes [frame_simps]:
  "poly_bytes (snd (free_many_loop as fe al)) = poly_bytes al"
proof (induction as arbitrary: fe al)
  case Nil
  then show ?case by simp
next
  case (Cons a as)
  obtain r al1 where f: "free_one_locked a al = (r, al1)" by (cases "free_one_locked a al")
  then have "poly_bytes al1 = poly_bytes al" using free_one_frame(1) [of a al] by simp
  with f show ?case using Cons.IH by (cases r) simp_all
qed

lemma allocate_one_poly_bytes [frame_simps]:
  "poly_bytes (snd (allocate_one_locked al)) = poly_bytes al"
  by (simp add: allocate_one_locked_def Let_def)

lemma free_fold_poly_bytes:
  "poly_bytes (foldl (\<lambda>al a. snd (free_one_locked a al)) al as) = poly_bytes al"
  by (induction as arbitrary: al) (simp_all add: frame_simps)

lemma allocate_loop_poly_bytes [frame_simps]:
  "poly_bytes (snd (allocate_loop n out al)) = poly_bytes al"
proof (induction n arbitrary: out al)
  case 0
  then show ?case by simp
next
  case (Suc n)
  obtain r al1 where a: "allocate_one_locked al = (r, al1)" by (cases "allocate_one_locked al")
  then have "poly_bytes al1 = poly_bytes al" using allocate_one_poly_bytes [of al] by simp
  with a show ?case using Suc.IH by (cases r) (simp_all add: free_fold_poly_bytes)
qed

lemma alloc_step_poly_bytes:
  assumes "\<And>n. x \<noteq> AoSetSize n" and "x \<noteq> AoReset"
  shows "poly_bytes (alloc_step al x) = poly_bytes al"
  using assms
  by (cases x)
     (blast | simp add: frame_simps allocate_def allocate_many_def alloc_free_def free_many_def
       register_host_pointer_def unregister_host_pointer_def split: sum.splits)+

lemma cfg_alloc_poly_bytes:
  "poly_bytes (case x of AoSetSize _ \<Rightarrow> al | AoReset \<Rightarrow> al | _ \<Rightarrow> alloc_step al x) = poly_bytes al"
  using alloc_step_poly_bytes [of x al] by (cases x) simp_all

lemma cfg_alloc_inv:
  "alloc_inv al \<Longrightarrow>
   alloc_inv (case x of AoSetSize _ \<Rightarrow> al | AoReset \<Rightarrow> al | _ \<Rightarrow> alloc_step al x)"
  using alloc_history.invar_step [of al x] by (cases x) simp_all

lemma set_modulus_cases:
  "snd (set_modulus i q c) = c \<or>
   q \<noteq> 0 \<and> \<not> cf_configured c \<and>
   (snd (set_modulus i q c) = c\<lparr>cf_moduli := cf_moduli c @ [q]\<rparr> \<or>
    snd (set_modulus i q c) = c\<lparr>cf_moduli := (cf_moduli c)[nat i := q]\<rparr>)"
  by (simp add: set_modulus_def Let_def)

lemma cfg_inv_set_modulus:
  assumes "cfg_inv (c, al)"
  shows "cfg_inv (snd (set_modulus i q c), al)"
  using assms set_modulus_cases [of i q c] set_update_subset_insert [of "cf_moduli c" "nat i" q]
  by (auto simp: cfg_inv_def)

lemma cfg_inv_set_ring:
  assumes "cfg_inv (c, al)"
  shows "cfg_inv (snd (set_ring_dimension n c al))"
  using assms alloc_inv_set_polynomial_size [of al "n * 8"]
  by (auto simp: cfg_inv_def set_ring_dimension_def set_polynomial_size_inv
      is_supported_ring_dim_def)

interpretation cfg_history: stateful_component "(config_init, allocator_init)" cfg_step cfg_inv
proof unfold_locales
  show "cfg_inv (config_init, allocator_init)"
    by (simp add: cfg_inv_def alloc_inv_init) (simp add: config_init_def allocator_init_def)
next
  fix s x
  assume "cfg_inv s"
  moreover obtain c al where s: "s = (c, al)" by (cases s)
  ultimately have inv: "cfg_inv (c, al)" by simp
  then have parts: "alloc_inv al" "poly_bytes al = cf_ring_dim c * 8" "0 \<notin> set (cf_moduli c)"
      "cf_ring_dim c = 0 \<or> is_supported_ring_dim (cf_ring_dim c)"
      "cf_configured c \<longrightarrow> cf_ring_dim c \<noteq> 0"
    by (simp_all add: cfg_inv_def)
  show "cfg_inv (cfg_step s x)"
  proof (cases x)
    case (CoAlloc y)
    then show ?thesis
      unfolding s using parts cfg_alloc_poly_bytes [of al y] cfg_alloc_inv [OF parts(1), of y]
      by (simp add: cfg_inv_def)
  next
    case CoReset
    then show ?thesis
      by (simp add: s cfg_inv_def alloc_inv_reset)
         (simp add: allocator_reset_def config_reset_def)
  qed (use parts in \<open>simp_all add: s inv cfg_inv_set_ring cfg_inv_set_modulus,
      auto simp: cfg_inv_def set_twiddle_generator_def configure_device_def set_program_info_def
        set_target_def set_program_directory_def set_montgomery_def set_bit_reversal_def
        set_reduced_noise_def Let_def split: option.splits\<close>)
qed

section \<open>Properties\<close>

text \<open>
  The two singletons agree in every reachable state: after any interleaving of
  configuration and allocator calls the allocator's polynomial size is eight bytes per ring
  element, the ring dimension is unset or a power of two, and the modulus table holds no
  zero, so the accessor's 0 means exactly "index out of range".
\<close>

theorem config_allocator_agree:
  "(let (c, al) = foldl cfg_step (config_init, allocator_init) ops in
    polynomial_size al = cfg_ring_dim c * 8 \<and>
    (cfg_ring_dim c = 0 \<or> is_supported_ring_dim (cfg_ring_dim c)) \<and>
    (\<forall>i. cfg_modulus i c = 0 \<longleftrightarrow> i < 0 \<or> int (length (cf_moduli c)) \<le> i))"
proof -
  obtain c al where s: "foldl cfg_step (config_init, allocator_init) ops = (c, al)"
    by (cases "foldl cfg_step (config_init, allocator_init) ops")
  then have inv: "cfg_inv (c, al)" using cfg_history.invar_run [of ops] by simp
  then have "0 \<notin> set (cf_moduli c)" by (simp add: cfg_inv_def)
  then have "cfg_modulus i c = 0 \<longleftrightarrow> i < 0 \<or> int (length (cf_moduli c)) \<le> i" for i
    by (auto simp: cfg_modulus_def) (metis nth_mem not_le)
  with inv show ?thesis
    by (simp add: s cfg_inv_def polynomial_size_def cfg_ring_dim_def)
qed

text \<open>
  Set and get of the modulus table: an accepted write is what the accessor returns at
  that index and leaves every other index alone; the table never becomes sparse (it grows by
  at most the next index); a rejected write changes nothing.
\<close>

theorem modulus_set_get:
  "(case set_modulus i q c of
      (Inr _, c') \<Rightarrow> cfg_modulus i c' = q \<and> (\<forall>j. j \<noteq> i \<longrightarrow> cfg_modulus j c' = cfg_modulus j c) \<and>
        length (cf_moduli c') = max (length (cf_moduli c)) (nat i + 1) \<and>
        length (cf_moduli c') \<le> length (cf_moduli c) + 1
    | (Inl _, c') \<Rightarrow> c' = c)"
proof -
  consider "i < 0 \<or> q = 0" | "0 \<le> i" "q \<noteq> 0" "cf_configured c"
    | "0 \<le> i" "q \<noteq> 0" "\<not> cf_configured c" "int (length (cf_moduli c)) < i"
    | "0 \<le> i" "q \<noteq> 0" "\<not> cf_configured c" "int (length (cf_moduli c)) = i"
    | "0 \<le> i" "q \<noteq> 0" "\<not> cf_configured c" "i < int (length (cf_moduli c))"
    by linarith
  then show ?thesis
  proof cases
    case 1
    then show ?thesis by (auto simp: set_modulus_def)
  next
    case 2
    then show ?thesis by (auto simp: set_modulus_def cfg_modulus_def Let_def)
  next
    case 3
    then show ?thesis by (simp add: set_modulus_def)
  next
    case 4
    then have "nat i = length (cf_moduli c)" by simp
    with 4 show ?thesis by (auto simp: set_modulus_def cfg_modulus_def nth_append)
  next
    case 5
    then have "nat i < length (cf_moduli c)" by simp
    with 5 show ?thesis
      by (auto simp: set_modulus_def cfg_modulus_def nth_list_update)
  qed
qed

theorem modulus_set_get_witness:
  "let c' = snd (set_modulus 1 193 (config_init\<lparr>cf_moduli := [97]\<rparr>))
   in cfg_modulus 1 c' = 193 \<and> cfg_modulus 0 c' = 97 \<and> length (cf_moduli c') = 2"
proof -
  let ?c = "config_init\<lparr>cf_moduli := [97]\<rparr>"
  have ok: "fst (set_modulus 1 193 ?c) = Inr ()" by code_simp
  obtain c' where s: "set_modulus 1 193 ?c = (Inr (), c')"
    using ok by (cases "set_modulus 1 193 ?c") simp
  have "cfg_modulus 0 ?c = 97" and "length (cf_moduli ?c) = 1" by code_simp+
  then show ?thesis
    using modulus_set_get [where i = 1 and q = 193 and c = ?c] by (simp add: s)
qed

definition frozen_at :: "config \<Rightarrow> allocator \<Rightarrow> config \<times> allocator \<Rightarrow> bool" where
  "frozen_at c0 al0 = (\<lambda>(c, al). cf_configured c \<and> cf_ring_dim c = cf_ring_dim c0 \<and>
     cf_moduli c = cf_moduli c0 \<and> cf_twiddle_generators c = cf_twiddle_generators c0 \<and>
     poly_bytes al = poly_bytes al0 \<and> poly_bytes al0 = cf_ring_dim c0 * 8)"

lemma frozen_step:
  assumes "frozen_at c0 al0 s" and "x \<noteq> CoReset"
  shows "frozen_at c0 al0 (cfg_step s x)"
proof -
  obtain c al where s: "s = (c, al)" by (cases s)
  show ?thesis
    using assms cfg_alloc_poly_bytes
    by (cases x)
       (auto simp: s frozen_at_def set_ring_dimension_def set_modulus_def Let_def
         set_twiddle_generator_def configure_device_def set_program_info_def set_target_def
         set_program_directory_def set_montgomery_def set_bit_reversal_def
         set_reduced_noise_def set_polynomial_size_def split: option.splits)
qed

text \<open>
  C30. \<open>hazeConfigureDevice\<close> freezes the parameters: once it has succeeded in a state whose
  configuration and allocator agree, no interleaving of the other calls (reset excepted)
  changes the ring dimension, a modulus, a twiddle generator or the allocation size.
\<close>

theorem parameters_frozen:
  assumes "configure_device c0 = (Inr (), c)" and "poly_bytes al = cf_ring_dim c * 8"
    and "CoReset \<notin> set ops"
    and "foldl cfg_step (c, al) ops = (c', al')"
  shows "cf_ring_dim c' = cf_ring_dim c0 \<and> cf_moduli c' = cf_moduli c0 \<and>
    cf_twiddle_generators c' = cf_twiddle_generators c0 \<and> poly_bytes al' = poly_bytes al"
proof -
  have run: "frozen_at c al (foldl cfg_step s ops)" if "frozen_at c al s" for s
    using assms(3) that
  proof (induction ops arbitrary: s)
    case (Cons x xs)
    then have "frozen_at c al (cfg_step s x)" by (intro frozen_step) auto
    with Cons show ?case by simp
  qed simp
  have "frozen_at c al (c, al)" and eqs: "cf_ring_dim c = cf_ring_dim c0"
      "cf_moduli c = cf_moduli c0" "cf_twiddle_generators c = cf_twiddle_generators c0"
    using assms(1,2) by (auto simp: frozen_at_def configure_device_def split: if_splits)
  from run [OF this(1)] show ?thesis by (simp add: assms(4) eqs frozen_at_def)
qed

theorem parameters_frozen_witness:
  "let (c', al') = foldl cfg_step
      (snd (configure_device (config_init\<lparr>cf_ring_dim := 16, cf_moduli := [97]\<rparr>)),
       allocator_init\<lparr>poly_bytes := 128\<rparr>)
      [CoSetModulus 0 193, CoSetRing 32, CoAlloc (AoAllocate 128)]
   in cf_ring_dim c' = 16 \<and> cf_moduli c' = [97]"
proof -
  let ?c0 = "config_init\<lparr>cf_ring_dim := 16, cf_moduli := [97]\<rparr>"
  let ?al = "allocator_init\<lparr>poly_bytes := 128\<rparr>"
  let ?ops = "[CoSetModulus 0 193, CoSetRing 32, CoAlloc (AoAllocate 128)]"
  obtain c' al' where s: "foldl cfg_step (snd (configure_device ?c0), ?al) ?ops = (c', al')"
    by (cases "foldl cfg_step (snd (configure_device ?c0), ?al) ?ops")
  have "configure_device ?c0 = (Inr (), snd (configure_device ?c0))"
    and "poly_bytes ?al = cf_ring_dim (snd (configure_device ?c0)) * 8"
    and "CoReset \<notin> set ?ops"
    by (simp_all add: configure_device_def)
  from parameters_frozen [OF this s] show ?thesis unfolding s by simp
qed

end
