(* ===== verification/Haze_Fhetch.thy ===== *)
theory Haze_Fhetch
  imports Haze_Config
begin

text \<open>
  The code haze calls and does not contain: the fhetch IR builder, the
  \<open>niobium::compiler()\<close> singleton, nlohmann's JSON parser and the file system. It is a
  parameter of the model: a call is a value of \<open>fh_call\<close>, the calls made so far form the
  trace, and \<open>fh_env\<close> answers each call as an arbitrary function of the trace before it
  (so the same call may answer differently later). \<open>'p\<close> is \<open>fhetch::Polynomial\<close>, a
  reference-counted handle copied by value, \<open>'m\<close> is \<open>fhetch::MRP\<close>.
\<close>

section \<open>Calls\<close>

datatype fh_format = Evaluation | Coefficient

datatype sr_pp = SrAddp | SrSubp | SrMulp
datatype sr_ps = SrAddps | SrSubps | SrMulps
datatype sr_pq = SrNtt | SrIntt
datatype mr_pp = MrAddp | MrSubp | MrMulp
datatype mr_ps = MrAddps | MrSubps | MrMulps
datatype mr_p = MrNtt | MrIntt
datatype mr_pi = MrAutomorphEval | MrRotAutomorphCoeff

datatype FbcVariant = ReducedNoise | Standard
datatype FbcCenterShape = ThreeOp | FourOp

text \<open>An \<open>fhetch::MRS\<close> is built from \<open>(scalar, modulus)\<close> pairs and only passed on.\<close>

type_synonym mrs = "(u64 \<times> u64) list"

datatype compiler_call =
    CompilerInit "string list"
  | SetProgramInfo string string string
  | SetProgramDirectory string
  | SuppressProbes int
  | CompilerStartEpoch
  | CompilerStart
  | CompilerStop
  | CompilerReplay
  | ClearCaptured
  | CompilerReset

datatype ('p, 'm) tag_call =
    TagInput string 'p
  | TagInputMrp string 'm
  | TagOutput string 'p
  | TagOutputMrp string 'm

datatype ('p, 'm) fh_call =
    FromData "u64 list" u64 fh_format
  | SrPP sr_pp 'p 'p u64
  | SrPS sr_ps 'p u64 u64
  | SrPQ sr_pq 'p u64
  | SrAutomorphEval 'p u64
  | BindModulus 'p u64
  | MrPP mr_pp 'm 'm
  | MrPS mr_ps 'm mrs
  | MrP mr_p 'm
  | MrPI mr_pi 'm u64
  | FastBaseConvert 'm "u64 list" FbcVariant FbcCenterShape
  | RescaleFbc 'm "u64 list" FbcVariant FbcCenterShape
  | MrSubset 'm "u64 list"
  | Tag "('p, 'm) tag_call"
  | Compiler compiler_call

type_synonym ('p, 'm) trace = "('p, 'm) fh_call list"

section \<open>Files\<close>

datatype json_scalar =
  JNull | JBool bool | JInteger int | JUnsigned u64 | JFloat | JString string

text \<open>Members of an object in the order \<open>items()\<close> visits them.\<close>

datatype json = JScalar json_scalar | JArray "json list" | JObject "(string \<times> json) list"

text \<open>
  What \<open>save_polynomial_json\<close> and the read-back of its file lead to: it returned false, the
  file could not be opened, the parser threw, or a document.
\<close>

datatype saved_file = SaveFailed | OpenFailed | ParseThrew | Saved json

text \<open>
  A serialized probe as deserialized: per \<open>DCRTPoly\<close> element its \<open>NativePoly\<close> towers, each
  with its coefficients, format and modulus.
\<close>

record native_poly =
  np_values :: "u64 list"
  np_format :: fh_format
  np_modulus :: u64

type_synonym ciphertext = "native_poly list list"

section \<open>The environment\<close>

record ('p, 'm) fh_env =
  poly_of :: "('p, 'm) trace \<Rightarrow> ('p, 'm) fh_call \<Rightarrow> 'p"
  mrp_of :: "('p, 'm) trace \<Rightarrow> ('p, 'm) fh_call \<Rightarrow> 'm"
  bool_of :: "('p, 'm) trace \<Rightarrow> ('p, 'm) fh_call \<Rightarrow> bool"
  throws :: "('p, 'm) trace \<Rightarrow> ('p, 'm) fh_call \<Rightarrow> bool"
  mrp_from_pairs :: "('p \<times> u64) list \<Rightarrow> 'm"
  mrp_at :: "'m \<Rightarrow> u64 \<Rightarrow> 'p"
  mrp_base :: "'m \<Rightarrow> u64 list"
  hook_fails :: "('p, 'm) trace \<Rightarrow> bool"
  load_probe :: "('p, 'm) trace \<Rightarrow> string \<Rightarrow> ciphertext option"
  saved_doc :: "('p, 'm) trace \<Rightarrow> 'p \<Rightarrow> saved_file"
  scalar_u64 :: "json_scalar \<Rightarrow> u64 option"

end
