(* ===== verification/Haze_State.thy ===== *)
theory Haze_State
  imports Haze_Fhetch
begin

text \<open>
  The process state: the fields of \<open>EpochState\<close> (core/epoch.hpp), the singletons, the
  thread's last error, and the host memory the C ABI reads and writes. \<open>haze\<close> is the state
  every operation above the allocator and the configuration works on.
\<close>

definition kCopyModulus :: u64 where
  "kCopyModulus = 0xFFFFFFFFFFFFFFFF"

record mrp_group =
  mg_addrs :: "DevAddr list"
  mg_moduli :: "u64 list"

text \<open>
  \<open>pending_outputs_\<close>, \<open>pending_mrp_groups_\<close> and the name sets of \<open>addr_to_mrp_groups_\<close> are
  iterated by the code and are lists; the other containers are only looked up.
\<close>

record 'p epoch =
  poly_map :: "DevAddr \<rightharpoonup> 'p"
  pending_outputs :: "(DevAddr \<times> string) list"
  input_addrs :: "DevAddr set"
  addr_modulus :: "DevAddr \<rightharpoonup> u64"
  known_mrp_groups :: "string \<rightharpoonup> mrp_group"
  mrp_in_names :: "DevAddr \<rightharpoonup> string"
  mrp_out_names :: "DevAddr \<rightharpoonup> string"
  mrp_in_name_counter :: u64
  mrp_out_name_counter :: u64
  pending_mrp_groups :: "string list"
  addr_to_mrp_groups :: "DevAddr \<rightharpoonup> string list"
  mrp_input_tagged_names :: "string set"
  input_counter :: u64
  output_counter :: u64
  recording :: bool

definition epoch_init :: "'p epoch" where
  "epoch_init = \<lparr>poly_map = Map.empty, pending_outputs = [], input_addrs = {},
     addr_modulus = Map.empty, known_mrp_groups = Map.empty, mrp_in_names = Map.empty,
     mrp_out_names = Map.empty, mrp_in_name_counter = 0, mrp_out_name_counter = 0,
     pending_mrp_groups = [], addr_to_mrp_groups = Map.empty, mrp_input_tagged_names = {},
     input_counter = 0, output_counter = 0, recording = False\<rparr>"

record ('p, 'm) haze =
  hz_config :: config
  hz_alloc :: allocator
  hz_epoch :: "'p epoch"
  hz_backend_initialized :: bool
  hz_trace :: "('p, 'm) trace"
  hz_hook_had_error :: bool
  hz_host :: hostmem
  hz_last_error :: hazeError_t
  hz_active_device :: int
  hz_next_stream_id :: u64
  hz_next_event_id :: u64

definition haze_init :: "hostmem \<Rightarrow> ('p, 'm) haze" where
  "haze_init hm = \<lparr>hz_config = config_init, hz_alloc = allocator_init, hz_epoch = epoch_init,
     hz_backend_initialized = False, hz_trace = [], hz_hook_had_error = False, hz_host = hm,
     hz_last_error = HAZE_SUCCESS, hz_active_device = 0, hz_next_stream_id = 1,
     hz_next_event_id = 1\<rparr>"

section \<open>Calls out\<close>

definition fh_emit :: "('p, 'm) fh_call \<Rightarrow> ('p, 'm) haze \<Rightarrow> ('p, 'm) haze" where
  "fh_emit c s = s\<lparr>hz_trace := hz_trace s @ [c]\<rparr>"

definition fh_poly ::
    "('p, 'm) fh_env \<Rightarrow> ('p, 'm) fh_call \<Rightarrow> ('p, 'm) haze \<Rightarrow> 'p \<times> ('p, 'm) haze" where
  "fh_poly E c s = (poly_of E (hz_trace s) c, fh_emit c s)"

definition fh_mrp ::
    "('p, 'm) fh_env \<Rightarrow> ('p, 'm) fh_call \<Rightarrow> ('p, 'm) haze \<Rightarrow> 'm \<times> ('p, 'm) haze" where
  "fh_mrp E c s = (mrp_of E (hz_trace s) c, fh_emit c s)"

definition fh_bool ::
    "('p, 'm) fh_env \<Rightarrow> ('p, 'm) fh_call \<Rightarrow> ('p, 'm) haze \<Rightarrow> bool \<times> ('p, 'm) haze" where
  "fh_bool E c s = (bool_of E (hz_trace s) c, fh_emit c s)"

text \<open>A sequence of calls inside a \<open>try\<close> block: stops at the first that throws.\<close>

fun fh_try ::
    "('p, 'm) fh_env \<Rightarrow> ('p, 'm) fh_call list \<Rightarrow> ('p, 'm) haze \<Rightarrow> bool \<times> ('p, 'm) haze" where
  "fh_try E [] s = (True, s)"
| "fh_try E (c # cs) s =
     (if throws E (hz_trace s) c then (False, fh_emit c s) else fh_try E cs (fh_emit c s))"

definition upd_epoch :: "('p epoch \<Rightarrow> 'p epoch) \<Rightarrow> ('p, 'm) haze \<Rightarrow> ('p, 'm) haze" where
  "upd_epoch f s = s\<lparr>hz_epoch := f (hz_epoch s)\<rparr>"

definition upd_alloc :: "(allocator \<Rightarrow> allocator) \<Rightarrow> ('p, 'm) haze \<Rightarrow> ('p, 'm) haze" where
  "upd_alloc f s = s\<lparr>hz_alloc := f (hz_alloc s)\<rparr>"

lemma fh_emit_simps [simp]:
  "hz_config (fh_emit c s) = hz_config s"
  "hz_alloc (fh_emit c s) = hz_alloc s"
  "hz_epoch (fh_emit c s) = hz_epoch s"
  "hz_backend_initialized (fh_emit c s) = hz_backend_initialized s"
  "hz_trace (fh_emit c s) = hz_trace s @ [c]"
  "hz_hook_had_error (fh_emit c s) = hz_hook_had_error s"
  "hz_host (fh_emit c s) = hz_host s"
  "hz_last_error (fh_emit c s) = hz_last_error s"
  "hz_active_device (fh_emit c s) = hz_active_device s"
  "hz_next_stream_id (fh_emit c s) = hz_next_stream_id s"
  "hz_next_event_id (fh_emit c s) = hz_next_event_id s"
  by (simp_all add: fh_emit_def)

lemma upd_epoch_simps [simp]:
  "hz_config (upd_epoch f s) = hz_config s"
  "hz_alloc (upd_epoch f s) = hz_alloc s"
  "hz_epoch (upd_epoch f s) = f (hz_epoch s)"
  "hz_backend_initialized (upd_epoch f s) = hz_backend_initialized s"
  "hz_trace (upd_epoch f s) = hz_trace s"
  "hz_hook_had_error (upd_epoch f s) = hz_hook_had_error s"
  "hz_host (upd_epoch f s) = hz_host s"
  "hz_last_error (upd_epoch f s) = hz_last_error s"
  "hz_active_device (upd_epoch f s) = hz_active_device s"
  "hz_next_stream_id (upd_epoch f s) = hz_next_stream_id s"
  "hz_next_event_id (upd_epoch f s) = hz_next_event_id s"
  by (simp_all add: upd_epoch_def)

lemma upd_alloc_simps [simp]:
  "hz_config (upd_alloc g s) = hz_config s"
  "hz_alloc (upd_alloc g s) = g (hz_alloc s)"
  "hz_epoch (upd_alloc g s) = hz_epoch s"
  "hz_backend_initialized (upd_alloc g s) = hz_backend_initialized s"
  "hz_trace (upd_alloc g s) = hz_trace s"
  "hz_hook_had_error (upd_alloc g s) = hz_hook_had_error s"
  "hz_host (upd_alloc g s) = hz_host s"
  "hz_last_error (upd_alloc g s) = hz_last_error s"
  "hz_active_device (upd_alloc g s) = hz_active_device s"
  "hz_next_stream_id (upd_alloc g s) = hz_next_stream_id s"
  "hz_next_event_id (upd_alloc g s) = hz_next_event_id s"
  by (simp_all add: upd_alloc_def)

lemma fh_try_frame [frame_simps]:
  "hz_config (snd (fh_try E cs s)) = hz_config s"
  "hz_alloc (snd (fh_try E cs s)) = hz_alloc s"
  "hz_epoch (snd (fh_try E cs s)) = hz_epoch s"
  "hz_backend_initialized (snd (fh_try E cs s)) = hz_backend_initialized s"
  by (induction cs arbitrary: s) simp_all

end
