(* ===== verification/Haze_Backend.thy ===== *)
theory Haze_Backend
  imports Haze_State
begin

text \<open>
  \<open>CompilerBackend\<close> (core/backend.cpp): the one-time initialisation of the compiler and the
  recording controls. \<open>initialized_\<close> is \<open>hz_backend_initialized\<close>; the double-checked lock
  around the initialisation makes the whole of \<open>ensure_initialized\<close> one step.
\<close>

definition init_argv :: "config \<Rightarrow> string list" where
  "init_argv c =
     [program_name c, ''--target='' @ cfg_target c]
     @ (if cf_montgomery c then [''--montgomery''] else [])
     @ (if cf_bit_reversal c then [''--bit_reversal''] else [])
     @ [''--no-ring-dim-check'', ''--no-prime-check'']"

definition init_calls :: "config \<Rightarrow> ('p, 'm) fh_call list" where
  "init_calls c =
     map Compiler
       ([CompilerInit (init_argv c),
         SetProgramInfo (program_name c) (program_version c) (program_description c)]
        @ (if has_program_directory c then [SetProgramDirectory (program_directory c)] else [])
        @ [SuppressProbes 1])"

definition ensure_initialized ::
    "('p, 'm) fh_env \<Rightarrow> ('p, 'm) haze \<Rightarrow> bool \<times> ('p, 'm) haze" where
  "ensure_initialized E s =
     (if hz_backend_initialized s then (True, s)
      else let c = hz_config s in
        if (cf_montgomery c \<or> cf_bit_reversal c) \<and> cfg_target c = kLocalTarget then (False, s)
        else case fh_try E (init_calls c) s of
               (False, s1) \<Rightarrow> (False, s1)
             | (True, s1) \<Rightarrow> (True, s1\<lparr>hz_backend_initialized := True\<rparr>))"

definition is_initialized :: "('p, 'm) haze \<Rightarrow> bool" where
  "is_initialized s = hz_backend_initialized s"

definition start_recording :: "('p, 'm) haze \<Rightarrow> ('p, 'm) haze" where
  "start_recording s = fh_emit (Compiler CompilerStart) s"

text \<open>
  \<open>stop()\<close> runs the replay bridge's post-recording hook, which raises
  \<open>hook_had_error_flag\<close> when a capture could not be synthesised. Neither \<open>stop()\<close> nor \<open>start()\<close>
  is called inside a \<open>try\<close> block: an exception out of them reaches a \<open>noexcept\<close> boundary and ends
  the process, after which there is no state to speak of. These definitions are the calls that
  return.
\<close>

definition stop_epoch :: "('p, 'm) fh_env \<Rightarrow> ('p, 'm) haze \<Rightarrow> bool \<times> ('p, 'm) haze" where
  "stop_epoch E s =
     (case fh_bool E (Compiler CompilerStop) s of
        (ok, s1) \<Rightarrow> (ok, s1\<lparr>hz_hook_had_error := hz_hook_had_error s1 \<or> hook_fails E (hz_trace s)\<rparr>))"

definition backend_replay :: "('p, 'm) fh_env \<Rightarrow> ('p, 'm) haze \<Rightarrow> bool \<times> ('p, 'm) haze" where
  "backend_replay E s =
     (if throws E (hz_trace s) (Compiler CompilerReplay)
      then (False, fh_emit (Compiler CompilerReplay) s)
      else fh_bool E (Compiler CompilerReplay) s)"

definition backend_reset :: "('p, 'm) haze \<Rightarrow> ('p, 'm) haze" where
  "backend_reset s = s\<lparr>hz_backend_initialized := False\<rparr>"

text \<open>\<open>hazeReplayBridgeTakeHookHadError\<close>: an atomic exchange with false.\<close>

definition hazeReplayBridgeTakeHookHadError :: "('p, 'm) haze \<Rightarrow> bool \<times> ('p, 'm) haze" where
  "hazeReplayBridgeTakeHookHadError s = (hz_hook_had_error s, s\<lparr>hz_hook_had_error := False\<rparr>)"

lemma ensure_initialized_frame [frame_simps]:
  "hz_config (snd (ensure_initialized E s)) = hz_config s"
  "hz_alloc (snd (ensure_initialized E s)) = hz_alloc s"
  "hz_epoch (snd (ensure_initialized E s)) = hz_epoch s"
  using fh_try_frame [of E "init_calls (hz_config s)" s]
  by (auto simp: ensure_initialized_def Let_def split: prod.splits bool.splits)

lemma ensure_initialized_idem:
  "hz_backend_initialized s \<Longrightarrow> ensure_initialized E s = (True, s)"
  by (simp add: ensure_initialized_def)

lemma ensure_initialized_result:
  "fst (ensure_initialized E s) = hz_backend_initialized (snd (ensure_initialized E s))"
  using fh_try_frame(4) [of E "init_calls (hz_config s)" s]
  by (auto simp: ensure_initialized_def Let_def split: prod.splits bool.splits)

end
