(* ===== verification/Haze_Replay_Bridge.thy ===== *)
theory Haze_Replay_Bridge
  imports Haze_Backend
begin

text \<open>
  The reading half of the replay bridge (replay_bridge/src/openfhe_template.cpp) and its
  data: captured shapes, the regrouping of flat residues per element, and the overloads of
  \<open>fhetch::result\<close>, which turn a serialized probe back into fhetch values. A thrown
  \<open>std::runtime_error\<close> is \<open>None\<close>. The writing half is in \<open>Haze_Synthesis\<close>.
\<close>

datatype BridgeError = InvalidModulus | OpenFheUnavailable

fun to_haze_error :: "BridgeError \<Rightarrow> hazeError_t" where
  "to_haze_error InvalidModulus = HAZE_ERROR_INVALID_VALUE"
| "to_haze_error OpenFheUnavailable = HAZE_ERROR_INTERNAL"

datatype CapturedKind = SRP | MRP | SRPArray | MRPArray

record CapturedShape =
  cs_kind :: CapturedKind
  cs_per_element_moduli :: "u64 list list"

section \<open>Shapes\<close>

fun slice_loop :: "'v list \<Rightarrow> 'a list list \<Rightarrow> 'v list list" where
  "slice_loop vs [] = []"
| "slice_loop vs (m # ms) = take (length m) vs # slice_loop (drop (length m) vs) ms"

definition slice_array_values :: "'v list \<Rightarrow> 'a list list \<Rightarrow> 'v list list option" where
  "slice_array_values per_residue_values per_element_moduli =
     (let expected = sum_list (map length per_element_moduli) in
      if length per_residue_values \<noteq> expected then None
      else Some (slice_loop per_residue_values per_element_moduli))"

text \<open>The modulus \<open>synthesize_for_shape\<close> hands on for a single-residue shape.\<close>

definition srp_shape_modulus :: "CapturedShape \<Rightarrow> u64" where
  "srp_shape_modulus shape =
     (if cs_per_element_moduli shape = [] \<or> hd (cs_per_element_moduli shape) = []
      then kCopyModulus else hd (hd (cs_per_element_moduli shape)))"

section \<open>\<open>fhetch::result\<close>\<close>

definition openfhe_to_fhetch_format :: "fh_format \<Rightarrow> fh_format" where
  "openfhe_to_fhetch_format fmt = (if fmt = Coefficient then Coefficient else Evaluation)"

definition native_poly_values :: "native_poly \<Rightarrow> u64 list" where
  "native_poly_values np = map (\<lambda>i. np_values np ! i) [0..<length (np_values np)]"

definition fhetch_result ::
    "('p, 'm) fh_env \<Rightarrow> string \<Rightarrow> ('p, 'm) haze \<Rightarrow> 'p option \<times> ('p, 'm) haze" where
  "fhetch_result E name s =
     (case load_probe E (hz_trace s) name of
        None \<Rightarrow> (None, s)
      | Some elements \<Rightarrow>
          if elements = [] then (None, s)
          else let towers = hd elements in
            if towers = [] then (None, s)
            else let np = hd towers; values = native_poly_values np in
              (case fh_poly E (FromData values (of_nat (length values))
                                 (openfhe_to_fhetch_format (np_format np))) s of
                 (p, s1) \<Rightarrow> (Some p, s1)))"

text \<open>The overloads for multi-residue values: one polynomial per tower, with its modulus.\<close>

fun tower_pairs ::
    "('p, 'm) fh_env \<Rightarrow> native_poly list \<Rightarrow> ('p, 'm) haze \<Rightarrow> ('p \<times> u64) list \<times> ('p, 'm) haze" where
  "tower_pairs E [] s = ([], s)"
| "tower_pairs E (np # towers) s =
     (let values = native_poly_values np;
          (poly, s1) = fh_poly E (FromData values (of_nat (length values))
                                    (openfhe_to_fhetch_format (np_format np))) s;
          (pairs, s2) = tower_pairs E towers s1
      in ((poly, np_modulus np) # pairs, s2))"

definition fhetch_result_mrp ::
    "('p, 'm) fh_env \<Rightarrow> string \<Rightarrow> ('p, 'm) haze \<Rightarrow> 'm option \<times> ('p, 'm) haze" where
  "fhetch_result_mrp E name s =
     (case load_probe E (hz_trace s) name of
        None \<Rightarrow> (None, s)
      | Some elements \<Rightarrow>
          if elements = [] then (None, s)
          else if hd elements = [] then (None, s)
          else (case tower_pairs E (hd elements) s of
                  (pairs, s1) \<Rightarrow> (Some (mrp_from_pairs E pairs), s1)))"

fun element_mrps ::
    "('p, 'm) fh_env \<Rightarrow> ciphertext \<Rightarrow> ('p, 'm) haze \<Rightarrow> 'm list \<times> ('p, 'm) haze" where
  "element_mrps E [] s = ([], s)"
| "element_mrps E (towers # elements) s =
     (let (pairs, s1) = tower_pairs E towers s;
          (ms, s2) = element_mrps E elements s1
      in (mrp_from_pairs E pairs # ms, s2))"

definition fhetch_result_mrp_array ::
    "('p, 'm) fh_env \<Rightarrow> string \<Rightarrow> ('p, 'm) haze \<Rightarrow> 'm list option \<times> ('p, 'm) haze" where
  "fhetch_result_mrp_array E name s =
     (case load_probe E (hz_trace s) name of
        None \<Rightarrow> (None, s)
      | Some elements \<Rightarrow> (case element_mrps E elements s of (out, s1) \<Rightarrow> (Some out, s1)))"

lemma native_poly_values [simp]: "native_poly_values np = np_values np"
  by (simp add: native_poly_values_def map_nth)

lemma openfhe_to_fhetch_format [simp]: "openfhe_to_fhetch_format f = f"
  by (cases f) (simp_all add: openfhe_to_fhetch_format_def)

lemma fhetch_result_frame [frame_simps]:
  "hz_config (snd (fhetch_result E n s)) = hz_config s"
  "hz_alloc (snd (fhetch_result E n s)) = hz_alloc s"
  "hz_epoch (snd (fhetch_result E n s)) = hz_epoch s"
  "hz_backend_initialized (snd (fhetch_result E n s)) = hz_backend_initialized s"
  by (simp_all add: fhetch_result_def fh_poly_def Let_def split: option.splits)

section \<open>Properties\<close>

lemma concat_slice_loop:
  "length vs = sum_list (map length ms) \<Longrightarrow> concat (slice_loop vs ms) = vs"
  by (induction ms arbitrary: vs) simp_all

lemma lengths_slice_loop:
  "length vs = sum_list (map length ms) \<Longrightarrow> map length (slice_loop vs ms) = map length ms"
  by (induction ms arbitrary: vs) simp_all

text \<open>
  Regrouping residues is exact: it succeeds precisely when the flat count equals the sum
  of the per-element counts, and then the rows have the elements' lengths and concatenate to
  the flat list in order (nothing dropped, duplicated or reordered).
\<close>

theorem slice_array_values_exact:
  "slice_array_values vs ms = Some rows \<longleftrightarrow>
     concat rows = vs \<and> map length rows = map length ms"
proof
  assume "slice_array_values vs ms = Some rows"
  then have "length vs = sum_list (map length ms)" "rows = slice_loop vs ms"
    by (auto simp: slice_array_values_def Let_def split: if_splits)
  then show "concat rows = vs \<and> map length rows = map length ms"
    by (simp add: concat_slice_loop lengths_slice_loop)
next
  assume r: "concat rows = vs \<and> map length rows = map length ms"
  have loop: "slice_loop (concat rows) ms = rows" if "map length rows = map length ms"
    for rows :: "'a list list"
    using that by (induction ms arbitrary: rows) (auto simp: Cons_eq_map_conv)
  from r have "length vs = sum_list (map length ms)" by (auto simp: length_concat)
  with r show "slice_array_values vs ms = Some rows"
    using loop [of rows] by (simp add: slice_array_values_def)
qed

end
