(* ===== verification/Haze_Polynomial_IO.thy ===== *)
theory Haze_Polynomial_IO
  imports Haze_Backend
begin

text \<open>
  Reading the coefficients of a result polynomial back (core/polynomial_io.cpp). The
  temporary file is written and removed within the call; \<open>saved_doc\<close> of the environment
  says what \<open>save_polynomial_json\<close> put into it and how the parser took it.
\<close>

text \<open>\<open>node.find("values")\<close>, and whether it is an array.\<close>

definition values_member :: "(string \<times> json) list \<Rightarrow> json list option" where
  "values_member kvs =
     (case map_of kvs ''values'' of Some (JArray vs) \<Rightarrow> Some vs | _ \<Rightarrow> None)"

fun find_values_array :: "json \<Rightarrow> json list option"
  and find_in_items :: "(string \<times> json) list \<Rightarrow> json list option"
  and find_in_array :: "json list \<Rightarrow> json list option" where
  "find_values_array (JObject kvs) =
     (case values_member kvs of Some vs \<Rightarrow> Some vs | None \<Rightarrow> find_in_items kvs)"
| "find_values_array (JArray vs) = find_in_array vs"
| "find_values_array (JScalar x) = None"
| "find_in_items [] = None"
| "find_in_items ((k, v) # kvs) =
     (case find_values_array v of Some found \<Rightarrow> Some found | None \<Rightarrow> find_in_items kvs)"
| "find_in_array [] = None"
| "find_in_array (v # vs) =
     (case find_values_array v of Some found \<Rightarrow> Some found | None \<Rightarrow> find_in_array vs)"

text \<open>\<open>get<std::vector<uint64_t>>()\<close>: throws (\<open>None\<close>) at the first unconvertible element.\<close>

fun get_u64s :: "(json_scalar \<Rightarrow> u64 option) \<Rightarrow> json list \<Rightarrow> u64 list option" where
  "get_u64s conv [] = Some []"
| "get_u64s conv (JScalar x # vs) =
     (case conv x of
        None \<Rightarrow> None
      | Some w \<Rightarrow> (case get_u64s conv vs of None \<Rightarrow> None | Some ws \<Rightarrow> Some (w # ws)))"
| "get_u64s conv (JArray _ # vs) = None"
| "get_u64s conv (JObject _ # vs) = None"

text \<open>\<open>Some\<close> the vector when the code returns true.\<close>

definition extract_polynomial_values ::
    "('p, 'm) fh_env \<Rightarrow> 'p \<Rightarrow> ('p, 'm) haze \<Rightarrow> u64 list option" where
  "extract_polynomial_values E p s =
     (case saved_doc E (hz_trace s) p of
        SaveFailed \<Rightarrow> None
      | OpenFailed \<Rightarrow> None
      | ParseThrew \<Rightarrow> None
      | Saved doc \<Rightarrow>
          (case find_values_array doc of
             None \<Rightarrow> None
           | Some values \<Rightarrow>
               (case get_u64s (scalar_u64 E) values of
                  None \<Rightarrow> None
                | Some out \<Rightarrow> if out = [] then None else Some out)))"

section \<open>Properties\<close>

text \<open>
  The search, stated as reachability: \<open>values_at j vs\<close> holds when some object inside \<open>j\<close>
  has a member "values" that is the array \<open>vs\<close>.
\<close>

inductive values_at :: "json \<Rightarrow> json list \<Rightarrow> bool" where
  here: "values_member kvs = Some vs \<Longrightarrow> values_at (JObject kvs) vs"
| member: "(k, v) \<in> set kvs \<Longrightarrow> values_at v vs \<Longrightarrow> values_at (JObject kvs) vs"
| elem: "v \<in> set xs \<Longrightarrow> values_at v vs \<Longrightarrow> values_at (JArray xs) vs"

inductive_cases values_at_scalarE [elim!]: "values_at (JScalar x) vs"
inductive_cases values_at_arrayE [elim]: "values_at (JArray xs) vs"
inductive_cases values_at_objectE [elim]: "values_at (JObject kvs) vs"

lemma find_sound:
  "find_values_array j = Some vs \<Longrightarrow> values_at j vs"
  "find_in_items kvs = Some vs \<Longrightarrow> \<exists>(k, v) \<in> set kvs. values_at v vs"
  "find_in_array xs = Some vs \<Longrightarrow> \<exists>v \<in> set xs. values_at v vs"
  by (induction j and kvs and xs arbitrary: vs and vs and vs
      rule: find_values_array_find_in_items_find_in_array.induct)
     (fastforce intro: values_at.intros split: option.splits)+

lemma find_complete:
  "find_values_array j = None \<Longrightarrow> \<not> values_at j vs"
  "find_in_items kvs = None \<Longrightarrow> (k, v) \<in> set kvs \<Longrightarrow> \<not> values_at v vs"
  "find_in_array xs = None \<Longrightarrow> v \<in> set xs \<Longrightarrow> \<not> values_at v vs"
  by (induction j and kvs and xs arbitrary: vs and vs k v and vs v
      rule: find_values_array_find_in_items_find_in_array.induct)
     (fastforce split: option.splits)+

text \<open>
  C31. The tolerant search of the result document is sound and complete whatever the nesting:
  what it returns is the "values" array of some object in the document, and it returns
  nothing only if no object in the document has one.
\<close>

theorem find_values_array_correct:
  "(case find_values_array j of Some vs \<Rightarrow> values_at j vs | None \<Rightarrow> (\<nexists>vs. values_at j vs))"
  by (auto split: option.split dest: find_sound(1) find_complete(1))

end
