(* ===== verification/Haze_Epoch.thy ===== *)
theory Haze_Epoch
  imports Haze_Replay_Bridge Haze_Polynomial_IO
begin

text \<open>
  \<open>EpochState\<close> and the free functions of core/epoch.cpp. Operations that only edit the
  bookkeeping work on the record \<open>epoch\<close>; those that also call fhetch, the compiler, the
  allocator or the configuration work on \<open>haze\<close> and take the environment \<open>E\<close>. The
  diagnostics of \<open>record_internal_error\<close> go to stderr and are not part of the state.
  The epoch mutex makes each public operation one step; \<open>open_session\<close> is the constructor
  of \<open>EpochSession\<close>.
\<close>

section \<open>Recording\<close>

definition ensure_recording_locked :: "('p, 'm) haze \<Rightarrow> ('p, 'm) haze" where
  "ensure_recording_locked s =
     (if is_initialized s \<and> \<not> recording (hz_epoch s) then
        let s1 = start_recording (fh_emit (Compiler CompilerStartEpoch) s)
        in upd_epoch (\<lambda>ep. ep\<lparr>recording := True\<rparr>) s1
      else s)"

definition open_session :: "('p, 'm) fh_env \<Rightarrow> ('p, 'm) haze \<Rightarrow> ('p, 'm) haze" where
  "open_session E s = (case ensure_initialized E s of (_, s1) \<Rightarrow> ensure_recording_locked s1)"

section \<open>Groups and names\<close>

definition evict_member ::
    "string \<Rightarrow> (DevAddr \<rightharpoonup> string list) \<Rightarrow> DevAddr \<Rightarrow> (DevAddr \<rightharpoonup> string list)" where
  "evict_member name rmap member =
     (case rmap member of
        None \<Rightarrow> rmap
      | Some names \<Rightarrow>
          let names' = removeAll name names
          in if names' = [] then rmap(member := None) else rmap(member \<mapsto> names'))"

definition evict_mrp_group_locked :: "string \<Rightarrow> 'p epoch \<Rightarrow> 'p epoch" where
  "evict_mrp_group_locked name ep =
     (case known_mrp_groups ep name of
        None \<Rightarrow> ep
      | Some g \<Rightarrow>
          ep\<lparr>addr_to_mrp_groups := foldl (evict_member name) (addr_to_mrp_groups ep) (mg_addrs g),
             known_mrp_groups := (known_mrp_groups ep)(name := None),
             pending_mrp_groups := removeAll name (pending_mrp_groups ep)\<rparr>)"

definition invalidate :: "DevAddr \<Rightarrow> 'p epoch \<Rightarrow> 'p epoch" where
  "invalidate addr ep =
     (let ep1 = (case addr_to_mrp_groups ep addr of
                   None \<Rightarrow> ep
                 | Some group_names \<Rightarrow>
                     foldl (\<lambda>e name. evict_mrp_group_locked name e)
                       (ep\<lparr>addr_to_mrp_groups := (addr_to_mrp_groups ep)(addr := None)\<rparr>)
                       group_names)
      in ep1\<lparr>poly_map := (poly_map ep1)(addr := None),
             pending_outputs := al_erase addr (pending_outputs ep1),
             addr_modulus := (addr_modulus ep1)(addr := None),
             input_addrs := input_addrs ep1 - {addr},
             mrp_in_names := (mrp_in_names ep1)(addr := None),
             mrp_out_names := (mrp_out_names ep1)(addr := None)\<rparr>)"

definition mrp_group_name_locked :: "bool \<Rightarrow> DevAddr \<Rightarrow> 'p epoch \<Rightarrow> string \<times> 'p epoch" where
  "mrp_group_name_locked output leading ep =
     (if output then
        (case mrp_out_names ep leading of
           Some name \<Rightarrow> (name, ep)
         | None \<Rightarrow>
             let name = ''haze_mrp_out_'' @ to_string (unat (mrp_out_name_counter ep))
             in (name, ep\<lparr>mrp_out_name_counter := mrp_out_name_counter ep + 1,
                          mrp_out_names := (mrp_out_names ep)(leading \<mapsto> name)\<rparr>))
      else
        (case mrp_in_names ep leading of
           Some name \<Rightarrow> (name, ep)
         | None \<Rightarrow>
             let name = ''haze_mrp_in_'' @ to_string (unat (mrp_in_name_counter ep))
             in (name, ep\<lparr>mrp_in_name_counter := mrp_in_name_counter ep + 1,
                          mrp_in_names := (mrp_in_names ep)(leading \<mapsto> name)\<rparr>)))"

text \<open>\<open>pending_outputs_.emplace(a, "haze_out_" + ...)\<close> guarded by \<open>!contains(a)\<close>.\<close>

definition emplace_output :: "DevAddr \<Rightarrow> 'p epoch \<Rightarrow> 'p epoch" where
  "emplace_output a ep =
     (if a \<in> al_keys (pending_outputs ep) then ep
      else ep\<lparr>pending_outputs := al_emplace a
                (''haze_out_'' @ to_string (unat (output_counter ep))) (pending_outputs ep),
              output_counter := output_counter ep + 1\<rparr>)"

definition tag_output_locked :: "DevAddr \<Rightarrow> 'p epoch \<Rightarrow> unit expected \<times> 'p epoch" where
  "tag_output_locked addr ep =
     (if poly_map ep addr = None then (Inl SourceUnavailable, ep)
      else case addr_to_mrp_groups ep addr of
             Some group_names \<Rightarrow>
               (Inr (), foldl (\<lambda>e group_name.
                  (case known_mrp_groups e group_name of
                     None \<Rightarrow> e
                   | Some g \<Rightarrow>
                       let e1 = foldl (\<lambda>e a. emplace_output a e) e (mg_addrs g)
                       in e1\<lparr>pending_mrp_groups := ls_insert group_name (pending_mrp_groups e1)\<rparr>))
                  ep group_names)
           | None \<Rightarrow> (Inr (), emplace_output addr ep))"

section \<open>Registration of output groups\<close>

definition insert_rev ::
    "string \<Rightarrow> (DevAddr \<rightharpoonup> string list) \<Rightarrow> DevAddr \<Rightarrow> (DevAddr \<rightharpoonup> string list)" where
  "insert_rev name rmap a =
     rmap(a \<mapsto> ls_insert name (case rmap a of None \<Rightarrow> [] | Some names \<Rightarrow> names))"

text \<open>The conflict sweep: every group other than \<open>name\<close> claiming one of the addresses goes.\<close>

definition evict_conflicts :: "string \<Rightarrow> 'p epoch \<Rightarrow> DevAddr \<Rightarrow> 'p epoch" where
  "evict_conflicts name ep a =
     (case addr_to_mrp_groups ep a of
        None \<Rightarrow> ep
      | Some conflicting \<Rightarrow>
          foldl (\<lambda>e other. if other \<noteq> name then evict_mrp_group_locked other e else e)
            ep conflicting)"

definition register_mrp_output_group_locked ::
    "DevAddr list \<Rightarrow> u64 list \<Rightarrow> string \<Rightarrow> 'p epoch \<Rightarrow> unit expected \<times> 'p epoch" where
  "register_mrp_output_group_locked addrs moduli name ep =
     (if length addrs \<noteq> length moduli then (Inl MrpGroupAddrModuliMismatch, ep)
      else case known_mrp_groups ep name of
        Some g \<Rightarrow>
          if mg_addrs g = addrs \<and> moduli = take (length moduli) (mg_moduli g) then (Inr (), ep)
          else
            let ep1 = foldl (evict_conflicts name) ep addrs;
                rmap1 = foldl (evict_member name) (addr_to_mrp_groups ep1) (mg_addrs g);
                rmap2 = foldl (insert_rev name) rmap1 addrs;
                ep2 = ep1\<lparr>known_mrp_groups := (known_mrp_groups ep1)
                             (name \<mapsto> \<lparr>mg_addrs = addrs, mg_moduli = moduli\<rparr>),
                          addr_to_mrp_groups := rmap2\<rparr>
            in (Inr (), if name \<in> set (pending_mrp_groups ep2)
                        then foldl (\<lambda>e a. emplace_output a e) ep2 addrs else ep2)
      | None \<Rightarrow>
          let ep1 = foldl (evict_conflicts name) ep addrs
          in (Inr (), ep1\<lparr>known_mrp_groups := (known_mrp_groups ep1)
                             (name \<mapsto> \<lparr>mg_addrs = addrs, mg_moduli = moduli\<rparr>),
                          addr_to_mrp_groups :=
                             foldl (insert_rev name) (addr_to_mrp_groups ep1) addrs\<rparr>))"

section \<open>Bindings\<close>

definition lookup_or_create_locked ::
    "('p, 'm) fh_env \<Rightarrow> DevAddr \<Rightarrow> ('p, 'm) haze \<Rightarrow> 'p expected \<times> ('p, 'm) haze" where
  "lookup_or_create_locked E addr s =
     (case poly_map (hz_epoch s) addr of
        Some p \<Rightarrow> (Inr p, s)
      | None \<Rightarrow>
          let ring_dim = cfg_ring_dim (hz_config s) in
          case extract_polynomial_components addr ring_dim (hz_alloc s) of
            (Inl e, al) \<Rightarrow>
              (if e = NoData then Inl SourceUnavailable else Inl e, upd_alloc (\<lambda>_. al) s)
          | (Inr components, al) \<Rightarrow>
              let s1 = upd_alloc (\<lambda>_. al) s;
                  (poly, s2) = fh_poly E (FromData components ring_dim Evaluation) s1;
                  name = ''haze_in_'' @ to_string (unat (input_counter (hz_epoch s2)));
                  s3 = upd_epoch (\<lambda>ep. ep\<lparr>input_counter := input_counter ep + 1\<rparr>) s2;
                  s4 = fh_emit (Tag (TagInput name poly)) s3
              in (Inr poly, upd_epoch (\<lambda>ep. ep\<lparr>poly_map := (poly_map ep)(addr \<mapsto> poly),
                     input_addrs := insert addr (input_addrs ep)\<rparr>) s4))"

definition is_input_locked :: "DevAddr \<Rightarrow> 'p epoch \<Rightarrow> bool" where
  "is_input_locked addr ep \<longleftrightarrow> addr \<in> input_addrs ep"

definition store_compute_result_locked :: "DevAddr \<Rightarrow> 'p \<Rightarrow> u64 \<Rightarrow> 'p epoch \<Rightarrow> 'p epoch" where
  "store_compute_result_locked addr poly modulus ep =
     ep\<lparr>poly_map := (poly_map ep)(addr \<mapsto> poly),
        input_addrs := input_addrs ep - {addr},
        addr_modulus := (if modulus \<noteq> kCopyModulus then (addr_modulus ep)(addr \<mapsto> modulus)
                         else (addr_modulus ep)(addr := None))\<rparr>"

definition recorded_modulus_locked :: "DevAddr \<Rightarrow> 'p epoch \<Rightarrow> u64" where
  "recorded_modulus_locked addr ep =
     (case addr_modulus ep addr of None \<Rightarrow> kCopyModulus | Some q \<Rightarrow> q)"

definition copy_result_locked ::
    "('p, 'm) fh_env \<Rightarrow> DevAddr \<Rightarrow> DevAddr \<Rightarrow> u64 \<Rightarrow> ('p, 'm) haze \<Rightarrow>
     unit expected \<times> ('p, 'm) haze" where
  "copy_result_locked E dst src modulus s =
     (case lookup_or_create_locked E src s of
        (Inl e, s1) \<Rightarrow> (Inl e, s1)
      | (Inr src_poly, s1) \<Rightarrow>
          let q = (if modulus = kCopyModulus then recorded_modulus_locked src (hz_epoch s1)
                   else modulus);
              (cpy, s2) = fh_poly E (SrPS SrAddps src_poly 0 kCopyModulus) s1;
              s3 = (if q \<noteq> kCopyModulus then
                      upd_epoch (\<lambda>ep. ep\<lparr>addr_modulus := (addr_modulus ep)(src \<mapsto> q)\<rparr>)
                        (fh_emit (BindModulus cpy q) (fh_emit (BindModulus src_poly q) s2))
                    else s2)
          in (Inr (), upd_epoch (store_compute_result_locked dst cpy q) s3))"

definition tag_h2d_input_locked ::
    "('p, 'm) fh_env \<Rightarrow> DevAddr \<Rightarrow> ('p, 'm) haze \<Rightarrow> unit expected \<times> ('p, 'm) haze" where
  "tag_h2d_input_locked E addr s =
     (let ring_dim = cfg_ring_dim (hz_config s) in
      if ring_dim = 0 then (Inl NotConfigured, s)
      else case read_polynomial_components addr ring_dim (hz_alloc s) of
        Inl e \<Rightarrow> (Inl e, s)
      | Inr components \<Rightarrow>
          let (poly, s1) = fh_poly E (FromData components ring_dim Evaluation) s;
              name = ''haze_in_'' @ to_string (unat (input_counter (hz_epoch s1)));
              s2 = upd_epoch (\<lambda>ep. ep\<lparr>input_counter := input_counter ep + 1\<rparr>) s1;
              s3 = fh_emit (Tag (TagInput name poly)) s2
          in (Inr (), upd_epoch (\<lambda>ep. ep\<lparr>poly_map := (poly_map ep)(addr \<mapsto> poly),
                 pending_outputs := al_erase addr (pending_outputs ep),
                 input_addrs := insert addr (input_addrs ep)\<rparr>) s3))"

definition tag_mrp_input_if_new_locked :: "string \<Rightarrow> 'm \<Rightarrow> ('p, 'm) haze \<Rightarrow> ('p, 'm) haze" where
  "tag_mrp_input_if_new_locked name mrp s =
     (if name \<in> mrp_input_tagged_names (hz_epoch s) then s
      else fh_emit (Tag (TagInputMrp name mrp))
             (upd_epoch (\<lambda>ep. ep\<lparr>mrp_input_tagged_names :=
                insert name (mrp_input_tagged_names ep)\<rparr>) s))"

section \<open>Finalising an epoch\<close>

definition clear_state_locked :: "('p, 'm) haze \<Rightarrow> ('p, 'm) haze" where
  "clear_state_locked s =
     fh_emit (Compiler ClearCaptured)
       (upd_epoch (\<lambda>ep. ep\<lparr>poly_map := Map.empty, pending_outputs := [],
          addr_modulus := Map.empty, input_addrs := {}, known_mrp_groups := Map.empty,
          pending_mrp_groups := [], addr_to_mrp_groups := Map.empty,
          mrp_input_tagged_names := {}, mrp_in_names := Map.empty, mrp_out_names := Map.empty,
          recording := False, input_counter := 0, output_counter := 0,
          mrp_in_name_counter := 0, mrp_out_name_counter := 0\<rparr>) s)"

fun tag_srp_outputs ::
    "(DevAddr \<times> string) list \<Rightarrow> ('p, 'm) haze \<Rightarrow> unit expected \<times> ('p, 'm) haze" where
  "tag_srp_outputs [] s = (Inr (), s)"
| "tag_srp_outputs ((addr, name) # outs) s =
     (case poly_map (hz_epoch s) addr of
        None \<Rightarrow> (Inl MissingPolyMapBinding, s)
      | Some p \<Rightarrow> tag_srp_outputs outs (fh_emit (Tag (TagOutput name p)) s))"

text \<open>The pairs of one group; the registration guard makes the two vectors equally long.\<close>

fun group_pairs :: "(DevAddr \<rightharpoonup> 'p) \<Rightarrow> (DevAddr \<times> u64) list \<Rightarrow> ('p \<times> u64) list expected" where
  "group_pairs pm [] = Inr []"
| "group_pairs pm ((a, q) # rest) =
     (case pm a of
        None \<Rightarrow> Inl MissingPolyMapBinding
      | Some p \<Rightarrow> (case group_pairs pm rest of Inl e \<Rightarrow> Inl e | Inr ps \<Rightarrow> Inr ((p, q) # ps)))"

fun tag_mrp_outputs ::
    "('p, 'm) fh_env \<Rightarrow> string list \<Rightarrow> ('p, 'm) haze \<Rightarrow> unit expected \<times> ('p, 'm) haze" where
  "tag_mrp_outputs E [] s = (Inr (), s)"
| "tag_mrp_outputs E (name # names) s =
     (case known_mrp_groups (hz_epoch s) name of
        None \<Rightarrow> (Inl MissingPolyMapBinding, s)
      | Some g \<Rightarrow>
          (case group_pairs (poly_map (hz_epoch s)) (zip (mg_addrs g) (mg_moduli g)) of
             Inl e \<Rightarrow> (Inl e, s)
           | Inr pairs \<Rightarrow>
               tag_mrp_outputs E names
                 (fh_emit (Tag (TagOutputMrp name (mrp_from_pairs E pairs))) s)))"

definition tag_pending_outputs_locked ::
    "('p, 'm) fh_env \<Rightarrow> ('p, 'm) haze \<Rightarrow> unit expected \<times> ('p, 'm) haze" where
  "tag_pending_outputs_locked E s =
     (case tag_srp_outputs (pending_outputs (hz_epoch s)) s of
        (Inl e, s1) \<Rightarrow> (Inl e, s1)
      | (Inr _, s1) \<Rightarrow> tag_mrp_outputs E (pending_mrp_groups (hz_epoch s)) s1)"

text \<open>
  Step 3 of \<open>do_materialize_locked\<close>: every pending output is read back into its shadow; the
  first failure stops the loop (the caller clears the state in every case).
\<close>

fun populate_shadows ::
    "('p, 'm) fh_env \<Rightarrow> (DevAddr \<times> string) list \<Rightarrow> ('p, 'm) haze \<Rightarrow>
     unit expected \<times> ('p, 'm) haze" where
  "populate_shadows E [] s = (Inr (), s)"
| "populate_shadows E ((addr, name) # outs) s =
     (case fhetch_result E name s of
        (None, s1) \<Rightarrow> (Inl BackendOutputMissing, s1)
      | (Some result_poly, s1) \<Rightarrow>
          (case extract_polynomial_values E result_poly s1 of
             None \<Rightarrow> (Inl BackendOutputDecodeFailed, s1)
           | Some values \<Rightarrow>
               (case update_shadow addr values (hz_alloc s1) of
                  (Inl e, al) \<Rightarrow> (Inl e, upd_alloc (\<lambda>_. al) s1)
                | (Inr _, al) \<Rightarrow> populate_shadows E outs (upd_alloc (\<lambda>_. al) s1))))"

definition do_materialize_locked ::
    "('p, 'm) fh_env \<Rightarrow> bool \<Rightarrow> ('p, 'm) haze \<Rightarrow> unit expected \<times> ('p, 'm) haze" where
  "do_materialize_locked E run_replay s =
     (if \<not> recording (hz_epoch s) then (Inr (), s)
      else case stop_epoch E s of
        (False, s1) \<Rightarrow> (Inl BackendReplayFailed, clear_state_locked s1)
      | (True, s1) \<Rightarrow>
          (case hazeReplayBridgeTakeHookHadError s1 of
             (True, s2) \<Rightarrow> (Inl BridgeHookFailed, clear_state_locked s2)
           | (False, s2) \<Rightarrow>
               if \<not> run_replay then (Inr (), clear_state_locked s2)
               else
                 (case backend_replay E s2 of
                    (False, s3) \<Rightarrow> (Inl BackendReplayFailed, clear_state_locked s3)
                  | (True, s3) \<Rightarrow>
                      (case populate_shadows E (pending_outputs (hz_epoch s3)) s3 of
                         (Inl e, s4) \<Rightarrow> (Inl e, clear_state_locked s4)
                       | (Inr _, s4) \<Rightarrow> (Inr (), clear_state_locked s4)))))"

definition finalize_locked ::
    "('p, 'm) fh_env \<Rightarrow> bool \<Rightarrow> ('p, 'm) haze \<Rightarrow> unit expected \<times> ('p, 'm) haze" where
  "finalize_locked E run_replay s =
     (if \<not> recording (hz_epoch s) then (Inr (), s)
      else if pending_outputs (hz_epoch s) = [] \<and> pending_mrp_groups (hz_epoch s) = []
      then (Inr (), clear_state_locked s)
      else case tag_pending_outputs_locked E s of
             (Inl e, s1) \<Rightarrow> (Inl e, s1)
           | (Inr _, s1) \<Rightarrow> do_materialize_locked E run_replay s1)"

definition replay_and_populate ::
    "('p, 'm) fh_env \<Rightarrow> ('p, 'm) haze \<Rightarrow> unit expected \<times> ('p, 'm) haze" where
  "replay_and_populate E s = finalize_locked E True s"

definition materialize_only ::
    "('p, 'm) fh_env \<Rightarrow> ('p, 'm) haze \<Rightarrow> unit expected \<times> ('p, 'm) haze" where
  "materialize_only E s = finalize_locked E False s"

definition epoch_reset :: "('p, 'm) haze \<Rightarrow> ('p, 'm) haze" where
  "epoch_reset s = clear_state_locked s"

section \<open>Entry points\<close>

text \<open>\<open>None\<close>: the read past a short shadow vector (see \<open>copy_to_host\<close> of the allocator).\<close>

definition copy_to_host_entry ::
    "hostptr \<Rightarrow> DevAddr \<Rightarrow> u64 \<Rightarrow> ('p, 'm) haze \<Rightarrow> (unit expected \<times> ('p, 'm) haze) option" where
  "copy_to_host_entry dst src count s =
     (case copy_to_host (hz_host s) dst src count (hz_alloc s) of
        None \<Rightarrow> None
      | Some (r, hm) \<Rightarrow> Some (r, s\<lparr>hz_host := hm\<rparr>))"

definition write_program ::
    "('p, 'm) fh_env \<Rightarrow> ('p, 'm) haze \<Rightarrow> unit expected \<times> ('p, 'm) haze" where
  "write_program E s = materialize_only E s"

definition tag_output :: "DevAddr \<Rightarrow> ('p, 'm) haze \<Rightarrow> unit expected \<times> ('p, 'm) haze" where
  "tag_output addr s =
     (case tag_output_locked addr (hz_epoch s) of (r, ep) \<Rightarrow> (r, upd_epoch (\<lambda>_. ep) s))"

definition flush ::
    "('p, 'm) fh_env \<Rightarrow> ('p, 'm) haze \<Rightarrow> unit expected \<times> ('p, 'm) haze" where
  "flush E s =
     (let c = hz_config s in
      if (cf_montgomery c \<or> cf_bit_reversal c) \<and> cfg_target c = kLocalTarget
      then (Inl UnsupportedDataFormat, s)
      else replay_and_populate E s)"

definition copy_device_to_device ::
    "('p, 'm) fh_env \<Rightarrow> DevAddr \<Rightarrow> DevAddr \<Rightarrow> u64 \<Rightarrow> ('p, 'm) haze \<Rightarrow>
     unit expected \<times> ('p, 'm) haze" where
  "copy_device_to_device E dst src count s =
     copy_result_locked E dst src kCopyModulus (open_session E s)"

definition tag_h2d_input ::
    "('p, 'm) fh_env \<Rightarrow> DevAddr \<Rightarrow> ('p, 'm) haze \<Rightarrow> unit expected \<times> ('p, 'm) haze" where
  "tag_h2d_input E addr s = tag_h2d_input_locked E addr (open_session E s)"

end
