(* ===== verification/Haze_Epoch_Inv.thy ===== *)
theory Haze_Epoch_Inv
  imports Haze_Epoch
begin

text \<open>
  The bookkeeping invariant of \<open>EpochState\<close> that its comments state in pieces (pending
  outputs and live-in inputs are bound addresses, the reverse index mirrors the groups, an
  address belongs to at most one group, pending groups are known), and its preservation by
  every operation. The central lemmas reduce the sweeps of \<open>evict_mrp_group_locked\<close>,
  \<open>invalidate\<close> and \<open>register_mrp_output_group_locked\<close> to \<open>drop_groups\<close>.
\<close>

section \<open>The invariant\<close>

definition groups_inv :: "'p epoch \<Rightarrow> bool" where
  "groups_inv ep \<longleftrightarrow>
     (\<forall>n g. known_mrp_groups ep n = Some g \<longrightarrow>
        mg_addrs g \<noteq> [] \<and> length (mg_moduli g) = length (mg_addrs g) \<and>
        set (mg_addrs g) \<subseteq> dom (poly_map ep)) \<and>
     (\<forall>a ns. addr_to_mrp_groups ep a = Some ns \<longleftrightarrow>
        (\<exists>n g. ns = [n] \<and> known_mrp_groups ep n = Some g \<and> a \<in> set (mg_addrs g))) \<and>
     distinct (pending_mrp_groups ep) \<and>
     set (pending_mrp_groups ep) \<subseteq> dom (known_mrp_groups ep)"

definition bindings_inv :: "'p epoch \<Rightarrow> bool" where
  "bindings_inv ep \<longleftrightarrow>
     distinct (map fst (pending_outputs ep)) \<and>
     al_keys (pending_outputs ep) \<subseteq> dom (poly_map ep) \<and>
     input_addrs ep \<subseteq> dom (poly_map ep) \<and>
     dom (addr_modulus ep) \<subseteq> dom (poly_map ep)"

definition epoch_inv :: "'p epoch \<Rightarrow> bool" where
  "epoch_inv ep \<longleftrightarrow> groups_inv ep \<and> bindings_inv ep"

lemma epoch_inv_init: "epoch_inv epoch_init"
  by (simp add: epoch_inv_def groups_inv_def bindings_inv_def epoch_init_def)

lemma groups_inv_rev:
  "groups_inv ep \<Longrightarrow> addr_to_mrp_groups ep a = Some ns \<longleftrightarrow>
     (\<exists>n g. ns = [n] \<and> known_mrp_groups ep n = Some g \<and> a \<in> set (mg_addrs g))"
  unfolding groups_inv_def by blast

lemma groups_inv_member:
  "groups_inv ep \<Longrightarrow> known_mrp_groups ep n = Some g \<Longrightarrow> a \<in> set (mg_addrs g) \<Longrightarrow>
   addr_to_mrp_groups ep a = Some [n]"
  unfolding groups_inv_def by blast

lemma groups_inv_group:
  assumes "groups_inv ep" and "known_mrp_groups ep n = Some g"
  shows "mg_addrs g \<noteq> []" and "length (mg_moduli g) = length (mg_addrs g)"
    and "set (mg_addrs g) \<subseteq> dom (poly_map ep)"
  using assms unfolding groups_inv_def by blast+

lemma groups_inv_rev_cases:
  assumes "groups_inv ep"
  obtains "addr_to_mrp_groups ep a = None"
  | n g where "addr_to_mrp_groups ep a = Some [n]" and "known_mrp_groups ep n = Some g"
      and "a \<in> set (mg_addrs g)"
proof (cases "addr_to_mrp_groups ep a")
  case (Some ns)
  with groups_inv_rev [OF assms, of a ns] that(2) show thesis by auto
qed (rule that(1))

section \<open>Dropping groups\<close>

definition drop_groups :: "string set \<Rightarrow> 'p epoch \<Rightarrow> 'p epoch" where
  "drop_groups C ep = ep
     \<lparr>known_mrp_groups := (\<lambda>n. if n \<in> C then None else known_mrp_groups ep n),
      addr_to_mrp_groups := (\<lambda>a. if \<exists>n \<in> C. addr_to_mrp_groups ep a = Some [n] then None
                                 else addr_to_mrp_groups ep a),
      pending_mrp_groups := filter (\<lambda>n. n \<notin> C) (pending_mrp_groups ep)\<rparr>"

lemma drop_groups_simps [simp]:
  "poly_map (drop_groups C ep) = poly_map ep"
  "pending_outputs (drop_groups C ep) = pending_outputs ep"
  "input_addrs (drop_groups C ep) = input_addrs ep"
  "addr_modulus (drop_groups C ep) = addr_modulus ep"
  "known_mrp_groups (drop_groups C ep) = (\<lambda>n. if n \<in> C then None else known_mrp_groups ep n)"
  "addr_to_mrp_groups (drop_groups C ep) =
     (\<lambda>a. if \<exists>n \<in> C. addr_to_mrp_groups ep a = Some [n] then None else addr_to_mrp_groups ep a)"
  "pending_mrp_groups (drop_groups C ep) = filter (\<lambda>n. n \<notin> C) (pending_mrp_groups ep)"
  "mrp_in_names (drop_groups C ep) = mrp_in_names ep"
  "mrp_out_names (drop_groups C ep) = mrp_out_names ep"
  "mrp_in_name_counter (drop_groups C ep) = mrp_in_name_counter ep"
  "mrp_out_name_counter (drop_groups C ep) = mrp_out_name_counter ep"
  "mrp_input_tagged_names (drop_groups C ep) = mrp_input_tagged_names ep"
  "input_counter (drop_groups C ep) = input_counter ep"
  "output_counter (drop_groups C ep) = output_counter ep"
  "recording (drop_groups C ep) = recording ep"
  by (simp_all add: drop_groups_def)

lemma drop_groups_empty [simp]: "drop_groups {} ep = ep"
  by (rule epoch.equality) simp_all

lemma drop_groups_Un: "drop_groups D (drop_groups C ep) = drop_groups (C \<union> D) ep"
  by (rule epoch.equality) (auto simp: fun_eq_iff)

lemma groups_invI:
  assumes "\<And>n g. known_mrp_groups ep n = Some g \<Longrightarrow>
      mg_addrs g \<noteq> [] \<and> length (mg_moduli g) = length (mg_addrs g) \<and>
      set (mg_addrs g) \<subseteq> dom (poly_map ep)"
    and "\<And>a ns. addr_to_mrp_groups ep a = Some ns \<longleftrightarrow>
      (\<exists>n g. ns = [n] \<and> known_mrp_groups ep n = Some g \<and> a \<in> set (mg_addrs g))"
    and "distinct (pending_mrp_groups ep)"
    and "\<And>n. n \<in> set (pending_mrp_groups ep) \<Longrightarrow> known_mrp_groups ep n \<noteq> None"
  shows "groups_inv ep"
  using assms unfolding groups_inv_def by (auto simp: dom_def)

lemma groups_inv_pending:
  assumes "groups_inv ep"
  shows "distinct (pending_mrp_groups ep)"
    and "n \<in> set (pending_mrp_groups ep) \<Longrightarrow> known_mrp_groups ep n \<noteq> None"
  using assms unfolding groups_inv_def by (auto simp: dom_def)

lemma groups_inv_drop:
  assumes "groups_inv ep"
  shows "groups_inv (drop_groups C ep)"
proof (rule groups_invI)
  fix n g
  assume "known_mrp_groups (drop_groups C ep) n = Some g"
  then have "known_mrp_groups ep n = Some g" by (simp split: if_splits)
  with groups_inv_group [OF assms this]
  show "mg_addrs g \<noteq> [] \<and> length (mg_moduli g) = length (mg_addrs g) \<and>
      set (mg_addrs g) \<subseteq> dom (poly_map (drop_groups C ep))" by simp
next
  fix a ns
  show "addr_to_mrp_groups (drop_groups C ep) a = Some ns \<longleftrightarrow>
    (\<exists>n g. ns = [n] \<and> known_mrp_groups (drop_groups C ep) n = Some g \<and> a \<in> set (mg_addrs g))"
    by (cases rule: groups_inv_rev_cases [OF assms, of a])
       (auto dest: groups_inv_member [OF assms, where a = a])
next
  show "distinct (pending_mrp_groups (drop_groups C ep))"
    using groups_inv_pending(1) [OF assms] by simp
next
  fix n
  assume "n \<in> set (pending_mrp_groups (drop_groups C ep))"
  then show "known_mrp_groups (drop_groups C ep) n \<noteq> None"
    using groups_inv_pending(2) [OF assms, of n] by simp
qed

lemma evict_members:
  "foldl (evict_member n) rmap as a =
     (if a \<in> set as then
        (case rmap a of None \<Rightarrow> None
         | Some ns \<Rightarrow> if removeAll n ns = [] then None else Some (removeAll n ns))
      else rmap a)"
proof (induction as arbitrary: rmap)
  case Nil
  then show ?case by simp
next
  case (Cons b as)
  show ?case
    by (simp add: Cons.IH) (auto simp: evict_member_def Let_def split: option.splits)
qed

lemma evict_drop:
  assumes "groups_inv ep"
  shows "evict_mrp_group_locked n ep = drop_groups {n} ep"
proof (cases "known_mrp_groups ep n")
  case None
  then have "addr_to_mrp_groups ep a \<noteq> Some [n]" for a
    using groups_inv_rev [OF assms, of a "[n]"] by auto
  moreover have "n \<notin> set (pending_mrp_groups ep)"
    using assms None unfolding groups_inv_def by auto
  moreover from this have "filter (\<lambda>m. m \<noteq> n) (pending_mrp_groups ep) = pending_mrp_groups ep"
    by (auto simp: filter_id_conv)
  ultimately show ?thesis
    using None
    by (intro epoch.equality) (auto simp: evict_mrp_group_locked_def fun_eq_iff)
next
  case (Some g)
  have "foldl (evict_member n) (addr_to_mrp_groups ep) (mg_addrs g) a =
      (if addr_to_mrp_groups ep a = Some [n] then None else addr_to_mrp_groups ep a)" for a
    using groups_inv_member [OF assms Some, of a] groups_inv_rev [OF assms, of a "[n]"] Some
    by (auto simp: evict_members)
  then show ?thesis
    using Some
    by (intro epoch.equality)
       (auto simp: evict_mrp_group_locked_def fun_eq_iff removeAll_filter_not_eq intro!: filter_cong)
qed

lemma evict_conflicts_drop:
  assumes "groups_inv ep"
  shows "evict_conflicts name ep a =
    drop_groups {n. n \<noteq> name \<and> addr_to_mrp_groups ep a = Some [n]} ep"
proof (cases rule: groups_inv_rev_cases [OF assms, of a])
  case 1
  then show ?thesis by (simp add: evict_conflicts_def)
next
  case (2 n g)
  show ?thesis
  proof (cases "n = name")
    case True
    then have none: "{m. m \<noteq> name \<and> addr_to_mrp_groups ep a = Some [m]} = {}" using 2 by auto
    show ?thesis unfolding none using True 2 by (simp add: evict_conflicts_def)
  next
    case False
    then have one: "{m. m \<noteq> name \<and> addr_to_mrp_groups ep a = Some [m]} = {n}" using 2 by auto
    show ?thesis
      unfolding one using False 2 by (simp add: evict_conflicts_def evict_drop [OF assms])
  qed
qed

definition conflicts :: "string \<Rightarrow> DevAddr list \<Rightarrow> 'p epoch \<Rightarrow> string set" where
  "conflicts name addrs ep =
     {n. n \<noteq> name \<and> (\<exists>a \<in> set addrs. addr_to_mrp_groups ep a = Some [n])}"

lemma evict_conflicts_fold:
  assumes "groups_inv ep"
  shows "foldl (evict_conflicts name) ep addrs = drop_groups (conflicts name addrs ep) ep"
  using assms
proof (induction addrs arbitrary: ep)
  case Nil
  then show ?case by (simp add: conflicts_def)
next
  case (Cons a addrs)
  let ?C = "{n. n \<noteq> name \<and> addr_to_mrp_groups ep a = Some [n]}"
  have "?C \<union> conflicts name addrs (drop_groups ?C ep) = conflicts name (a # addrs) ep"
    by (auto simp: conflicts_def) (metis list.inject option.inject)
  then show ?case
    using Cons.IH [OF groups_inv_drop [OF Cons.prems], of ?C]
    by (simp add: evict_conflicts_drop [OF Cons.prems] drop_groups_Un)
qed

lemma insert_revs:
  assumes "\<And>a. a \<in> set as \<Longrightarrow> rmap a = None \<or> rmap a = Some [n]"
  shows "foldl (insert_rev n) rmap as a = (if a \<in> set as then Some [n] else rmap a)"
  using assms
proof (induction as arbitrary: rmap)
  case Nil
  then show ?case by simp
next
  case (Cons b as)
  have b: "insert_rev n rmap b = rmap(b \<mapsto> [n])"
    using Cons.prems [of b] by (auto simp: insert_rev_def ls_insert_def)
  show ?case
    unfolding foldl_Cons b
    by (subst Cons.IH) (use Cons.prems in auto)
qed

section \<open>Output tags\<close>

lemma emplace_output_simps [simp]:
  "poly_map (emplace_output a ep) = poly_map ep"
  "input_addrs (emplace_output a ep) = input_addrs ep"
  "addr_modulus (emplace_output a ep) = addr_modulus ep"
  "known_mrp_groups (emplace_output a ep) = known_mrp_groups ep"
  "addr_to_mrp_groups (emplace_output a ep) = addr_to_mrp_groups ep"
  "pending_mrp_groups (emplace_output a ep) = pending_mrp_groups ep"
  "mrp_in_names (emplace_output a ep) = mrp_in_names ep"
  "mrp_out_names (emplace_output a ep) = mrp_out_names ep"
  "mrp_in_name_counter (emplace_output a ep) = mrp_in_name_counter ep"
  "mrp_out_name_counter (emplace_output a ep) = mrp_out_name_counter ep"
  "mrp_input_tagged_names (emplace_output a ep) = mrp_input_tagged_names ep"
  "input_counter (emplace_output a ep) = input_counter ep"
  "recording (emplace_output a ep) = recording ep"
  "al_keys (pending_outputs (emplace_output a ep)) = insert a (al_keys (pending_outputs ep))"
  "distinct (map fst (pending_outputs (emplace_output a ep))) \<longleftrightarrow>
   distinct (map fst (pending_outputs ep))"
  by (auto simp: emplace_output_def)

abbreviation emplace_outputs :: "DevAddr list \<Rightarrow> 'p epoch \<Rightarrow> 'p epoch" where
  "emplace_outputs as ep \<equiv> foldl (\<lambda>e a. emplace_output a e) ep as"

lemma emplace_outputs_simps [simp]:
  "poly_map (emplace_outputs as ep) = poly_map ep"
  "input_addrs (emplace_outputs as ep) = input_addrs ep"
  "addr_modulus (emplace_outputs as ep) = addr_modulus ep"
  "known_mrp_groups (emplace_outputs as ep) = known_mrp_groups ep"
  "addr_to_mrp_groups (emplace_outputs as ep) = addr_to_mrp_groups ep"
  "pending_mrp_groups (emplace_outputs as ep) = pending_mrp_groups ep"
  "mrp_in_names (emplace_outputs as ep) = mrp_in_names ep"
  "mrp_out_names (emplace_outputs as ep) = mrp_out_names ep"
  "mrp_in_name_counter (emplace_outputs as ep) = mrp_in_name_counter ep"
  "mrp_out_name_counter (emplace_outputs as ep) = mrp_out_name_counter ep"
  "mrp_input_tagged_names (emplace_outputs as ep) = mrp_input_tagged_names ep"
  "input_counter (emplace_outputs as ep) = input_counter ep"
  "recording (emplace_outputs as ep) = recording ep"
  "al_keys (pending_outputs (emplace_outputs as ep)) = set as \<union> al_keys (pending_outputs ep)"
  "distinct (map fst (pending_outputs (emplace_outputs as ep))) \<longleftrightarrow>
   distinct (map fst (pending_outputs ep))"
  by (induction as arbitrary: ep) auto

section \<open>The operations on the bookkeeping\<close>

lemma epoch_invD:
  assumes "epoch_inv ep"
  shows "groups_inv ep" and "bindings_inv ep"
  using assms by (simp_all add: epoch_inv_def)

text \<open>Binding more addresses, or changing output tags, does not touch the groups.\<close>

lemma groups_inv_cong:
  assumes "groups_inv ep" and "known_mrp_groups ep' = known_mrp_groups ep"
    and "addr_to_mrp_groups ep' = addr_to_mrp_groups ep"
    and "pending_mrp_groups ep' = pending_mrp_groups ep"
    and "dom (poly_map ep) \<subseteq> dom (poly_map ep')"
  shows "groups_inv ep'"
proof (rule groups_invI)
  fix n g
  assume "known_mrp_groups ep' n = Some g"
  with groups_inv_group [OF assms(1), of n g] assms(2,5)
  show "mg_addrs g \<noteq> [] \<and> length (mg_moduli g) = length (mg_addrs g) \<and>
      set (mg_addrs g) \<subseteq> dom (poly_map ep')" by auto
qed (use assms groups_inv_rev [OF assms(1)] groups_inv_pending [OF assms(1)] in simp_all)

lemma epoch_inv_emplace_outputs:
  assumes "epoch_inv ep" and "set as \<subseteq> dom (poly_map ep)"
  shows "epoch_inv (emplace_outputs as ep)"
  using assms groups_inv_cong [of ep "emplace_outputs as ep"]
  by (simp add: epoch_inv_def bindings_inv_def)

lemma epoch_inv_store:
  assumes "epoch_inv ep"
  shows "epoch_inv (store_compute_result_locked a p q ep)"
proof -
  have "groups_inv (store_compute_result_locked a p q ep)"
    by (rule groups_inv_cong [OF epoch_invD(1) [OF assms]])
       (auto simp: store_compute_result_locked_def)
  with assms show ?thesis
    by (auto simp: epoch_inv_def bindings_inv_def store_compute_result_locked_def)
qed

lemma groups_inv_bind:
  "groups_inv ep \<Longrightarrow> groups_inv (ep\<lparr>poly_map := (poly_map ep)(a \<mapsto> p)\<rparr>)"
  by (rule groups_inv_cong) auto

lemma mrp_group_name_simps [simp]:
  "poly_map (snd (mrp_group_name_locked out a ep)) = poly_map ep"
  "pending_outputs (snd (mrp_group_name_locked out a ep)) = pending_outputs ep"
  "input_addrs (snd (mrp_group_name_locked out a ep)) = input_addrs ep"
  "addr_modulus (snd (mrp_group_name_locked out a ep)) = addr_modulus ep"
  "known_mrp_groups (snd (mrp_group_name_locked out a ep)) = known_mrp_groups ep"
  "addr_to_mrp_groups (snd (mrp_group_name_locked out a ep)) = addr_to_mrp_groups ep"
  "pending_mrp_groups (snd (mrp_group_name_locked out a ep)) = pending_mrp_groups ep"
  "output_counter (snd (mrp_group_name_locked out a ep)) = output_counter ep"
  "input_counter (snd (mrp_group_name_locked out a ep)) = input_counter ep"
  "mrp_input_tagged_names (snd (mrp_group_name_locked out a ep)) = mrp_input_tagged_names ep"
  "recording (snd (mrp_group_name_locked out a ep)) = recording ep"
  by (simp_all add: mrp_group_name_locked_def Let_def split: option.splits)

lemma epoch_inv_group_name:
  "epoch_inv ep \<Longrightarrow> epoch_inv (snd (mrp_group_name_locked out a ep))"
  using groups_inv_cong [of ep "snd (mrp_group_name_locked out a ep)"]
  by (simp add: epoch_inv_def bindings_inv_def)

text \<open>\<open>invalidate\<close> drops the address's group, then every trace of the address.\<close>

definition forget_addr :: "DevAddr \<Rightarrow> 'p epoch \<Rightarrow> 'p epoch" where
  "forget_addr addr ep = ep
     \<lparr>poly_map := (poly_map ep)(addr := None), pending_outputs := al_erase addr (pending_outputs ep),
      addr_modulus := (addr_modulus ep)(addr := None), input_addrs := input_addrs ep - {addr},
      mrp_in_names := (mrp_in_names ep)(addr := None),
      mrp_out_names := (mrp_out_names ep)(addr := None)\<rparr>"

lemma invalidate_drop:
  assumes "groups_inv ep"
  shows "invalidate addr ep =
    forget_addr addr (drop_groups {n. addr_to_mrp_groups ep addr = Some [n]} ep)"
proof (cases rule: groups_inv_rev_cases [OF assms, of addr])
  case 1
  then show ?thesis by (simp add: invalidate_def forget_addr_def)
next
  case (2 n g)
  have one: "{m. addr_to_mrp_groups ep addr = Some [m]} = {n}" using 2 by auto
  have "foldl (evict_member n) ((addr_to_mrp_groups ep)(addr := None)) (mg_addrs g) a =
      (if addr_to_mrp_groups ep a = Some [n] then None else addr_to_mrp_groups ep a)" for a
    using groups_inv_member [OF assms 2(2), of a] groups_inv_rev [OF assms, of a "[n]"] 2
    by (auto simp: evict_members)
  then have "evict_mrp_group_locked n
      (ep\<lparr>addr_to_mrp_groups := (addr_to_mrp_groups ep)(addr := None)\<rparr>) = drop_groups {n} ep"
    using 2
    by (intro epoch.equality)
       (auto simp: evict_mrp_group_locked_def fun_eq_iff removeAll_filter_not_eq
         intro!: filter_cong)
  then show ?thesis unfolding one using 2 by (simp add: invalidate_def forget_addr_def)
qed

lemma epoch_inv_invalidate:
  assumes "epoch_inv ep"
  shows "epoch_inv (invalidate addr ep)"
proof -
  note g = epoch_invD(1) [OF assms] and b = epoch_invD(2) [OF assms]
  define C where "C = {n. addr_to_mrp_groups ep addr = Some [n]}"
  have dropped: "groups_inv (drop_groups C ep)" using g by (rule groups_inv_drop)
  have away: "addr \<notin> set (mg_addrs h)" if "known_mrp_groups (drop_groups C ep) n = Some h" for n h
  proof
    assume "addr \<in> set (mg_addrs h)"
    with that have "addr_to_mrp_groups ep addr = Some [n]" and "n \<notin> C"
      using groups_inv_member [OF g, of n h addr] by (auto split: if_splits)
    then show False by (simp add: C_def)
  qed
  have "groups_inv (forget_addr addr (drop_groups C ep))"
  proof (rule groups_invI)
    fix n h
    assume h: "known_mrp_groups (forget_addr addr (drop_groups C ep)) n = Some h"
    then have "known_mrp_groups (drop_groups C ep) n = Some h" by (simp add: forget_addr_def)
    with groups_inv_group [OF dropped this] away [OF this]
    show "mg_addrs h \<noteq> [] \<and> length (mg_moduli h) = length (mg_addrs h) \<and>
        set (mg_addrs h) \<subseteq> dom (poly_map (forget_addr addr (drop_groups C ep)))"
      by (auto simp: forget_addr_def)
  next
    fix a ns
    show "addr_to_mrp_groups (forget_addr addr (drop_groups C ep)) a = Some ns \<longleftrightarrow>
      (\<exists>n h. ns = [n] \<and> known_mrp_groups (forget_addr addr (drop_groups C ep)) n = Some h \<and>
         a \<in> set (mg_addrs h))"
      using groups_inv_rev [OF dropped, of a ns] by (simp add: forget_addr_def)
  qed (use groups_inv_pending [OF dropped] in \<open>simp_all add: forget_addr_def\<close>)
  moreover have "bindings_inv (forget_addr addr (drop_groups C ep))"
    using b by (auto simp: bindings_inv_def forget_addr_def)
  ultimately show ?thesis
    by (simp add: invalidate_drop [OF g] epoch_inv_def C_def)
qed

text \<open>Tagging an output: the address's group as a whole, or the address alone.\<close>

lemma tag_output_cases:
  assumes "groups_inv ep"
  shows "tag_output_locked addr ep =
    (if poly_map ep addr = None then (Inl SourceUnavailable, ep)
     else (Inr (), case addr_to_mrp_groups ep addr of
        None \<Rightarrow> emplace_output addr ep
      | Some ns \<Rightarrow>
          (let e = emplace_outputs (mg_addrs (the (known_mrp_groups ep (hd ns)))) ep
           in e\<lparr>pending_mrp_groups := ls_insert (hd ns) (pending_mrp_groups ep)\<rparr>)))"
  by (cases rule: groups_inv_rev_cases [OF assms, of addr])
     (auto simp: tag_output_locked_def Let_def)

lemma epoch_inv_tag_output:
  assumes "epoch_inv ep"
  shows "epoch_inv (snd (tag_output_locked addr ep))"
proof (cases "poly_map ep addr")
  case None
  with assms show ?thesis by (simp add: tag_output_locked_def)
next
  case (Some p)
  note g = epoch_invD(1) [OF assms]
  show ?thesis
  proof (cases rule: groups_inv_rev_cases [OF g, of addr])
    case 1
    then show ?thesis
      using Some epoch_inv_emplace_outputs [OF assms, of "[addr]"] tag_output_cases [OF g, of addr]
      by auto
  next
    case (2 n h)
    let ?e = "emplace_outputs (mg_addrs h) ep"
    have "epoch_inv ?e"
      using epoch_inv_emplace_outputs [OF assms] groups_inv_group(3) [OF g 2(2)] by blast
    then have "epoch_inv (?e\<lparr>pending_mrp_groups := ls_insert n (pending_mrp_groups ep)\<rparr>)"
      using 2(2) by (auto simp: epoch_inv_def groups_inv_def bindings_inv_def)
    with 2 Some show ?thesis by (simp add: tag_output_cases [OF g] Let_def)
  qed
qed

text \<open>Registration, as one update.\<close>

definition same_group :: "DevAddr list \<Rightarrow> u64 list \<Rightarrow> string \<Rightarrow> 'p epoch \<Rightarrow> bool" where
  "same_group addrs moduli name ep \<longleftrightarrow>
     known_mrp_groups ep name = Some \<lparr>mg_addrs = addrs, mg_moduli = moduli\<rparr>"

definition install_group :: "DevAddr list \<Rightarrow> u64 list \<Rightarrow> string \<Rightarrow> 'p epoch \<Rightarrow> 'p epoch" where
  "install_group addrs moduli name ep =
     (let ep1 = drop_groups (conflicts name addrs ep) ep
      in ep1\<lparr>known_mrp_groups := (known_mrp_groups ep1)
                (name \<mapsto> \<lparr>mg_addrs = addrs, mg_moduli = moduli\<rparr>),
             addr_to_mrp_groups := (\<lambda>a. if a \<in> set addrs then Some [name]
                else if addr_to_mrp_groups ep1 a = Some [name] then None
                else addr_to_mrp_groups ep1 a)\<rparr>)"

lemma conflicts_gone:
  assumes "groups_inv ep" and "a \<in> set addrs"
  shows "addr_to_mrp_groups (drop_groups (conflicts name addrs ep) ep) a \<in> {None, Some [name]}"
  using assms(2)
  by (cases rule: groups_inv_rev_cases [OF assms(1), of a]) (auto simp: conflicts_def)

lemma register_cases:
  assumes "groups_inv ep" and "length addrs = length moduli"
  shows "register_mrp_output_group_locked addrs moduli name ep =
    (Inr (), if same_group addrs moduli name ep then ep
       else let ep2 = install_group addrs moduli name ep
            in if name \<in> set (pending_mrp_groups ep) then emplace_outputs addrs ep2 else ep2)"
proof (cases "known_mrp_groups ep name")
  case None
  define ep1 where "ep1 = drop_groups (conflicts name addrs ep) ep"
  have "name \<notin> set (pending_mrp_groups ep)"
    using groups_inv_pending(2) [OF assms(1), of name] None by blast
  moreover have "addr_to_mrp_groups ep1 a \<noteq> Some [name]" for a
    using groups_inv_rev [OF assms(1), of a "[name]"] None by (auto simp: ep1_def)
  moreover have "foldl (insert_rev name) (addr_to_mrp_groups ep1) addrs a =
      (if a \<in> set addrs then Some [name] else addr_to_mrp_groups ep1 a)" for a
    using conflicts_gone [OF assms(1)] by (intro insert_revs) (auto simp: ep1_def)
  ultimately have "ep1\<lparr>known_mrp_groups := (known_mrp_groups ep1)
         (name \<mapsto> \<lparr>mg_addrs = addrs, mg_moduli = moduli\<rparr>),
       addr_to_mrp_groups := foldl (insert_rev name) (addr_to_mrp_groups ep1) addrs\<rparr>
     = install_group addrs moduli name ep"
    by (intro epoch.equality) (auto simp: install_group_def ep1_def [symmetric] Let_def)
  with None \<open>name \<notin> _\<close> assms show ?thesis
    by (simp add: register_mrp_output_group_locked_def evict_conflicts_fold [OF assms(1)]
        same_group_def ep1_def Let_def)
next
  case (Some g)
  define ep1 where "ep1 = drop_groups (conflicts name addrs ep) ep"
  have k1: "known_mrp_groups ep1 name = Some g" and g1: "groups_inv ep1"
    using Some groups_inv_drop [OF assms(1)] by (simp_all add: ep1_def conflicts_def)
  have same: "same_group addrs moduli name ep \<longleftrightarrow>
      mg_addrs g = addrs \<and> moduli = take (length moduli) (mg_moduli g)"
    using groups_inv_group(2) [OF assms(1) Some] assms(2) Some
    by (auto simp: same_group_def intro: mrp_group.equality)
  have gone: "a \<in> set addrs \<Longrightarrow> addr_to_mrp_groups ep1 a \<in> {None, Some [name]}" for a
    using conflicts_gone [OF assms(1)] by (simp add: ep1_def)
  have old: "foldl (evict_member name) (addr_to_mrp_groups ep1) (mg_addrs g) a =
      (if addr_to_mrp_groups ep1 a = Some [name] then None else addr_to_mrp_groups ep1 a)" for a
    using groups_inv_member [OF g1 k1, of a] groups_inv_rev [OF g1, of a "[name]"] k1
    by (auto simp: evict_members)
  have "foldl (insert_rev name)
        (foldl (evict_member name) (addr_to_mrp_groups ep1) (mg_addrs g)) addrs a =
      (if a \<in> set addrs then Some [name]
       else if addr_to_mrp_groups ep1 a = Some [name] then None else addr_to_mrp_groups ep1 a)" for a
    using gone by (subst insert_revs) (auto simp: old)
  then have "ep1\<lparr>known_mrp_groups := (known_mrp_groups ep1)
         (name \<mapsto> \<lparr>mg_addrs = addrs, mg_moduli = moduli\<rparr>),
       addr_to_mrp_groups := foldl (insert_rev name)
         (foldl (evict_member name) (addr_to_mrp_groups ep1) (mg_addrs g)) addrs\<rparr>
     = install_group addrs moduli name ep"
    by (intro epoch.equality) (auto simp: install_group_def ep1_def [symmetric] Let_def)
  moreover have "name \<in> set (pending_mrp_groups ep1) \<longleftrightarrow> name \<in> set (pending_mrp_groups ep)"
    by (simp add: ep1_def conflicts_def)
  ultimately show ?thesis
    using Some assms same
    by (simp add: register_mrp_output_group_locked_def evict_conflicts_fold [OF assms(1)]
        ep1_def [symmetric] Let_def)
qed

lemma install_group_simps [simp]:
  "poly_map (install_group as qs n ep) = poly_map ep"
  "pending_outputs (install_group as qs n ep) = pending_outputs ep"
  "input_addrs (install_group as qs n ep) = input_addrs ep"
  "addr_modulus (install_group as qs n ep) = addr_modulus ep"
  "mrp_in_names (install_group as qs n ep) = mrp_in_names ep"
  "mrp_out_names (install_group as qs n ep) = mrp_out_names ep"
  "mrp_out_name_counter (install_group as qs n ep) = mrp_out_name_counter ep"
  "output_counter (install_group as qs n ep) = output_counter ep"
  "input_counter (install_group as qs n ep) = input_counter ep"
  "mrp_input_tagged_names (install_group as qs n ep) = mrp_input_tagged_names ep"
  "recording (install_group as qs n ep) = recording ep"
  by (simp_all add: install_group_def Let_def)

lemma groups_inv_install:
  assumes "groups_inv ep" and "length addrs = length moduli" and "addrs \<noteq> []"
    and "set addrs \<subseteq> dom (poly_map ep)"
  shows "groups_inv (install_group addrs moduli name ep)"
proof -
  define ep1 where "ep1 = drop_groups (conflicts name addrs ep) ep"
  have g1: "groups_inv ep1" using groups_inv_drop [OF assms(1)] by (simp add: ep1_def)
  have gone: "a \<in> set addrs \<Longrightarrow> addr_to_mrp_groups ep1 a \<in> {None, Some [name]}" for a
    using conflicts_gone [OF assms(1)] by (simp add: ep1_def)
  show ?thesis
  proof (rule groups_invI)
    fix n g
    assume "known_mrp_groups (install_group addrs moduli name ep) n = Some g"
    then have "n = name \<and> g = \<lparr>mg_addrs = addrs, mg_moduli = moduli\<rparr> \<or>
        known_mrp_groups ep1 n = Some g"
      by (auto simp: install_group_def ep1_def Let_def split: if_splits)
    then show "mg_addrs g \<noteq> [] \<and> length (mg_moduli g) = length (mg_addrs g) \<and>
        set (mg_addrs g) \<subseteq> dom (poly_map (install_group addrs moduli name ep))"
      using groups_inv_group [OF g1, of n g] assms by (auto simp: ep1_def)
  next
    fix a ns
    show "addr_to_mrp_groups (install_group addrs moduli name ep) a = Some ns \<longleftrightarrow>
      (\<exists>n g. ns = [n] \<and> known_mrp_groups (install_group addrs moduli name ep) n = Some g \<and>
         a \<in> set (mg_addrs g))"
    proof (cases "a \<in> set addrs")
      case True
      then have "n = name" if "known_mrp_groups ep1 n = Some g" "a \<in> set (mg_addrs g)" for n g
        using gone [of a] groups_inv_member [OF g1 that] by simp
      with True show ?thesis
        by (auto simp: install_group_def ep1_def [symmetric] Let_def)
    next
      case False
      with groups_inv_rev [OF g1, of a ns] groups_inv_rev [OF g1, of a "[name]"] show ?thesis
        by (auto simp: install_group_def ep1_def [symmetric] Let_def)
    qed
  qed (use groups_inv_pending [OF g1] in \<open>auto simp: install_group_def ep1_def Let_def\<close>)
qed

lemma epoch_inv_register:
  assumes "epoch_inv ep" and "moduli \<noteq> []" and "set addrs \<subseteq> dom (poly_map ep)"
  shows "epoch_inv (snd (register_mrp_output_group_locked addrs moduli name ep))"
proof (cases "length addrs = length moduli")
  case False
  with assms show ?thesis by (simp add: register_mrp_output_group_locked_def)
next
  case True
  with assms(2) have "addrs \<noteq> []" by auto
  then have "epoch_inv (install_group addrs moduli name ep)"
    using groups_inv_install [OF epoch_invD(1) [OF assms(1)] True] assms
    by (simp add: epoch_inv_def bindings_inv_def)
  with epoch_inv_emplace_outputs [OF this, of addrs] assms show ?thesis
    by (simp add: register_cases [OF epoch_invD(1) [OF assms(1)] True] Let_def)
qed

end
