(* ===== verification/Haze_Allocator_Spec.thy ===== *)
theory Haze_Allocator_Spec
  imports Haze_Allocator_Inv
begin

text \<open>
  What the allocator promises its clients: the results of allocation and release on every
  branch, freshness and disjointness of what it hands out, byte-exact transfers in and out
  of shadow storage, and the conditions under which a read-back is well defined. The
  locale \<open>shadow_store\<close> is the part of this contract the epoch relies on at flush time.
\<close>

section \<open>The store contract\<close>

fun put_list ::
    "('a \<Rightarrow> 'v \<Rightarrow> 's \<Rightarrow> unit expected \<times> 's) \<Rightarrow> ('a \<times> 'v) list \<Rightarrow> 's \<Rightarrow> unit expected \<times> 's" where
  "put_list put [] s = (Inr (), s)"
| "put_list put ((a, v) # ps) s =
     (case put a v s of (Inl e, s1) \<Rightarrow> (Inl e, s1) | (Inr _, s1) \<Rightarrow> put_list put ps s1)"

locale shadow_store =
  fixes live :: "'s \<Rightarrow> 'a set"
    and shadow :: "'s \<Rightarrow> 'a \<Rightarrow> 'v option"
    and fit :: "'s \<Rightarrow> 'v \<Rightarrow> 'v"
    and put :: "'a \<Rightarrow> 'v \<Rightarrow> 's \<Rightarrow> unit expected \<times> 's"
  assumes put_live: "a \<in> live s \<Longrightarrow> fst (put a v s) = Inr ()"
    and put_dead: "a \<notin> live s \<Longrightarrow> put a v s = (Inl UnknownAddress, s)"
    and shadow_put: "a \<in> live s \<Longrightarrow> shadow (snd (put a v s)) = (shadow s)(a \<mapsto> fit s v)"
    and live_put: "live (snd (put a v s)) = live s"
    and fit_put: "fit (snd (put a v s)) = fit s"
begin

lemma put_frame: "b \<noteq> a \<Longrightarrow> shadow (snd (put a v s)) b = shadow s b"
  by (cases "a \<in> live s") (simp_all add: shadow_put put_dead)

lemma put_list_ok:
  "fst ` set ps \<subseteq> live s \<Longrightarrow> fst (put_list put ps s) = Inr ()"
  by (induction ps arbitrary: s)
     (auto simp: put_live live_put split: prod.splits sum.splits dest: arg_cong [of _ _ fst],
      (metis put_live fst_conv sum.distinct(1) live_put snd_conv)+)

lemma put_list_frame:
  "live (snd (put_list put ps s)) = live s \<and> fit (snd (put_list put ps s)) = fit s \<and>
   (\<forall>b. b \<notin> fst ` set ps \<longrightarrow> shadow (snd (put_list put ps s)) b = shadow s b)"
proof (induction ps arbitrary: s)
  case Nil
  then show ?case by simp
next
  case (Cons p ps)
  obtain a v where p: "p = (a, v)" by (cases p)
  obtain r s1 where put: "put a v s = (r, s1)" by (cases "put a v s")
  then have "live s1 = live s" "fit s1 = fit s" "\<And>b. b \<noteq> a \<Longrightarrow> shadow s1 b = shadow s b"
    using live_put [of a v s] fit_put [of a v s] put_frame [of _ a v s] by simp_all
  then show ?case using Cons.IH [of s1] by (cases r) (simp_all add: p put)
qed

lemma put_list_shadow:
  assumes "fst ` set ps \<subseteq> live s" and "distinct (map fst ps)" and "(a, v) \<in> set ps"
  shows "shadow (snd (put_list put ps s)) a = Some (fit s v)"
  using assms
proof (induction ps arbitrary: s)
  case Nil
  then show ?case by simp
next
  case (Cons p ps)
  obtain b w where p: "p = (b, w)" by (cases p)
  obtain s1 where put: "put b w s = (Inr (), s1)"
    using Cons.prems(1) put_live [of b s w] by (cases "put b w s") (auto simp: p)
  have l: "live s1 = live s" and f: "fit s1 = fit s"
    using live_put [of b w s] fit_put [of b w s] by (simp_all add: put)
  show ?case
  proof (cases "a = b")
    case True
    with Cons.prems p have "a \<notin> fst ` set ps" and "v = w" by (force)+
    then show ?thesis
      using put_list_frame [of ps s1] shadow_put [of b s w] Cons.prems(1) True
      by (simp add: p put)
  next
    case False
    then show ?thesis using Cons.IH [of s1] Cons.prems by (auto simp: p put l f)
  qed
qed

lemma put_list_dead:
  assumes "\<not> fst ` set ps \<subseteq> live s"
  shows "fst (put_list put ps s) = Inl UnknownAddress"
  using assms
proof (induction ps arbitrary: s)
  case Nil
  then show ?case by simp
next
  case (Cons p ps)
  obtain a v where p: "p = (a, v)" by (cases p)
  show ?case
  proof (cases "a \<in> live s")
    case False
    then show ?thesis by (simp add: p put_dead)
  next
    case True
    obtain s1 where put: "put a v s = (Inr (), s1)"
      using put_live [OF True, of v] by (cases "put a v s") auto
    have "live s1 = live s" using live_put [of a v s] by (simp add: put)
    then show ?thesis using Cons True by (auto simp: p put)
  qed
qed

end

interpretation shadow: shadow_store alloc_set shadow_data "\<lambda>al. resize0 (want_elems al)" update_shadow
  by unfold_locales (auto simp: update_shadow_def want_elems_def Let_def)

section \<open>Allocation\<close>

lemma allocate_result:
  assumes "alloc_inv al"
  shows "fst (allocate n al) =
    (if poly_bytes al = 0 then Inl NotConfigured
     else if n \<noteq> poly_bytes al then Inl AllocTooSmall
     else Inr (next_alloc al))"
proof -
  obtain al' where "allocate_one_locked al = (Inr (next_alloc al), al')"
    using allocate_one_inv [OF assms] by metis
  then show ?thesis by (simp add: allocate_def validate_poly_size_locked_def)
qed

text \<open>
  C20. After any history of allocator calls, the free list holds no duplicate and no live
  address and only live addresses carry shadow bytes. A single allocation therefore fails only
  for an unset polynomial size or a wrong size, never with PoolMapDesync. A batch of none is
  empty whatever its size; any other fails for those two reasons only and then changes nothing,
  and otherwise succeeds with a list of \<open>count\<close> addresses, which it makes live, and no others.
\<close>

theorem allocation_after_any_history:
  "let al = foldl alloc_step allocator_init ops in
     distinct (pool_free al) \<and> set (pool_free al) \<inter> alloc_set al = {} \<and>
     dom (shadow_data al) \<subseteq> alloc_set al \<and>
     fst (allocate n al) =
       (if poly_bytes al = 0 then Inl NotConfigured
        else if n \<noteq> poly_bytes al then Inl AllocTooSmall
        else Inr (if pool_free al = [] then next_addr al else last (pool_free al))) \<and>
     (if count = 0 then allocate_many count n al = (Inr [], al)
      else if poly_bytes al = 0 then allocate_many count n al = (Inl NotConfigured, al)
      else if n \<noteq> poly_bytes al then allocate_many count n al = (Inl AllocTooSmall, al)
      else \<exists>new al'. allocate_many count n al = (Inr new, al') \<and> length new = unat count \<and>
        alloc_set al' = alloc_set al \<union> set new)"
proof -
  define al where "al = foldl alloc_step allocator_init ops"
  have inv: "alloc_inv al" unfolding al_def by (rule alloc_history.invar_run)
  have many: "\<exists>new al'. allocate_many count n al = (Inr new, al') \<and> length new = unat count \<and>
      alloc_set al' = alloc_set al \<union> set new" if "poly_bytes al \<noteq> 0" "n = poly_bytes al"
    using allocate_many_inv [OF inv that, of count] by metis
  have refused: "allocate_many count n al = (Inl (if poly_bytes al = 0 then NotConfigured else AllocTooSmall), al)"
    if "count \<noteq> 0" "poly_bytes al = 0 \<or> n \<noteq> poly_bytes al"
    using that by (auto simp: allocate_many_def validate_poly_size_locked_def)
  show ?thesis
    unfolding al_def [symmetric] Let_def
    using inv many refused allocate_result [OF inv, of n]
    by (simp add: alloc_inv_def next_alloc_def) (simp add: allocate_many_def)
qed

lemma allocate_loop_fresh:
  assumes "alloc_inv al" and "issued_inv al" and "poly_bytes al \<noteq> 0"
    and "unat (next_addr al) + n * unat (poly_bytes al) < 2 ^ 64"
    and "allocate_loop n out al = (Inr (out @ new), al')"
  shows "distinct new \<and> set new \<inter> alloc_set al = {} \<and> 0 \<notin> set new \<and>
    alloc_inv al' \<and> issued_inv al'"
  using assms
proof (induction n arbitrary: al out new)
  case 0
  then show ?case by simp
next
  case (Suc n)
  let ?a = "next_alloc al"
  obtain al1 where one: "allocate_one_locked al = (Inr ?a, al1)" "alloc_inv al1"
      "alloc_set al1 = insert ?a (alloc_set al)" "poly_bytes al1 = poly_bytes al"
    using allocate_one_inv [OF Suc.prems(1)] by metis
  have room: "unat (next_addr al) + unat (poly_bytes al) < 2 ^ 64"
    using Suc.prems(4) by (simp add: algebra_simps)
  note iss = allocate_one_issued [OF Suc.prems(1-3) room one(1)]
  obtain rest al'' where rest: "allocate_loop n (out @ [?a]) al1 = (Inr ((out @ [?a]) @ rest), al'')"
    using allocate_loop_inv [OF one(2)] by metis
  from Suc.prems(5) one(1) rest have new: "new = ?a # rest" "al'' = al'" by auto
  have "distinct rest \<and> set rest \<inter> alloc_set al1 = {} \<and> 0 \<notin> set rest \<and>
      alloc_inv al' \<and> issued_inv al'"
  proof (rule Suc.IH [OF one(2) iss(1)])
    show "poly_bytes al1 \<noteq> 0" using one(4) Suc.prems(3) by simp
    show "unat (next_addr al1) + n * unat (poly_bytes al1) < 2 ^ 64"
      using iss(2) one(4) Suc.prems(4) by (simp add: algebra_simps)
    show "allocate_loop n (out @ [?a]) al1 = (Inr ((out @ [?a]) @ rest), al')"
      using rest new by simp
  qed
  with new(1) one(3) next_alloc_fresh [OF Suc.prems(1,2)] show ?case by auto
qed

text \<open>
  A batched reservation is safe to hand out: as long as the address counter cannot
  wrap, the \<open>count\<close> addresses are pairwise distinct, none was live before, none is null,
  all are live afterwards, no shadow bytes change, and the invariants hold again.
\<close>

theorem allocate_many_fresh:
  assumes "alloc_inv al" and "issued_inv al" and "poly_bytes al \<noteq> 0"
    and "unat (next_addr al) + unat count * unat (poly_bytes al) < 2 ^ 64"
  shows "\<exists>new al'. allocate_many count (poly_bytes al) al = (Inr new, al') \<and>
    length new = unat count \<and> distinct new \<and> set new \<inter> alloc_set al = {} \<and> 0 \<notin> set new \<and>
    alloc_set al' = alloc_set al \<union> set new \<and> shadow_data al' = shadow_data al \<and>
    alloc_inv al' \<and> issued_inv al'"
proof -
  obtain new al' where many: "allocate_many count (poly_bytes al) al = (Inr new, al')"
      "length new = unat count" "alloc_set al' = alloc_set al \<union> set new"
      "shadow_data al' = shadow_data al"
    using allocate_many_inv [OF assms(1,3) refl] by metis
  have "distinct new \<and> set new \<inter> alloc_set al = {} \<and> 0 \<notin> set new \<and>
      alloc_inv al' \<and> issued_inv al'"
  proof (cases "count = 0")
    case True
    with many assms show ?thesis by (simp add: allocate_many_def)
  next
    case False
    with many(1) assms(3) have "allocate_loop (unat count) [] al = (Inr ([] @ new), al')"
      by (simp add: allocate_many_def validate_poly_size_locked_def)
    then show ?thesis by (rule allocate_loop_fresh [OF assms])
  qed
  with many show ?thesis by blast
qed

theorem allocate_many_fresh_witness:
  "\<exists>new al'. allocate_many 3 32 (allocator_init\<lparr>poly_bytes := 32, pool_free := [kHbmBase],
      next_addr := kHbmBase + 32\<rparr>) = (Inr new, al') \<and> length new = 3 \<and> distinct new"
proof -
  let ?al = "allocator_init\<lparr>poly_bytes := 32, pool_free := [kHbmBase], next_addr := kHbmBase + 32\<rparr>"
  have "alloc_inv ?al" by (simp add: alloc_inv_def allocator_init_def)
  moreover have "issued_inv ?al"
    by (simp add: issued_inv_def issued_def allocator_init_def kHbmBase_def)
  moreover have "unat (next_addr ?al) + unat (3 :: u64) * unat (poly_bytes ?al) < 2 ^ 64"
    by (simp add: kHbmBase_def)
  ultimately show ?thesis using allocate_many_fresh [of ?al 3] by auto
qed

lemma rollback_alloc_set:
  "alloc_set (foldl (\<lambda>al a. snd (free_one_locked a al)) al out) = alloc_set al - set out"
  by (induction out arbitrary: al) (auto simp: free_one_locked_def)

lemma allocate_loop_empty_pool:
  "pool_free al = [] \<Longrightarrow> \<exists>new al'. allocate_loop n out al = (Inr (out @ new), al')"
proof (induction n arbitrary: al out)
  case 0
  then show ?case by simp
next
  case (Suc n)
  let ?al1 = "al\<lparr>next_addr := next_addr al + poly_bytes al,
                alloc_set := insert (next_addr al) (alloc_set al)\<rparr>"
  have "pool_free ?al1 = []" using Suc.prems by simp
  from Suc.IH [OF this, of "out @ [next_addr al]"] show ?case
    using Suc.prems by (auto simp: allocate_one_bump)
qed

lemma allocate_loop_failure:
  assumes "allocate_loop n out al = (Inl e, al')"
  shows "alloc_set al' = alloc_set al - set out \<and> e = PoolMapDesync"
  using assms
proof (induction n arbitrary: al out)
  case 0
  then show ?case by simp
next
  case (Suc n)
  have pool: "pool_free al \<noteq> []"
    using allocate_loop_empty_pool [of al "Suc n" out] Suc.prems by auto
  let ?a = "last (pool_free al)" and ?al1 = "al\<lparr>pool_free := butlast (pool_free al)\<rparr>"
  show ?case
  proof (cases "?a \<in> alloc_set al")
    case True
    with pool Suc.prems show ?thesis
      by (auto simp: allocate_one_locked_def Let_def rollback_alloc_set)
  next
    case False
    let ?al2 = "?al1\<lparr>alloc_set := insert ?a (alloc_set al)\<rparr>"
    have "allocate_loop n (out @ [?a]) ?al2 = (Inl e, al')"
      using Suc.prems pool False by (simp add: allocate_one_locked_def Let_def)
    from Suc.IH [OF this] False show ?thesis by auto
  qed
qed

text \<open>
  C27. A batch that fails half way leaks nothing, in any state whatsoever: the live set
  after the failing call is the live set before it, so every poly reserved by the call has
  been released again and no earlier allocation has been.
\<close>

theorem allocate_many_failure_leaks_nothing:
  assumes "allocate_many count bytes al = (Inl e, al')"
  shows "alloc_set al' = alloc_set al"
  using assms allocate_loop_failure [of "unat count" "[]" al e al']
  by (auto simp: allocate_many_def split: if_splits sum.splits)

theorem allocate_many_failure_leaks_nothing_witness:
  "\<exists>e al'. allocate_many 2 32 (allocator_init\<lparr>poly_bytes := 32, alloc_set := {64},
      pool_free := [64, 96]\<rparr>) = (Inl e, al') \<and> alloc_set al' = {64}"
proof -
  let ?al = "allocator_init\<lparr>poly_bytes := 32, alloc_set := {64}, pool_free := [64, 96]\<rparr>"
  have "fst (allocate_many 2 32 ?al) = Inl PoolMapDesync" by code_simp
  then have "allocate_many 2 32 ?al = (Inl PoolMapDesync, snd (allocate_many 2 32 ?al))"
    by (metis prod.collapse)
  from this allocate_many_failure_leaks_nothing [OF this] show ?thesis by auto
qed

section \<open>Disjoint address ranges\<close>

text \<open>
  At a fixed polynomial size \<open>pb\<close>, issued addresses are multiples of \<open>pb\<close> above the
  base, each with its whole range below the counter.
\<close>

definition grid :: "u64 \<Rightarrow> allocator \<Rightarrow> bool" where
  "grid pb al \<longleftrightarrow>
     alloc_inv al \<and> poly_bytes al = pb \<and> pb \<noteq> 0 \<and>
     (\<exists>k. unat (next_addr al) = unat kHbmBase + k * unat pb) \<and>
     (\<forall>a \<in> issued al. (\<exists>k. unat a = unat kHbmBase + k * unat pb) \<and>
                     unat a + unat pb \<le> unat (next_addr al))"

definition regions_disjoint :: "allocator \<Rightarrow> bool" where
  "regions_disjoint al \<longleftrightarrow>
     (\<forall>a \<in> alloc_set al. \<forall>b \<in> alloc_set al. a \<noteq> b \<longrightarrow>
        unat a + unat (poly_bytes al) \<le> unat b \<or> unat b + unat (poly_bytes al) \<le> unat a)"

lemma grid_points_apart:
  assumes "(x::nat) = c + k * p" and "y = c + l * p" and "x < y"
  shows "x + p \<le> y"
proof -
  from assms have "k * p < l * p" by simp
  then have "Suc k \<le> l" by (simp add: Suc_le_eq)
  then have "Suc k * p \<le> l * p" by (rule mult_le_mono1)
  with assms show ?thesis by simp
qed

lemma grid_regions_disjoint: "grid pb al \<Longrightarrow> regions_disjoint al"
  unfolding regions_disjoint_def
proof (intro ballI impI)
  fix a b
  assume g: "grid pb al" and "a \<in> alloc_set al" "b \<in> alloc_set al" and "a \<noteq> b"
  then obtain k l where k: "unat a = unat kHbmBase + k * unat pb"
      and l: "unat b = unat kHbmBase + l * unat pb"
    unfolding grid_def issued_def by blast
  from \<open>a \<noteq> b\<close> have "unat a < unat b \<or> unat b < unat a"
    by (metis linorder_neqE_nat word_unat_eq_iff)
  with grid_points_apart [OF k l] grid_points_apart [OF l k]
  have "unat a + unat pb \<le> unat b \<or> unat b + unat pb \<le> unat a" by blast
  with g show "unat a + unat (poly_bytes al) \<le> unat b \<or> unat b + unat (poly_bytes al) \<le> unat a"
    by (simp add: grid_def)
qed

lemma grid_allocate_one:
  assumes "grid pb al" and "unat (next_addr al) + unat pb < 2 ^ 64"
    and "allocate_one_locked al = (r, al')"
  shows "grid pb al' \<and> unat (next_addr al') \<le> unat (next_addr al) + unat pb"
proof -
  have inv: "alloc_inv al" and pb: "poly_bytes al = pb" using assms(1) by (simp_all add: grid_def)
  obtain al1 where one: "allocate_one_locked al = (Inr (next_alloc al), al1)" "alloc_inv al1"
      "poly_bytes al1 = poly_bytes al"
    using allocate_one_inv [OF inv] by metis
  with assms(3) have al1: "al1 = al'" by simp
  show ?thesis
  proof (cases "pool_free al = []")
    case True
    have al': "al' = al\<lparr>next_addr := next_addr al + pb, alloc_set := insert (next_addr al) (alloc_set al)\<rparr>"
      using assms(3) by (simp add: allocate_one_bump [OF True] pb)
    have nx: "unat (next_addr al + pb) = unat (next_addr al) + unat pb"
      using unat_next_addr [of al] assms(2) pb by simp
    obtain k where k: "unat (next_addr al) = unat kHbmBase + k * unat pb"
      using assms(1) by (auto simp: grid_def)
    then have "unat (next_addr al + pb) = unat kHbmBase + Suc k * unat pb" by (simp add: nx)
    then have ex: "\<exists>k. unat (next_addr al + pb) = unat kHbmBase + k * unat pb" by blast
    have "issued al' = insert (next_addr al) (issued al)" by (auto simp: al' issued_def)
    moreover have old: "(\<exists>k. unat a = unat kHbmBase + k * unat pb) \<and>
        unat a + unat pb \<le> unat (next_addr al)" if "a \<in> issued al" for a
      using assms(1) that by (simp add: grid_def)
    ultimately have "\<forall>a \<in> issued al'. (\<exists>k. unat a = unat kHbmBase + k * unat pb) \<and>
        unat a + unat pb \<le> unat (next_addr al')"
      using k nx by (auto simp: al' intro: add_leD1 trans_le_add1 dest: old)
    moreover have "pb \<noteq> 0" using assms(1) by (simp add: grid_def)
    ultimately show ?thesis using one al1 pb nx ex by (simp add: grid_def al')
  next
    case False
    have al': "al' = al\<lparr>pool_free := butlast (pool_free al),
        alloc_set := insert (last (pool_free al)) (alloc_set al)\<rparr>"
      using assms(3) by (simp add: allocate_one_pool [OF inv False])
    have "issued al' \<subseteq> issued al"
      using False by (auto simp: al' issued_def dest: in_set_butlastD)
    with assms(1) one al1 pb show ?thesis by (auto simp: grid_def al')
  qed
qed

lemma grid_allocate_loop:
  assumes "grid pb al" and "unat (next_addr al) + n * unat pb < 2 ^ 64"
  shows "grid pb (snd (allocate_loop n out al)) \<and>
    unat (next_addr (snd (allocate_loop n out al))) \<le> unat (next_addr al) + n * unat pb"
  using assms
proof (induction n arbitrary: al out)
  case 0
  then show ?case by simp
next
  case (Suc n)
  have inv: "alloc_inv al" using Suc.prems by (simp add: grid_def)
  obtain al1 where one: "allocate_one_locked al = (Inr (next_alloc al), al1)"
    using allocate_one_inv [OF inv] by metis
  have "unat (next_addr al) + unat pb < 2 ^ 64" using Suc.prems(2) by simp
  note g1 = grid_allocate_one [OF Suc.prems(1) this one]
  then have "unat (next_addr al1) + n * unat pb < 2 ^ 64" using Suc.prems(2) by simp
  from Suc.IH [OF _ this, of "out @ [next_alloc al]"] g1 show ?case by (simp add: one)
qed

lemma grid_cong:
  assumes "grid pb al" and "alloc_inv al'" and "poly_bytes al' = poly_bytes al"
    and "next_addr al' = next_addr al" and "issued al' \<subseteq> issued al"
  shows "grid pb al'"
  using assms by (auto simp: grid_def)

lemma free_one_issued: "issued (snd (free_one_locked a al)) = issued al"
  by (auto simp: free_one_locked_def issued_def)

lemma free_many_loop_frame:
  "issued (snd (free_many_loop as fe al)) = issued al \<and>
   poly_bytes (snd (free_many_loop as fe al)) = poly_bytes al \<and>
   next_addr (snd (free_many_loop as fe al)) = next_addr al"
proof (induction as arbitrary: fe al)
  case Nil
  then show ?case by simp
next
  case (Cons a as)
  obtain r al1 where one: "free_one_locked a al = (r, al1)" by (cases "free_one_locked a al")
  then have "issued al1 = issued al" "poly_bytes al1 = poly_bytes al" "next_addr al1 = next_addr al"
    using free_one_issued [of a al] free_one_frame [of a al] by simp_all
  then show ?case using Cons.IH by (cases r) (simp_all add: one)
qed

text \<open>How many addresses a call asks for, and whether it keeps the polynomial size.\<close>

fun op_requests :: "alloc_op \<Rightarrow> nat" where
  "op_requests (AoAllocate n) = 1"
| "op_requests (AoAllocateMany c n) = unat c"
| "op_requests _ = 0"

fun keeps_size :: "alloc_op \<Rightarrow> bool" where
  "keeps_size (AoSetSize n) = False"
| "keeps_size AoReset = False"
| "keeps_size _ = True"

lemma grid_step:
  assumes "grid pb al" and "keeps_size op"
    and "unat (next_addr al) + op_requests op * unat pb < 2 ^ 64"
  shows "grid pb (alloc_step al op) \<and>
    unat (next_addr (alloc_step al op)) \<le> unat (next_addr al) + op_requests op * unat pb"
proof -
  have inv: "alloc_inv al" and inv': "alloc_inv (alloc_step al op)"
    using assms(1) alloc_history.invar_step [of al op] by (simp_all add: grid_def)
  have frame: ?thesis if "poly_bytes (alloc_step al op) = poly_bytes al"
      and "next_addr (alloc_step al op) = next_addr al" and "issued (alloc_step al op) \<subseteq> issued al"
    using grid_cong [OF assms(1) inv'] that by simp
  show ?thesis
  proof (cases op)
    case (AoAllocate n)
    obtain r al1 where "allocate_one_locked al = (r, al1)" by (cases "allocate_one_locked al")
    with grid_allocate_one [OF assms(1)] assms(1,3) AoAllocate show ?thesis
      by (auto simp: allocate_def split: sum.splits)
  next
    case (AoAllocateMany c n)
    with grid_allocate_loop [OF assms(1), of "unat c" "[]"] assms(1,3) show ?thesis
      by (auto simp: allocate_many_def split: sum.splits)
  next
    case (AoFree a)
    then show ?thesis
      using frame free_one_issued [of a al] by (simp add: alloc_free_def frame_simps split: if_splits)
  next
    case (AoFreeMany as)
    then show ?thesis
      using frame free_many_loop_frame [of as "Inr ()" al]
      by (simp add: free_many_def split: if_splits)
  qed (use assms(2) in \<open>auto intro!: frame grid_cong [OF assms(1)] inv' [simplified]
        simp: frame_simps issued_def alloc_inv_writes [OF inv]\<close>)
qed

text \<open>
  C21. Single-size allocations never overlap: starting from a fresh allocator with the
  polynomial size set to \<open>pb\<close>, after any sequence of calls that does not change the size,
  the byte ranges of any two live allocations are disjoint, as long as the requested
  addresses do not exhaust the 64-bit address space.
\<close>

theorem live_ranges_disjoint:
  assumes "pb \<noteq> 0" and "\<forall>op \<in> set ops. keeps_size op"
    and "unat kHbmBase + sum_list (map op_requests ops) * unat pb < 2 ^ 64"
  shows "regions_disjoint (foldl alloc_step (set_polynomial_size pb allocator_init) ops)"
proof -
  have "grid pb (foldl alloc_step al ops) \<and> regions_disjoint (foldl alloc_step al ops)"
    if "grid pb al" and "unat (next_addr al) + sum_list (map op_requests ops) * unat pb < 2 ^ 64"
    for al
    using that assms(2)
  proof (induction ops arbitrary: al)
    case Nil
    then show ?case by (simp add: grid_regions_disjoint)
  next
    case (Cons op ops)
    have "unat (next_addr al) + op_requests op * unat pb < 2 ^ 64"
      using Cons.prems(2) by (simp add: algebra_simps)
    with Cons.prems grid_step [of pb al op] have "grid pb (alloc_step al op)"
      and "unat (next_addr (alloc_step al op)) \<le> unat (next_addr al) + op_requests op * unat pb"
      by simp_all
    with Cons.prems Cons.IH [of "alloc_step al op"] show ?case by (simp add: algebra_simps)
  qed
  moreover have "grid pb (set_polynomial_size pb allocator_init)"
    using assms(1) alloc_inv_set_polynomial_size [OF alloc_inv_init, of pb]
    by (auto simp: grid_def issued_def set_polynomial_size_inv [OF alloc_inv_init])
       (auto simp: allocator_init_def intro: exI [of _ 0])
  moreover have "next_addr (set_polynomial_size pb allocator_init) = kHbmBase"
    using set_polynomial_size_inv [OF alloc_inv_init] by (simp add: allocator_init_def)
  ultimately show ?thesis using assms(3) by simp
qed

theorem live_ranges_disjoint_witness:
  "regions_disjoint (foldl alloc_step (set_polynomial_size 32 allocator_init)
     [AoAllocate 32, AoAllocateMany 2 32, AoFree kHbmBase, AoAllocate 32])"
  by (rule live_ranges_disjoint) (simp_all add: kHbmBase_def)

section \<open>Release\<close>

text \<open>
  Lifetime of one address: releasing a live, non-null address ends its liveness and
  drops its shadow bytes; a second release is rejected as UnknownAddress and changes
  nothing; and the next allocation of the configured size hands exactly this address out
  again, live and without shadow bytes (so no bytes of the previous owner are visible).
\<close>

theorem free_then_reuse:
  assumes "a \<in> alloc_set al" and "a \<noteq> 0" and "poly_bytes al \<noteq> 0"
  shows "\<exists>al1. alloc_free a al = (Inr (), al1) \<and> a \<notin> alloc_set al1 \<and> shadow_data al1 a = None \<and>
    alloc_free a al1 = (Inl UnknownAddress, al1) \<and>
    (\<exists>al2. allocate (poly_bytes al) al1 = (Inr a, al2) \<and> a \<in> alloc_set al2 \<and>
           shadow_data al2 a = None \<and> pool_free al2 = pool_free al)"
  using assms
  by (simp add: alloc_free_def free_one_locked_def allocate_def validate_poly_size_locked_def
      allocate_one_locked_def Let_def)

theorem free_then_reuse_witness:
  "\<exists>al1. alloc_free 64 (allocator_init\<lparr>poly_bytes := 32, alloc_set := {64}\<rparr>) = (Inr (), al1)"
proof -
  let ?al = "allocator_init\<lparr>poly_bytes := 32, alloc_set := {64}\<rparr>"
  have "64 \<in> alloc_set ?al" "(64::DevAddr) \<noteq> 0" "poly_bytes ?al \<noteq> 0" by simp_all
  from free_then_reuse [OF this] show ?thesis by blast
qed

text \<open>
  A batched release is all-or-report, not all-or-nothing: every non-null address that
  was live is released whatever the others are, null entries are skipped, and the call
  succeeds exactly when the non-null entries are live and pairwise distinct, reporting
  UnknownAddress otherwise.
\<close>

theorem free_many_releases_all:
  "alloc_set (snd (free_many as al)) = alloc_set al - (set as - {0}) \<and>
   fst (free_many as al) =
     (if distinct (filter (\<lambda>a. a \<noteq> 0) as) \<and> set as - {0} \<subseteq> alloc_set al
      then Inr () else Inl UnknownAddress)"
  using free_many_loop_spec [of as "Inr ()" al] by (auto simp: free_many_def)

section \<open>Bytes in and out\<close>

lemma length_shadow_for_write [simp]: "length (shadow_for_write a al) = want_elems al"
  by (auto simp: shadow_for_write_def split: option.splits)

lemma eight_want_elems: "8 dvd unat (poly_bytes al) \<Longrightarrow> 8 * want_elems al = unat (poly_bytes al)"
  by (simp add: want_elems_def)

lemma count_fits: "n \<le> poly_bytes al \<Longrightarrow> unat n \<le> unat (poly_bytes al)"
  by (simp add: word_le_nat_alt)

text \<open>
  C29. Upload and read-back are byte exact: after a successful H2D of \<open>n\<close> bytes, a D2H of
  any \<open>m\<close> bytes up to the allocation size is defined, succeeds, and writes the first
  \<open>m\<close> of: the uploaded bytes followed by the previous content behind them (zeros, if the
  address had none). No other address is affected.
\<close>

theorem h2d_then_d2h:
  assumes "copy_h2d hm d src n al = (Inr (), al')" and "8 dvd unat (poly_bytes al)"
    and "m \<le> poly_bytes al" and "dst \<noteq> 0"
  shows "copy_to_host hm' dst d m al' =
      Some (Inr (), write_host hm' dst (take (unat m)
        (read_host hm src (unat n) @ drop (unat n) (vec_bytes (shadow_for_write d al)))))
    \<and> (\<forall>b. b \<noteq> d \<longrightarrow> shadow_data al' b = shadow_data al b)"
proof -
  from assms(1) have d: "d \<in> alloc_set al" and n: "n \<le> poly_bytes al"
    and al': "al' = al\<lparr>shadow_data := (shadow_data al)
        (d \<mapsto> overwrite_prefix (read_host hm src (unat n)) (shadow_for_write d al))\<rparr>"
    by (auto simp: copy_h2d_def split: if_splits)
  have "vec_bytes (overwrite_prefix (read_host hm src (unat n)) (shadow_for_write d al)) =
      read_host hm src (unat n) @ drop (unat n) (vec_bytes (shadow_for_write d al))"
    using count_fits [OF n] eight_want_elems [OF assms(2)]
    by (simp add: vec_bytes_overwrite_prefix)
  moreover have "\<not> unat m > length (read_host hm src (unat n) @
      drop (unat n) (vec_bytes (shadow_for_write d al)))"
    using count_fits [OF n] count_fits [OF assms(3)] eight_want_elems [OF assms(2)] by simp
  ultimately show ?thesis
    using assms(3,4) d by (auto simp: copy_to_host_def al')
qed

theorem h2d_then_d2h_witness:
  "copy_to_host (\<lambda>_. 0) 4096 64 16
     (snd (copy_h2d (\<lambda>p. ucast p) 64 7 3 (allocator_init\<lparr>poly_bytes := 16, alloc_set := {64}\<rparr>)))
   = Some (Inr (), write_host (\<lambda>_. 0) 4096 ([7, 8, 9] @ replicate 13 0))"
proof -
  let ?al = "allocator_init\<lparr>poly_bytes := 16, alloc_set := {64}\<rparr>"
  have "copy_h2d (\<lambda>p. ucast p) 64 7 3 ?al = (Inr (), snd (copy_h2d (\<lambda>p. ucast p) 64 7 3 ?al))"
    by (simp add: copy_h2d_def allocator_init_def)
  moreover have "take (unat (16::u64)) (read_host (\<lambda>p. ucast p) 7 (unat (3::u64)) @
      drop (unat (3::u64)) (vec_bytes (shadow_for_write 64 ?al))) = [7, 8, 9] @ replicate 13 0"
    by code_simp
  ultimately show ?thesis
    using h2d_then_d2h [of "\<lambda>p. ucast p" 64 7 3 ?al _ 16 4096 "\<lambda>_. 0"] by simp
qed

text \<open>
  \<open>hazeMemset\<close>'s device side fills exactly the first \<open>count\<close> bytes with the low byte
  of \<open>value\<close> and keeps the rest, rejects dead addresses and oversized counts without any
  change, and leaves liveness and every other address alone.
\<close>

theorem memset_fills_prefix:
  assumes "8 dvd unat (poly_bytes al)"
  shows "alloc_memset a value n al =
      (if a \<notin> alloc_set al then (Inl UnknownAddress, al)
       else if n > poly_bytes al then (Inl AllocTooSmall, al)
       else (Inr (), snd (alloc_memset a value n al)))
    \<and> (a \<in> alloc_set al \<and> n \<le> poly_bytes al \<longrightarrow>
        (\<exists>v. shadow_data (snd (alloc_memset a value n al)) = (shadow_data al)(a \<mapsto> v) \<and>
             vec_bytes v = replicate (unat n) (word_of_int value) @
                           drop (unat n) (vec_bytes (shadow_for_write a al))))"
  using assms
  by (auto simp: alloc_memset_def vec_bytes_overwrite_prefix eight_want_elems count_fits
      linorder_not_less)

theorem memset_fills_prefix_witness:
  "alloc_memset 64 (-1) 3 (allocator_init\<lparr>poly_bytes := 16, alloc_set := {64}\<rparr>) =
     (Inr (), snd (alloc_memset 64 (-1) 3 (allocator_init\<lparr>poly_bytes := 16, alloc_set := {64}\<rparr>)))"
  using memset_fills_prefix [of "allocator_init\<lparr>poly_bytes := 16, alloc_set := {64}\<rparr>" 64 "-1" 3]
  by (simp add: allocator_init_def)

text \<open>
  Promotion takes the bytes away: a successful extraction returns the shadow vector and
  removes its entry, so a second extraction reports NoData; every failing extraction leaves
  the allocator untouched, except that on ShadowSizeMismatch the entry is removed as well.
\<close>

theorem extract_evicts:
  "(case extract_polynomial_components a rd al of
      (Inr v, al') \<Rightarrow> shadow_data al a = Some v \<and> of_nat (length v) = rd \<and>
        al' = al\<lparr>shadow_data := (shadow_data al)(a := None)\<rparr> \<and>
        extract_polynomial_components a rd al' = (Inl NoData, al')
    | (Inl e, al') \<Rightarrow>
        if e = ShadowSizeMismatch
        then shadow_data al a \<noteq> None \<and> al' = al\<lparr>shadow_data := (shadow_data al)(a := None)\<rparr>
        else al' = al)"
  by (auto simp: extract_polynomial_components_def Let_def split: option.splits)

section \<open>When a read-back is defined\<close>

lemma sizedD: "sized al \<Longrightarrow> shadow_data al a = Some v \<Longrightarrow> length v = want_elems al"
  by (simp add: sized_def)

lemma copy_to_host_undefined_iff:
  "copy_to_host hm dst a n al = None \<longleftrightarrow>
     dst \<noteq> 0 \<and> a \<in> alloc_set al \<and> n \<le> poly_bytes al \<and>
     (\<exists>v. shadow_data al a = Some v \<and> 8 * length v < unat n)"
  by (auto simp: copy_to_host_def linorder_not_less split: option.splits)

lemma sized_copy_to_host: "sized al \<Longrightarrow> copy_to_host hm dst a n al \<noteq> None"
  using count_fits [of n al] eight_want_elems [of al]
  by (auto simp: copy_to_host_undefined_iff sized_def)

end
