(* ===== verification/Haze_Mrp.thy ===== *)
theory Haze_Mrp
  imports Haze_Epoch_Inv Haze_Allocator_Spec
begin

text \<open>
  The glue between device addresses and multi-residue polynomials (core/mrp_polymap.cpp). A
  pointer array of the C ABI is the list of its first \<open>len\<close> entries, \<open>base\<close> the list of the
  \<open>len\<close> moduli paired with them.
\<close>

fun build_pairs ::
    "('p, 'm) fh_env \<Rightarrow> (hostptr \<times> u64) list \<Rightarrow> ('p, 'm) haze \<Rightarrow>
     ('p \<times> u64) list expected \<times> ('p, 'm) haze" where
  "build_pairs E [] s = (Inr [], s)"
| "build_pairs E ((ptr, q) # rest) s =
     (case lookup_or_create_locked E (to_dev_addr ptr) s of
        (Inl e, s1) \<Rightarrow> (Inl e, s1)
      | (Inr poly, s1) \<Rightarrow>
          (case build_pairs E rest s1 of
             (Inl e, s2) \<Rightarrow> (Inl e, s2)
           | (Inr pairs, s2) \<Rightarrow> (Inr ((poly, q) # pairs), s2)))"

definition build_mrp_locked ::
    "('p, 'm) fh_env \<Rightarrow> hostptr list \<Rightarrow> u64 list \<Rightarrow> ('p, 'm) haze \<Rightarrow>
     'm expected \<times> ('p, 'm) haze" where
  "build_mrp_locked E polys base s =
     (case build_pairs E (zip polys base) s of
        (Inl e, s1) \<Rightarrow> (Inl e, s1)
      | (Inr pairs, s1) \<Rightarrow>
          let mrp = mrp_from_pairs E pairs; front = to_dev_addr (hd polys) in
          (Inr mrp,
           if length base > 1 \<and> is_input_locked front (hz_epoch s1) then
             (case mrp_group_name_locked False front (hz_epoch s1) of
                (group_name, ep) \<Rightarrow>
                  tag_mrp_input_if_new_locked group_name mrp (upd_epoch (\<lambda>_. ep) s1))
           else s1))"

definition register_outputs ::
    "DevAddr list \<Rightarrow> u64 list \<Rightarrow> ('p, 'm) haze \<Rightarrow> unit expected \<times> ('p, 'm) haze" where
  "register_outputs addrs base s =
     (if length base > 1 then
        (case mrp_group_name_locked True (hd addrs) (hz_epoch s) of
           (group_name, ep) \<Rightarrow>
             (case register_mrp_output_group_locked addrs base group_name ep of
                (r, ep1) \<Rightarrow> (r, upd_epoch (\<lambda>_. ep1) s)))
      else (Inr (), s))"

definition store_mrp_locked ::
    "('p, 'm) fh_env \<Rightarrow> hostptr list \<Rightarrow> 'm \<Rightarrow> u64 list \<Rightarrow> ('p, 'm) haze \<Rightarrow>
     unit expected \<times> ('p, 'm) haze" where
  "store_mrp_locked E dst_polys mrp base s =
     (let s1 = foldl (\<lambda>s (ptr, q). upd_epoch
                        (store_compute_result_locked (to_dev_addr ptr) (mrp_at E mrp q) q) s)
                 s (zip dst_polys base)
      in register_outputs (map to_dev_addr (take (length base) dst_polys)) base s1)"

section \<open>Copies of whole groups\<close>

fun h2d_writes ::
    "(hostptr \<times> hostptr) list \<Rightarrow> u64 \<Rightarrow> ('p, 'm) haze \<Rightarrow> unit expected \<times> ('p, 'm) haze" where
  "h2d_writes [] count s = (Inr (), s)"
| "h2d_writes ((d, h) # rest) count s =
     (case copy_h2d (hz_host s) (to_dev_addr d) h count (hz_alloc s) of
        (Inl e, al) \<Rightarrow> (Inl e, upd_alloc (\<lambda>_. al) s)
      | (Inr _, al) \<Rightarrow> h2d_writes rest count (upd_alloc (\<lambda>_. al) s))"

fun h2d_tags ::
    "('p, 'm) fh_env \<Rightarrow> hostptr list \<Rightarrow> ('p, 'm) haze \<Rightarrow> unit expected \<times> ('p, 'm) haze" where
  "h2d_tags E [] s = (Inr (), s)"
| "h2d_tags E (d # rest) s =
     (case tag_h2d_input_locked E (to_dev_addr d) s of
        (Inl e, s1) \<Rightarrow> (Inl e, s1)
      | (Inr _, s1) \<Rightarrow> h2d_tags E rest s1)"

definition copy_h2d_mrp ::
    "('p, 'm) fh_env \<Rightarrow> hostptr list \<Rightarrow> hostptr list \<Rightarrow> u64 \<Rightarrow> ('p, 'm) haze \<Rightarrow>
     unit expected \<times> ('p, 'm) haze" where
  "copy_h2d_mrp E dst src count s =
     (case h2d_writes (zip dst src) count s of
        (Inl e, s1) \<Rightarrow> (Inl e, s1)
      | (Inr _, s1) \<Rightarrow> h2d_tags E dst (open_session E s1))"

fun copy_to_host_mrp ::
    "(hostptr \<times> hostptr) list \<Rightarrow> u64 \<Rightarrow> ('p, 'm) haze \<Rightarrow>
     (unit expected \<times> ('p, 'm) haze) option" where
  "copy_to_host_mrp [] count s = Some (Inr (), s)"
| "copy_to_host_mrp ((h, d) # rest) count s =
     (case copy_to_host_entry h (to_dev_addr d) count s of
        None \<Rightarrow> None
      | Some (Inl e, s1) \<Rightarrow> Some (Inl e, s1)
      | Some (Inr _, s1) \<Rightarrow> copy_to_host_mrp rest count s1)"

fun copy_residues ::
    "('p, 'm) fh_env \<Rightarrow> (hostptr \<times> hostptr \<times> u64) list \<Rightarrow> ('p, 'm) haze \<Rightarrow>
     unit expected \<times> ('p, 'm) haze" where
  "copy_residues E [] s = (Inr (), s)"
| "copy_residues E ((d, h, q) # rest) s =
     (case copy_result_locked E (to_dev_addr d) (to_dev_addr h) q s of
        (Inl e, s1) \<Rightarrow> (Inl e, s1)
      | (Inr _, s1) \<Rightarrow> copy_residues E rest s1)"

definition copy_device_to_device_mrp ::
    "('p, 'm) fh_env \<Rightarrow> hostptr list \<Rightarrow> hostptr list \<Rightarrow> u64 list \<Rightarrow> ('p, 'm) haze \<Rightarrow>
     unit expected \<times> ('p, 'm) haze" where
  "copy_device_to_device_mrp E dst src base s =
     (case copy_residues E (zip dst (zip src base)) (open_session E s) of
        (Inl e, s1) \<Rightarrow> (Inl e, s1)
      | (Inr _, s1) \<Rightarrow>
          register_outputs (map (\<lambda>(d, _). to_dev_addr d) (zip dst (zip src base))) base s1)"

text \<open>\<open>MRS::from_pairs\<close> of the scalars and their primes.\<close>

definition build_mrs :: "u64 list \<Rightarrow> u64 list \<Rightarrow> mrs" where
  "build_mrs scalars base = zip scalars base"

end
