(* ===== verification/Haze_Compute.thy ===== *)
theory Haze_Compute
  imports Haze_Mrp
begin

text \<open>
  The compute templates (core/compute.hpp) and the basis conversions
  (core/basis_convert.cpp). A template's operation parameter is the fhetch operation's
  constructor. The single-residue automorph is the only instance of \<open>unary_pi_op\<close>.
\<close>

section \<open>Single-residue operations\<close>

definition binary_pp_op ::
    "('p, 'm) fh_env \<Rightarrow> sr_pp \<Rightarrow> DevAddr \<Rightarrow> DevAddr \<Rightarrow> DevAddr \<Rightarrow> int \<Rightarrow> ('p, 'm) haze \<Rightarrow>
     unit expected \<times> ('p, 'm) haze" where
  "binary_pp_op E OpFn dst src1 src2 mod_idx s =
     (let s0 = open_session E s; q = cfg_modulus mod_idx (hz_config s0) in
      if q = 0 then (Inl InvalidArgument, s0)
      else case lookup_or_create_locked E src1 s0 of
        (Inl e, s1) \<Rightarrow> (Inl e, s1)
      | (Inr p1, s1) \<Rightarrow>
          (case lookup_or_create_locked E src2 s1 of
             (Inl e, s2) \<Rightarrow> (Inl e, s2)
           | (Inr p2, s2) \<Rightarrow>
               (case fh_poly E (SrPP OpFn p1 p2 q) s2 of
                  (p, s3) \<Rightarrow> (Inr (), upd_epoch (store_compute_result_locked dst p q) s3))))"

definition binary_ps_op ::
    "('p, 'm) fh_env \<Rightarrow> sr_ps \<Rightarrow> DevAddr \<Rightarrow> DevAddr \<Rightarrow> u64 \<Rightarrow> int \<Rightarrow> ('p, 'm) haze \<Rightarrow>
     unit expected \<times> ('p, 'm) haze" where
  "binary_ps_op E OpFn dst src scalar mod_idx s =
     (let s0 = open_session E s; q = cfg_modulus mod_idx (hz_config s0) in
      if q = 0 then (Inl InvalidArgument, s0)
      else case lookup_or_create_locked E src s0 of
        (Inl e, s1) \<Rightarrow> (Inl e, s1)
      | (Inr p, s1) \<Rightarrow>
          (case fh_poly E (SrPS OpFn p scalar q) s1 of
             (r, s2) \<Rightarrow> (Inr (), upd_epoch (store_compute_result_locked dst r q) s2)))"

definition unary_pq_op ::
    "('p, 'm) fh_env \<Rightarrow> sr_pq \<Rightarrow> DevAddr \<Rightarrow> DevAddr \<Rightarrow> int \<Rightarrow> ('p, 'm) haze \<Rightarrow>
     unit expected \<times> ('p, 'm) haze" where
  "unary_pq_op E OpFn dst src mod_idx s =
     (let s0 = open_session E s; q = cfg_modulus mod_idx (hz_config s0) in
      if q = 0 then (Inl InvalidArgument, s0)
      else case lookup_or_create_locked E src s0 of
        (Inl e, s1) \<Rightarrow> (Inl e, s1)
      | (Inr p, s1) \<Rightarrow>
          (case fh_poly E (SrPQ OpFn p q) s1 of
             (r, s2) \<Rightarrow> (Inr (), upd_epoch (store_compute_result_locked dst r q) s2)))"

definition unary_pi_op ::
    "('p, 'm) fh_env \<Rightarrow> DevAddr \<Rightarrow> DevAddr \<Rightarrow> u64 \<Rightarrow> ('p, 'm) haze \<Rightarrow>
     unit expected \<times> ('p, 'm) haze" where
  "unary_pi_op E dst src index s =
     (let s0 = open_session E s in
      case lookup_or_create_locked E src s0 of
        (Inl e, s1) \<Rightarrow> (Inl e, s1)
      | (Inr p, s1) \<Rightarrow>
          let q = recorded_modulus_locked src (hz_epoch s1) in
          (case fh_poly E (SrAutomorphEval p index) s1 of
             (result, s2) \<Rightarrow>
               let s3 = (if q \<noteq> kCopyModulus
                         then fh_emit (BindModulus result q) (fh_emit (BindModulus p q) s2)
                         else s2)
               in (Inr (), upd_epoch (store_compute_result_locked dst result q) s3)))"

section \<open>Multi-residue operations\<close>

definition binary_pp_op_mrp ::
    "('p, 'm) fh_env \<Rightarrow> mr_pp \<Rightarrow> hostptr list \<Rightarrow> hostptr list \<Rightarrow> hostptr list \<Rightarrow> u64 list \<Rightarrow>
     ('p, 'm) haze \<Rightarrow> unit expected \<times> ('p, 'm) haze" where
  "binary_pp_op_mrp E OpFn dst src1 src2 base s =
     (case build_mrp_locked E src1 base (open_session E s) of
        (Inl e, s1) \<Rightarrow> (Inl e, s1)
      | (Inr m1, s1) \<Rightarrow>
          (case build_mrp_locked E src2 base s1 of
             (Inl e, s2) \<Rightarrow> (Inl e, s2)
           | (Inr m2, s2) \<Rightarrow>
               (case fh_mrp E (MrPP OpFn m1 m2) s2 of
                  (result, s3) \<Rightarrow> store_mrp_locked E dst result base s3)))"

definition binary_ps_op_mrp ::
    "('p, 'm) fh_env \<Rightarrow> mr_ps \<Rightarrow> hostptr list \<Rightarrow> hostptr list \<Rightarrow> u64 list \<Rightarrow> u64 list \<Rightarrow>
     ('p, 'm) haze \<Rightarrow> unit expected \<times> ('p, 'm) haze" where
  "binary_ps_op_mrp E OpFn dst src scalars base s =
     (case build_mrp_locked E src base (open_session E s) of
        (Inl e, s1) \<Rightarrow> (Inl e, s1)
      | (Inr m, s1) \<Rightarrow>
          (case fh_mrp E (MrPS OpFn m (build_mrs scalars base)) s1 of
             (result, s2) \<Rightarrow> store_mrp_locked E dst result base s2))"

definition unary_p_op_mrp ::
    "('p, 'm) fh_env \<Rightarrow> mr_p \<Rightarrow> hostptr list \<Rightarrow> hostptr list \<Rightarrow> u64 list \<Rightarrow>
     ('p, 'm) haze \<Rightarrow> unit expected \<times> ('p, 'm) haze" where
  "unary_p_op_mrp E OpFn dst src base s =
     (case build_mrp_locked E src base (open_session E s) of
        (Inl e, s1) \<Rightarrow> (Inl e, s1)
      | (Inr m, s1) \<Rightarrow>
          (case fh_mrp E (MrP OpFn m) s1 of
             (result, s2) \<Rightarrow> store_mrp_locked E dst result base s2))"

definition unary_pi_op_mrp ::
    "('p, 'm) fh_env \<Rightarrow> mr_pi \<Rightarrow> hostptr list \<Rightarrow> hostptr list \<Rightarrow> u64 \<Rightarrow> u64 list \<Rightarrow>
     ('p, 'm) haze \<Rightarrow> unit expected \<times> ('p, 'm) haze" where
  "unary_pi_op_mrp E OpFn dst src index base s =
     (case build_mrp_locked E src base (open_session E s) of
        (Inl e, s1) \<Rightarrow> (Inl e, s1)
      | (Inr m, s1) \<Rightarrow>
          (case fh_mrp E (MrPI OpFn m index) s1 of
             (result, s2) \<Rightarrow> store_mrp_locked E dst result base s2))"

section \<open>Basis conversion\<close>

text \<open>A base pointer is \<open>None\<close> when null; otherwise the array it points to.\<close>

record hazeBasisConvertParams =
  bc_src_base :: "u64 list option"
  bc_src_base_len :: u64
  bc_dst_base :: "u64 list option"
  bc_dst_base_len :: u64

record hazeModDownParams =
  md_src_base :: "u64 list option"
  md_src_base_len :: u64
  md_rescale_base :: "u64 list option"
  md_rescale_base_len :: u64

record hazeModUpParams =
  mu_src_base :: "u64 list option"
  mu_src_base_len :: u64
  mu_digit_bases :: "u64 list option"
  mu_digit_bases_total_len :: u64
  mu_digit_base_lens :: "u64 list option"
  mu_digit_count :: u64
  mu_p_base :: "u64 list option"
  mu_p_base_len :: u64

definition fbc_variant :: "config \<Rightarrow> FbcVariant" where
  "fbc_variant c = (if cf_reduced_noise c then ReducedNoise else Standard)"

definition fbc_center_shape :: "config \<Rightarrow> FbcCenterShape" where
  "fbc_center_shape c = (if cf_montgomery c then FourOp else ThreeOp)"

text \<open>The first \<open>len\<close> entries of an array argument.\<close>

definition base_of :: "u64 list option \<Rightarrow> u64 \<Rightarrow> u64 list" where
  "base_of ptr len = (case ptr of None \<Rightarrow> [] | Some xs \<Rightarrow> take (unat len) xs)"

definition validate_basis_convert :: "hazeBasisConvertParams \<Rightarrow> unit expected" where
  "validate_basis_convert p =
     (if bc_src_base p = None \<or> bc_src_base_len p = 0 \<or> bc_dst_base p = None \<or>
         bc_dst_base_len p = 0
      then Inl InvalidArgument else Inr ())"

definition validate_mod_down :: "hazeModDownParams \<Rightarrow> unit expected" where
  "validate_mod_down p =
     (if md_src_base p = None \<or> md_src_base_len p = 0 \<or> md_rescale_base p = None \<or>
         md_rescale_base_len p = 0
      then Inl InvalidArgument
      else if md_rescale_base_len p \<ge> md_src_base_len p then Inl InvalidArgument
      else let src_set = set (base_of (md_src_base p) (md_src_base_len p)) in
        if \<exists>q \<in> set (base_of (md_rescale_base p) (md_rescale_base_len p)). q \<notin> src_set
        then Inl InvalidArgument else Inr ())"

text \<open>\<open>sum\<close> is a \<open>size_t\<close>: the addition wraps.\<close>

definition validate_mod_up :: "hazeModUpParams \<Rightarrow> unit expected" where
  "validate_mod_up p =
     (if mu_src_base p = None \<or> mu_src_base_len p = 0 \<or> mu_digit_bases p = None \<or>
         mu_digit_base_lens p = None \<or> mu_digit_count p = 0 \<or> mu_p_base p = None \<or>
         mu_p_base_len p = 0
      then Inl InvalidArgument
      else let sum = foldl (+) 0 (base_of (mu_digit_base_lens p) (mu_digit_count p)) in
        if sum \<noteq> mu_digit_bases_total_len p then Inl InvalidArgument else Inr ())"

definition basis_convert ::
    "('p, 'm) fh_env \<Rightarrow> hostptr list \<Rightarrow> hostptr list \<Rightarrow> hazeBasisConvertParams \<Rightarrow>
     ('p, 'm) haze \<Rightarrow> unit expected \<times> ('p, 'm) haze" where
  "basis_convert E dst src p s =
     (case validate_basis_convert p of
        Inl e \<Rightarrow> (Inl e, s)
      | Inr _ \<Rightarrow>
          (case build_mrp_locked E src (base_of (bc_src_base p) (bc_src_base_len p))
                  (open_session E s) of
             (Inl e, s1) \<Rightarrow> (Inl e, s1)
           | (Inr src_mrp, s1) \<Rightarrow>
               let target_base = base_of (bc_dst_base p) (bc_dst_base_len p) in
               (case fh_mrp E (FastBaseConvert src_mrp target_base (fbc_variant (hz_config s1))
                                 (fbc_center_shape (hz_config s1))) s1 of
                  (result, s2) \<Rightarrow> store_mrp_locked E dst result target_base s2)))"

definition mod_down ::
    "('p, 'm) fh_env \<Rightarrow> hostptr list \<Rightarrow> hostptr list \<Rightarrow> hazeModDownParams \<Rightarrow>
     ('p, 'm) haze \<Rightarrow> unit expected \<times> ('p, 'm) haze" where
  "mod_down E dst src p s =
     (case validate_mod_down p of
        Inl e \<Rightarrow> (Inl e, s)
      | Inr _ \<Rightarrow>
          (case build_mrp_locked E src (base_of (md_src_base p) (md_src_base_len p))
                  (open_session E s) of
             (Inl e, s1) \<Rightarrow> (Inl e, s1)
           | (Inr src_mrp, s1) \<Rightarrow>
               (case fh_mrp E (RescaleFbc src_mrp
                                 (base_of (md_rescale_base p) (md_rescale_base_len p))
                                 (fbc_variant (hz_config s1))
                                 (fbc_center_shape (hz_config s1))) s1 of
                  (result, s2) \<Rightarrow> store_mrp_locked E dst result (mrp_base E result) s2)))"

text \<open>
  The digit sub-bases, cut out of the concatenation at a running offset. \<open>None\<close>: a cut
  leaves the array, which is undefined behaviour.
\<close>

fun slice_digits :: "u64 list \<Rightarrow> nat \<Rightarrow> u64 list \<Rightarrow> u64 list list option" where
  "slice_digits digit_bases offset [] = Some []"
| "slice_digits digit_bases offset (dlen # dlens) =
     (if length digit_bases < offset + unat dlen then None
      else case slice_digits digit_bases (offset + unat dlen) dlens of
             None \<Rightarrow> None
           | Some ds \<Rightarrow> Some (take (unat dlen) (drop offset digit_bases) # ds))"

fun mod_up_digits ::
    "('p, 'm) fh_env \<Rightarrow> hostptr list \<Rightarrow> 'm \<Rightarrow> u64 list \<Rightarrow> nat \<Rightarrow> u64 list list \<Rightarrow>
     ('p, 'm) haze \<Rightarrow> unit expected \<times> ('p, 'm) haze" where
  "mod_up_digits E dst x target_base d [] s = (Inr (), s)"
| "mod_up_digits E dst x target_base d (digit_base # rest) s =
     (let (sub, s1) = fh_mrp E (MrSubset x digit_base) s;
          (digit, s2) = fh_mrp E (FastBaseConvert sub target_base (fbc_variant (hz_config s1))
                                    (fbc_center_shape (hz_config s1))) s1;
          d_base = mrp_base E digit
      in case store_mrp_locked E (drop (d * length d_base) dst) digit d_base s2 of
           (Inl e, s3) \<Rightarrow> (Inl e, s3)
         | (Inr _, s3) \<Rightarrow> mod_up_digits E dst x target_base (Suc d) rest s3)"

definition mod_up ::
    "('p, 'm) fh_env \<Rightarrow> hostptr list \<Rightarrow> hostptr list \<Rightarrow> hazeModUpParams \<Rightarrow>
     ('p, 'm) haze \<Rightarrow> (unit expected \<times> ('p, 'm) haze) option" where
  "mod_up E dst src p s =
     (case validate_mod_up p of
        Inl e \<Rightarrow> Some (Inl e, s)
      | Inr _ \<Rightarrow>
          (case build_mrp_locked E src (base_of (mu_src_base p) (mu_src_base_len p))
                  (open_session E s) of
             (Inl e, s1) \<Rightarrow> Some (Inl e, s1)
           | (Inr x, s1) \<Rightarrow>
               (case slice_digits (base_of (mu_digit_bases p) (mu_digit_bases_total_len p)) 0
                       (base_of (mu_digit_base_lens p) (mu_digit_count p)) of
                  None \<Rightarrow> None
                | Some digit_bases \<Rightarrow>
                    let target_base = mrp_base E x @ base_of (mu_p_base p) (mu_p_base_len p)
                    in Some (mod_up_digits E dst x target_base 0 digit_bases s1))))"

end
