(* ===== verification/Haze_Inv.thy ===== *)
theory Haze_Inv
  imports Haze_Compute
begin

text \<open>
  The invariant of the whole state: configuration and allocator agree (\<open>cfg_inv\<close>) and the
  epoch's bookkeeping is consistent (\<open>epoch_inv\<close>). Every operation of the core keeps it,
  whatever the environment answers.
\<close>

definition haze_inv :: "('p, 'm) haze \<Rightarrow> bool" where
  "haze_inv s \<longleftrightarrow> cfg_inv (hz_config s, hz_alloc s) \<and> epoch_inv (hz_epoch s)"

lemma haze_inv_init: "haze_inv (haze_init hm)"
  using cfg_history.invar_start by (simp add: haze_inv_def haze_init_def epoch_inv_init)

lemma haze_inv_emit [simp]: "haze_inv (fh_emit c s) \<longleftrightarrow> haze_inv s"
  by (simp add: haze_inv_def)

lemma haze_inv_upd_epoch:
  "haze_inv s \<Longrightarrow> epoch_inv (f (hz_epoch s)) \<Longrightarrow> haze_inv (upd_epoch f s)"
  by (simp add: haze_inv_def)

lemma cfg_inv_alloc:
  "cfg_inv (c, al) \<Longrightarrow> alloc_inv al' \<Longrightarrow> poly_bytes al' = poly_bytes al \<Longrightarrow> cfg_inv (c, al')"
  by (simp add: cfg_inv_def)

lemma haze_inv_upd_alloc:
  assumes "haze_inv s" and "alloc_inv al" and "poly_bytes al = poly_bytes (hz_alloc s)"
  shows "haze_inv (upd_alloc (\<lambda>_. al) s)"
  using assms cfg_inv_alloc by (auto simp: haze_inv_def)

lemma haze_inv_alloc_inv: "haze_inv s \<Longrightarrow> alloc_inv (hz_alloc s)"
  by (simp add: haze_inv_def cfg_inv_def)

lemma haze_inv_epoch: "haze_inv s \<Longrightarrow> epoch_inv (hz_epoch s)"
  by (simp add: haze_inv_def)

lemma haze_inv_cong:
  assumes "haze_inv s" and "hz_config t = hz_config s" and "hz_alloc t = hz_alloc s"
    and "hz_epoch t = hz_epoch s"
  shows "haze_inv t"
  using assms by (simp add: haze_inv_def)

section \<open>Sessions and bindings\<close>

lemma open_session_frame [frame_simps]:
  "hz_config (open_session E s) = hz_config s"
  "hz_alloc (open_session E s) = hz_alloc s"
  using ensure_initialized_frame [of E s]
  by (auto simp: open_session_def ensure_recording_locked_def start_recording_def Let_def
      split: prod.splits)

lemma open_session_epoch:
  "hz_epoch (open_session E s) = (hz_epoch s)\<lparr>recording :=
     recording (hz_epoch s) \<or> hz_backend_initialized (snd (ensure_initialized E s))\<rparr>"
  using ensure_initialized_frame(3) [of E s]
  by (auto simp: open_session_def ensure_recording_locked_def start_recording_def Let_def
      is_initialized_def split: prod.splits)

lemma epoch_inv_recording [simp]: "epoch_inv (ep\<lparr>recording := b\<rparr>) \<longleftrightarrow> epoch_inv ep"
  by (simp add: epoch_inv_def groups_inv_def bindings_inv_def)

lemma epoch_inv_counter [simp]: "epoch_inv (ep\<lparr>input_counter := n\<rparr>) \<longleftrightarrow> epoch_inv ep"
  by (simp add: epoch_inv_def groups_inv_def bindings_inv_def)

lemma epoch_inv_tagged_names [simp]:
  "epoch_inv (ep\<lparr>mrp_input_tagged_names := ns\<rparr>) \<longleftrightarrow> epoch_inv ep"
  by (simp add: epoch_inv_def groups_inv_def bindings_inv_def)

lemma haze_inv_session: "haze_inv s \<Longrightarrow> haze_inv (open_session E s)"
  by (simp add: haze_inv_def frame_simps open_session_epoch)

text \<open>
  What resolving an address does, on every branch: nothing when it is bound; otherwise the
  shadow is extracted, and on success the fresh polynomial is tagged and bound.
\<close>

definition bind_input :: "DevAddr \<Rightarrow> 'p \<Rightarrow> 'p epoch \<Rightarrow> 'p epoch" where
  "bind_input a p ep = ep\<lparr>input_counter := input_counter ep + 1,
     poly_map := (poly_map ep)(a \<mapsto> p), input_addrs := insert a (input_addrs ep)\<rparr>"

definition input_name :: "'p epoch \<Rightarrow> string" where
  "input_name ep = ''haze_in_'' @ to_string (unat (input_counter ep))"

definition input_poly ::
    "('p, 'm) fh_env \<Rightarrow> u64 list \<Rightarrow> ('p, 'm) haze \<Rightarrow> 'p" where
  "input_poly E v s = poly_of E (hz_trace s) (FromData v (cf_ring_dim (hz_config s)) Evaluation)"

definition made_input ::
    "('p, 'm) fh_env \<Rightarrow> u64 list \<Rightarrow> ('p, 'm) haze \<Rightarrow> ('p, 'm) haze" where
  "made_input E v s =
     fh_emit (Tag (TagInput (input_name (hz_epoch s)) (input_poly E v s)))
       (fh_emit (FromData v (cf_ring_dim (hz_config s)) Evaluation) s)"

lemma made_input_simps [simp]:
  "hz_config (made_input E v s) = hz_config s"
  "hz_alloc (made_input E v s) = hz_alloc s"
  "hz_epoch (made_input E v s) = hz_epoch s"
  "hz_host (made_input E v s) = hz_host s"
  "hz_backend_initialized (made_input E v s) = hz_backend_initialized s"
  "hz_trace (made_input E v s) = hz_trace s @
     [FromData v (cf_ring_dim (hz_config s)) Evaluation,
      Tag (TagInput (input_name (hz_epoch s)) (input_poly E v s))]"
  by (simp_all add: made_input_def)

lemma bind_input_simps [simp]:
  "poly_map (bind_input a p ep) = (poly_map ep)(a \<mapsto> p)"
  "pending_outputs (bind_input a p ep) = pending_outputs ep"
  "input_addrs (bind_input a p ep) = insert a (input_addrs ep)"
  "addr_modulus (bind_input a p ep) = addr_modulus ep"
  "known_mrp_groups (bind_input a p ep) = known_mrp_groups ep"
  "addr_to_mrp_groups (bind_input a p ep) = addr_to_mrp_groups ep"
  "pending_mrp_groups (bind_input a p ep) = pending_mrp_groups ep"
  "mrp_in_names (bind_input a p ep) = mrp_in_names ep"
  "mrp_out_names (bind_input a p ep) = mrp_out_names ep"
  "mrp_in_name_counter (bind_input a p ep) = mrp_in_name_counter ep"
  "mrp_out_name_counter (bind_input a p ep) = mrp_out_name_counter ep"
  "mrp_input_tagged_names (bind_input a p ep) = mrp_input_tagged_names ep"
  "input_counter (bind_input a p ep) = input_counter ep + 1"
  "output_counter (bind_input a p ep) = output_counter ep"
  "recording (bind_input a p ep) = recording ep"
  by (simp_all add: bind_input_def)

lemma epoch_inv_bind_input:
  assumes "epoch_inv ep"
  shows "epoch_inv (bind_input a p ep)"
proof -
  have "groups_inv (bind_input a p ep)"
    by (rule groups_inv_cong [OF epoch_invD(1) [OF assms]]) auto
  with assms show ?thesis by (auto simp: epoch_inv_def bindings_inv_def)
qed

lemma lookup_bound:
  "poly_map (hz_epoch s) a = Some p \<Longrightarrow> lookup_or_create_locked E a s = (Inr p, s)"
  by (simp add: lookup_or_create_locked_def)

lemma lookup_fails:
  assumes "poly_map (hz_epoch s) a = None"
    and "extract_polynomial_components a (cf_ring_dim (hz_config s)) (hz_alloc s) = (Inl e, al)"
  shows "lookup_or_create_locked E a s =
    (Inl (if e = NoData then SourceUnavailable else e), upd_alloc (\<lambda>_. al) s)"
  using assms by (simp add: lookup_or_create_locked_def cfg_ring_dim_def)

lemma lookup_creates:
  assumes "poly_map (hz_epoch s) a = None"
    and "extract_polynomial_components a (cf_ring_dim (hz_config s)) (hz_alloc s) = (Inr v, al)"
  shows "lookup_or_create_locked E a s =
    (Inr (input_poly E v s),
     upd_epoch (bind_input a (input_poly E v s)) (made_input E v (upd_alloc (\<lambda>_. al) s)))"
  using assms
  by (auto simp: lookup_or_create_locked_def cfg_ring_dim_def fh_poly_def input_poly_def
      made_input_def input_name_def upd_epoch_def fh_emit_def upd_alloc_def bind_input_def Let_def)

lemma lookup_cases:
  obtains (bound) p where "poly_map (hz_epoch s) a = Some p"
      "lookup_or_create_locked E a s = (Inr p, s)"
  | (fails) e al where "poly_map (hz_epoch s) a = None"
      "extract_polynomial_components a (cf_ring_dim (hz_config s)) (hz_alloc s) = (Inl e, al)"
      "lookup_or_create_locked E a s =
         (Inl (if e = NoData then SourceUnavailable else e), upd_alloc (\<lambda>_. al) s)"
  | (creates) v al where "poly_map (hz_epoch s) a = None"
      "extract_polynomial_components a (cf_ring_dim (hz_config s)) (hz_alloc s) = (Inr v, al)"
      "lookup_or_create_locked E a s = (Inr (input_poly E v s),
         upd_epoch (bind_input a (input_poly E v s)) (made_input E v (upd_alloc (\<lambda>_. al) s)))"
proof (cases "poly_map (hz_epoch s) a")
  case (Some p)
  then show thesis by (rule bound) (rule lookup_bound [OF Some])
next
  case None
  obtain r al where x: "extract_polynomial_components a (cf_ring_dim (hz_config s)) (hz_alloc s) =
      (r, al)" by (cases "extract_polynomial_components a (cf_ring_dim (hz_config s)) (hz_alloc s)")
  show thesis
  proof (cases r)
    case (Inl e)
    with x have "extract_polynomial_components a (cf_ring_dim (hz_config s)) (hz_alloc s) =
        (Inl e, al)" by simp
    from fails [OF None this lookup_fails [OF None this]] show thesis .
  next
    case (Inr v)
    with x have "extract_polynomial_components a (cf_ring_dim (hz_config s)) (hz_alloc s) =
        (Inr v, al)" by simp
    from creates [OF None this lookup_creates [OF None this]] show thesis .
  qed
qed

lemma lookup_frame [frame_simps]:
  "hz_config (snd (lookup_or_create_locked E a s)) = hz_config s"
  "hz_host (snd (lookup_or_create_locked E a s)) = hz_host s"
  "recording (hz_epoch (snd (lookup_or_create_locked E a s))) = recording (hz_epoch s)"
  "known_mrp_groups (hz_epoch (snd (lookup_or_create_locked E a s))) = known_mrp_groups (hz_epoch s)"
  "pending_outputs (hz_epoch (snd (lookup_or_create_locked E a s))) = pending_outputs (hz_epoch s)"
  "addr_modulus (hz_epoch (snd (lookup_or_create_locked E a s))) = addr_modulus (hz_epoch s)"
  by (cases rule: lookup_cases [of s a E]; simp)+

lemma lookup_binds:
  assumes "lookup_or_create_locked E a s = (Inr p, s')"
  shows "poly_map (hz_epoch s') = (poly_map (hz_epoch s))(a \<mapsto> p)"
  using assms by (cases rule: lookup_cases [of s a E]) auto

lemma haze_inv_extract:
  assumes "haze_inv s" and "extract_polynomial_components a rd (hz_alloc s) = (r, al)"
  shows "haze_inv (upd_alloc (\<lambda>_. al) s)"
  using haze_inv_upd_alloc [OF assms(1), of al] assms(2)
    alloc_inv_writes(4) [OF haze_inv_alloc_inv [OF assms(1)], of a rd]
    extract_frame(4) [of a rd "hz_alloc s"] by simp

lemma haze_inv_made_input [simp]: "haze_inv (made_input E v s) \<longleftrightarrow> haze_inv s"
  by (simp add: haze_inv_def)

lemma haze_inv_lookup:
  assumes "haze_inv s"
  shows "haze_inv (snd (lookup_or_create_locked E a s))"
proof (cases rule: lookup_cases [of s a E])
  case (creates v al)
  have "haze_inv (upd_alloc (\<lambda>_. al) s)" using assms creates(2) by (rule haze_inv_extract)
  moreover have "epoch_inv (bind_input a (input_poly E v s) (hz_epoch s))"
    by (intro epoch_inv_bind_input haze_inv_epoch assms)
  ultimately show ?thesis using creates(3) by (simp add: haze_inv_upd_epoch)
qed (use assms haze_inv_extract in simp_all)

lemma haze_inv_lookup_eq:
  "haze_inv s \<Longrightarrow> lookup_or_create_locked E a s = (r, s') \<Longrightarrow> haze_inv s'"
  using haze_inv_lookup [of s E a] by simp

lemma haze_inv_store:
  "haze_inv s \<Longrightarrow> haze_inv (upd_epoch (store_compute_result_locked d p q) s)"
  by (intro haze_inv_upd_epoch epoch_inv_store haze_inv_epoch)

section \<open>Copies and input tags\<close>

lemma copy_result_fails:
  "lookup_or_create_locked E src s = (Inl e, s1) \<Longrightarrow>
   copy_result_locked E dst src q s = (Inl e, s1)"
  by (simp add: copy_result_locked_def)

text \<open>The effect of a copy once its source is resolved; \<open>q\<close> is the recovered modulus.\<close>

definition copied ::
    "('p, 'm) fh_env \<Rightarrow> DevAddr \<Rightarrow> DevAddr \<Rightarrow> 'p \<Rightarrow> u64 \<Rightarrow> ('p, 'm) haze \<Rightarrow> ('p, 'm) haze" where
  "copied E dst src p q s =
     (let c = poly_of E (hz_trace s) (SrPS SrAddps p 0 kCopyModulus);
          s2 = fh_emit (SrPS SrAddps p 0 kCopyModulus) s;
          s3 = (if q \<noteq> kCopyModulus then
                  upd_epoch (\<lambda>ep. ep\<lparr>addr_modulus := (addr_modulus ep)(src \<mapsto> q)\<rparr>)
                    (fh_emit (BindModulus c q) (fh_emit (BindModulus p q) s2))
                else s2)
      in upd_epoch (store_compute_result_locked dst c q) s3)"

lemma copy_result_ok:
  assumes "lookup_or_create_locked E src s = (Inr p, s1)"
  shows "copy_result_locked E dst src q s =
    (Inr (), copied E dst src p
       (if q = kCopyModulus then recorded_modulus_locked src (hz_epoch s1) else q) s1)"
  using assms by (simp add: copy_result_locked_def copied_def fh_poly_def Let_def)

lemma epoch_inv_modulus:
  "epoch_inv ep \<Longrightarrow> a \<in> dom (poly_map ep) \<Longrightarrow>
   epoch_inv (ep\<lparr>addr_modulus := (addr_modulus ep)(a \<mapsto> q)\<rparr>)"
  by (auto simp: epoch_inv_def bindings_inv_def groups_inv_def)

lemma epoch_inv_copied:
  assumes "epoch_inv (hz_epoch s)" and "src \<in> dom (poly_map (hz_epoch s))"
  shows "epoch_inv (hz_epoch (copied E dst src p q s))"
  using assms by (simp add: copied_def Let_def epoch_inv_store epoch_inv_modulus)

lemma haze_inv_copied:
  assumes "haze_inv s" and "src \<in> dom (poly_map (hz_epoch s))"
  shows "haze_inv (copied E dst src p q s)"
  using assms epoch_inv_copied [of s src E dst p q] by (simp add: haze_inv_def copied_def Let_def)

lemma haze_inv_copy_result:
  assumes "haze_inv s"
  shows "haze_inv (snd (copy_result_locked E dst src q s))"
proof -
  obtain r s1 where l: "lookup_or_create_locked E src s = (r, s1)"
    by (cases "lookup_or_create_locked E src s")
  then have s1: "haze_inv s1" by (rule haze_inv_lookup_eq [OF assms])
  show ?thesis
  proof (cases r)
    case (Inr p)
    then have "src \<in> dom (poly_map (hz_epoch s1))" using l lookup_binds [of E src s p s1] by auto
    then show ?thesis using s1 l Inr by (simp add: copy_result_ok haze_inv_copied)
  qed (use l s1 in \<open>simp add: copy_result_fails\<close>)
qed

definition h2d_bind :: "DevAddr \<Rightarrow> 'p \<Rightarrow> 'p epoch \<Rightarrow> 'p epoch" where
  "h2d_bind a p ep = (bind_input a p ep)\<lparr>pending_outputs := al_erase a (pending_outputs ep)\<rparr>"

lemma tag_h2d_ok:
  assumes "read_polynomial_components a (cf_ring_dim (hz_config s)) (hz_alloc s) = Inr v"
  shows "tag_h2d_input_locked E a s =
    (Inr (), upd_epoch (h2d_bind a (input_poly E v s)) (made_input E v s))"
proof -
  have "cf_ring_dim (hz_config s) \<noteq> 0"
    using assms by (auto simp: read_polynomial_components_def)
  with assms show ?thesis
    by (auto simp: tag_h2d_input_locked_def cfg_ring_dim_def fh_poly_def input_poly_def
        made_input_def input_name_def upd_epoch_def fh_emit_def h2d_bind_def bind_input_def Let_def)
qed

lemma tag_h2d_fails:
  assumes "read_polynomial_components a (cf_ring_dim (hz_config s)) (hz_alloc s) = Inl e"
  shows "tag_h2d_input_locked E a s = (Inl e, s)"
  using assms
  by (auto simp: tag_h2d_input_locked_def cfg_ring_dim_def read_polynomial_components_def Let_def)

lemma epoch_inv_h2d_bind: "epoch_inv ep \<Longrightarrow> epoch_inv (h2d_bind a p ep)"
  using groups_inv_cong [of "bind_input a p ep" "h2d_bind a p ep"] epoch_inv_bind_input [of ep a p]
  by (auto simp: h2d_bind_def epoch_inv_def bindings_inv_def)

lemma haze_inv_tag_h2d:
  assumes "haze_inv s"
  shows "haze_inv (snd (tag_h2d_input_locked E a s))"
proof (cases "read_polynomial_components a (cf_ring_dim (hz_config s)) (hz_alloc s)")
  case (Inl e)
  with assms show ?thesis by (simp add: tag_h2d_fails)
next
  case (Inr v)
  with assms show ?thesis
    by (simp add: tag_h2d_ok haze_inv_upd_epoch epoch_inv_h2d_bind haze_inv_epoch)
qed

lemma haze_inv_tag_mrp_input:
  "haze_inv s \<Longrightarrow> haze_inv (tag_mrp_input_if_new_locked n m s)"
  by (simp add: tag_mrp_input_if_new_locked_def haze_inv_upd_epoch haze_inv_epoch)

section \<open>Multi-residue glue\<close>

lemma haze_inv_build_pairs: "haze_inv s \<Longrightarrow> haze_inv (snd (build_pairs E ps s))"
proof (induction ps arbitrary: s)
  case Nil
  then show ?case by simp
next
  case (Cons x ps)
  obtain ptr q where x: "x = (ptr, q)" by (cases x)
  obtain r s1 where l: "lookup_or_create_locked E (to_dev_addr ptr) s = (r, s1)"
    by (cases "lookup_or_create_locked E (to_dev_addr ptr) s")
  then have "haze_inv s1" by (rule haze_inv_lookup_eq [OF Cons.prems])
  then have "haze_inv (snd (build_pairs E ps s1))" by (rule Cons.IH)
  with \<open>haze_inv s1\<close> show ?case by (auto simp: x l split: sum.splits prod.splits)
qed

lemma haze_inv_group_name:
  "haze_inv s \<Longrightarrow> mrp_group_name_locked out a (hz_epoch s) = (n, ep) \<Longrightarrow>
   haze_inv (upd_epoch (\<lambda>_. ep) s)"
  using epoch_inv_group_name [of "hz_epoch s" out a]
  by (simp add: haze_inv_upd_epoch haze_inv_epoch)

lemma haze_inv_build_mrp:
  assumes "haze_inv s"
  shows "haze_inv (snd (build_mrp_locked E polys base s))"
proof -
  obtain r s1 where b: "build_pairs E (zip polys base) s = (r, s1)"
    by (cases "build_pairs E (zip polys base) s")
  then have "haze_inv s1" using haze_inv_build_pairs [OF assms, of E "zip polys base"] by simp
  with b show ?thesis
    by (auto simp: build_mrp_locked_def Let_def haze_inv_tag_mrp_input haze_inv_group_name
        split: sum.splits prod.splits)
qed

lemma haze_inv_build_mrp_eq:
  "haze_inv s \<Longrightarrow> build_mrp_locked E polys base s = (r, s1) \<Longrightarrow> haze_inv s1"
  using haze_inv_build_mrp [of s E polys base] by simp

lemma epoch_inv_register_outputs:
  assumes "epoch_inv (hz_epoch s)" and "set addrs \<subseteq> dom (poly_map (hz_epoch s))"
  shows "epoch_inv (hz_epoch (snd (register_outputs addrs base s)))"
proof -
  obtain n ep where n: "mrp_group_name_locked True (hd addrs) (hz_epoch s) = (n, ep)"
    by (cases "mrp_group_name_locked True (hd addrs) (hz_epoch s)")
  have ep: "epoch_inv ep" "poly_map ep = poly_map (hz_epoch s)"
    using epoch_inv_group_name [OF assms(1), of True "hd addrs"]
      mrp_group_name_simps(1) [of True "hd addrs" "hz_epoch s"] n by simp_all
  show ?thesis
  proof (cases "1 < length base")
    case True
    then have "base \<noteq> []" by auto
    then have "epoch_inv (snd (register_mrp_output_group_locked addrs base n ep))"
      using ep assms(2) by (intro epoch_inv_register) simp_all
    with True show ?thesis by (auto simp: register_outputs_def n split: prod.splits)
  qed (use assms(1) in \<open>simp add: register_outputs_def\<close>)
qed

lemma register_outputs_frame [frame_simps]:
  "hz_config (snd (register_outputs addrs base s)) = hz_config s"
  "hz_alloc (snd (register_outputs addrs base s)) = hz_alloc s"
  "hz_trace (snd (register_outputs addrs base s)) = hz_trace s"
  "hz_backend_initialized (snd (register_outputs addrs base s)) = hz_backend_initialized s"
  by (simp_all add: register_outputs_def split: prod.split)

lemma haze_inv_register_outputs:
  "haze_inv s \<Longrightarrow> set addrs \<subseteq> dom (poly_map (hz_epoch s)) \<Longrightarrow>
   haze_inv (snd (register_outputs addrs base s))"
  by (simp add: haze_inv_def frame_simps epoch_inv_register_outputs)

definition store_residues ::
    "('p, 'm) fh_env \<Rightarrow> 'm \<Rightarrow> (hostptr \<times> u64) list \<Rightarrow> ('p, 'm) haze \<Rightarrow> ('p, 'm) haze" where
  "store_residues E mrp ps s = foldl (\<lambda>s (ptr, q). upd_epoch
     (store_compute_result_locked (to_dev_addr ptr) (mrp_at E mrp q) q) s) s ps"

lemma store_residues_simps [simp]:
  "store_residues E m [] s = s"
  "store_residues E m ((ptr, q) # ps) s = store_residues E m ps
     (upd_epoch (store_compute_result_locked (to_dev_addr ptr) (mrp_at E m q) q) s)"
  by (simp_all add: store_residues_def)

lemma store_residues_frame [frame_simps]:
  "hz_config (store_residues E m ps s) = hz_config s"
  "hz_alloc (store_residues E m ps s) = hz_alloc s"
  "hz_trace (store_residues E m ps s) = hz_trace s"
  "hz_host (store_residues E m ps s) = hz_host s"
  "hz_backend_initialized (store_residues E m ps s) = hz_backend_initialized s"
  by (induction ps arbitrary: s) auto

lemma store_residues_dom:
  "dom (poly_map (hz_epoch (store_residues E m ps s))) =
   dom (poly_map (hz_epoch s)) \<union> to_dev_addr ` fst ` set ps"
proof (induction ps arbitrary: s)
  case (Cons x ps)
  obtain ptr q where x: "x = (ptr, q)" by (cases x)
  have "dom (poly_map (store_compute_result_locked (to_dev_addr ptr) (mrp_at E m q) q (hz_epoch s)))
      = insert (to_dev_addr ptr) (dom (poly_map (hz_epoch s)))"
    by (auto simp: store_compute_result_locked_def)
  then show ?case by (auto simp: x Cons.IH simp del: fun_upd_apply)
qed simp

lemma epoch_inv_store_residues:
  "epoch_inv (hz_epoch s) \<Longrightarrow> epoch_inv (hz_epoch (store_residues E m ps s))"
proof (induction ps arbitrary: s)
  case (Cons x ps)
  then show ?case by (cases x) (simp add: Cons.IH epoch_inv_store)
qed simp

lemma store_mrp_eq:
  "store_mrp_locked E dst m base s = register_outputs
     (map to_dev_addr (take (length base) dst)) base (store_residues E m (zip dst base) s)"
  by (simp add: store_mrp_locked_def store_residues_def)

lemma zip_covers_take: "set (take (length ys) xs) = fst ` set (zip xs ys)"
  by (simp add: set_map [symmetric] map_fst_zip_take del: set_map) (simp add: min_def take_all_iff)

lemma store_mrp_frame [frame_simps]:
  "hz_config (snd (store_mrp_locked E dst m base s)) = hz_config s"
  "hz_alloc (snd (store_mrp_locked E dst m base s)) = hz_alloc s"
  "hz_trace (snd (store_mrp_locked E dst m base s)) = hz_trace s"
  "hz_backend_initialized (snd (store_mrp_locked E dst m base s)) = hz_backend_initialized s"
  by (simp_all add: store_mrp_eq frame_simps)

lemma epoch_inv_store_mrp:
  assumes "epoch_inv (hz_epoch s)"
  shows "epoch_inv (hz_epoch (snd (store_mrp_locked E dst m base s)))"
  unfolding store_mrp_eq
  using epoch_inv_store_residues [OF assms]
  by (intro epoch_inv_register_outputs) (auto simp: store_residues_dom zip_covers_take)

lemma haze_inv_store_mrp: "haze_inv s \<Longrightarrow> haze_inv (snd (store_mrp_locked E dst m base s))"
  by (simp add: haze_inv_def frame_simps epoch_inv_store_mrp)

lemma haze_inv_h2d_writes: "haze_inv s \<Longrightarrow> haze_inv (snd (h2d_writes ps n s))"
proof (induction ps arbitrary: s)
  case Nil
  then show ?case by simp
next
  case (Cons x ps)
  obtain d h where x: "x = (d, h)" by (cases x)
  obtain r al where c: "copy_h2d (hz_host s) (to_dev_addr d) h n (hz_alloc s) = (r, al)"
    by (cases "copy_h2d (hz_host s) (to_dev_addr d) h n (hz_alloc s)")
  then have "haze_inv (upd_alloc (\<lambda>_. al) s)"
    using haze_inv_upd_alloc [OF Cons.prems, of al] copy_h2d_frame(4) [of "hz_host s" _ h n "hz_alloc s"]
      alloc_inv_writes(1) [OF haze_inv_alloc_inv [OF Cons.prems], of "hz_host s" _ h n]
    by (metis snd_conv)
  then show ?case using c Cons.IH [of "upd_alloc (\<lambda>_. al) s"] by (cases r) (simp_all add: x)
qed

lemma haze_inv_h2d_tags: "haze_inv s \<Longrightarrow> haze_inv (snd (h2d_tags E ds s))"
proof (induction ds arbitrary: s)
  case Nil
  then show ?case by simp
next
  case (Cons d ds)
  obtain r s1 where t: "tag_h2d_input_locked E (to_dev_addr d) s = (r, s1)"
    by (cases "tag_h2d_input_locked E (to_dev_addr d) s")
  then have "haze_inv s1" using haze_inv_tag_h2d [OF Cons.prems, of E "to_dev_addr d"] by simp
  then show ?case using t Cons.IH [of s1] by (cases r) simp_all
qed

lemma haze_inv_copy_h2d_mrp:
  "haze_inv s \<Longrightarrow> haze_inv (snd (copy_h2d_mrp E dst src n s))"
  using haze_inv_h2d_writes [of s "zip dst src" n]
  by (auto simp: copy_h2d_mrp_def haze_inv_h2d_tags haze_inv_session split: sum.splits prod.splits)

lemma haze_inv_copy_residues: "haze_inv s \<Longrightarrow> haze_inv (snd (copy_residues E ps s))"
proof (induction ps arbitrary: s)
  case Nil
  then show ?case by simp
next
  case (Cons x ps)
  obtain d h q where x: "x = (d, h, q)" by (cases x)
  obtain r s1 where c: "copy_result_locked E (to_dev_addr d) (to_dev_addr h) q s = (r, s1)"
    by (cases "copy_result_locked E (to_dev_addr d) (to_dev_addr h) q s")
  then have "haze_inv s1"
    using haze_inv_copy_result [OF Cons.prems, of E "to_dev_addr d" "to_dev_addr h" q] by simp
  then show ?case using c Cons.IH [of s1] by (cases r) (simp_all add: x)
qed

section \<open>Finalising\<close>

lemma clear_state_epoch [simp]: "hz_epoch (clear_state_locked s) = epoch_init"
  by (rule epoch.equality) (simp_all add: clear_state_locked_def epoch_init_def)

lemma clear_state_frame [simp]:
  "hz_config (clear_state_locked s) = hz_config s"
  "hz_alloc (clear_state_locked s) = hz_alloc s"
  "hz_backend_initialized (clear_state_locked s) = hz_backend_initialized s"
  "hz_trace (clear_state_locked s) = hz_trace s @ [Compiler ClearCaptured]"
  "hz_host (clear_state_locked s) = hz_host s"
  "hz_hook_had_error (clear_state_locked s) = hz_hook_had_error s"
  by (simp_all add: clear_state_locked_def)

lemma haze_inv_clear: "haze_inv s \<Longrightarrow> haze_inv (clear_state_locked s)"
  by (simp add: haze_inv_def epoch_inv_init)

text \<open>Tagging succeeds because the invariant keeps every tag and member bound.\<close>

lemma tag_srp_outputs_ok:
  assumes "al_keys outs \<subseteq> dom (poly_map (hz_epoch s))"
  shows "tag_srp_outputs outs s = (Inr (), s\<lparr>hz_trace := hz_trace s @
    map (\<lambda>(a, n). Tag (TagOutput n (the (poly_map (hz_epoch s) a)))) outs\<rparr>)"
  using assms
proof (induction outs arbitrary: s)
  case (Cons x outs)
  obtain a n where x: "x = (a, n)" by (cases x)
  with Cons.prems obtain p where p: "poly_map (hz_epoch s) a = Some p" by auto
  show ?case using Cons.prems by (simp add: x p Cons.IH)
qed simp

lemma group_pairs_ok:
  assumes "fst ` set ps \<subseteq> dom pm"
  shows "group_pairs pm ps = Inr (map (\<lambda>(a, q). (the (pm a), q)) ps)"
  using assms by (induction ps) auto

definition group_value ::
    "('p, 'm) fh_env \<Rightarrow> 'p epoch \<Rightarrow> string \<Rightarrow> 'm" where
  "group_value E ep n = (let g = the (known_mrp_groups ep n) in
     mrp_from_pairs E (map (\<lambda>(a, q). (the (poly_map ep a), q)) (zip (mg_addrs g) (mg_moduli g))))"

lemma tag_mrp_outputs_ok:
  assumes "groups_inv (hz_epoch s)" and "set ns \<subseteq> dom (known_mrp_groups (hz_epoch s))"
  shows "tag_mrp_outputs E ns s = (Inr (), s\<lparr>hz_trace := hz_trace s @
    map (\<lambda>n. Tag (TagOutputMrp n (group_value E (hz_epoch s) n))) ns\<rparr>)"
  using assms
proof (induction ns arbitrary: s)
  case (Cons n ns)
  from Cons.prems(2) obtain g where g: "known_mrp_groups (hz_epoch s) n = Some g" by auto
  have "fst ` set (zip (mg_addrs g) (mg_moduli g)) \<subseteq> dom (poly_map (hz_epoch s))"
    using groups_inv_group(3) [OF Cons.prems(1) g] by (auto dest: set_zip_leftD)
  with Cons.prems g show ?case
    by (simp add: group_pairs_ok Cons.IH) (simp add: fh_emit_def group_value_def)
qed simp

definition output_tags :: "('p, 'm) fh_env \<Rightarrow> 'p epoch \<Rightarrow> ('p, 'm) trace" where
  "output_tags E ep =
     map (\<lambda>(a, n). Tag (TagOutput n (the (poly_map ep a)))) (pending_outputs ep) @
     map (\<lambda>n. Tag (TagOutputMrp n (group_value E ep n))) (pending_mrp_groups ep)"

lemma tag_pending_outputs_ok:
  assumes "epoch_inv (hz_epoch s)"
  shows "tag_pending_outputs_locked E s =
    (Inr (), s\<lparr>hz_trace := hz_trace s @ output_tags E (hz_epoch s)\<rparr>)"
proof -
  let ?s1 = "s\<lparr>hz_trace := hz_trace s @ map (\<lambda>(a, n).
      Tag (TagOutput n (the (poly_map (hz_epoch s) a)))) (pending_outputs (hz_epoch s))\<rparr>"
  have "tag_srp_outputs (pending_outputs (hz_epoch s)) s = (Inr (), ?s1)"
    using assms by (intro tag_srp_outputs_ok) (simp add: epoch_inv_def bindings_inv_def)
  moreover have "set (pending_mrp_groups (hz_epoch s)) \<subseteq> dom (known_mrp_groups (hz_epoch s))"
    using groups_inv_pending(2) [OF epoch_invD(1) [OF assms]] by auto
  ultimately show ?thesis
    using tag_mrp_outputs_ok [of ?s1 "pending_mrp_groups (hz_epoch s)" E] epoch_invD(1) [OF assms]
    by (simp add: tag_pending_outputs_locked_def output_tags_def)
qed

text \<open>Reading the results back changes the trace and the shadows only.\<close>

lemma populate_frame [frame_simps]:
  "hz_config (snd (populate_shadows E outs s)) = hz_config s"
  "hz_epoch (snd (populate_shadows E outs s)) = hz_epoch s"
  "hz_host (snd (populate_shadows E outs s)) = hz_host s"
proof (induction outs arbitrary: s)
  case (Cons x outs)
  case 1
  show ?case using Cons fhetch_result_frame [of E "snd x" s]
    by (cases x) (auto split: option.splits prod.splits sum.splits)
  case 2
  show ?case using Cons fhetch_result_frame [of E "snd x" s]
    by (cases x) (auto split: option.splits prod.splits sum.splits)
  case 3
  have "hz_host (snd (fhetch_result E (snd x) s)) = hz_host s"
    by (simp add: fhetch_result_def fh_poly_def Let_def split: option.splits)
  then show ?case using Cons
    by (cases x) (auto split: option.splits prod.splits sum.splits)
qed simp_all

lemma haze_inv_update_shadow:
  assumes "haze_inv s" and "update_shadow a v (hz_alloc s) = (r, al)"
  shows "haze_inv (upd_alloc (\<lambda>_. al) s)"
  using haze_inv_upd_alloc [OF assms(1), of al] assms(2)
    alloc_inv_writes(3) [OF haze_inv_alloc_inv [OF assms(1)], of a v]
    update_shadow_frame(4) [of a v "hz_alloc s"] by simp

lemma haze_inv_populate: "haze_inv s \<Longrightarrow> haze_inv (snd (populate_shadows E outs s))"
proof (induction outs arbitrary: s)
  case (Cons x outs)
  obtain a n where x: "x = (a, n)" by (cases x)
  obtain r s1 where f: "fhetch_result E n s = (r, s1)" by (cases "fhetch_result E n s")
  then have s1: "haze_inv s1"
    using fhetch_result_frame [of E n s] haze_inv_cong [OF Cons.prems, of s1] by simp
  show ?case
  proof (cases "case r of None \<Rightarrow> None | Some p \<Rightarrow> extract_polynomial_values E p s1")
    case None
    with f s1 show ?thesis by (auto simp: x split: option.splits)
  next
    case (Some v)
    then obtain p where r: "r = Some p" and v: "extract_polynomial_values E p s1 = Some v"
      by (auto split: option.splits)
    obtain q al where u: "update_shadow a v (hz_alloc s1) = (q, al)"
      by (cases "update_shadow a v (hz_alloc s1)")
    have "haze_inv (upd_alloc (\<lambda>_. al) s1)" using s1 u by (rule haze_inv_update_shadow)
    with Cons.IH [OF this] show ?thesis by (cases q) (simp_all add: x f r v u)
  qed
qed simp

lemma do_materialize_inv:
  assumes "haze_inv s"
  shows "haze_inv (snd (do_materialize_locked E rr s))"
proof -
  obtain ok s1 where st: "stop_epoch E s = (ok, s1)" by (cases "stop_epoch E s")
  then have s1: "haze_inv s1"
    by (intro haze_inv_cong [OF assms]) (auto simp: stop_epoch_def fh_bool_def)
  define s2 where "s2 = s1\<lparr>hz_hook_had_error := False\<rparr>"
  have s2: "haze_inv s2" using s1 by (intro haze_inv_cong [OF s1]) (simp_all add: s2_def)
  obtain ok3 s3 where rp: "backend_replay E s2 = (ok3, s3)" by (cases "backend_replay E s2")
  then have s3: "haze_inv s3"
    using s2 by (auto simp: backend_replay_def fh_bool_def split: if_splits)
  obtain r s4 where po: "populate_shadows E (pending_outputs (hz_epoch s3)) s3 = (r, s4)"
    by (cases "populate_shadows E (pending_outputs (hz_epoch s3)) s3")
  then have "haze_inv s4"
    using haze_inv_populate [OF s3, of E "pending_outputs (hz_epoch s3)"] by simp
  with assms s1 s2 s3 show ?thesis
    by (simp add: do_materialize_locked_def st rp po hazeReplayBridgeTakeHookHadError_def
        s2_def [symmetric] haze_inv_clear split: bool.splits sum.splits)
qed

lemma haze_inv_finalize:
  assumes "haze_inv s"
  shows "haze_inv (snd (finalize_locked E rr s))"
proof -
  let ?s1 = "s\<lparr>hz_trace := hz_trace s @ output_tags E (hz_epoch s)\<rparr>"
  have "haze_inv ?s1" by (rule haze_inv_cong [OF assms]) simp_all
  then show ?thesis
    using assms
    by (simp add: finalize_locked_def tag_pending_outputs_ok [OF haze_inv_epoch [OF assms]]
        haze_inv_clear do_materialize_inv)
qed

section \<open>Compute entry points\<close>

lemma haze_inv_binary_pp:
  assumes "haze_inv s"
  shows "haze_inv (snd (binary_pp_op E f dst a b i s))"
proof -
  have s0: "haze_inv (open_session E s)" using assms by (rule haze_inv_session)
  obtain r1 s1 where l1: "lookup_or_create_locked E a (open_session E s) = (r1, s1)"
    by (cases "lookup_or_create_locked E a (open_session E s)")
  have s1: "haze_inv s1" using haze_inv_lookup_eq [OF s0 l1] .
  obtain r2 s2 where l2: "lookup_or_create_locked E b s1 = (r2, s2)"
    by (cases "lookup_or_create_locked E b s1")
  have "haze_inv s2" using haze_inv_lookup_eq [OF s1 l2] .
  with s0 s1 show ?thesis
    by (auto simp: binary_pp_op_def Let_def l1 l2 fh_poly_def haze_inv_store split: sum.splits)
qed

lemma haze_inv_binary_ps:
  assumes "haze_inv s"
  shows "haze_inv (snd (binary_ps_op E f dst a x i s))"
proof -
  have s0: "haze_inv (open_session E s)" using assms by (rule haze_inv_session)
  obtain r1 s1 where l1: "lookup_or_create_locked E a (open_session E s) = (r1, s1)"
    by (cases "lookup_or_create_locked E a (open_session E s)")
  with s0 haze_inv_lookup_eq [OF s0 l1] show ?thesis
    by (auto simp: binary_ps_op_def Let_def fh_poly_def haze_inv_store split: sum.splits)
qed

lemma haze_inv_unary_pq:
  assumes "haze_inv s"
  shows "haze_inv (snd (unary_pq_op E f dst a i s))"
proof -
  have s0: "haze_inv (open_session E s)" using assms by (rule haze_inv_session)
  obtain r1 s1 where l1: "lookup_or_create_locked E a (open_session E s) = (r1, s1)"
    by (cases "lookup_or_create_locked E a (open_session E s)")
  with s0 haze_inv_lookup_eq [OF s0 l1] show ?thesis
    by (auto simp: unary_pq_op_def Let_def fh_poly_def haze_inv_store split: sum.splits)
qed

lemma haze_inv_unary_pi:
  assumes "haze_inv s"
  shows "haze_inv (snd (unary_pi_op E dst a k s))"
proof -
  have s0: "haze_inv (open_session E s)" using assms by (rule haze_inv_session)
  obtain r1 s1 where l1: "lookup_or_create_locked E a (open_session E s) = (r1, s1)"
    by (cases "lookup_or_create_locked E a (open_session E s)")
  with s0 haze_inv_lookup_eq [OF s0 l1] show ?thesis
    by (auto simp: unary_pi_op_def Let_def fh_poly_def haze_inv_store split: sum.splits)
qed

lemma haze_inv_binary_pp_mrp:
  assumes "haze_inv s"
  shows "haze_inv (snd (binary_pp_op_mrp E f dst a b base s))"
proof -
  obtain r1 s1 where b1: "build_mrp_locked E a base (open_session E s) = (r1, s1)"
    by (cases "build_mrp_locked E a base (open_session E s)")
  have s1: "haze_inv s1" using haze_inv_build_mrp_eq [OF haze_inv_session [OF assms] b1] .
  obtain r2 s2 where b2: "build_mrp_locked E b base s1 = (r2, s2)"
    by (cases "build_mrp_locked E b base s1")
  have "haze_inv s2" using haze_inv_build_mrp_eq [OF s1 b2] .
  with s1 show ?thesis
    by (auto simp: binary_pp_op_mrp_def b1 b2 fh_mrp_def haze_inv_store_mrp split: sum.splits)
qed

lemma haze_inv_unary_mrp:
  assumes "haze_inv s"
  shows "haze_inv (snd (binary_ps_op_mrp E f1 dst a xs base s))"
    and "haze_inv (snd (unary_p_op_mrp E f2 dst a base s))"
    and "haze_inv (snd (unary_pi_op_mrp E f3 dst a k base s))"
proof -
  obtain r1 s1 where b1: "build_mrp_locked E a base (open_session E s) = (r1, s1)"
    by (cases "build_mrp_locked E a base (open_session E s)")
  have "haze_inv s1" using haze_inv_build_mrp_eq [OF haze_inv_session [OF assms] b1] .
  then show "haze_inv (snd (binary_ps_op_mrp E f1 dst a xs base s))"
    and "haze_inv (snd (unary_p_op_mrp E f2 dst a base s))"
    and "haze_inv (snd (unary_pi_op_mrp E f3 dst a k base s))"
    by (auto simp: binary_ps_op_mrp_def unary_p_op_mrp_def unary_pi_op_mrp_def b1 fh_mrp_def
        haze_inv_store_mrp split: sum.splits)
qed

lemma haze_inv_basis_convert:
  assumes "haze_inv s"
  shows "haze_inv (snd (basis_convert E dst src p s))"
proof -
  obtain r1 s1 where b1: "build_mrp_locked E src (base_of (bc_src_base p) (bc_src_base_len p))
      (open_session E s) = (r1, s1)" by (rule prod.exhaust)
  have "haze_inv s1" using haze_inv_build_mrp_eq [OF haze_inv_session [OF assms] b1] .
  with assms show ?thesis
    by (auto simp: basis_convert_def b1 fh_mrp_def haze_inv_store_mrp Let_def split: sum.splits)
qed

lemma haze_inv_mod_down:
  assumes "haze_inv s"
  shows "haze_inv (snd (mod_down E dst src p s))"
proof -
  obtain r1 s1 where b1: "build_mrp_locked E src (base_of (md_src_base p) (md_src_base_len p))
      (open_session E s) = (r1, s1)" by (rule prod.exhaust)
  have "haze_inv s1" using haze_inv_build_mrp_eq [OF haze_inv_session [OF assms] b1] .
  with assms show ?thesis
    by (auto simp: mod_down_def b1 fh_mrp_def haze_inv_store_mrp Let_def split: sum.splits)
qed

lemma haze_inv_mod_up_digits: "haze_inv s \<Longrightarrow> haze_inv (snd (mod_up_digits E dst x tb d ds s))"
proof (induction ds arbitrary: d s)
  case (Cons b ds)
  let ?sub = "mrp_of E (hz_trace s) (MrSubset x b)"
  let ?s1 = "fh_emit (MrSubset x b) s"
  let ?c = "FastBaseConvert ?sub tb (fbc_variant (hz_config s)) (fbc_center_shape (hz_config s))"
  let ?digit = "mrp_of E (hz_trace ?s1) ?c"
  let ?b = "mrp_base E ?digit"
  obtain r s3 where st: "store_mrp_locked E (drop (d * length ?b) dst) ?digit ?b (fh_emit ?c ?s1) =
      (r, s3)" by (rule prod.exhaust)
  have "haze_inv (fh_emit ?c ?s1)" using Cons.prems by simp
  from haze_inv_store_mrp [OF this, of E "drop (d * length ?b) dst" ?digit ?b] st
  have "haze_inv s3" by simp
  with Cons.IH [OF this, of "Suc d"] st show ?case by (cases r) (simp_all add: fh_mrp_def Let_def)
qed simp

lemma haze_inv_mod_up:
  assumes "haze_inv s" and "mod_up E dst src p s = Some (r, s')"
  shows "haze_inv s'"
proof -
  obtain r1 s1 where b1: "build_mrp_locked E src (base_of (mu_src_base p) (mu_src_base_len p))
      (open_session E s) = (r1, s1)" by (rule prod.exhaust)
  have s1: "haze_inv s1" using haze_inv_build_mrp_eq [OF haze_inv_session [OF assms(1)] b1] .
  have "haze_inv (snd (mod_up_digits E dst x tb 0 ds s1))" for x tb ds
    using s1 by (rule haze_inv_mod_up_digits)
  then have "mod_up_digits E dst x tb 0 ds s1 = (r, s') \<Longrightarrow> haze_inv s'" for x tb ds
    by (metis snd_conv)
  with assms s1 show ?thesis
    by (auto simp: mod_up_def b1 Let_def split: sum.splits option.splits)
qed

section \<open>Other entry points\<close>

lemma haze_inv_flush: "haze_inv s \<Longrightarrow> haze_inv (snd (flush E s))"
  by (simp add: flush_def Let_def replay_and_populate_def haze_inv_finalize)

lemma haze_inv_write_program: "haze_inv s \<Longrightarrow> haze_inv (snd (write_program E s))"
  by (simp add: write_program_def materialize_only_def haze_inv_finalize)

lemma haze_inv_tag_output:
  assumes "haze_inv s"
  shows "haze_inv (snd (tag_output a s))"
  using epoch_inv_tag_output [OF haze_inv_epoch [OF assms], of a] assms
  by (auto simp: tag_output_def haze_inv_def split: prod.splits)

lemma haze_inv_d2d: "haze_inv s \<Longrightarrow> haze_inv (snd (copy_device_to_device E d h n s))"
  by (simp add: copy_device_to_device_def haze_inv_copy_result haze_inv_session)

lemma haze_inv_tag_h2d_input: "haze_inv s \<Longrightarrow> haze_inv (snd (tag_h2d_input E a s))"
  by (simp add: tag_h2d_input_def haze_inv_tag_h2d haze_inv_session)

lemma haze_inv_invalidate: "haze_inv s \<Longrightarrow> haze_inv (upd_epoch (invalidate a) s)"
  by (simp add: haze_inv_upd_epoch epoch_inv_invalidate haze_inv_epoch)

lemma copied_dom:
  "dom (poly_map (hz_epoch (copied E d h p q s))) = insert d (dom (poly_map (hz_epoch s)))"
  by (auto simp: copied_def Let_def store_compute_result_locked_def)

lemma copy_residues_dom:
  assumes "copy_residues E ps s = (Inr u, s')"
  shows "dom (poly_map (hz_epoch s)) \<union> (\<lambda>(d, _). to_dev_addr d) ` set ps
    \<subseteq> dom (poly_map (hz_epoch s'))"
  using assms
proof (induction ps arbitrary: s)
  case (Cons x ps)
  obtain d h q where x: "x = (d, h, q)" by (cases x)
  from Cons.prems obtain s1 where
    c: "copy_result_locked E (to_dev_addr d) (to_dev_addr h) q s = (Inr (), s1)"
      and r: "copy_residues E ps s1 = (Inr u, s')"
    by (auto simp: x split: prod.splits sum.splits)
  from c obtain p s0 where l: "lookup_or_create_locked E (to_dev_addr h) s = (Inr p, s0)"
    by (auto simp: copy_result_locked_def split: prod.splits sum.splits)
  from c have "s1 = copied E (to_dev_addr d) (to_dev_addr h) p
      (if q = kCopyModulus then recorded_modulus_locked (to_dev_addr h) (hz_epoch s0) else q) s0"
    unfolding copy_result_ok [OF l] by simp
  then have d1: "dom (poly_map (hz_epoch s1)) =
      insert (to_dev_addr d) (dom (poly_map (hz_epoch s0)))"
    by (simp only: copied_dom)
  have d0: "dom (poly_map (hz_epoch s)) \<subseteq> dom (poly_map (hz_epoch s0))"
    using lookup_binds [OF l] by auto
  have chain: "A \<union> insert d F \<subseteq> D" if "A \<subseteq> B" "C = insert d B" "C \<union> F \<subseteq> D"
    for A B C D F :: "DevAddr set" and d using that by blast
  have "(\<lambda>(d, _). to_dev_addr d) ` set (x # ps) =
      insert (to_dev_addr d) ((\<lambda>(d, _). to_dev_addr d) ` set ps)" by (simp add: x)
  with chain [OF d0 d1 Cons.IH [OF r]] show ?case by simp
qed simp

lemma haze_inv_copy_d2d_mrp:
  assumes "haze_inv s"
  shows "haze_inv (snd (copy_device_to_device_mrp E dst src base s))"
proof -
  let ?ps = "zip dst (zip src base)"
  obtain r s1 where c: "copy_residues E ?ps (open_session E s) = (r, s1)" by (rule prod.exhaust)
  have s1: "haze_inv s1"
    using haze_inv_copy_residues [OF haze_inv_session [OF assms, of E], of E ?ps] c by simp
  show ?thesis
  proof (cases r)
    case (Inr u)
    then have "set (map (\<lambda>(d, _). to_dev_addr d) ?ps) \<subseteq> dom (poly_map (hz_epoch s1))"
      using copy_residues_dom [of E ?ps _ u s1] c by auto
    then show ?thesis
      using haze_inv_register_outputs [OF s1] c Inr by (simp add: copy_device_to_device_mrp_def)
  qed (use s1 c in \<open>simp add: copy_device_to_device_mrp_def\<close>)
qed

end
