(* ===== verification/Haze_Semantics.thy ===== *)
theory Haze_Semantics
  imports Haze_Inv
begin

text \<open>
  What a recording means. \<open>val\<close> gives the residue vector a polynomial handle denotes and
  \<open>D\<close> the documented meaning of the fhetch operations; \<open>fh_sound\<close> says that the environment
  respects them. The abstraction \<open>dev_mem\<close> is the device memory a client thinks of: the
  value bound in the epoch, else the shadow bytes. Against it every recorded operation is
  the eager operation on device memory.
\<close>

section \<open>Documented behaviour of fhetch\<close>

record fh_denotation =
  den_pp :: "sr_pp \<Rightarrow> u64 list \<Rightarrow> u64 list \<Rightarrow> u64 \<Rightarrow> u64 list"
  den_ps :: "sr_ps \<Rightarrow> u64 list \<Rightarrow> u64 \<Rightarrow> u64 \<Rightarrow> u64 list"
  den_pq :: "sr_pq \<Rightarrow> u64 list \<Rightarrow> u64 \<Rightarrow> u64 list"
  den_automorph :: "u64 list \<Rightarrow> u64 \<Rightarrow> u64 list"

text \<open>
  \<open>from_data\<close> denotes its data; the copy sentinel makes the scalar addition of 0 a register
  copy; every other operation denotes its meaning on the operands' values.
\<close>

definition fh_sound :: "('p, 'm) fh_env \<Rightarrow> ('p \<Rightarrow> u64 list) \<Rightarrow> fh_denotation \<Rightarrow> bool" where
  "fh_sound E val D \<longleftrightarrow>
     (\<forall>h v n f. val (poly_of E h (FromData v n f)) = v) \<and>
     (\<forall>h f p1 p2 q. val (poly_of E h (SrPP f p1 p2 q)) = den_pp D f (val p1) (val p2) q) \<and>
     (\<forall>h f p x q. q \<noteq> kCopyModulus \<longrightarrow>
        val (poly_of E h (SrPS f p x q)) = den_ps D f (val p) x q) \<and>
     (\<forall>h p. val (poly_of E h (SrPS SrAddps p 0 kCopyModulus)) = val p) \<and>
     (\<forall>h f p q. val (poly_of E h (SrPQ f p q)) = den_pq D f (val p) q) \<and>
     (\<forall>h p k. val (poly_of E h (SrAutomorphEval p k)) = den_automorph D (val p) k)"

lemma fh_soundD:
  assumes "fh_sound E val D"
  shows "val (poly_of E h (FromData v n f)) = v"
    and "val (poly_of E h (SrPP o1 p1 p2 q)) = den_pp D o1 (val p1) (val p2) q"
    and "q \<noteq> kCopyModulus \<Longrightarrow> val (poly_of E h (SrPS o2 p x q)) = den_ps D o2 (val p) x q"
    and "val (poly_of E h (SrPS SrAddps p 0 kCopyModulus)) = val p"
    and "val (poly_of E h (SrPQ o3 p q)) = den_pq D o3 (val p) q"
    and "val (poly_of E h (SrAutomorphEval p k)) = den_automorph D (val p) k"
  using assms by (simp_all add: fh_sound_def)

section \<open>Device memory\<close>

definition dev_mem :: "('p \<Rightarrow> u64 list) \<Rightarrow> ('p, 'm) haze \<Rightarrow> DevAddr \<rightharpoonup> u64 list" where
  "dev_mem val s a =
     (case poly_map (hz_epoch s) a of
        Some p \<Rightarrow> Some (val p)
      | None \<Rightarrow> shadow_data (hz_alloc s) a)"

lemma dev_mem_emit [simp]: "dev_mem val (fh_emit c s) = dev_mem val s"
  by (simp add: dev_mem_def fun_eq_iff split: option.split)

lemma dev_mem_store:
  "dev_mem val (upd_epoch (store_compute_result_locked d p q) s) = (dev_mem val s)(d \<mapsto> val p)"
  by (auto simp: dev_mem_def store_compute_result_locked_def fun_eq_iff split: option.split)

lemma dev_mem_session [simp]: "dev_mem val (open_session E s) = dev_mem val s"
  by (simp add: dev_mem_def fun_eq_iff open_session_epoch frame_simps split: option.split)

text \<open>
  A configured state whose shadow vectors have the configured length and whose polynomial
  size in bytes does not wrap.
\<close>

definition ready :: "('p, 'm) haze \<Rightarrow> bool" where
  "ready s \<longleftrightarrow> haze_inv s \<and> sized (hz_alloc s) \<and> cf_ring_dim (hz_config s) \<noteq> 0 \<and>
     unat (cf_ring_dim (hz_config s)) < 2 ^ 61"

lemma ready_emit [simp]: "ready (fh_emit c s) \<longleftrightarrow> ready s"
  by (simp add: ready_def)

lemma ready_session: "ready s \<Longrightarrow> ready (open_session E s)"
  by (simp add: ready_def haze_inv_session frame_simps)

lemma ready_store: "ready s \<Longrightarrow> ready (upd_epoch (store_compute_result_locked d p q) s)"
  by (simp add: ready_def haze_inv_store)

lemma ready_size:
  assumes "ready s"
  shows "want_elems (hz_alloc s) = unat (cf_ring_dim (hz_config s))"
    and "poly_bytes (hz_alloc s) = cf_ring_dim (hz_config s) * 8"
proof -
  let ?rd = "cf_ring_dim (hz_config s)"
  show p: "poly_bytes (hz_alloc s) = ?rd * 8"
    using assms by (simp add: ready_def haze_inv_def cfg_inv_def)
  have "unat (?rd * 8) = unat ?rd * 8"
    using assms by (simp add: ready_def unat_word_ariths take_bit_nat_eq_self)
  then show "want_elems (hz_alloc s) = unat ?rd" by (simp add: want_elems_def p)
qed

lemma sized_forget:
  "sized al \<Longrightarrow> sized (al\<lparr>shadow_data := (shadow_data al)(a := None)\<rparr>)"
  by (simp add: sized_def want_elems_def)

text \<open>In a ready state extraction succeeds exactly where a shadow vector exists.\<close>

lemma extract_ready:
  assumes "ready s" and "extract_polynomial_components a (cf_ring_dim (hz_config s)) (hz_alloc s) =
      (r, al)"
  shows "case shadow_data (hz_alloc s) a of
      Some v \<Rightarrow> r = Inr v \<and> al = (hz_alloc s)\<lparr>shadow_data := (shadow_data (hz_alloc s))(a := None)\<rparr>
    | None \<Rightarrow> r \<in> {Inl UnknownAddress, Inl NoData} \<and> al = hz_alloc s"
proof (cases "shadow_data (hz_alloc s) a")
  case None
  with assms show ?thesis
    by (auto simp: extract_polynomial_components_def ready_size(2) ready_def split: if_splits)
next
  case (Some v)
  have "a \<in> alloc_set (hz_alloc s)"
    using assms(1) Some by (auto simp: ready_def haze_inv_def cfg_inv_def alloc_inv_def)
  moreover have "of_nat (length v) = cf_ring_dim (hz_config s)"
    using assms(1) Some ready_size(1) [OF assms(1)] sizedD [of "hz_alloc s" a v]
    by (simp add: ready_def)
  ultimately show ?thesis
    using assms Some ready_size(2) [OF assms(1)]
    by (auto simp: extract_polynomial_components_def ready_def Let_def)
qed

text \<open>
  Resolving an address: in a ready state it succeeds exactly on the addresses device memory
  holds, returns a handle for what it holds, and does not change device memory.
\<close>

lemma lookup_sem:
  assumes "fh_sound E val D" and "ready s" and "lookup_or_create_locked E a s = (r, s')"
  shows "dev_mem val s' = dev_mem val s" and "ready s'" and "hz_config s' = hz_config s"
    and "dev_mem val s a = (case r of Inr p \<Rightarrow> Some (val p) | Inl e \<Rightarrow> None)"
proof -
  have inv: "haze_inv s'" using assms haze_inv_lookup_eq by (auto simp: ready_def)
  show cfg: "hz_config s' = hz_config s"
    using lookup_frame(1) [of E a s] assms(3) by simp
  have "dev_mem val s' = dev_mem val s \<and> sized (hz_alloc s') \<and>
      dev_mem val s a = (case r of Inr p \<Rightarrow> Some (val p) | Inl e \<Rightarrow> None)"
  proof (cases rule: lookup_cases [of s a E])
    case (bound p)
    then show ?thesis using assms by (auto simp: ready_def dev_mem_def)
  next
    case (fails e al)
    from extract_ready [OF assms(2) fails(2)]
    have "shadow_data (hz_alloc s) a = None \<and> al = hz_alloc s"
      by (cases "shadow_data (hz_alloc s) a") auto
    with fails assms(2,3) show ?thesis
      by (auto simp: ready_def dev_mem_def fun_eq_iff split: option.split)
  next
    case (creates v al)
    from extract_ready [OF assms(2) creates(2)]
    have v: "shadow_data (hz_alloc s) a = Some v"
      and al: "al = (hz_alloc s)\<lparr>shadow_data := (shadow_data (hz_alloc s))(a := None)\<rparr>"
      by (cases "shadow_data (hz_alloc s) a"; simp)+
    have "val (input_poly E v s) = v"
      using fh_soundD(1) [OF assms(1)] by (simp add: input_poly_def)
    moreover have "sized al" using assms(2) by (simp add: al ready_def sized_forget)
    ultimately show ?thesis
      using creates assms(3) v by (auto simp: dev_mem_def fun_eq_iff al split: option.split)
  qed
  with inv cfg assms(2) show "dev_mem val s' = dev_mem val s" and "ready s'"
    and "dev_mem val s a = (case r of Inr p \<Rightarrow> Some (val p) | Inl e \<Rightarrow> None)"
    by (simp_all add: ready_def)
qed

lemma copy_result_sem:
  assumes "fh_sound E val D" and "ready s" and "copy_result_locked E d a q s = (r, s')"
  shows "ready s'" and "hz_config s' = hz_config s"
    and "(case dev_mem val s a of None \<Rightarrow> None | Some v \<Rightarrow> Some ((dev_mem val s)(d \<mapsto> v))) =
      (case r of Inr u \<Rightarrow> Some (dev_mem val s') | Inl e \<Rightarrow> None)"
proof -
  obtain r1 s1 where l1: "lookup_or_create_locked E a s = (r1, s1)" by (rule prod.exhaust)
  note L1 = lookup_sem [OF assms(1,2) l1]
  have "ready s' \<and> hz_config s' = hz_config s \<and>
    (case dev_mem val s a of None \<Rightarrow> None | Some v \<Rightarrow> Some ((dev_mem val s)(d \<mapsto> v))) =
      (case r of Inr u \<Rightarrow> Some (dev_mem val s') | Inl e \<Rightarrow> None)"
  proof (cases r1)
    case (Inl e)
    then show ?thesis using assms(3) L1 l1 by (auto simp: copy_result_fails)
  next
    case (Inr p)
    have bound: "a \<in> dom (poly_map (hz_epoch s1))"
      using lookup_binds [of E a s p s1] l1 Inr by auto
    have upd: "dev_mem val (upd_epoch (\<lambda>ep. ep\<lparr>addr_modulus := f ep\<rparr>) t) = dev_mem val t" for f t
      by (auto simp: dev_mem_def fun_eq_iff split: option.split)
    have sem: "dev_mem val (copied E d a p q s1) = (dev_mem val s1)(d \<mapsto> val p)" for q
      using fh_soundD(4) [OF assms(1)] by (simp add: copied_def Let_def dev_mem_store upd)
    have keep: "hz_config (copied E d a p q s1) = hz_config s1 \<and>
        hz_alloc (copied E d a p q s1) = hz_alloc s1" for q
      by (simp add: copied_def Let_def)
    have "ready (copied E d a p q s1)" for q
      using L1(2) haze_inv_copied [OF _ bound, of E d p q] keep by (simp add: ready_def)
    then show ?thesis
      using assms(3) L1 Inr sem keep by (auto simp: copy_result_ok [OF l1 [unfolded Inr]])
  qed
  then show "ready s'" and "hz_config s' = hz_config s"
    and "(case dev_mem val s a of None \<Rightarrow> None | Some v \<Rightarrow> Some ((dev_mem val s)(d \<mapsto> v))) =
      (case r of Inr u \<Rightarrow> Some (dev_mem val s') | Inl e \<Rightarrow> None)"
    by blast+
qed

section \<open>Instructions\<close>

datatype sr_instr =
    IPP sr_pp DevAddr DevAddr DevAddr int
  | IPS sr_ps DevAddr DevAddr u64 int
  | IPQ sr_pq DevAddr DevAddr int
  | IAutomorph DevAddr DevAddr u64
  | ICopy DevAddr DevAddr u64

text \<open>The recorded operation, and the eager one on a device memory.\<close>

fun exec_instr ::
    "('p, 'm) fh_env \<Rightarrow> sr_instr \<Rightarrow> ('p, 'm) haze \<Rightarrow> unit expected \<times> ('p, 'm) haze" where
  "exec_instr E (IPP f d a b i) s = binary_pp_op E f d a b i s"
| "exec_instr E (IPS f d a x i) s = binary_ps_op E f d a x i s"
| "exec_instr E (IPQ f d a i) s = unary_pq_op E f d a i s"
| "exec_instr E (IAutomorph d a k) s = unary_pi_op E d a k s"
| "exec_instr E (ICopy d a n) s = copy_device_to_device E d a n s"

definition with_modulus ::
    "config \<Rightarrow> int \<Rightarrow> (u64 \<Rightarrow> 'a option) \<Rightarrow> 'a option" where
  "with_modulus c i k = (let q = cfg_modulus i c in if q = 0 then None else k q)"

fun eager_instr ::
    "fh_denotation \<Rightarrow> config \<Rightarrow> sr_instr \<Rightarrow> (DevAddr \<rightharpoonup> u64 list) \<Rightarrow> (DevAddr \<rightharpoonup> u64 list) option"
  where
  "eager_instr D c (IPP f d a b i) m = with_modulus c i (\<lambda>q.
     case (m a, m b) of
       (Some va, Some vb) \<Rightarrow> Some (m(d \<mapsto> den_pp D f va vb q)) | _ \<Rightarrow> None)"
| "eager_instr D c (IPS f d a x i) m = with_modulus c i (\<lambda>q.
     case m a of Some va \<Rightarrow> Some (m(d \<mapsto> den_ps D f va x q)) | None \<Rightarrow> None)"
| "eager_instr D c (IPQ f d a i) m = with_modulus c i (\<lambda>q.
     case m a of Some va \<Rightarrow> Some (m(d \<mapsto> den_pq D f va q)) | None \<Rightarrow> None)"
| "eager_instr D c (IAutomorph d a k) m =
     (case m a of Some va \<Rightarrow> Some (m(d \<mapsto> den_automorph D va k)) | None \<Rightarrow> None)"
| "eager_instr D c (ICopy d a n) m =
     (case m a of Some va \<Rightarrow> Some (m(d \<mapsto> va)) | None \<Rightarrow> None)"

text \<open>The sentinel is not a modulus the scalar operations may be given.\<close>

fun instr_ok :: "config \<Rightarrow> sr_instr \<Rightarrow> bool" where
  "instr_ok c (IPS f d a x i) = (cfg_modulus i c \<noteq> kCopyModulus)"
| "instr_ok c _ = True"

lemma exec_instr_sem:
  assumes "fh_sound E val D" and "ready s" and "instr_ok (hz_config s) ins"
    and "exec_instr E ins s = (r, s')"
  shows "eager_instr D (hz_config s) ins (dev_mem val s) =
      (case r of Inr u \<Rightarrow> Some (dev_mem val s') | Inl e \<Rightarrow> None)
    \<and> ready s' \<and> hz_config s' = hz_config s"
proof -
  let ?s0 = "open_session E s"
  note s0 = ready_session [OF assms(2), of E]
  have c0: "hz_config ?s0 = hz_config s" by (simp add: frame_simps)
  have m0: "dev_mem val ?s0 = dev_mem val s" by simp
  note den = fh_soundD [OF assms(1)]
  show ?thesis
  proof (cases ins)
    case (IPP f d a b i)
    obtain r1 s1 where l1: "lookup_or_create_locked E a ?s0 = (r1, s1)" by (rule prod.exhaust)
    note L1 = lookup_sem [OF assms(1) s0 l1]
    obtain r2 s2 where l2: "lookup_or_create_locked E b s1 = (r2, s2)" by (rule prod.exhaust)
    note L2 = lookup_sem [OF assms(1) L1(2) l2]
    show ?thesis
      using assms(4) L1 L2 s0 c0 m0 den(2)
      by (auto simp: IPP binary_pp_op_def with_modulus_def Let_def l1 l2 fh_poly_def dev_mem_store
          ready_store split: sum.splits if_splits)
  next
    case (IPS f d a x i)
    obtain r1 s1 where l1: "lookup_or_create_locked E a ?s0 = (r1, s1)" by (rule prod.exhaust)
    note L1 = lookup_sem [OF assms(1) s0 l1]
    show ?thesis
      using assms(3,4) L1 s0 c0 m0 den(3)
      by (auto simp: IPS binary_ps_op_def with_modulus_def Let_def l1 fh_poly_def dev_mem_store
          ready_store split: sum.splits if_splits)
  next
    case (IPQ f d a i)
    obtain r1 s1 where l1: "lookup_or_create_locked E a ?s0 = (r1, s1)" by (rule prod.exhaust)
    note L1 = lookup_sem [OF assms(1) s0 l1]
    show ?thesis
      using assms(4) L1 s0 c0 m0 den(5)
      by (auto simp: IPQ unary_pq_op_def with_modulus_def Let_def l1 fh_poly_def dev_mem_store
          ready_store split: sum.splits if_splits)
  next
    case (IAutomorph d a k)
    obtain r1 s1 where l1: "lookup_or_create_locked E a ?s0 = (r1, s1)" by (rule prod.exhaust)
    note L1 = lookup_sem [OF assms(1) s0 l1]
    show ?thesis
      using assms(4) L1 s0 c0 m0 den(6)
      by (auto simp: IAutomorph unary_pi_op_def Let_def l1 fh_poly_def dev_mem_store
          ready_store split: sum.splits if_splits)
  next
    case (ICopy d a n)
    obtain r1 s1 where c: "copy_result_locked E d a kCopyModulus ?s0 = (r1, s1)" by (rule prod.exhaust)
    from copy_result_sem [OF assms(1) s0 c] assms(4) c0 m0 show ?thesis
      by (auto simp: ICopy copy_device_to_device_def c split: sum.splits option.splits)
  qed
qed

section \<open>Programs\<close>

fun run_instrs ::
    "('p, 'm) fh_env \<Rightarrow> sr_instr list \<Rightarrow> ('p, 'm) haze \<Rightarrow> unit expected \<times> ('p, 'm) haze" where
  "run_instrs E [] s = (Inr (), s)"
| "run_instrs E (i # is) s =
     (case exec_instr E i s of (Inl e, s1) \<Rightarrow> (Inl e, s1) | (Inr _, s1) \<Rightarrow> run_instrs E is s1)"

fun eager_run ::
    "fh_denotation \<Rightarrow> config \<Rightarrow> sr_instr list \<Rightarrow> (DevAddr \<rightharpoonup> u64 list) \<Rightarrow>
     (DevAddr \<rightharpoonup> u64 list) option" where
  "eager_run D c [] m = Some m"
| "eager_run D c (i # is) m =
     (case eager_instr D c i m of None \<Rightarrow> None | Some m1 \<Rightarrow> eager_run D c is m1)"

lemma run_instrs_sem:
  assumes "fh_sound E val D" and "ready s" and "\<forall>i \<in> set is. instr_ok (hz_config s) i"
    and "run_instrs E is s = (r, s')"
  shows "eager_run D (hz_config s) is (dev_mem val s) =
      (case r of Inr u \<Rightarrow> Some (dev_mem val s') | Inl e \<Rightarrow> None)
    \<and> (\<forall>u. r = Inr u \<longrightarrow> ready s' \<and> hz_config s' = hz_config s)"
  using assms(2-)
proof (induction "is" arbitrary: s)
  case (Cons i "is")
  obtain r1 s1 where x: "exec_instr E i s = (r1, s1)" by (rule prod.exhaust)
  have "instr_ok (hz_config s) i" using Cons.prems(2) by simp
  from exec_instr_sem [OF assms(1) Cons.prems(1) this x] Cons.IH [of s1] Cons.prems
  show ?case by (cases r1) (auto simp: x)
qed auto

end
