(* ===== verification/Haze_Device_Stream.thy ===== *)
theory Haze_Device_Stream
  imports Haze_State
begin

text \<open>
  The single device (core/device.cpp) and the stream and event handles (core/stream.cpp).
  A handle is the id its struct holds; \<open>new (std::nothrow)\<close> may return null, which the
  argument \<open>oom\<close> says: then the initialiser is not evaluated and the counter stays.
\<close>

definition kMaxCiphertextModuli :: nat where
  "kMaxCiphertextModuli = 64"

definition kDeviceCount :: int where
  "kDeviceCount = 1"

definition kHbmSize :: u64 where
  "kHbmSize = 16 * 1024 * 1024 * 1024"

definition kSupportedRingDimExponents :: "nat list" where
  "kSupportedRingDimExponents = [10, 11, 12, 13, 14, 15, 16]"

record hazeDeviceProp =
  dp_name :: string
  dp_totalGlobalMem :: u64
  dp_numRegisters :: nat
  dp_numSupportedRingDims :: nat
  dp_supportedRingDimExponents :: "nat list"
  dp_maxCiphertextModuli :: nat
  dp_numHBMBanks :: nat

definition device_count :: int where
  "device_count = kDeviceCount"

definition device_active :: "('p, 'm) haze \<Rightarrow> int" where
  "device_active s = hz_active_device s"

definition device_set_active :: "int \<Rightarrow> unit expected" where
  "device_set_active device = (if device \<noteq> 0 then Inl InvalidArgument else Inr ())"

text \<open>The exponent array has 32 entries, zero-initialised by \<open>*prop = {}\<close>.\<close>

definition device_fill_properties :: "bool \<Rightarrow> int \<Rightarrow> hazeDeviceProp expected" where
  "device_fill_properties prop_null device =
     (if prop_null then Inl InvalidArgument
      else if device \<noteq> 0 then Inl InvalidArgument
      else Inr \<lparr>dp_name = ''Niobium FPGA'', dp_totalGlobalMem = kHbmSize,
             dp_numRegisters = 64,
             dp_numSupportedRingDims = length kSupportedRingDimExponents,
             dp_supportedRingDimExponents = kSupportedRingDimExponents @
               replicate (32 - length kSupportedRingDimExponents) 0,
             dp_maxCiphertextModuli = kMaxCiphertextModuli, dp_numHBMBanks = 8\<rparr>)"

definition device_reset :: "('p, 'm) haze \<Rightarrow> ('p, 'm) haze" where
  "device_reset s = s\<lparr>hz_active_device := 0\<rparr>"

definition stream_create :: "bool \<Rightarrow> ('p, 'm) haze \<Rightarrow> u64 option \<times> ('p, 'm) haze" where
  "stream_create oom s =
     (if oom then (None, s)
      else (Some (hz_next_stream_id s), s\<lparr>hz_next_stream_id := hz_next_stream_id s + 1\<rparr>))"

text \<open>Destroying deletes the struct, which no other state refers to; recording is a no-op.\<close>

definition stream_destroy :: "u64 option \<Rightarrow> ('p, 'm) haze \<Rightarrow> ('p, 'm) haze" where
  "stream_destroy stream s = s"

definition streams_reset :: "('p, 'm) haze \<Rightarrow> ('p, 'm) haze" where
  "streams_reset s = s\<lparr>hz_next_stream_id := 1\<rparr>"

definition event_create :: "bool \<Rightarrow> ('p, 'm) haze \<Rightarrow> u64 option \<times> ('p, 'm) haze" where
  "event_create oom s =
     (if oom then (None, s)
      else (Some (hz_next_event_id s), s\<lparr>hz_next_event_id := hz_next_event_id s + 1\<rparr>))"

definition event_destroy :: "u64 option \<Rightarrow> ('p, 'm) haze \<Rightarrow> ('p, 'm) haze" where
  "event_destroy e s = s"

definition event_record :: "u64 option \<Rightarrow> ('p, 'm) haze \<Rightarrow> ('p, 'm) haze" where
  "event_record e s = s"

definition events_reset :: "('p, 'm) haze \<Rightarrow> ('p, 'm) haze" where
  "events_reset s = s\<lparr>hz_next_event_id := 1\<rparr>"

end
