(* ===== verification/Haze_Api.thy ===== *)
theory Haze_Api
  imports Haze_Inv Haze_Device_Stream
begin

text \<open>
  The C ABI (src/api). An entry point returns its \<open>hazeError_t\<close>, the value it writes through
  an out pointer (\<open>None\<close>: nothing written) and the state; a null pointer argument is 0, a
  null out pointer is the flag \<open>out_null\<close>, a null array is \<open>None\<close>. The thread-local
  \<open>g_last_error\<close> is \<open>hz_last_error\<close>. Entry points that can reach the undefined read of
  \<open>copy_to_host\<close>, or the undefined slice of \<open>mod_up\<close>, return an option.
\<close>

definition api_error ::
    "hazeError_t \<Rightarrow> ('p, 'm) haze \<Rightarrow> hazeError_t \<times> ('p, 'm) haze" where
  "api_error err s = (case set_error err of (r, cell) \<Rightarrow> (r, s\<lparr>hz_last_error := cell\<rparr>))"

definition api_result ::
    "unit expected \<times> ('p, 'm) haze \<Rightarrow> hazeError_t \<times> ('p, 'm) haze" where
  "api_result = (\<lambda>(r, s). case set_internal_result r of
     (e, cell) \<Rightarrow> (e, s\<lparr>hz_last_error := cell\<rparr>))"

definition api_alloc ::
    "(allocator \<Rightarrow> unit expected \<times> allocator) \<Rightarrow> ('p, 'm) haze \<Rightarrow>
     unit expected \<times> ('p, 'm) haze" where
  "api_alloc f s = (case f (hz_alloc s) of (r, al) \<Rightarrow> (r, upd_alloc (\<lambda>_. al) s))"

definition api_config ::
    "(config \<Rightarrow> unit expected \<times> config) \<Rightarrow> ('p, 'm) haze \<Rightarrow> hazeError_t \<times> ('p, 'm) haze" where
  "api_config f s =
     (case f (hz_config s) of (r, c) \<Rightarrow> api_result (r, s\<lparr>hz_config := c\<rparr>))"

section \<open>Memory (api/memory.cpp)\<close>

definition hazeMalloc ::
    "bool \<Rightarrow> u64 \<Rightarrow> ('p, 'm) haze \<Rightarrow> (hazeError_t \<times> hostptr option) \<times> ('p, 'm) haze" where
  "hazeMalloc out_null nbytes s =
     (if out_null then (case api_error HAZE_ERROR_INVALID_VALUE s of (e, s1) \<Rightarrow> ((e, None), s1))
      else case allocate nbytes (hz_alloc s) of
        (Inl e, al) \<Rightarrow>
          (case api_error (to_public_error e) (upd_alloc (\<lambda>_. al) s) of
             (r, s1) \<Rightarrow> ((r, None), s1))
      | (Inr a, al) \<Rightarrow> ((HAZE_SUCCESS, Some (to_void_ptr a)), upd_alloc (\<lambda>_. al) s))"

definition hazeFree :: "hostptr \<Rightarrow> ('p, 'm) haze \<Rightarrow> hazeError_t \<times> ('p, 'm) haze" where
  "hazeFree ptr s =
     (let s1 = (if ptr \<noteq> 0 then upd_epoch (invalidate (to_dev_addr ptr)) s else s)
      in api_result (api_alloc (alloc_free (to_dev_addr ptr)) s1))"

definition hazeMallocMrp ::
    "bool \<Rightarrow> u64 \<Rightarrow> u64 \<Rightarrow> ('p, 'm) haze \<Rightarrow>
     (hazeError_t \<times> hostptr list option) \<times> ('p, 'm) haze" where
  "hazeMallocMrp out_null count nbytes s =
     (if out_null then (case api_error HAZE_ERROR_INVALID_VALUE s of (e, s1) \<Rightarrow> ((e, None), s1))
      else if unat count > kMaxCiphertextModuli
      then (case api_error HAZE_ERROR_INVALID_VALUE s of (e, s1) \<Rightarrow> ((e, None), s1))
      else case allocate_many count nbytes (hz_alloc s) of
        (Inl e, al) \<Rightarrow>
          (case api_error (to_public_error e) (upd_alloc (\<lambda>_. al) s) of
             (r, s1) \<Rightarrow> ((r, None), s1))
      | (Inr as, al) \<Rightarrow> ((HAZE_SUCCESS, Some (map to_void_ptr as)), upd_alloc (\<lambda>_. al) s))"

definition hazeFreeMrp ::
    "hostptr list option \<Rightarrow> ('p, 'm) haze \<Rightarrow> hazeError_t \<times> ('p, 'm) haze" where
  "hazeFreeMrp ptrs s =
     (case ptrs of
        None \<Rightarrow> api_error HAZE_ERROR_INVALID_VALUE s
      | Some ps \<Rightarrow>
          if length ps > kMaxCiphertextModuli then api_error HAZE_ERROR_INVALID_VALUE s
          else
            let s1 = foldl (\<lambda>s p. if p \<noteq> 0 then upd_epoch (invalidate (to_dev_addr p)) s else s) s ps
            in api_result (api_alloc (free_many (map to_dev_addr ps)) s1))"

text \<open>\<open>posix_memalign\<close> returns the address \<open>got\<close>, or fails (\<open>None\<close>).\<close>

definition hazeHostAlloc ::
    "hostptr option \<Rightarrow> bool \<Rightarrow> u64 \<Rightarrow> ('p, 'm) haze \<Rightarrow>
     (hazeError_t \<times> hostptr option) \<times> ('p, 'm) haze" where
  "hazeHostAlloc got out_null nbytes s =
     (if out_null \<or> nbytes = 0
      then (case api_error HAZE_ERROR_INVALID_VALUE s of (e, s1) \<Rightarrow> ((e, None), s1))
      else case got of
        None \<Rightarrow> (case api_error HAZE_ERROR_OUT_OF_MEMORY s of (e, s1) \<Rightarrow> ((e, None), s1))
      | Some p \<Rightarrow> ((HAZE_SUCCESS, Some p), upd_alloc (register_host_pointer p) s))"

definition hazeFreeHost :: "hostptr \<Rightarrow> ('p, 'm) haze \<Rightarrow> hazeError_t \<times> ('p, 'm) haze" where
  "hazeFreeHost ptr s = (HAZE_SUCCESS, upd_alloc (unregister_host_pointer ptr) s)"

definition hazePointerGetAttributes ::
    "bool \<Rightarrow> hostptr \<Rightarrow> ('p, 'm) haze \<Rightarrow>
     (hazeError_t \<times> hazePointerAttributes option) \<times> ('p, 'm) haze" where
  "hazePointerGetAttributes attrs_null ptr s =
     (case pointer_attributes attrs_null ptr (hz_alloc s) of
        Inl e \<Rightarrow> (case api_result (Inl e, s) of (r, s1) \<Rightarrow> ((r, None), s1))
      | Inr at \<Rightarrow> (case api_result (Inr (), s) of (r, s1) \<Rightarrow> ((r, Some at), s1)))"

definition hazeMemcpy ::
    "('p, 'm) fh_env \<Rightarrow> hostptr \<Rightarrow> hostptr \<Rightarrow> u64 \<Rightarrow> int \<Rightarrow> ('p, 'm) haze \<Rightarrow>
     (hazeError_t \<times> ('p, 'm) haze) option" where
  "hazeMemcpy E dst src count kind s =
     (if dst = 0 \<or> src = 0 then Some (api_error HAZE_ERROR_INVALID_VALUE s)
      else if kind = 1 then
        Some (case api_alloc (copy_h2d (hz_host s) (to_dev_addr dst) src count) s of
                (Inl e, s1) \<Rightarrow> api_result (Inl e, s1)
              | (Inr _, s1) \<Rightarrow> api_result (tag_h2d_input E (to_dev_addr dst) s1))
      else if kind = 2 then map_option api_result (copy_to_host_entry dst (to_dev_addr src) count s)
      else if kind = 3 then
        Some (api_result (copy_device_to_device E (to_dev_addr dst) (to_dev_addr src) count s))
      else Some (api_error HAZE_ERROR_INVALID_VALUE s))"

definition hazeMemcpyMrp ::
    "('p, 'm) fh_env \<Rightarrow> hostptr list option \<Rightarrow> hostptr list option \<Rightarrow> u64 \<Rightarrow> int \<Rightarrow>
     u64 list option \<Rightarrow> ('p, 'm) haze \<Rightarrow> (hazeError_t \<times> ('p, 'm) haze) option" where
  "hazeMemcpyMrp E dst src count kind base s =
     (case (dst, src, base) of
        (Some d, Some h, Some b) \<Rightarrow>
          if length b = 0 then Some (api_error HAZE_ERROR_INVALID_VALUE s)
          else if kind = 1 then Some (api_result (copy_h2d_mrp E d h count s))
          else if kind = 2 then map_option api_result (copy_to_host_mrp (zip d h) count s)
          else if kind = 3 then Some (api_result (copy_device_to_device_mrp E d h b s))
          else Some (api_error HAZE_ERROR_INVALID_VALUE s)
      | _ \<Rightarrow> Some (api_error HAZE_ERROR_INVALID_VALUE s))"

definition hazeMemset ::
    "hostptr \<Rightarrow> int \<Rightarrow> u64 \<Rightarrow> ('p, 'm) haze \<Rightarrow> hazeError_t \<times> ('p, 'm) haze" where
  "hazeMemset dev_ptr value count s =
     (if dev_ptr = 0 then api_error HAZE_ERROR_INVALID_VALUE s
      else case api_alloc (alloc_memset (to_dev_addr dev_ptr) value count) s of
        (Inl e, s1) \<Rightarrow> api_result (Inl e, s1)
      | (Inr _, s1) \<Rightarrow> (HAZE_SUCCESS, upd_epoch (invalidate (to_dev_addr dev_ptr)) s1))"

section \<open>Compute (api/compute.cpp, api/basis_convert.cpp)\<close>

definition haze_binary_pp ::
    "('p, 'm) fh_env \<Rightarrow> sr_pp \<Rightarrow> hostptr \<Rightarrow> hostptr \<Rightarrow> hostptr \<Rightarrow> int \<Rightarrow> ('p, 'm) haze \<Rightarrow>
     hazeError_t \<times> ('p, 'm) haze" where
  "haze_binary_pp E f dst src1 src2 mod_idx s =
     (if dst = 0 \<or> src1 = 0 \<or> src2 = 0 then api_error HAZE_ERROR_INVALID_VALUE s
      else api_result (binary_pp_op E f (to_dev_addr dst) (to_dev_addr src1) (to_dev_addr src2)
                         mod_idx s))"

definition hazeAdd where "hazeAdd E = haze_binary_pp E SrAddp"
definition hazeSub where "hazeSub E = haze_binary_pp E SrSubp"
definition hazeMul where "hazeMul E = haze_binary_pp E SrMulp"

definition haze_binary_ps ::
    "('p, 'm) fh_env \<Rightarrow> sr_ps \<Rightarrow> hostptr \<Rightarrow> hostptr \<Rightarrow> u64 \<Rightarrow> int \<Rightarrow> ('p, 'm) haze \<Rightarrow>
     hazeError_t \<times> ('p, 'm) haze" where
  "haze_binary_ps E f dst src scalar mod_idx s =
     (if dst = 0 \<or> src = 0 then api_error HAZE_ERROR_INVALID_VALUE s
      else api_result (binary_ps_op E f (to_dev_addr dst) (to_dev_addr src) scalar mod_idx s))"

definition hazeAddScalar where "hazeAddScalar E = haze_binary_ps E SrAddps"
definition hazeSubScalar where "hazeSubScalar E = haze_binary_ps E SrSubps"
definition hazeMulScalar where "hazeMulScalar E = haze_binary_ps E SrMulps"

definition haze_unary_pq ::
    "('p, 'm) fh_env \<Rightarrow> sr_pq \<Rightarrow> hostptr \<Rightarrow> hostptr \<Rightarrow> int \<Rightarrow> ('p, 'm) haze \<Rightarrow>
     hazeError_t \<times> ('p, 'm) haze" where
  "haze_unary_pq E f dst src mod_idx s =
     (if dst = 0 \<or> src = 0 then api_error HAZE_ERROR_INVALID_VALUE s
      else api_result (unary_pq_op E f (to_dev_addr dst) (to_dev_addr src) mod_idx s))"

definition hazeNTT where "hazeNTT E = haze_unary_pq E SrNtt"
definition hazeINTT where "hazeINTT E = haze_unary_pq E SrIntt"

definition hazeAutomorph ::
    "('p, 'm) fh_env \<Rightarrow> hostptr \<Rightarrow> hostptr \<Rightarrow> u64 \<Rightarrow> ('p, 'm) haze \<Rightarrow>
     hazeError_t \<times> ('p, 'm) haze" where
  "hazeAutomorph E dst src index s =
     (if dst = 0 \<or> src = 0 then api_error HAZE_ERROR_INVALID_VALUE s
      else api_result (unary_pi_op E (to_dev_addr dst) (to_dev_addr src) index s))"

text \<open>
  The multi-residue shims only check the arrays and the base length; \<open>with_arrays\<close> is that
  common guard.
\<close>

definition with_arrays ::
    "hostptr list option list \<Rightarrow> u64 list option \<Rightarrow>
     (hostptr list list \<Rightarrow> u64 list \<Rightarrow> ('p, 'm) haze \<Rightarrow> hazeError_t \<times> ('p, 'm) haze) \<Rightarrow>
     ('p, 'm) haze \<Rightarrow> hazeError_t \<times> ('p, 'm) haze" where
  "with_arrays arrays base k s =
     (if None \<in> set arrays \<or> base = None \<or> base = Some []
      then api_error HAZE_ERROR_INVALID_VALUE s
      else k (map the arrays) (the base) s)"

definition haze_binary_pp_mrp where
  "haze_binary_pp_mrp E f dst src1 src2 base =
     with_arrays [dst, src1, src2] base
       (\<lambda>arr b s. api_result (binary_pp_op_mrp E f (arr ! 0) (arr ! 1) (arr ! 2) b s))"

definition hazeAddMrp where "hazeAddMrp E = haze_binary_pp_mrp E MrAddp"
definition hazeSubMrp where "hazeSubMrp E = haze_binary_pp_mrp E MrSubp"
definition hazeMulMrp where "hazeMulMrp E = haze_binary_pp_mrp E MrMulp"

definition haze_binary_ps_mrp where
  "haze_binary_ps_mrp E f dst src scalars base =
     with_arrays [dst, src, scalars] base
       (\<lambda>arr b s. api_result (binary_ps_op_mrp E f (arr ! 0) (arr ! 1) (arr ! 2) b s))"

definition hazeAddScalarMrp where "hazeAddScalarMrp E = haze_binary_ps_mrp E MrAddps"
definition hazeSubScalarMrp where "hazeSubScalarMrp E = haze_binary_ps_mrp E MrSubps"
definition hazeMulScalarMrp where "hazeMulScalarMrp E = haze_binary_ps_mrp E MrMulps"

definition haze_unary_p_mrp where
  "haze_unary_p_mrp E f dst src base =
     with_arrays [dst, src] base
       (\<lambda>arr b s. api_result (unary_p_op_mrp E f (arr ! 0) (arr ! 1) b s))"

definition hazeNTTMrp where "hazeNTTMrp E = haze_unary_p_mrp E MrNtt"
definition hazeINTTMrp where "hazeINTTMrp E = haze_unary_p_mrp E MrIntt"

definition haze_unary_pi_mrp where
  "haze_unary_pi_mrp E f dst src index base =
     with_arrays [dst, src] base
       (\<lambda>arr b s. api_result (unary_pi_op_mrp E f (arr ! 0) (arr ! 1) index b s))"

definition hazeAutomorphMrp where "hazeAutomorphMrp E = haze_unary_pi_mrp E MrAutomorphEval"
definition hazeRotAutomorphCoeffMrp where
  "hazeRotAutomorphCoeffMrp E = haze_unary_pi_mrp E MrRotAutomorphCoeff"

text \<open>
  \<open>dispatch\<close> of api/basis_convert.cpp: unlike \<open>set_internal_result\<close> it leaves the last
  error alone on success.
\<close>

definition basis_dispatch ::
    "'q option \<Rightarrow> hostptr list option \<Rightarrow> hostptr list option \<Rightarrow>
     (hostptr list \<Rightarrow> hostptr list \<Rightarrow> 'q \<Rightarrow> ('p, 'm) haze \<Rightarrow>
        (unit expected \<times> ('p, 'm) haze) option) \<Rightarrow>
     ('p, 'm) haze \<Rightarrow> (hazeError_t \<times> ('p, 'm) haze) option" where
  "basis_dispatch params src dst OpFn s =
     (case (params, src, dst) of
        (Some p, Some h, Some d) \<Rightarrow>
          (case OpFn d h p s of
             None \<Rightarrow> None
           | Some (Inl e, s1) \<Rightarrow> Some (api_error (to_public_error e) s1)
           | Some (Inr _, s1) \<Rightarrow> Some (HAZE_SUCCESS, s1))
      | _ \<Rightarrow> Some (api_error HAZE_ERROR_INVALID_VALUE s))"

definition hazeBasisConvert where
  "hazeBasisConvert E dst src params =
     basis_dispatch params src dst (\<lambda>d h p s. Some (basis_convert E d h p s))"

definition hazeModDown where
  "hazeModDown E dst src params =
     basis_dispatch params src dst (\<lambda>d h p s. Some (mod_down E d h p s))"

definition hazeModUp where
  "hazeModUp E dst src params = basis_dispatch params src dst (mod_up E)"

section \<open>Configuration, device, streams, lifecycle\<close>

definition hazeSetRingDimension :: "u64 \<Rightarrow> ('p, 'm) haze \<Rightarrow> hazeError_t \<times> ('p, 'm) haze" where
  "hazeSetRingDimension n s =
     (case set_ring_dimension n (hz_config s) (hz_alloc s) of
        (r, c, al) \<Rightarrow> api_result (r, s\<lparr>hz_config := c, hz_alloc := al\<rparr>))"

definition hazeSetCiphertextModulus where
  "hazeSetCiphertextModulus index modulus = api_config (set_modulus index modulus)"

definition hazeSetTwiddleFactors where
  "hazeSetTwiddleFactors index generator = api_config (set_twiddle_generator index generator)"

definition hazeConfigureDevice where
  "hazeConfigureDevice = api_config configure_device"

definition hazeSetProgramInfo where
  "hazeSetProgramInfo name version description =
     api_config (set_program_info name version description)"

definition hazeSetTarget where "hazeSetTarget target = api_config (set_target target)"

definition hazeSetProgramDirectory where
  "hazeSetProgramDirectory dir = api_config (set_program_directory dir)"

definition hazeSetMontgomery :: "int \<Rightarrow> ('p, 'm) haze \<Rightarrow> hazeError_t \<times> ('p, 'm) haze" where
  "hazeSetMontgomery enable s =
     api_error HAZE_SUCCESS (s\<lparr>hz_config := set_montgomery (enable \<noteq> 0) (hz_config s)\<rparr>)"

definition hazeSetBitReversal :: "int \<Rightarrow> ('p, 'm) haze \<Rightarrow> hazeError_t \<times> ('p, 'm) haze" where
  "hazeSetBitReversal enable s =
     api_error HAZE_SUCCESS (s\<lparr>hz_config := set_bit_reversal (enable \<noteq> 0) (hz_config s)\<rparr>)"

definition hazeSetReducedNoise :: "int \<Rightarrow> ('p, 'm) haze \<Rightarrow> hazeError_t \<times> ('p, 'm) haze" where
  "hazeSetReducedNoise enable s =
     api_error HAZE_SUCCESS (s\<lparr>hz_config := set_reduced_noise (enable \<noteq> 0) (hz_config s)\<rparr>)"

definition hazeGetDeviceCount ::
    "bool \<Rightarrow> ('p, 'm) haze \<Rightarrow> (hazeError_t \<times> int option) \<times> ('p, 'm) haze" where
  "hazeGetDeviceCount out_null s =
     (if out_null then (case api_error HAZE_ERROR_INVALID_VALUE s of (e, s1) \<Rightarrow> ((e, None), s1))
      else ((HAZE_SUCCESS, Some device_count), s))"

definition hazeSetDevice :: "int \<Rightarrow> ('p, 'm) haze \<Rightarrow> hazeError_t \<times> ('p, 'm) haze" where
  "hazeSetDevice device s = api_result (device_set_active device, s)"

definition hazeGetDevice ::
    "bool \<Rightarrow> ('p, 'm) haze \<Rightarrow> (hazeError_t \<times> int option) \<times> ('p, 'm) haze" where
  "hazeGetDevice out_null s =
     (if out_null then (case api_error HAZE_ERROR_INVALID_VALUE s of (e, s1) \<Rightarrow> ((e, None), s1))
      else ((HAZE_SUCCESS, Some (device_active s)), s))"

definition hazeGetDeviceProperties ::
    "bool \<Rightarrow> int \<Rightarrow> ('p, 'm) haze \<Rightarrow> (hazeError_t \<times> hazeDeviceProp option) \<times> ('p, 'm) haze" where
  "hazeGetDeviceProperties prop_null device s =
     (case device_fill_properties prop_null device of
        Inl e \<Rightarrow> (case api_result (Inl e, s) of (r, s1) \<Rightarrow> ((r, None), s1))
      | Inr p \<Rightarrow> (case api_result (Inr (), s) of (r, s1) \<Rightarrow> ((r, Some p), s1)))"

text \<open>
  A handle is \<open>None\<close> when null. Creation writes the out pointer also when it runs out of
  memory: the null handle.
\<close>

definition hazeStreamCreate ::
    "bool \<Rightarrow> bool \<Rightarrow> ('p, 'm) haze \<Rightarrow> (hazeError_t \<times> u64 option option) \<times> ('p, 'm) haze" where
  "hazeStreamCreate oom out_null s =
     (if out_null then (case api_error HAZE_ERROR_INVALID_VALUE s of (e, s1) \<Rightarrow> ((e, None), s1))
      else case stream_create oom s of
        (None, s1) \<Rightarrow>
          (case api_error HAZE_ERROR_OUT_OF_MEMORY s1 of (e, s2) \<Rightarrow> ((e, Some None), s2))
      | (Some h, s1) \<Rightarrow> ((HAZE_SUCCESS, Some (Some h)), s1))"

definition hazeStreamCreateWithPriority where
  "hazeStreamCreateWithPriority oom out_null flags priority s = hazeStreamCreate oom out_null s"

definition hazeStreamDestroy :: "u64 option \<Rightarrow> ('p, 'm) haze \<Rightarrow> hazeError_t \<times> ('p, 'm) haze" where
  "hazeStreamDestroy stream s = (HAZE_SUCCESS, stream_destroy stream s)"

definition hazeStreamSynchronize ::
    "u64 option \<Rightarrow> ('p, 'm) haze \<Rightarrow> hazeError_t \<times> ('p, 'm) haze" where
  "hazeStreamSynchronize stream s = (HAZE_SUCCESS, s)"

definition hazeStreamWaitEvent ::
    "u64 option \<Rightarrow> u64 option \<Rightarrow> ('p, 'm) haze \<Rightarrow> hazeError_t \<times> ('p, 'm) haze" where
  "hazeStreamWaitEvent stream event s = (HAZE_SUCCESS, s)"

definition hazeEventCreate ::
    "bool \<Rightarrow> bool \<Rightarrow> ('p, 'm) haze \<Rightarrow> (hazeError_t \<times> u64 option option) \<times> ('p, 'm) haze" where
  "hazeEventCreate oom out_null s =
     (if out_null then (case api_error HAZE_ERROR_INVALID_VALUE s of (e, s1) \<Rightarrow> ((e, None), s1))
      else case event_create oom s of
        (None, s1) \<Rightarrow>
          (case api_error HAZE_ERROR_OUT_OF_MEMORY s1 of (e, s2) \<Rightarrow> ((e, Some None), s2))
      | (Some h, s1) \<Rightarrow> ((HAZE_SUCCESS, Some (Some h)), s1))"

definition hazeEventCreateWithFlags where
  "hazeEventCreateWithFlags oom out_null flags s = hazeEventCreate oom out_null s"

definition hazeEventDestroy :: "u64 option \<Rightarrow> ('p, 'm) haze \<Rightarrow> hazeError_t \<times> ('p, 'm) haze" where
  "hazeEventDestroy event s = (HAZE_SUCCESS, event_destroy event s)"

definition hazeEventRecord ::
    "u64 option \<Rightarrow> u64 option \<Rightarrow> ('p, 'm) haze \<Rightarrow> hazeError_t \<times> ('p, 'm) haze" where
  "hazeEventRecord event stream s = (HAZE_SUCCESS, event_record event s)"

definition hazeDeviceSynchronize :: "('p, 'm) haze \<Rightarrow> hazeError_t \<times> ('p, 'm) haze" where
  "hazeDeviceSynchronize s = (HAZE_SUCCESS, s)"

definition hazeGetPerformanceCounters :: "('p, 'm) haze \<Rightarrow> hazeError_t \<times> ('p, 'm) haze" where
  "hazeGetPerformanceCounters s = (HAZE_SUCCESS, s)"

text \<open>What \<open>hazeReplayBridgeReset\<close> does to the process; its disk cleanup is in \<open>Haze_Bridge_Files\<close>.\<close>

definition hazeReplayBridgeReset :: "('p, 'm) haze \<Rightarrow> ('p, 'm) haze" where
  "hazeReplayBridgeReset s = s\<lparr>hz_hook_had_error := False\<rparr>"

definition reset_all :: "('p, 'm) haze \<Rightarrow> ('p, 'm) haze" where
  "reset_all s =
     (let s1 = epoch_reset s;
          s2 = backend_reset s1;
          s3 = upd_alloc allocator_reset s2;
          s4 = s3\<lparr>hz_config := config_reset (hz_config s3)\<rparr>;
          s5 = device_reset (events_reset (streams_reset s4));
          s6 = hazeReplayBridgeReset s5
      in fh_emit (Compiler CompilerReset) s6)"

definition hazeDeviceReset :: "('p, 'm) haze \<Rightarrow> hazeError_t \<times> ('p, 'm) haze" where
  "hazeDeviceReset s = (HAZE_SUCCESS, (reset_all s)\<lparr>hz_last_error := HAZE_SUCCESS\<rparr>)"

definition hazeWriteProgram ::
    "('p, 'm) fh_env \<Rightarrow> ('p, 'm) haze \<Rightarrow> hazeError_t \<times> ('p, 'm) haze" where
  "hazeWriteProgram E s = api_result (write_program E s)"

definition hazeTagOutput :: "hostptr \<Rightarrow> ('p, 'm) haze \<Rightarrow> hazeError_t \<times> ('p, 'm) haze" where
  "hazeTagOutput ptr s =
     (if ptr = 0 then api_error HAZE_ERROR_INVALID_VALUE s
      else api_result (tag_output (to_dev_addr ptr) s))"

definition hazeFlush ::
    "('p, 'm) fh_env \<Rightarrow> ('p, 'm) haze \<Rightarrow> hazeError_t \<times> ('p, 'm) haze" where
  "hazeFlush E s = api_result (flush E s)"

section \<open>Asynchronous variants and unsupported entries\<close>

text \<open>The asynchronous variants ignore the stream and run the synchronous entry.\<close>

definition hazeMallocAsync where "hazeMallocAsync out_null nbytes stream = hazeMalloc out_null nbytes"
definition hazeFreeAsync where "hazeFreeAsync ptr stream = hazeFree ptr"
definition hazeMemcpyAsync where
  "hazeMemcpyAsync E dst src count kind stream = hazeMemcpy E dst src count kind"
definition hazeMemsetAsync where
  "hazeMemsetAsync dev_ptr value count stream = hazeMemset dev_ptr value count"

text \<open>
  Entries that only report \<open>HAZE_ERROR_NOT_SUPPORTED\<close>; those with an out pointer first zero
  what it points to.
\<close>

definition unsupported :: "('p, 'm) haze \<Rightarrow> hazeError_t \<times> ('p, 'm) haze" where
  "unsupported s = api_error HAZE_ERROR_NOT_SUPPORTED s"

definition unsupported_out ::
    "'o \<Rightarrow> bool \<Rightarrow> ('p, 'm) haze \<Rightarrow> (hazeError_t \<times> 'o option) \<times> ('p, 'm) haze" where
  "unsupported_out zero out_null s =
     (case api_error HAZE_ERROR_NOT_SUPPORTED s of
        (e, s1) \<Rightarrow> ((e, if out_null then None else Some zero), s1))"

definition hazeMemcpyPeerAsync where
  "hazeMemcpyPeerAsync (dst :: hostptr) (dst_device :: int) (src :: hostptr) (src_device :: int)
     (count :: u64) (stream :: u64 option) = unsupported"
definition hazeDeviceEnablePeerAccess where
  "hazeDeviceEnablePeerAccess (peer :: int) (flags :: int) = unsupported"
definition hazeDeviceCanAccessPeer where
  "hazeDeviceCanAccessPeer out_null (device :: int) (peer :: int) = unsupported_out (0 :: int) out_null"
definition hazeStreamBeginCapture where
  "hazeStreamBeginCapture (stream :: u64 option) = unsupported"
definition hazeStreamEndCapture where
  "hazeStreamEndCapture (stream :: u64 option) graph_null =
     unsupported_out (None :: u64 option) graph_null"
definition hazeGraphInstantiate where
  "hazeGraphInstantiate exec_null (graph :: u64 option) = unsupported_out (None :: u64 option) exec_null"
definition hazeGraphLaunch where
  "hazeGraphLaunch (exec :: u64 option) (stream :: u64 option) = unsupported"
definition hazeGraphExecUpdate where
  "hazeGraphExecUpdate (exec :: u64 option) (graph :: u64 option) = unsupported"
definition hazeGraphExecDestroy where
  "hazeGraphExecDestroy (exec :: u64 option) = unsupported"
definition hazeGraphDestroy where
  "hazeGraphDestroy (graph :: u64 option) = unsupported"

end
