(* ===== verification/Haze_System.thy ===== *)
theory Haze_System
  imports Haze_Api
begin

text \<open>
  The C ABI as a step relation: a state is reachable when a sequence of entry-point calls
  (and client writes to its own host memory) leads to it from process start. Calls whose
  behaviour is undefined have no successor. The invariant of Haze_Inv holds in every
  reachable state, for every environment.
\<close>

section \<open>The shims keep the invariant\<close>

lemma api_error_simps [simp]:
  "fst (api_error e s) = e"
  "snd (api_error e s) = s\<lparr>hz_last_error := e\<rparr>"
  by (simp_all add: api_error_def set_error_def)

lemma api_result_simps [simp]:
  "api_result (Inr u, s) = (HAZE_SUCCESS, s\<lparr>hz_last_error := HAZE_SUCCESS\<rparr>)"
  "api_result (Inl e, s) = (to_public_error e, s\<lparr>hz_last_error := to_public_error e\<rparr>)"
  by (simp_all add: api_result_def)

lemma haze_inv_fields [simp]:
  "haze_inv (s\<lparr>hz_last_error := e\<rparr>) \<longleftrightarrow> haze_inv s"
  "haze_inv (s\<lparr>hz_host := hm\<rparr>) \<longleftrightarrow> haze_inv s"
  "haze_inv (s\<lparr>hz_backend_initialized := b\<rparr>) \<longleftrightarrow> haze_inv s"
  "haze_inv (s\<lparr>hz_hook_had_error := b\<rparr>) \<longleftrightarrow> haze_inv s"
  "haze_inv (s\<lparr>hz_active_device := d\<rparr>) \<longleftrightarrow> haze_inv s"
  "haze_inv (s\<lparr>hz_next_stream_id := n\<rparr>) \<longleftrightarrow> haze_inv s"
  "haze_inv (s\<lparr>hz_next_event_id := n\<rparr>) \<longleftrightarrow> haze_inv s"
  by (simp_all add: haze_inv_def)

lemma haze_inv_api_error [simp]: "haze_inv (snd (api_error e s)) \<longleftrightarrow> haze_inv s"
  by simp

lemma haze_inv_api_result [simp]: "haze_inv (snd (api_result p)) \<longleftrightarrow> haze_inv (snd p)"
  by (cases p; cases "fst p") auto

lemma haze_inv_alloc_step:
  assumes "haze_inv s" and "\<And>n. x \<noteq> AoSetSize n" and "x \<noteq> AoReset"
  shows "haze_inv (upd_alloc (\<lambda>_. alloc_step (hz_alloc s) x) s)"
  using haze_inv_upd_alloc [OF assms(1), of "alloc_step (hz_alloc s) x"]
    alloc_history.invar_step [OF haze_inv_alloc_inv [OF assms(1)], of x]
    alloc_step_poly_bytes [of x "hz_alloc s"] assms(2,3) by blast

lemma haze_inv_cfg_step:
  assumes "haze_inv s" and "cfg_step (hz_config s, hz_alloc s) x = (c, al)"
  shows "haze_inv (s\<lparr>hz_config := c, hz_alloc := al\<rparr>)"
  using cfg_history.invar_step [of "(hz_config s, hz_alloc s)" x] assms
  by (simp add: haze_inv_def)

lemma haze_inv_config_only:
  "haze_inv s \<Longrightarrow> cfg_step (hz_config s, hz_alloc s) x = (c, hz_alloc s) \<Longrightarrow>
   haze_inv (s\<lparr>hz_config := c\<rparr>)"
  using haze_inv_cfg_step [of s x c "hz_alloc s"] by (simp add: haze_inv_def)

lemma haze_inv_malloc: "haze_inv s \<Longrightarrow> haze_inv (snd (hazeMalloc b n s))"
  using haze_inv_alloc_step [of s "AoAllocate n"]
  by (auto simp: hazeMalloc_def split: prod.splits sum.splits)
     (metis haze_inv_fields(1) snd_conv api_error_simps(2))+

lemma haze_inv_free: "haze_inv s \<Longrightarrow> haze_inv (snd (hazeFree p s))"
  using haze_inv_alloc_step [of s "AoFree (to_dev_addr p)"]
    haze_inv_alloc_step [of "upd_epoch (invalidate (to_dev_addr p)) s" "AoFree (to_dev_addr p)"]
    haze_inv_invalidate [of s "to_dev_addr p"]
  by (auto simp: hazeFree_def api_alloc_def Let_def split: prod.splits)

lemma haze_inv_malloc_mrp: "haze_inv s \<Longrightarrow> haze_inv (snd (hazeMallocMrp b c n s))"
  using haze_inv_alloc_step [of s "AoAllocateMany c n"]
  by (auto simp: hazeMallocMrp_def split: prod.splits sum.splits)
     (metis haze_inv_fields(1) snd_conv api_error_simps(2))+

lemma haze_inv_invalidates:
  "haze_inv s \<Longrightarrow>
   haze_inv (foldl (\<lambda>s p. if p \<noteq> 0 then upd_epoch (invalidate (to_dev_addr p)) s else s) s ps)"
  by (induction ps arbitrary: s) (auto simp: haze_inv_invalidate)

lemma haze_inv_free_mrp: "haze_inv s \<Longrightarrow> haze_inv (snd (hazeFreeMrp ps s))"
proof (cases ps)
  case (Some qs)
  assume s: "haze_inv s"
  let ?s1 = "foldl (\<lambda>s p. if p \<noteq> 0 then upd_epoch (invalidate (to_dev_addr p)) s else s) s qs"
  have "haze_inv (upd_alloc (\<lambda>_. snd (free_many (map to_dev_addr qs) (hz_alloc ?s1))) ?s1)"
    using haze_inv_alloc_step [OF haze_inv_invalidates [OF s, of qs], of "AoFreeMany (map to_dev_addr qs)"]
    by simp
  with s Some show ?thesis
    by (auto simp: hazeFreeMrp_def api_alloc_def Let_def split: prod.splits)
qed (simp add: hazeFreeMrp_def)

lemma haze_inv_host:
  assumes "haze_inv s"
  shows "haze_inv (snd (hazeHostAlloc got b n s))" and "haze_inv (snd (hazeFreeHost p s))"
  using haze_inv_alloc_step [OF assms, of "AoRegisterHost _"]
    haze_inv_alloc_step [OF assms, of "AoUnregisterHost p"] assms
  by (auto simp: hazeHostAlloc_def hazeFreeHost_def upd_alloc_def split: prod.splits option.splits)
     (metis haze_inv_fields(1) snd_conv api_error_simps(2))+

lemma haze_inv_h2d_step:
  assumes "haze_inv s"
  shows "haze_inv (snd (api_alloc (copy_h2d (hz_host s) d h n) s))"
  using haze_inv_alloc_step [OF assms, of "AoH2D (hz_host s) d h n"]
  by (auto simp: api_alloc_def split: prod.splits)

lemma haze_inv_memset: "haze_inv s \<Longrightarrow> haze_inv (snd (hazeMemset p v n s))"
  using haze_inv_alloc_step [of s "AoMemset (to_dev_addr p) v n"]
    haze_inv_invalidate [of "upd_alloc (\<lambda>_. snd (alloc_memset (to_dev_addr p) v n (hz_alloc s))) s"
      "to_dev_addr p"]
  by (auto simp: hazeMemset_def api_alloc_def split: prod.splits sum.splits)

lemma haze_inv_copy_to_host_entry:
  "haze_inv s \<Longrightarrow> copy_to_host_entry h d n s = Some (r, s') \<Longrightarrow> haze_inv s'"
  by (auto simp: copy_to_host_entry_def split: option.splits)

lemma haze_inv_api_result_eq:
  "api_result p = (e, s') \<Longrightarrow> haze_inv (snd p) \<Longrightarrow> haze_inv s'"
  using haze_inv_api_result [of p] by simp

lemma haze_inv_api_error_eq: "api_error c s = (e, s') \<Longrightarrow> haze_inv s \<Longrightarrow> haze_inv s'"
  using haze_inv_api_error [of c s] by simp

lemma haze_inv_memcpy_h2d:
  assumes "haze_inv s"
  shows "haze_inv (snd (case api_alloc (copy_h2d (hz_host s) (to_dev_addr d) h n) s of
      (Inl e, s1) \<Rightarrow> api_result (Inl e, s1)
    | (Inr _, s1) \<Rightarrow> api_result (tag_h2d_input E (to_dev_addr d) s1)))"
proof -
  obtain r s1 where w: "api_alloc (copy_h2d (hz_host s) (to_dev_addr d) h n) s = (r, s1)"
    by (rule prod.exhaust)
  have "haze_inv s1" using haze_inv_h2d_step [OF assms, of "to_dev_addr d" h n] w by simp
  then show ?thesis by (auto simp: w haze_inv_tag_h2d_input split: sum.splits)
qed

lemma haze_inv_memcpy:
  assumes "haze_inv s" and "hazeMemcpy E d h n kind s = Some (e, s')"
  shows "haze_inv s'"
proof -
  consider "d = 0 \<or> h = 0" | "d \<noteq> 0" "h \<noteq> 0" "kind = 1" | "d \<noteq> 0" "h \<noteq> 0" "kind = 2"
    | "d \<noteq> 0" "h \<noteq> 0" "kind = 3" | "d \<noteq> 0" "h \<noteq> 0" "kind \<notin> {1, 2, 3}" by auto
  then show ?thesis
  proof cases
    case 2
    with assms(2) have "(case api_alloc (copy_h2d (hz_host s) (to_dev_addr d) h n) s of
        (Inl e, s1) \<Rightarrow> api_result (Inl e, s1)
      | (Inr _, s1) \<Rightarrow> api_result (tag_h2d_input E (to_dev_addr d) s1)) = (e, s')"
      by (simp add: hazeMemcpy_def)
    then show ?thesis using haze_inv_memcpy_h2d [OF assms(1), where d = d and h = h and n = n and E = E] by simp
  next
    case 3
    with assms(2) obtain p where "copy_to_host_entry d (to_dev_addr h) n s = Some p"
        "api_result p = (e, s')" by (auto simp: hazeMemcpy_def)
    with haze_inv_copy_to_host_entry [OF assms(1), of d "to_dev_addr h" n "fst p" "snd p"]
    show ?thesis by (auto intro: haze_inv_api_result_eq)
  next
    case 4
    with assms(2) have "api_result (copy_device_to_device E (to_dev_addr d) (to_dev_addr h) n s) =
        (e, s')" by (simp add: hazeMemcpy_def)
    then show ?thesis by (rule haze_inv_api_result_eq) (rule haze_inv_d2d [OF assms(1)])
  qed (use assms in \<open>auto simp: hazeMemcpy_def intro: haze_inv_api_error_eq\<close>)
qed

lemma haze_inv_copy_to_host_mrp:
  "haze_inv s \<Longrightarrow> copy_to_host_mrp ps n s = Some (r, s') \<Longrightarrow> haze_inv s'"
proof (induction ps arbitrary: s)
  case (Cons x ps)
  obtain h d where x: "x = (h, d)" by (cases x)
  from Cons.prems(2) obtain q s1 where c: "copy_to_host_entry h (to_dev_addr d) n s = Some (q, s1)"
    by (auto simp: x split: option.splits)
  have "haze_inv s1" by (rule haze_inv_copy_to_host_entry [OF Cons.prems(1) c])
  with Cons.prems(2) Cons.IH [of s1] show ?case by (cases q) (auto simp: x c)
qed simp

lemma haze_inv_memcpy_mrp:
  assumes "haze_inv s" and "hazeMemcpyMrp E d h n kind b s = Some (e, s')"
  shows "haze_inv s'"
proof (cases "d = None \<or> h = None \<or> b = None \<or> b = Some []")
  case True
  then have "api_error HAZE_ERROR_INVALID_VALUE s = (e, s')"
    using assms(2) by (auto simp: hazeMemcpyMrp_def split: option.splits)
  then show ?thesis using assms(1) by (rule haze_inv_api_error_eq)
next
  case False
  then obtain ds hs bs where v: "d = Some ds" "h = Some hs" "b = Some bs" "length bs \<noteq> 0"
    by auto
  consider "kind = 1" | "kind = 2" | "kind = 3" | "kind \<notin> {1, 2, 3}" by auto
  then show ?thesis
  proof cases
    case 1
    then have "api_result (copy_h2d_mrp E ds hs n s) = (e, s')"
      using assms(2) v by (simp add: hazeMemcpyMrp_def)
    then show ?thesis by (rule haze_inv_api_result_eq) (rule haze_inv_copy_h2d_mrp [OF assms(1)])
  next
    case 2
    then obtain p where "copy_to_host_mrp (zip ds hs) n s = Some p" "api_result p = (e, s')"
      using assms(2) v by (auto simp: hazeMemcpyMrp_def)
    with haze_inv_copy_to_host_mrp [OF assms(1), of "zip ds hs" n "fst p" "snd p"]
    show ?thesis by (auto intro: haze_inv_api_result_eq)
  next
    case 3
    then have "api_result (copy_device_to_device_mrp E ds hs bs s) = (e, s')"
      using assms(2) v by (simp add: hazeMemcpyMrp_def)
    then show ?thesis by (rule haze_inv_api_result_eq) (rule haze_inv_copy_d2d_mrp [OF assms(1)])
  next
    case 4
    then have "api_error HAZE_ERROR_INVALID_VALUE s = (e, s')"
      using assms(2) v by (simp add: hazeMemcpyMrp_def)
    then show ?thesis using assms(1) by (rule haze_inv_api_error_eq)
  qed
qed

lemma haze_inv_sr_shims:
  assumes "haze_inv s"
  shows "haze_inv (snd (haze_binary_pp E f1 d a b i s))"
    and "haze_inv (snd (haze_binary_ps E f2 d a x i s))"
    and "haze_inv (snd (haze_unary_pq E f3 d a i s))"
    and "haze_inv (snd (hazeAutomorph E d a k s))"
  using assms
  by (simp_all only: haze_binary_pp_def haze_binary_ps_def haze_unary_pq_def hazeAutomorph_def
      haze_inv_api_error haze_inv_api_result haze_inv_binary_pp haze_inv_binary_ps
      haze_inv_unary_pq haze_inv_unary_pi split: if_splits) simp_all

lemma haze_inv_with_arrays:
  assumes "haze_inv s" and "\<And>arr b. haze_inv (snd (k arr b s))"
  shows "haze_inv (snd (with_arrays arrays base k s))"
  using assms by (simp add: with_arrays_def)

lemma haze_inv_mr_shims:
  assumes "haze_inv s"
  shows "haze_inv (snd (haze_binary_pp_mrp E f1 d a b base s))"
    and "haze_inv (snd (haze_binary_ps_mrp E f2 d a x base s))"
    and "haze_inv (snd (haze_unary_p_mrp E f3 d a base s))"
    and "haze_inv (snd (haze_unary_pi_mrp E f4 d a k base s))"
  unfolding haze_binary_pp_mrp_def haze_binary_ps_mrp_def haze_unary_p_mrp_def
    haze_unary_pi_mrp_def
  using assms
  by (intro haze_inv_with_arrays; simp add: haze_inv_binary_pp_mrp haze_inv_unary_mrp)+

lemma haze_inv_basis_dispatch:
  assumes "haze_inv s" and "\<And>d h p r s'. f d h p s = Some (r, s') \<Longrightarrow> haze_inv s'"
    and "basis_dispatch p h d f s = Some (e, s')"
  shows "haze_inv s'"
  using assms
  by (auto simp: basis_dispatch_def api_error_def set_error_def split: option.splits sum.splits prod.splits)

lemma haze_inv_basis_shims:
  assumes "haze_inv s"
  shows "hazeBasisConvert E d h p1 s = Some (e, s') \<Longrightarrow> haze_inv s'"
    and "hazeModDown E d h p2 s = Some (e, s') \<Longrightarrow> haze_inv s'"
    and "hazeModUp E d h p3 s = Some (e, s') \<Longrightarrow> haze_inv s'"
proof -
  have c: "Some (basis_convert E d h p s) = Some (r, t) \<Longrightarrow> haze_inv t" for d h p r t
    using haze_inv_basis_convert [OF assms, of E d h p] by simp
  show "hazeBasisConvert E d h p1 s = Some (e, s') \<Longrightarrow> haze_inv s'"
    unfolding hazeBasisConvert_def by (rule haze_inv_basis_dispatch [OF assms c])
  have m: "Some (mod_down E d h p s) = Some (r, t) \<Longrightarrow> haze_inv t" for d h p r t
    using haze_inv_mod_down [OF assms, of E d h p] by simp
  show "hazeModDown E d h p2 s = Some (e, s') \<Longrightarrow> haze_inv s'"
    unfolding hazeModDown_def by (rule haze_inv_basis_dispatch [OF assms m])
  show "hazeModUp E d h p3 s = Some (e, s') \<Longrightarrow> haze_inv s'"
    unfolding hazeModUp_def by (rule haze_inv_basis_dispatch [OF assms haze_inv_mod_up [OF assms]])
qed

lemma haze_inv_set_ring_shim: "haze_inv s \<Longrightarrow> haze_inv (snd (hazeSetRingDimension n s))"
  using haze_inv_cfg_step [of s "CoSetRing n"]
  by (auto simp: hazeSetRingDimension_def split: prod.splits)

lemma haze_inv_api_config:
  assumes "haze_inv s" and "cfg_step (hz_config s, hz_alloc s) x = (snd (f (hz_config s)), hz_alloc s)"
  shows "haze_inv (snd (api_config f s))"
  using haze_inv_config_only [OF assms] by (auto simp: api_config_def split: prod.splits)

lemma haze_inv_config_shims:
  assumes "haze_inv s"
  shows "haze_inv (snd (hazeSetCiphertextModulus i q s))"
    and "haze_inv (snd (hazeSetTwiddleFactors i q s))"
    and "haze_inv (snd (hazeConfigureDevice s))"
    and "haze_inv (snd (hazeSetProgramInfo n v d s))"
    and "haze_inv (snd (hazeSetTarget t s))"
    and "haze_inv (snd (hazeSetProgramDirectory t s))"
    and "haze_inv (snd (hazeSetMontgomery k s))"
    and "haze_inv (snd (hazeSetBitReversal k s))"
    and "haze_inv (snd (hazeSetReducedNoise k s))"
  unfolding hazeSetCiphertextModulus_def hazeSetTwiddleFactors_def hazeConfigureDevice_def
    hazeSetProgramInfo_def hazeSetTarget_def hazeSetProgramDirectory_def hazeSetMontgomery_def
    hazeSetBitReversal_def hazeSetReducedNoise_def
  using haze_inv_api_config [OF assms, of "CoSetModulus i q" "set_modulus i q"]
    haze_inv_api_config [OF assms, of "CoSetTwiddle i q" "set_twiddle_generator i q"]
    haze_inv_api_config [OF assms, of "CoConfigure" configure_device]
    haze_inv_api_config [OF assms, of "CoProgramInfo n v d" "set_program_info n v d"]
    haze_inv_api_config [OF assms, of "CoTarget t" "set_target t"]
    haze_inv_api_config [OF assms, of "CoDirectory t" "set_program_directory t"]
    haze_inv_config_only [OF assms, of "CoMontgomery (k \<noteq> 0)"]
    haze_inv_config_only [OF assms, of "CoBitReversal (k \<noteq> 0)"]
    haze_inv_config_only [OF assms, of "CoReducedNoise (k \<noteq> 0)"]
  by simp_all

lemma haze_inv_reset: "haze_inv s \<Longrightarrow> haze_inv (snd (hazeDeviceReset s))"
proof -
  assume "haze_inv s"
  have "cfg_inv (config_reset (hz_config s), allocator_reset (hz_alloc s))"
    using cfg_history.invar_step [of "(hz_config s, hz_alloc s)" CoReset] \<open>haze_inv s\<close>
    by (simp add: haze_inv_def)
  then show ?thesis
    by (simp add: hazeDeviceReset_def reset_all_def epoch_reset_def backend_reset_def
        device_reset_def events_reset_def streams_reset_def hazeReplayBridgeReset_def Let_def
        haze_inv_def epoch_inv_init)
qed

lemma haze_inv_epoch_shims:
  assumes "haze_inv s"
  shows "haze_inv (snd (hazeFlush E s))" and "haze_inv (snd (hazeWriteProgram E s))"
    and "haze_inv (snd (hazeTagOutput p s))"
  using haze_inv_flush [OF assms, of E] haze_inv_write_program [OF assms, of E]
    haze_inv_tag_output [OF assms, of "to_dev_addr p"] assms
  by (simp_all add: hazeFlush_def hazeWriteProgram_def hazeTagOutput_def)

section \<open>Reachable states\<close>

inductive api_step ::
    "('p, 'm) fh_env \<Rightarrow> ('p, 'm) haze \<Rightarrow> hazeError_t \<Rightarrow> ('p, 'm) haze \<Rightarrow> bool" for E where
  st_host: "api_step E s HAZE_SUCCESS (s\<lparr>hz_host := hm\<rparr>)"
| st_last_error: "hazeGetLastError (hz_last_error s) = (e, cell) \<Longrightarrow>
    api_step E s e (s\<lparr>hz_last_error := cell\<rparr>)"
| st_malloc: "hazeMalloc b n s = ((e, out), s') \<Longrightarrow> api_step E s e s'"
| st_free: "hazeFree p s = (e, s') \<Longrightarrow> api_step E s e s'"
| st_malloc_mrp: "hazeMallocMrp b c n s = ((e, outs), s') \<Longrightarrow> api_step E s e s'"
| st_free_mrp: "hazeFreeMrp ps s = (e, s') \<Longrightarrow> api_step E s e s'"
| st_host_alloc: "hazeHostAlloc got b n s = ((e, out), s') \<Longrightarrow> api_step E s e s'"
| st_free_host: "hazeFreeHost p s = (e, s') \<Longrightarrow> api_step E s e s'"
| st_attributes: "hazePointerGetAttributes b p s = ((e, at), s') \<Longrightarrow> api_step E s e s'"
| st_memcpy: "hazeMemcpy E d h n k s = Some (e, s') \<Longrightarrow> api_step E s e s'"
| st_memcpy_mrp: "hazeMemcpyMrp E ds hs n k bs s = Some (e, s') \<Longrightarrow> api_step E s e s'"
| st_memset: "hazeMemset p v n s = (e, s') \<Longrightarrow> api_step E s e s'"
| st_pp: "haze_binary_pp E f1 d a b' i s = (e, s') \<Longrightarrow> api_step E s e s'"
| st_ps: "haze_binary_ps E f2 d a x i s = (e, s') \<Longrightarrow> api_step E s e s'"
| st_pq: "haze_unary_pq E f3 d a i s = (e, s') \<Longrightarrow> api_step E s e s'"
| st_pi: "hazeAutomorph E d a x s = (e, s') \<Longrightarrow> api_step E s e s'"
| st_pp_mrp: "haze_binary_pp_mrp E f4 ds as1 as2 bs s = (e, s') \<Longrightarrow> api_step E s e s'"
| st_ps_mrp: "haze_binary_ps_mrp E f5 ds as1 xs bs s = (e, s') \<Longrightarrow> api_step E s e s'"
| st_p_mrp: "haze_unary_p_mrp E f6 ds as1 bs s = (e, s') \<Longrightarrow> api_step E s e s'"
| st_pi_mrp: "haze_unary_pi_mrp E f7 ds as1 x bs s = (e, s') \<Longrightarrow> api_step E s e s'"
| st_basis: "hazeBasisConvert E ds as1 p1 s = Some (e, s') \<Longrightarrow> api_step E s e s'"
| st_mod_down: "hazeModDown E ds as1 p2 s = Some (e, s') \<Longrightarrow> api_step E s e s'"
| st_mod_up: "hazeModUp E ds as1 p3 s = Some (e, s') \<Longrightarrow> api_step E s e s'"
| st_ring: "hazeSetRingDimension n s = (e, s') \<Longrightarrow> api_step E s e s'"
| st_modulus: "hazeSetCiphertextModulus i q s = (e, s') \<Longrightarrow> api_step E s e s'"
| st_twiddle: "hazeSetTwiddleFactors i q s = (e, s') \<Longrightarrow> api_step E s e s'"
| st_configure: "hazeConfigureDevice s = (e, s') \<Longrightarrow> api_step E s e s'"
| st_info: "hazeSetProgramInfo na ve de s = (e, s') \<Longrightarrow> api_step E s e s'"
| st_target: "hazeSetTarget t s = (e, s') \<Longrightarrow> api_step E s e s'"
| st_directory: "hazeSetProgramDirectory t s = (e, s') \<Longrightarrow> api_step E s e s'"
| st_montgomery: "hazeSetMontgomery k s = (e, s') \<Longrightarrow> api_step E s e s'"
| st_bit_reversal: "hazeSetBitReversal k s = (e, s') \<Longrightarrow> api_step E s e s'"
| st_reduced_noise: "hazeSetReducedNoise k s = (e, s') \<Longrightarrow> api_step E s e s'"
| st_set_device: "hazeSetDevice i s = (e, s') \<Longrightarrow> api_step E s e s'"
| st_properties: "hazeGetDeviceProperties b i s = ((e, pr), s') \<Longrightarrow> api_step E s e s'"
| st_stream: "hazeStreamCreate oom b s = ((e, out), s') \<Longrightarrow> api_step E s e s'"
| st_event: "hazeEventCreate oom b s = ((e, out), s') \<Longrightarrow> api_step E s e s'"
| st_count: "hazeGetDeviceCount b s = ((e, out_i), s') \<Longrightarrow> api_step E s e s'"
| st_get_device: "hazeGetDevice b s = ((e, out_i), s') \<Longrightarrow> api_step E s e s'"
| st_destroy: "f \<in> {hazeStreamDestroy h, hazeStreamSynchronize h, hazeStreamWaitEvent h h',
    hazeEventDestroy h, hazeEventRecord h h', hazeDeviceSynchronize, hazeGetPerformanceCounters} \<Longrightarrow>
    f s = (e, s') \<Longrightarrow> api_step E s e s'"
| st_unsupported: "unsupported s = (e, s') \<Longrightarrow> api_step E s e s'"
| st_peer: "hazeDeviceCanAccessPeer b i j s = ((e, out_i), s') \<Longrightarrow> api_step E s e s'"
| st_end_capture: "hazeStreamEndCapture h b s = ((e, out), s') \<Longrightarrow> api_step E s e s'"
| st_instantiate: "hazeGraphInstantiate b h s = ((e, out), s') \<Longrightarrow> api_step E s e s'"
| st_tag: "hazeTagOutput p s = (e, s') \<Longrightarrow> api_step E s e s'"
| st_flush: "hazeFlush E s = (e, s') \<Longrightarrow> api_step E s e s'"
| st_write: "hazeWriteProgram E s = (e, s') \<Longrightarrow> api_step E s e s'"
| st_reset: "hazeDeviceReset s = (e, s') \<Longrightarrow> api_step E s e s'"

inductive reachable :: "('p, 'm) fh_env \<Rightarrow> ('p, 'm) haze \<Rightarrow> bool" for E where
  start: "reachable E (haze_init hm)"
| step: "reachable E s \<Longrightarrow> api_step E s e s' \<Longrightarrow> reachable E s'"

lemma snd_eqD: "x = (e, s') \<Longrightarrow> haze_inv (snd x) \<Longrightarrow> haze_inv s'"
  by simp

lemma haze_inv_handles:
  assumes "haze_inv s"
  shows "haze_inv (snd (hazePointerGetAttributes b p s))"
    and "haze_inv (snd (hazeSetDevice i s))"
    and "haze_inv (snd (hazeGetDeviceProperties b i s))"
    and "haze_inv (snd (hazeStreamCreate oom b s))"
    and "haze_inv (snd (hazeEventCreate oom b s))"
    and "haze_inv (snd (hazeGetDeviceCount b s))"
    and "haze_inv (snd (hazeGetDevice b s))"
    and "haze_inv (snd (unsupported s))"
    and "haze_inv (snd (hazeDeviceCanAccessPeer b i j s))"
    and "haze_inv (snd (hazeStreamEndCapture h b s))"
    and "haze_inv (snd (hazeGraphInstantiate b h s))"
  using assms
  by (auto simp: hazeGetDeviceCount_def hazeGetDevice_def unsupported_def unsupported_out_def
      hazeDeviceCanAccessPeer_def hazeStreamEndCapture_def hazeGraphInstantiate_def hazePointerGetAttributes_def hazeSetDevice_def hazeGetDeviceProperties_def
      hazeStreamCreate_def hazeEventCreate_def stream_create_def
      event_create_def api_error_def set_error_def
      split: sum.splits prod.splits option.splits)

lemma haze_inv_no_effect:
  assumes "f \<in> {hazeStreamDestroy h, hazeStreamSynchronize h, hazeStreamWaitEvent h h',
    hazeEventDestroy h, hazeEventRecord h h', hazeDeviceSynchronize, hazeGetPerformanceCounters}"
    and "f s = (e, s')" and "haze_inv s"
  shows "haze_inv s'"
proof -
  have "s' = s"
    using assms(1,2)
    by (auto simp: hazeStreamDestroy_def hazeStreamSynchronize_def hazeStreamWaitEvent_def
        hazeEventDestroy_def hazeEventRecord_def hazeDeviceSynchronize_def
        hazeGetPerformanceCounters_def stream_destroy_def event_destroy_def event_record_def)
  with assms(3) show ?thesis by simp
qed

lemmas haze_inv_shims = haze_inv_malloc haze_inv_free haze_inv_malloc_mrp haze_inv_free_mrp
  haze_inv_host haze_inv_memset haze_inv_sr_shims haze_inv_mr_shims haze_inv_set_ring_shim
  haze_inv_config_shims haze_inv_handles haze_inv_epoch_shims haze_inv_reset

lemma api_step_inv: "api_step E s e s' \<Longrightarrow> haze_inv s \<Longrightarrow> haze_inv s'"
  by (induction rule: api_step.induct;
      ((erule snd_eqD, rule haze_inv_shims, assumption)
       | (erule (1) haze_inv_memcpy) | (erule (1) haze_inv_memcpy_mrp)
       | (erule (1) haze_inv_basis_shims) | (erule (2) haze_inv_no_effect) | (simp only: haze_inv_fields)))

lemma reachable_inv: "reachable E s \<Longrightarrow> haze_inv s"
  by (induction rule: reachable.induct) (auto intro: haze_inv_init api_step_inv)

end
