(* ===== verification/Haze_Flush.thy ===== *)
theory Haze_Flush
  imports Haze_Semantics Haze_System
begin

text \<open>
  What a flush achieves and how it fails. \<open>replay_serves\<close> is the documented contract of
  replay: after a successful stop and replay, the probe of every tagged output holds the
  value of the polynomial tagged under its name, and the saved document of a polynomial
  parses back to its value. Under it a flush moves the value of every pending output into
  its shadow; whatever the environment does, a flush leaves a clean epoch behind.
\<close>

section \<open>Counter names\<close>

interpretation out_names: counter_names "\<lambda>i. ''haze_out_'' @ to_string (unat i)"
  by unfold_locales (simp add: word_unat_eq_iff)

interpretation in_names: counter_names "\<lambda>i. ''haze_in_'' @ to_string (unat i)"
  by unfold_locales (simp add: word_unat_eq_iff)

interpretation mrp_out_names: counter_names "\<lambda>i. ''haze_mrp_out_'' @ to_string (unat i)"
  by unfold_locales (simp add: word_unat_eq_iff)

interpretation mrp_in_names: counter_names "\<lambda>i. ''haze_mrp_in_'' @ to_string (unat i)"
  by unfold_locales (simp add: word_unat_eq_iff)

definition names_inv :: "'p epoch \<Rightarrow> bool" where
  "names_inv ep \<longleftrightarrow> distinct (map snd (pending_outputs ep)) \<and>
     snd ` set (pending_outputs ep) \<subseteq> out_names.below (output_counter ep)"

definition room :: "nat \<Rightarrow> 'p epoch \<Rightarrow> bool" where
  "room k ep \<longleftrightarrow> unat (output_counter ep) + k < 2 ^ 64"

lemma room_step:
  assumes "room (Suc k) ep"
  shows "unat (output_counter ep + 1) = Suc (unat (output_counter ep))"
    and "output_counter ep + 1 \<noteq> 0"
proof -
  show u: "unat (output_counter ep + 1) = Suc (unat (output_counter ep))"
    using assms by (simp add: room_def unat_word_ariths take_bit_nat_eq_self)
  show "output_counter ep + 1 \<noteq> 0"
  proof
    assume "output_counter ep + 1 = 0"
    with u show False by simp
  qed
qed

lemma names_emplace:
  assumes "names_inv ep" and "room (Suc k) ep"
  shows "names_inv (emplace_output a ep) \<and> room k (emplace_output a ep)"
proof (cases "a \<in> al_keys (pending_outputs ep)")
  case True
  with assms show ?thesis by (simp add: emplace_output_def room_def)
next
  case False
  let ?n = "''haze_out_'' @ to_string (unat (output_counter ep))"
  have e: "emplace_output a ep = ep\<lparr>pending_outputs := pending_outputs ep @ [(a, ?n)],
      output_counter := output_counter ep + 1\<rparr>"
    using False by (simp add: emplace_output_def al_emplace_def)
  have "?n \<notin> snd ` set (pending_outputs ep)"
    using assms(1) out_names.fresh [of "output_counter ep"] by (auto simp: names_inv_def)
  then show ?thesis
    using assms out_names.below_step [OF room_step(2) [OF assms(2)]] room_step(1) [OF assms(2)]
    by (auto simp: names_inv_def room_def e)
qed

lemma names_emplaces:
  assumes "names_inv ep" and "room (length as) ep"
  shows "names_inv (emplace_outputs as ep)"
  using assms
proof (induction as arbitrary: ep)
  case (Cons a as)
  with names_emplace [of ep "length as" a] show ?case by simp
qed simp

section \<open>Tagging\<close>

text \<open>The addresses a tag of \<open>a\<close> is meant to cover: its group, or itself.\<close>

definition tag_members :: "'p epoch \<Rightarrow> DevAddr \<Rightarrow> DevAddr list" where
  "tag_members ep a = (case addr_to_mrp_groups ep a of
     None \<Rightarrow> [a] | Some ns \<Rightarrow> mg_addrs (the (known_mrp_groups ep (hd ns))))"

lemma tag_output_eq:
  assumes "epoch_inv ep" and "poly_map ep a = Some p"
  shows "a \<in> set (tag_members ep a)" and "tag_output_locked a ep =
    (Inr (), (emplace_outputs (tag_members ep a) ep)\<lparr>pending_mrp_groups :=
       (case addr_to_mrp_groups ep a of None \<Rightarrow> pending_mrp_groups ep
        | Some ns \<Rightarrow> ls_insert (hd ns) (pending_mrp_groups ep))\<rparr>)"
proof -
  have "a \<in> set (tag_members ep a) \<and> tag_output_locked a ep =
    (Inr (), (emplace_outputs (tag_members ep a) ep)\<lparr>pending_mrp_groups :=
       (case addr_to_mrp_groups ep a of None \<Rightarrow> pending_mrp_groups ep
        | Some ns \<Rightarrow> ls_insert (hd ns) (pending_mrp_groups ep))\<rparr>)"
  proof (cases rule: groups_inv_rev_cases [OF epoch_invD(1) [OF assms(1)], of a])
    case 1
    have "ep'\<lparr>pending_mrp_groups := pending_mrp_groups ep'\<rparr> = ep'" for ep' :: "'a epoch" by simp
    from this [of "emplace_output a ep"] show ?thesis
      using 1 assms(2) by (simp add: tag_members_def tag_output_locked_def)
  next
    case (2 n h)
    with assms(2) show ?thesis by (simp add: tag_members_def tag_output_locked_def Let_def)
  qed
  then show "a \<in> set (tag_members ep a)" and "tag_output_locked a ep =
    (Inr (), (emplace_outputs (tag_members ep a) ep)\<lparr>pending_mrp_groups :=
       (case addr_to_mrp_groups ep a of None \<Rightarrow> pending_mrp_groups ep
        | Some ns \<Rightarrow> ls_insert (hd ns) (pending_mrp_groups ep))\<rparr>)"
    by blast+
qed

text \<open>
  C24. Tagging an output: in a consistent epoch a tag of an unbound address is refused
  without any change; otherwise it succeeds, makes every residue of the address's group (or
  the address itself) a pending output and keeps the others, marks exactly that group for
  emission, gives all pending outputs pairwise different trace names, binds nothing and
  loses nothing; and tagging the same address again changes nothing.
\<close>

theorem tag_output_expands:
  assumes "epoch_inv ep" and "names_inv ep" and "room (length (tag_members ep a)) ep"
  shows "case tag_output_locked a ep of
      (Inl e, ep') \<Rightarrow> poly_map ep a = None \<and> e = SourceUnavailable \<and> ep' = ep
    | (Inr _, ep') \<Rightarrow> a \<in> set (tag_members ep a) \<and>
        al_keys (pending_outputs ep') = al_keys (pending_outputs ep) \<union> set (tag_members ep a) \<and>
        set (pending_mrp_groups ep') = set (pending_mrp_groups ep) \<union>
          (case addr_to_mrp_groups ep a of None \<Rightarrow> {} | Some ns \<Rightarrow> {hd ns}) \<and>
        distinct (map snd (pending_outputs ep')) \<and> poly_map ep' = poly_map ep \<and>
        tag_output_locked a ep' = (Inr (), ep')"
proof -
  note g = epoch_invD(1) [OF assms(1)]
  have idem: "emplace_outputs as ep = ep" if "set as \<subseteq> al_keys (pending_outputs ep)"
    for as and ep :: "'a epoch"
    using that by (induction as) (auto simp: emplace_output_def)
  have names: "names_inv (emplace_outputs (tag_members ep a) ep)"
    using assms(2,3) by (rule names_emplaces)
  show ?thesis
  proof (cases "poly_map ep a")
    case None
    then show ?thesis by (simp add: tag_output_locked_def)
  next
    case (Some p)
    show ?thesis
    proof (cases rule: groups_inv_rev_cases [OF g, of a])
      case 1
      then have m: "tag_members ep a = [a]" by (simp add: tag_members_def)
      have "tag_output_locked a (emplace_output a ep) = (Inr (), emplace_output a ep)"
        using Some 1 idem [of "[a]" "emplace_output a ep"] by (simp add: tag_output_locked_def)
      with Some 1 m names show ?thesis by (simp add: tag_output_locked_def names_inv_def)
    next
      case (2 n h)
      then have m: "tag_members ep a = mg_addrs h" by (simp add: tag_members_def)
      let ?ep' = "(emplace_outputs (mg_addrs h) ep)
          \<lparr>pending_mrp_groups := ls_insert n (pending_mrp_groups ep)\<rparr>"
      have t: "tag_output_locked a ep = (Inr (), ?ep')"
        using Some 2 by (simp add: tag_output_locked_def Let_def)
      have "emplace_outputs (mg_addrs h) ?ep' = ?ep'" by (rule idem) simp
      then have "tag_output_locked a ?ep' = (Inr (), ?ep')"
        using Some 2 by (simp add: tag_output_locked_def Let_def ls_insert_def)
      with t 2 m names show ?thesis by (simp add: names_inv_def Un_commute)
    qed
  qed
qed

theorem tag_output_expands_witness:
  "case tag_output_locked 64 (epoch_init\<lparr>poly_map := [64 \<mapsto> ()]\<rparr>) of
     (Inl e, ep') \<Rightarrow> False | (Inr _, ep') \<Rightarrow> al_keys (pending_outputs ep') = {64}"
proof -
  let ?ep = "epoch_init\<lparr>poly_map := [64 \<mapsto> ()]\<rparr> :: unit epoch"
  have "epoch_inv ?ep" and "names_inv ?ep" and "room (length (tag_members ?ep 64)) ?ep"
    by (simp_all add: epoch_inv_def groups_inv_def bindings_inv_def names_inv_def room_def
        tag_members_def epoch_init_def)
  from tag_output_expands [OF this] show ?thesis
    by (auto simp: tag_members_def epoch_init_def split: prod.splits sum.splits)
qed

section \<open>The replay contract\<close>

text \<open>
  The outputs a trace has tagged since the last clear, and those a replay has served.
\<close>

fun served_step ::
    "(string \<rightharpoonup> 'p) \<times> (string \<rightharpoonup> 'p) \<Rightarrow> ('p, 'm) fh_call \<Rightarrow>
     (string \<rightharpoonup> 'p) \<times> (string \<rightharpoonup> 'p)" where
  "served_step (tagged, out) (Tag (TagOutput n p)) = (tagged(n \<mapsto> p), out)"
| "served_step (tagged, out) (Compiler CompilerReplay) = (tagged, tagged)"
| "served_step (tagged, out) (Compiler ClearCaptured) = (Map.empty, Map.empty)"
| "served_step st c = st"

definition served :: "('p, 'm) trace \<Rightarrow> string \<rightharpoonup> 'p" where
  "served h = snd (foldl served_step (Map.empty, Map.empty) h)"

definition replay_serves :: "('p, 'm) fh_env \<Rightarrow> ('p \<Rightarrow> u64 list) \<Rightarrow> bool" where
  "replay_serves E val \<longleftrightarrow>
     (\<forall>h. bool_of E h (Compiler CompilerStop) \<and> \<not> hook_fails E h \<and>
          \<not> throws E h (Compiler CompilerReplay) \<and> bool_of E h (Compiler CompilerReplay)) \<and>
     (\<forall>h n p. served h n = Some p \<longrightarrow>
        (\<exists>np ts els. load_probe E h n = Some ((np # ts) # els) \<and> np_values np = val p)) \<and>
     (\<forall>h p. val p \<noteq> [] \<longrightarrow>
        (\<exists>doc vs. saved_doc E h p = Saved doc \<and> find_values_array doc = Some vs \<and>
           get_u64s (scalar_u64 E) vs = Some (val p)))"

lemma extract_serves:
  "replay_serves E val \<Longrightarrow> val p \<noteq> [] \<Longrightarrow> extract_polynomial_values E p s = Some (val p)"
proof -
  assume "replay_serves E val" and "val p \<noteq> []"
  then obtain doc vs where "saved_doc E (hz_trace s) p = Saved doc"
      "find_values_array doc = Some vs" "get_u64s (scalar_u64 E) vs = Some (val p)"
    unfolding replay_serves_def by blast
  with \<open>val p \<noteq> []\<close> show ?thesis by (simp add: extract_polynomial_values_def)
qed

lemma result_serves:
  assumes "replay_serves E val" and "fh_sound E val D" and "served (hz_trace s) n = Some p"
  shows "\<exists>q c. fhetch_result E n s = (Some q, fh_emit c s) \<and> val q = val p \<and>
    (\<exists>v k f. c = FromData v k f)"
proof -
  from assms(1,3) obtain np ts els where "load_probe E (hz_trace s) n = Some ((np # ts) # els)"
      and "np_values np = val p"
    unfolding replay_serves_def by blast
  then have "fhetch_result E n s =
      (Some (poly_of E (hz_trace s) (FromData (val p) (of_nat (length (val p))) (np_format np))),
       fh_emit (FromData (val p) (of_nat (length (val p))) (np_format np)) s)"
    by (simp add: fhetch_result_def fh_poly_def Let_def)
  then show ?thesis using fh_soundD(1) [OF assms(2)] by blast
qed

lemma served_from_data [simp]: "served (h @ [FromData v k f]) = served h"
  by (cases "foldl served_step (Map.empty, Map.empty) h") (simp add: served_def)

text \<open>Reading back served outputs is a list of shadow updates.\<close>

lemma populate_serves:
  assumes "replay_serves E val" and "fh_sound E val D"
    and "\<forall>(a, n) \<in> set outs. \<exists>p. served (hz_trace s) n = Some p \<and> val p = v a \<and> v a \<noteq> []"
  shows "fst (populate_shadows E outs s) =
      fst (put_list update_shadow (map (\<lambda>(a, n). (a, v a)) outs) (hz_alloc s))
    \<and> hz_alloc (snd (populate_shadows E outs s)) =
      snd (put_list update_shadow (map (\<lambda>(a, n). (a, v a)) outs) (hz_alloc s))"
  using assms(3)
proof (induction outs arbitrary: s)
  case (Cons x outs)
  obtain a n where x: "x = (a, n)" by (cases x)
  from Cons.prems obtain p where p: "served (hz_trace s) n = Some p" "val p = v a" "v a \<noteq> []"
    by (auto simp: x)
  obtain q w k f where r: "fhetch_result E n s = (Some q, fh_emit (FromData w k f) s)"
      and q: "val q = v a"
    using result_serves [OF assms(1,2) p(1)] p(2) by auto
  let ?s1 = "fh_emit (FromData w k f) s"
  have e: "extract_polynomial_values E q ?s1 = Some (v a)"
    using extract_serves [OF assms(1), of q ?s1] p(3) q by simp
  obtain u al where up: "update_shadow a (v a) (hz_alloc s) = (u, al)" by (rule prod.exhaust)
  have "\<forall>(a, n) \<in> set outs. \<exists>p. served (hz_trace (upd_alloc (\<lambda>_. al) ?s1)) n = Some p \<and>
      val p = v a \<and> v a \<noteq> []"
    using Cons.prems by auto
  from Cons.IH [OF this] show ?case
    by (cases u) (simp_all add: x r e up)
qed simp

lemma tags_fold:
  fixes outs :: "(DevAddr \<times> string) list" and f :: "DevAddr \<Rightarrow> 'p"
  assumes "distinct (map snd outs)" and "(a, n) \<in> set outs"
  shows "\<exists>t. foldl served_step st (map (\<lambda>(a, n). Tag (TagOutput n (f a)) :: ('p, 'm) fh_call) outs) = (t, snd st) \<and>
    t n = Some (f a)"
  using assms
proof (induction outs rule: rev_induct)
  case (snoc x outs)
  obtain b m where x: "x = (b, m)" by (cases x)
  have keep: "snd (foldl served_step st (map (\<lambda>(a, n). Tag (TagOutput n (f a)) :: ('p, 'm) fh_call) os)) = snd st"
    for os :: "(DevAddr \<times> string) list"
  proof (induction os arbitrary: st)
    case (Cons y os)
    then show ?case by (cases y; cases st) simp
  qed simp
  obtain t where t: "foldl served_step st (map (\<lambda>(a, n). Tag (TagOutput n (f a)) :: ('p, 'm) fh_call) outs) = (t, snd st)"
    using keep [of outs] that by (metis prod.collapse)
  show ?case
  proof (cases "(a, n) = x")
    case True
    with t show ?thesis by (simp add: x)
  next
    case False
    with snoc.prems x have "(a, n) \<in> set outs" and "n \<noteq> m" by force+
    with snoc.IH snoc.prems t show ?thesis by (simp add: x)
  qed
qed simp

lemma mrp_tags_fold: "foldl served_step st (map (\<lambda>n. Tag (TagOutputMrp n (g n))) ns) = st"
proof (induction ns arbitrary: st)
  case (Cons n ns)
  then show ?case by (cases st) simp
qed simp

lemma served_after_tags:
  fixes outs :: "(DevAddr \<times> string) list" and f :: "DevAddr \<Rightarrow> 'p" and h :: "('p, 'm) trace"
  assumes "distinct (map snd outs)" and "(a, n) \<in> set outs"
  shows "served (h @ (map (\<lambda>(a, n). Tag (TagOutput n (f a))) outs @
      map (\<lambda>n. Tag (TagOutputMrp n (g n))) ns) @ [Compiler CompilerStop, Compiler CompilerReplay]) n
    = Some (f a)"
proof -
  obtain t where "foldl served_step (foldl served_step (Map.empty, Map.empty) h)
      (map (\<lambda>(a, n). Tag (TagOutput n (f a)) :: ('p, 'm) fh_call) outs) =
      (t, snd (foldl served_step (Map.empty, Map.empty) h))" "t n = Some (f a)"
    using tags_fold [OF assms] by blast
  then show ?thesis by (simp add: served_def mrp_tags_fold)
qed

section \<open>Flushing\<close>

definition format_refused :: "config \<Rightarrow> bool" where
  "format_refused c \<longleftrightarrow> (cf_montgomery c \<or> cf_bit_reversal c) \<and> cfg_target c = kLocalTarget"

lemma flush_serves:
  assumes "replay_serves E val" and "fh_sound E val D" and "haze_inv s"
    and "recording (hz_epoch s)" and "\<not> hz_hook_had_error s"
    and "\<not> format_refused (hz_config s)"
    and "pending_outputs (hz_epoch s) \<noteq> []" and "names_inv (hz_epoch s)"
    and "\<forall>a \<in> al_keys (pending_outputs (hz_epoch s)). \<forall>p.
        poly_map (hz_epoch s) a = Some p \<longrightarrow> val p \<noteq> []"
  shows "\<exists>s'. flush E s = (fst (put_list update_shadow
        (map (\<lambda>(a, n). (a, val (the (poly_map (hz_epoch s) a)))) (pending_outputs (hz_epoch s)))
        (hz_alloc s)), s') \<and>
    hz_alloc s' = snd (put_list update_shadow
        (map (\<lambda>(a, n). (a, val (the (poly_map (hz_epoch s) a)))) (pending_outputs (hz_epoch s)))
        (hz_alloc s)) \<and>
    hz_epoch s' = epoch_init \<and> hz_host s' = hz_host s \<and> hz_config s' = hz_config s"
proof -
  let ?ep = "hz_epoch s"
  let ?v = "\<lambda>a. val (the (poly_map ?ep a))"
  let ?s1 = "s\<lparr>hz_trace := hz_trace s @ output_tags E ?ep\<rparr>"
  let ?s2 = "fh_emit (Compiler CompilerStop) ?s1"
  let ?s3 = "fh_emit (Compiler CompilerReplay) ?s2"
  note env = assms(1) [unfolded replay_serves_def, THEN conjunct1, rule_format]
  have stop: "stop_epoch E ?s1 = (True, ?s2)"
    using env assms(5) by (simp add: stop_epoch_def fh_bool_def)
  have take: "hazeReplayBridgeTakeHookHadError ?s2 = (False, ?s2)"
    using assms(5) by (simp add: hazeReplayBridgeTakeHookHadError_def)
  have rep: "backend_replay E ?s2 = (True, ?s3)"
    using env by (simp add: backend_replay_def fh_bool_def)
  have srv: "\<forall>(a, n) \<in> set (pending_outputs ?ep). \<exists>p. served (hz_trace ?s3) n = Some p \<and>
      val p = ?v a \<and> ?v a \<noteq> []"
  proof (clarify)
    fix a n
    assume an: "(a, n) \<in> set (pending_outputs ?ep)"
    have "served (hz_trace ?s3) n = Some (the (poly_map ?ep a))"
      using served_after_tags [OF _ an, where h = "hz_trace s" and f = "\<lambda>a. the (poly_map ?ep a)"
          and g = "group_value E ?ep" and ns = "pending_mrp_groups ?ep"] assms(8)
      by (simp add: names_inv_def output_tags_def)
    moreover have "a \<in> al_keys (pending_outputs ?ep)" using an by (force simp: al_keys_def)
    moreover from this obtain p where "poly_map ?ep a = Some p"
      using haze_inv_epoch [OF assms(3)] by (auto simp: epoch_inv_def bindings_inv_def)
    ultimately show "\<exists>p. served (hz_trace ?s3) n = Some p \<and> val p = ?v a \<and> ?v a \<noteq> []"
      using assms(9) by auto
  qed
  obtain r s4 where pop: "populate_shadows E (pending_outputs ?ep) ?s3 = (r, s4)"
    by (rule prod.exhaust)
  have res: "r = fst (put_list update_shadow (map (\<lambda>(a, n). (a, ?v a)) (pending_outputs ?ep)) (hz_alloc s))"
    and al: "hz_alloc s4 =
      snd (put_list update_shadow (map (\<lambda>(a, n). (a, ?v a)) (pending_outputs ?ep)) (hz_alloc s))"
    using populate_serves [OF assms(1,2) srv] pop by simp_all
  have frame: "hz_host s4 = hz_host s" "hz_config s4 = hz_config s"
    using populate_frame(1,3) [of E "pending_outputs ?ep" ?s3] pop by simp_all
  have "flush E s = (r, clear_state_locked s4)"
    using assms(4,6,7) stop take rep pop
    by (cases r)
       (auto simp: flush_def format_refused_def replay_and_populate_def finalize_locked_def Let_def
         tag_pending_outputs_ok [OF haze_inv_epoch [OF assms(3)]] do_materialize_locked_def)
  with res al frame show ?thesis by simp
qed

text \<open>What a successful flush leaves, and what a read-back of a flushed output then returns.\<close>

lemma flush_shadows:
  assumes "replay_serves E val" and "fh_sound E val D" and "haze_inv s"
    and "recording (hz_epoch s)" and "\<not> hz_hook_had_error s"
    and "\<not> format_refused (hz_config s)"
    and "pending_outputs (hz_epoch s) \<noteq> []" and "names_inv (hz_epoch s)"
    and "al_keys (pending_outputs (hz_epoch s)) \<subseteq> alloc_set (hz_alloc s)"
    and "\<forall>a \<in> al_keys (pending_outputs (hz_epoch s)). \<forall>p.
        poly_map (hz_epoch s) a = Some p \<longrightarrow> val p \<noteq> []"
  shows "\<exists>s'. flush E s = (Inr (), s') \<and> hz_epoch s' = epoch_init \<and>
    alloc_set (hz_alloc s') = alloc_set (hz_alloc s) \<and>
    want_elems (hz_alloc s') = want_elems (hz_alloc s) \<and> hz_host s' = hz_host s \<and>
    (\<forall>a. shadow_data (hz_alloc s') a =
       (if a \<in> al_keys (pending_outputs (hz_epoch s))
        then map_option (resize0 (want_elems (hz_alloc s))) (dev_mem val s a)
        else shadow_data (hz_alloc s) a))"
proof -
  let ?outs = "pending_outputs (hz_epoch s)"
  let ?ps = "map (\<lambda>(a, n). (a, val (the (poly_map (hz_epoch s) a)))) ?outs"
  have live: "fst ` set ?ps \<subseteq> alloc_set (hz_alloc s)"
    using assms(9) by (force simp: al_keys_def)
  have keys: "fst ` set ?ps = al_keys ?outs" by (force simp: al_keys_def)
  have keys': "fst ` (\<lambda>(a, n). (a, val (the (poly_map (hz_epoch s) a)))) ` set ?outs = al_keys ?outs"
    using keys by simp
  have ep: "bindings_inv (hz_epoch s)" using assms(3) by (simp add: haze_inv_def epoch_inv_def)
  have dist: "distinct (map fst ?ps)"
    using ep by (simp add: bindings_inv_def comp_def split_def)
  obtain s' where fl: "flush E s = (fst (put_list update_shadow ?ps (hz_alloc s)), s')"
      and al: "hz_alloc s' = snd (put_list update_shadow ?ps (hz_alloc s))"
      and fr: "hz_epoch s' = epoch_init" "hz_host s' = hz_host s"
    using flush_serves [OF assms(1-8,10)] by auto
  note frame = shadow.put_list_frame [of ?ps "hz_alloc s"]
  have "shadow_data (hz_alloc s') a =
      map_option (resize0 (want_elems (hz_alloc s))) (dev_mem val s a)" if "a \<in> al_keys ?outs" for a
  proof -
    from that ep obtain p where p: "poly_map (hz_epoch s) a = Some p"
      by (auto simp: bindings_inv_def)
    from that have "(a, val p) \<in> set ?ps" using p by (force simp: al_keys_def)
    from shadow.put_list_shadow [OF live dist this] show ?thesis
      by (simp add: al dev_mem_def p)
  qed
  moreover have "shadow_data (hz_alloc s') a = shadow_data (hz_alloc s) a"
    if "a \<notin> al_keys ?outs" for a
    using frame that by (simp add: al keys')
  moreover have "want_elems (hz_alloc s') = want_elems (hz_alloc s)"
    using frame arg_cong [where f = "\<lambda>f. length (f [])"] by (metis al length_resize0)
  ultimately show ?thesis
    using fl fr frame shadow.put_list_ok [OF live] by (simp add: al)
qed

lemma flush_reads_back:
  assumes "replay_serves E val" and "fh_sound E val D" and "ready s"
    and "recording (hz_epoch s)" and "\<not> hz_hook_had_error s"
    and "\<not> format_refused (hz_config s)" and "names_inv (hz_epoch s)"
    and "al_keys (pending_outputs (hz_epoch s)) \<subseteq> alloc_set (hz_alloc s)"
    and "\<forall>b \<in> al_keys (pending_outputs (hz_epoch s)). \<forall>p.
        poly_map (hz_epoch s) b = Some p \<longrightarrow> length (val p) = want_elems (hz_alloc s)"
    and "a \<in> al_keys (pending_outputs (hz_epoch s))" and "dst \<noteq> 0"
    and "n \<le> poly_bytes (hz_alloc s)"
  shows "\<exists>s1 v. flush E s = (Inr (), s1) \<and> dev_mem val s a = Some v \<and>
    copy_to_host_entry dst a n s1 =
      Some (Inr (), s1\<lparr>hz_host := write_host (hz_host s) dst (take (unat n) (vec_bytes v))\<rparr>)"
proof -
  have inv: "haze_inv s" using assms(3) by (simp add: ready_def)
  have w0: "want_elems (hz_alloc s) \<noteq> 0"
    using ready_size(1) [OF assms(3)] assms(3) by (simp add: ready_def unat_eq_0)
  have ne: "\<forall>b \<in> al_keys (pending_outputs (hz_epoch s)). \<forall>p.
      poly_map (hz_epoch s) b = Some p \<longrightarrow> val p \<noteq> []"
    using assms(9) w0 by fastforce
  have nil: "pending_outputs (hz_epoch s) \<noteq> []" using assms(10) by (auto simp: al_keys_def)
  obtain p where p: "poly_map (hz_epoch s) a = Some p"
    using assms(10) inv by (auto simp: haze_inv_def epoch_inv_def bindings_inv_def)
  obtain s1 where fl: "flush E s = (Inr (), s1)"
      and live: "alloc_set (hz_alloc s1) = alloc_set (hz_alloc s)"
      and host: "hz_host s1 = hz_host s"
      and sh: "shadow_data (hz_alloc s1) a = map_option (resize0 (want_elems (hz_alloc s))) (dev_mem val s a)"
    using flush_shadows [OF assms(1,2) inv assms(4-6) nil assms(7,8) ne] assms(10) by auto
  have v: "shadow_data (hz_alloc s1) a = Some (val p)"
    using sh assms(9,10) p by (simp add: dev_mem_def)
  have "hz_config s1 = hz_config s"
    using flush_serves [OF assms(1,2) inv assms(4-6) nil assms(7) ne] fl by auto
  moreover have "haze_inv s1" using haze_inv_flush [OF inv, of E] fl by simp
  ultimately have pb: "poly_bytes (hz_alloc s1) = poly_bytes (hz_alloc s)"
    using inv by (simp add: haze_inv_def cfg_inv_def)
  have "unat n \<le> 8 * length (val p)"
    using count_fits [OF assms(12)] eight_want_elems [of "hz_alloc s"] assms(3) assms(9,10) p
    by (simp add: ready_def sized_def)
  then have "copy_to_host (hz_host s1) dst a n (hz_alloc s1) =
      Some (Inr (), write_host (hz_host s1) dst (take (unat n) (vec_bytes (val p))))"
    using assms(8,10,11,12) live v pb by (auto simp: copy_to_host_def)
  then show ?thesis using fl p host by (simp add: copy_to_host_entry_def dev_mem_def)
qed

end
