(* ===== verification/Haze_Simulator.thy ===== *)
theory Haze_Simulator
  imports Haze_Flush
begin

text \<open>
  One concrete environment, used to show that the hypotheses on fhetch, the compiler and the
  files can hold: polynomials are residue vectors, multi-residue polynomials lists of vectors
  with their moduli, and replay serves exactly what was tagged. The transforms are the
  identity and the automorph the Galois action that include/haze/haze.h documents.
\<close>

definition sim_pp :: "sr_pp \<Rightarrow> u64 list \<Rightarrow> u64 list \<Rightarrow> u64 \<Rightarrow> u64 list" where
  "sim_pp f xs ys q =
     (case f of
        SrAddp \<Rightarrow> map2 (\<lambda>x y. word_of_int ((uint x + uint y) mod uint q)) xs ys
      | SrSubp \<Rightarrow> map2 (\<lambda>x y. word_of_int ((uint x - uint y) mod uint q)) xs ys
      | SrMulp \<Rightarrow> map2 (\<lambda>x y. word_of_int ((uint x * uint y) mod uint q)) xs ys)"

definition sim_ps :: "sr_ps \<Rightarrow> u64 list \<Rightarrow> u64 \<Rightarrow> u64 \<Rightarrow> u64 list" where
  "sim_ps f xs y q =
     (case f of
        SrAddps \<Rightarrow> map (\<lambda>x. word_of_int ((uint x + uint y) mod uint q)) xs
      | SrSubps \<Rightarrow> map (\<lambda>x. word_of_int ((uint x - uint y) mod uint q)) xs
      | SrMulps \<Rightarrow> map (\<lambda>x. word_of_int ((uint x * uint y) mod uint q)) xs)"

definition sim_pq :: "sr_pq \<Rightarrow> u64 list \<Rightarrow> u64 \<Rightarrow> u64 list" where
  "sim_pq f xs q = xs"

definition sim_automorph :: "u64 list \<Rightarrow> u64 \<Rightarrow> u64 list" where
  "sim_automorph xs k =
     map (\<lambda>i. xs ! (unat k * (2 * i + 1) mod (2 * length xs) div 2)) [0..<length xs]"

definition sim_den :: fh_denotation where
  "sim_den = \<lparr>den_pp = sim_pp, den_ps = sim_ps, den_pq = sim_pq, den_automorph = sim_automorph\<rparr>"

type_synonym sim_mrp = "(u64 list \<times> u64) list"

fun sim_poly :: "(u64 list, sim_mrp) fh_call \<Rightarrow> u64 list" where
  "sim_poly (FromData v n f) = v"
| "sim_poly (SrPP f a b q) = sim_pp f a b q"
| "sim_poly (SrPS f a x q) = (if q = kCopyModulus then a else sim_ps f a x q)"
| "sim_poly (SrPQ f a q) = sim_pq f a q"
| "sim_poly (SrAutomorphEval a k) = sim_automorph a k"
| "sim_poly _ = []"

fun sim_mr_pp :: "mr_pp \<Rightarrow> sr_pp" where
  "sim_mr_pp MrAddp = SrAddp" | "sim_mr_pp MrSubp = SrSubp" | "sim_mr_pp MrMulp = SrMulp"

fun sim_mr_ps :: "mr_ps \<Rightarrow> sr_ps" where
  "sim_mr_ps MrAddps = SrAddps" | "sim_mr_ps MrSubps = SrSubps" | "sim_mr_ps MrMulps = SrMulps"

definition sim_at :: "sim_mrp \<Rightarrow> u64 \<Rightarrow> u64 list" where
  "sim_at m q = (case map_of (map (\<lambda>(p, q). (q, p)) m) q of None \<Rightarrow> [] | Some p \<Rightarrow> p)"

fun sim_mrp :: "(u64 list, sim_mrp) fh_call \<Rightarrow> sim_mrp" where
  "sim_mrp (MrPP f a b) = map (\<lambda>(p, q). (sim_pp (sim_mr_pp f) p (sim_at b q) q, q)) a"
| "sim_mrp (MrPS f a xs) = map2 (\<lambda>(p, q) (x, _). (sim_ps (sim_mr_ps f) p x q, q)) a xs"
| "sim_mrp (MrP f a) = a"
| "sim_mrp (MrPI f a k) = map (\<lambda>(p, q). (sim_automorph p k, q)) a"
| "sim_mrp (FastBaseConvert a base v sh) = map (\<lambda>q. (fst (hd a), q)) base"
| "sim_mrp (RescaleFbc a base v sh) = filter (\<lambda>(p, q). q \<notin> set base) a"
| "sim_mrp (MrSubset a base) = filter (\<lambda>(p, q). q \<in> set base) a"
| "sim_mrp _ = []"

fun sim_scalar :: "json_scalar \<Rightarrow> u64 option" where
  "sim_scalar (JUnsigned w) = Some w"
| "sim_scalar _ = None"

definition sim_env :: "(u64 list, sim_mrp) fh_env" where
  "sim_env = \<lparr>poly_of = (\<lambda>h c. sim_poly c), mrp_of = (\<lambda>h c. sim_mrp c), bool_of = (\<lambda>h c. True),
     throws = (\<lambda>h c. False), mrp_from_pairs = (\<lambda>ps. ps), mrp_at = sim_at,
     mrp_base = (\<lambda>m. map snd m), hook_fails = (\<lambda>h. False),
     load_probe = (\<lambda>h n. map_option (\<lambda>p. [[\<lparr>np_values = p, np_format = Evaluation, np_modulus = 0\<rparr>]])
                          (served h n)),
     saved_doc = (\<lambda>h p. Saved (JObject [(''values'', JArray (map (\<lambda>w. JScalar (JUnsigned w)) p))])),
     scalar_u64 = sim_scalar\<rparr>"

lemma sim_env_simps [simp]:
  "poly_of sim_env h c = sim_poly c"
  "mrp_of sim_env h c = sim_mrp c"
  "bool_of sim_env h c"
  "\<not> throws sim_env h c"
  "mrp_from_pairs sim_env ps = ps"
  "mrp_at sim_env = sim_at"
  "mrp_base sim_env m = map snd m"
  "\<not> hook_fails sim_env h"
  by (simp_all add: sim_env_def)

lemma sim_sound: "fh_sound sim_env (\<lambda>p. p) sim_den"
  by (simp add: fh_sound_def sim_den_def)

lemma sim_get_u64s: "get_u64s sim_scalar (map (\<lambda>w. JScalar (JUnsigned w)) p) = Some p"
  by (induction p) simp_all

lemma sim_serves: "replay_serves sim_env (\<lambda>p. p)"
proof -
  have "\<exists>np ts els. load_probe sim_env h n = Some ((np # ts) # els) \<and> np_values np = p"
    if "served h n = Some p" for h n p
    using that by (simp add: sim_env_def)
  moreover have "\<exists>doc vs. saved_doc sim_env h p = Saved doc \<and> find_values_array doc = Some vs \<and>
      get_u64s (scalar_u64 sim_env) vs = Some p" for h p
    by (simp add: sim_env_def values_member_def sim_get_u64s)
  ultimately show ?thesis by (simp add: replay_serves_def)
qed

section \<open>A small device\<close>

text \<open>
  Ring dimension 2, one modulus, three live addresses, two of them uploaded: the state the
  examples of the later theories start from.
\<close>

definition demo_alloc :: allocator where
  "demo_alloc = allocator_init\<lparr>poly_bytes := 16, alloc_set := {64, 80, 96},
     shadow_data := [64 \<mapsto> [1, 2], 80 \<mapsto> [3, 96]]\<rparr>"

definition demo :: "(u64 list, sim_mrp) haze" where
  "demo = (haze_init (\<lambda>_. 0))\<lparr>hz_config := config_init\<lparr>cf_ring_dim := 2, cf_moduli := [97]\<rparr>,
     hz_alloc := demo_alloc\<rparr>"

lemma demo_alloc_simps [simp]:
  "poly_bytes demo_alloc = 16"
  "alloc_set demo_alloc = {64, 80, 96}"
  "shadow_data demo_alloc = [64 \<mapsto> [1, 2], 80 \<mapsto> [3, 96]]"
  "pool_free demo_alloc = []"
  "want_elems demo_alloc = 2"
  by (simp_all add: demo_alloc_def allocator_init_def want_elems_def)

lemma demo_simps [simp]:
  "hz_config demo = config_init\<lparr>cf_ring_dim := 2, cf_moduli := [97]\<rparr>"
  "hz_alloc demo = demo_alloc"
  "hz_epoch demo = epoch_init"
  "hz_trace demo = []"
  "hz_backend_initialized demo = False"
  "hz_hook_had_error demo = False"
  by (simp_all add: demo_def haze_init_def)

lemma demo_inv: "haze_inv demo"
  by (auto simp: haze_inv_def cfg_inv_def alloc_inv_def epoch_inv_init is_supported_ring_dim_def
      config_init_def)

lemma demo_sized: "sized demo_alloc"
  by (auto simp: sized_def)

lemma demo_ready: "ready demo"
  by (simp add: ready_def demo_inv demo_sized)

text \<open>The same device in the middle of an epoch, with one computed value tagged.\<close>

definition demo_epoch :: "u64 list epoch" where
  "demo_epoch = epoch_init\<lparr>poly_map := [96 \<mapsto> [4, 1]], pending_outputs := [(96, ''haze_out_0'')],
     output_counter := 1, recording := True\<rparr>"

definition demo_recording :: "(u64 list, sim_mrp) haze" where
  "demo_recording = demo\<lparr>hz_epoch := demo_epoch, hz_backend_initialized := True\<rparr>"

lemma demo_epoch_simps [simp]:
  "poly_map demo_epoch = [96 \<mapsto> [4, 1]]"
  "pending_outputs demo_epoch = [(96, ''haze_out_0'')]"
  "pending_mrp_groups demo_epoch = []"
  "recording demo_epoch"
  "addr_to_mrp_groups demo_epoch = Map.empty"
  by (simp_all add: demo_epoch_def epoch_init_def)

lemma demo_recording_simps [simp]:
  "hz_config demo_recording = config_init\<lparr>cf_ring_dim := 2, cf_moduli := [97]\<rparr>"
  "hz_alloc demo_recording = demo_alloc"
  "hz_epoch demo_recording = demo_epoch"
  "hz_trace demo_recording = []"
  "hz_hook_had_error demo_recording = False"
  by (simp_all add: demo_recording_def)

lemma demo_recording_inv: "haze_inv demo_recording"
  using demo_inv
  by (simp add: haze_inv_def)
     (simp add: epoch_inv_def groups_inv_def bindings_inv_def demo_epoch_def epoch_init_def)

lemma demo_recording_ready: "ready demo_recording"
  by (simp add: ready_def demo_recording_inv demo_sized)

lemma to_string_0: "to_string 0 = ''0''"
  by code_simp

lemma demo_names: "names_inv demo_epoch"
proof -
  have "out_names.below (0 + 1) =
      insert (''haze_out_'' @ to_string (unat (0 :: u64))) (out_names.below 0)"
    by (rule out_names.below_step) simp
  then have "''haze_out_0'' \<in> out_names.below 1" by (simp add: to_string_0)
  then show ?thesis by (simp add: names_inv_def demo_epoch_def epoch_init_def)
qed

end
