(* ===== verification/Haze_Flush_Spec.thy ===== *)
theory Haze_Flush_Spec
  imports Haze_Simulator
begin

text \<open>
  The properties of the record, flush, read-back cycle: recorded programs mean their eager
  execution on device memory, a flush moves the tagged values into the shadows, a read-back
  then returns their bytes, and every way a flush can end leaves a clean epoch.
\<close>

section \<open>Recording\<close>

text \<open>
  C3. Recording refines eager execution. In a configured state with well-sized shadows, and
  for any fhetch that respects the documented meaning of its operations, running a list of
  single-residue operations (arithmetic, scalar, transform, automorphism, device-to-device
  copy, in place or not) through the recording layer succeeds exactly when executing them
  eagerly on the device memory succeeds, and then the device memory the recording denotes is
  the eager result. So lazy promotion of shadows, copies of handles and eviction are
  invisible.
\<close>

theorem recorded_program_is_eager:
  assumes "fh_sound E val D" and "ready s" and "\<forall>i \<in> set is. instr_ok (hz_config s) i"
    and "run_instrs E is s = (r, s')"
  shows "eager_run D (hz_config s) is (dev_mem val s) =
    (case r of Inr u \<Rightarrow> Some (dev_mem val s') | Inl e \<Rightarrow> None)"
  using run_instrs_sem [OF assms] by simp

theorem recorded_program_is_eager_witness:
  "eager_run sim_den (hz_config demo) [IPP SrAddp 96 64 80 0, ICopy 64 96 16] (dev_mem (\<lambda>p. p) demo)
   = Some (dev_mem (\<lambda>p. p) (snd (run_instrs sim_env [IPP SrAddp 96 64 80 0, ICopy 64 96 16] demo)))"
proof -
  let ?is = "[IPP SrAddp 96 64 80 0, ICopy 64 96 16]"
  have ok: "fst (run_instrs sim_env ?is demo) = Inr ()" by code_simp
  obtain s' where r: "run_instrs sim_env ?is demo = (Inr (), s')"
    using ok by (cases "run_instrs sim_env ?is demo") auto
  have "\<forall>i \<in> set ?is. instr_ok (hz_config demo) i" by simp
  from recorded_program_is_eager [OF sim_sound demo_ready this r] show ?thesis
    by (simp add: r del: run_instrs.simps eager_run.simps)
qed

section \<open>Flushing\<close>

text \<open>
  A successful flush materialises exactly the tagged outputs: when replay serves the
  tagged values and every tagged address is live, flushing a consistent recording succeeds;
  afterwards the shadow of each pending output is the value bound to it when it was flushed
  (fitted to the allocation size), every other shadow and all of liveness, pool and host
  memory are untouched, and the epoch is back in its initial state.
\<close>

theorem flush_materialises:
  assumes "replay_serves E val" and "fh_sound E val D" and "haze_inv s"
    and "recording (hz_epoch s)" and "\<not> hz_hook_had_error s"
    and "\<not> format_refused (hz_config s)"
    and "pending_outputs (hz_epoch s) \<noteq> []" and "names_inv (hz_epoch s)"
    and "al_keys (pending_outputs (hz_epoch s)) \<subseteq> alloc_set (hz_alloc s)"
    and "\<forall>a \<in> al_keys (pending_outputs (hz_epoch s)). \<forall>p.
        poly_map (hz_epoch s) a = Some p \<longrightarrow> val p \<noteq> []"
  shows "\<exists>s'. flush E s = (Inr (), s') \<and> hz_epoch s' = epoch_init \<and>
    alloc_set (hz_alloc s') = alloc_set (hz_alloc s) \<and>
    want_elems (hz_alloc s') = want_elems (hz_alloc s) \<and> hz_host s' = hz_host s \<and>
    (\<forall>a. shadow_data (hz_alloc s') a =
       (if a \<in> al_keys (pending_outputs (hz_epoch s))
        then map_option (resize0 (want_elems (hz_alloc s))) (dev_mem val s a)
        else shadow_data (hz_alloc s) a))"
  using flush_shadows [OF assms] .

theorem flush_materialises_witness:
  "\<exists>s'. flush sim_env demo_recording = (Inr (), s') \<and>
     shadow_data (hz_alloc s') 96 = Some [4, 1] \<and> shadow_data (hz_alloc s') 64 = Some [1, 2]"
proof -
  have nf: "\<not> format_refused (hz_config demo_recording)"
    by (simp add: format_refused_def config_init_def)
  have "\<exists>s'. flush sim_env demo_recording = (Inr (), s') \<and>
    (\<forall>a. shadow_data (hz_alloc s') a =
       (if a \<in> al_keys (pending_outputs demo_epoch)
        then map_option (resize0 2) (dev_mem (\<lambda>p. p) demo_recording a)
        else shadow_data demo_alloc a))"
    using flush_materialises [OF sim_serves sim_sound demo_recording_inv _ _ nf]
    by (auto simp: demo_names split: if_splits)
  then show ?thesis by (fastforce simp: dev_mem_def)
qed

text \<open>
  C12. End to end: a tagged output whose bound value has the allocation's length reads back,
  after the flush, as exactly the bytes of that value. For every live tagged address and any
  byte count up to the allocation size the D2H copy is defined, succeeds and writes the
  prefix of the value's little-endian bytes.
\<close>

theorem flush_then_d2h:
  assumes "replay_serves E val" and "fh_sound E val D" and "ready s"
    and "recording (hz_epoch s)" and "\<not> hz_hook_had_error s"
    and "\<not> format_refused (hz_config s)" and "names_inv (hz_epoch s)"
    and "al_keys (pending_outputs (hz_epoch s)) \<subseteq> alloc_set (hz_alloc s)"
    and "\<forall>b \<in> al_keys (pending_outputs (hz_epoch s)). \<forall>p.
        poly_map (hz_epoch s) b = Some p \<longrightarrow> length (val p) = want_elems (hz_alloc s)"
    and "a \<in> al_keys (pending_outputs (hz_epoch s))" and "dst \<noteq> 0"
    and "n \<le> poly_bytes (hz_alloc s)"
  shows "\<exists>s1 v. flush E s = (Inr (), s1) \<and> dev_mem val s a = Some v \<and>
    copy_to_host_entry dst a n s1 =
      Some (Inr (), s1\<lparr>hz_host := write_host (hz_host s) dst (take (unat n) (vec_bytes v))\<rparr>)"
  using flush_reads_back [OF assms] .

theorem flush_then_d2h_witness:
  "\<exists>s1. flush sim_env demo_recording = (Inr (), s1) \<and>
     copy_to_host_entry 4096 96 16 s1 =
       Some (Inr (), s1\<lparr>hz_host := write_host (hz_host demo_recording) 4096 (vec_bytes [4, 1])\<rparr>)"
proof -
  have nf: "\<not> format_refused (hz_config demo_recording)"
    by (simp add: format_refused_def config_init_def)
  have "\<exists>s1 v. flush sim_env demo_recording = (Inr (), s1) \<and>
      dev_mem (\<lambda>p. p) demo_recording 96 = Some v \<and>
      copy_to_host_entry 4096 96 16 s1 = Some (Inr (),
        s1\<lparr>hz_host := write_host (hz_host demo_recording) 4096 (take (unat (16 :: u64)) (vec_bytes v))\<rparr>)"
    by (rule flush_then_d2h [OF sim_serves sim_sound demo_recording_ready _ _ nf])
       (auto simp: demo_names split: if_splits)
  then show ?thesis by (simp add: dev_mem_def)
qed

end
