(* ===== verification/Haze_Flush_Errors.thy ===== *)
theory Haze_Flush_Errors
  imports Haze_Simulator
begin

text \<open>
  How a flush and a \<open>write_program\<close> can end, for an arbitrary environment: every outcome
  leaves a clean epoch, a failure keeps the old bytes of the outputs it did not reach, and
  the bridge's hook flag outlives a failed stop.
\<close>

section \<open>Reading the outputs back\<close>

lemma update_shadow_cases:
  obtains (unknown) "a \<notin> alloc_set al" "update_shadow a v al = (Inl UnknownAddress, al)"
  | (stored) "a \<in> alloc_set al"
      "update_shadow a v al = (Inr (),
         al\<lparr>shadow_data := (shadow_data al)(a \<mapsto> resize0 (want_elems al) v)\<rparr>)"
proof (cases "a \<in> alloc_set al")
  case True
  with stored show thesis by (auto simp: update_shadow_def Let_def resize0_def)
next
  case False
  with unknown show thesis by (simp add: update_shadow_def)
qed

definition readback_errors :: "HazeInternalError set" where
  "readback_errors = {BackendOutputMissing, BackendOutputDecodeFailed, UnknownAddress}"

lemma fetch_trace:
  "fetch = fhetch_result E n s \<Longrightarrow> (\<exists>cs. hz_trace (snd fetch) = hz_trace s @ cs) \<and>
     hz_alloc (snd fetch) = hz_alloc s \<and> hz_hook_had_error (snd fetch) = hz_hook_had_error s"
  by (auto simp: fhetch_result_def fh_poly_def Let_def split: option.splits list.splits)

text \<open>
  The loop stops after \<open>k\<close> outputs: those have new vectors of the right length, every
  other shadow is as before.
\<close>

lemma populate_prefix:
  assumes "populate_shadows E outs s = (r, s')"
  shows "\<exists>k \<le> length outs. (r = Inr () \<and> k = length outs \<or> k < length outs \<and> r \<in> Inl ` readback_errors) \<and>
    (\<forall>a. shadow_data (hz_alloc s') a \<noteq> shadow_data (hz_alloc s) a \<longrightarrow>
       a \<in> fst ` set (take k outs)) \<and>
    (\<forall>a \<in> fst ` set (take k outs). \<exists>v. shadow_data (hz_alloc s') a = Some v \<and>
       length v = want_elems (hz_alloc s)) \<and>
    (\<exists>sh. hz_alloc s' = (hz_alloc s)\<lparr>shadow_data := sh\<rparr>) \<and>
    (\<exists>cs. hz_trace s' = hz_trace s @ cs) \<and> hz_hook_had_error s' = hz_hook_had_error s"
  using assms
proof (induction outs arbitrary: s)
  case Nil
  then show ?case by (auto intro: exI [of _ "shadow_data (hz_alloc s)"])
next
  case (Cons x outs)
  obtain a n where x: "x = (a, n)" by (cases x)
  obtain q s1 where f: "fhetch_result E n s = (q, s1)" by (rule prod.exhaust)
  obtain cs where s1: "hz_trace s1 = hz_trace s @ cs" "hz_alloc s1 = hz_alloc s"
      "hz_hook_had_error s1 = hz_hook_had_error s"
    using fetch_trace [OF refl, of E n s] by (auto simp: f)
  have stop: ?case if "s' = s1" and "r \<in> Inl ` readback_errors"
    using that s1 by (intro exI [of _ 0]) (auto intro: exI [of _ "shadow_data (hz_alloc s)"])
  show ?case
  proof (cases "case q of None \<Rightarrow> None | Some p \<Rightarrow> extract_polynomial_values E p s1")
    case None
    then show ?thesis
      using Cons.prems stop by (auto simp: x f readback_errors_def split: option.splits)
  next
    case (Some v)
    then obtain p where p: "q = Some p" "extract_polynomial_values E p s1 = Some v"
      by (auto split: option.splits)
    show ?thesis
    proof (cases rule: update_shadow_cases [of a "hz_alloc s1" v])
      case unknown
      have "upd_alloc (\<lambda>_. hz_alloc s1) s1 = s1" by (simp add: upd_alloc_def)
      with unknown show ?thesis
        using Cons.prems stop by (auto simp: x f p readback_errors_def)
    next
      case stored
      let ?al = "(hz_alloc s)\<lparr>shadow_data := (shadow_data (hz_alloc s))
          (a \<mapsto> resize0 (want_elems (hz_alloc s)) v)\<rparr>"
      have w: "want_elems ?al = want_elems (hz_alloc s)" by (simp add: want_elems_def)
      have "populate_shadows E outs (upd_alloc (\<lambda>_. ?al) s1) = (r, s')"
        using Cons.prems stored(2) by (simp add: x f p s1)
      from Cons.IH [OF this] obtain k where "k \<le> length outs"
          and k: "r = Inr () \<and> k = length outs \<or> k < length outs \<and> r \<in> Inl ` readback_errors"
          and ch: "\<And>b. shadow_data (hz_alloc s') b \<noteq> shadow_data ?al b \<Longrightarrow> b \<in> fst ` set (take k outs)"
          and up: "\<forall>b \<in> fst ` set (take k outs). \<exists>v. shadow_data (hz_alloc s') b = Some v \<and>
            length v = want_elems (hz_alloc s)"
          and rest: "\<exists>sh. hz_alloc s' = (hz_alloc s)\<lparr>shadow_data := sh\<rparr>"
            "\<exists>cs. hz_trace s' = hz_trace s @ cs" "hz_hook_had_error s' = hz_hook_had_error s"
        using s1 by (auto simp: w simp del: fun_upd_apply)
      have "\<exists>v. shadow_data (hz_alloc s') a = Some v \<and> length v = want_elems (hz_alloc s)"
      proof (cases "a \<in> fst ` set (take k outs)")
        case False
        with ch [of a] have "shadow_data (hz_alloc s') a = Some (resize0 (want_elems (hz_alloc s)) v)"
          by auto
        then show ?thesis by simp
      qed (use up in blast)
      moreover have "b \<in> insert a (fst ` set (take k outs))"
        if "shadow_data (hz_alloc s') b \<noteq> shadow_data (hz_alloc s) b" for b
        using that ch [of b] by (cases "b = a") auto
      ultimately show ?thesis
        using k up rest by (intro exI [of _ "Suc k"]) (auto simp: x)
    qed
  qed
qed

section \<open>The branches of a flush\<close>

text \<open>After the tags: stop, the hook flag, replay, read-back; each exit clears the epoch.\<close>

definition flush_errors :: "HazeInternalError set" where
  "flush_errors = {BackendReplayFailed, BridgeHookFailed} \<union> readback_errors"

lemma materialize_cases:
  assumes "do_materialize_locked E run s = (r, s')" and "recording (hz_epoch s)"
  obtains (stop_failed) "\<not> bool_of E (hz_trace s) (Compiler CompilerStop)"
      "r = Inl BackendReplayFailed" "hz_alloc s' = hz_alloc s"
      "hz_trace s' = hz_trace s @ [Compiler CompilerStop, Compiler ClearCaptured]"
      "hz_hook_had_error s' = (hz_hook_had_error s \<or> hook_fails E (hz_trace s))"
  | (hook_failed) "bool_of E (hz_trace s) (Compiler CompilerStop)"
      "hz_hook_had_error s \<or> hook_fails E (hz_trace s)" "r = Inl BridgeHookFailed"
      "hz_alloc s' = hz_alloc s" "\<not> hz_hook_had_error s'"
      "hz_trace s' = hz_trace s @ [Compiler CompilerStop, Compiler ClearCaptured]"
  | (written) "\<not> run" "bool_of E (hz_trace s) (Compiler CompilerStop)"
      "\<not> hz_hook_had_error s" "\<not> hook_fails E (hz_trace s)" "r = Inr ()"
      "hz_alloc s' = hz_alloc s" "\<not> hz_hook_had_error s'"
      "hz_trace s' = hz_trace s @ [Compiler CompilerStop, Compiler ClearCaptured]"
  | (replay_failed) "run" "bool_of E (hz_trace s) (Compiler CompilerStop)"
      "\<not> hz_hook_had_error s" "\<not> hook_fails E (hz_trace s)"
      "r = Inl BackendReplayFailed" "hz_alloc s' = hz_alloc s" "\<not> hz_hook_had_error s'"
      "hz_trace s' = hz_trace s @
         [Compiler CompilerStop, Compiler CompilerReplay, Compiler ClearCaptured]"
  | (read_back) s3 s4 where "run" "bool_of E (hz_trace s) (Compiler CompilerStop)"
      "\<not> hz_hook_had_error s" "\<not> hook_fails E (hz_trace s)"
      "s3 = s\<lparr>hz_trace := hz_trace s @ [Compiler CompilerStop, Compiler CompilerReplay]\<rparr>"
      "populate_shadows E (pending_outputs (hz_epoch s)) s3 = (r, s4)"
      "s' = clear_state_locked s4" "\<not> hz_hook_had_error s'"
proof -
  let ?s1 = "fh_emit (Compiler CompilerStop) s"
  have stop: "stop_epoch E s = (bool_of E (hz_trace s) (Compiler CompilerStop),
      ?s1\<lparr>hz_hook_had_error := hz_hook_had_error s \<or> hook_fails E (hz_trace s)\<rparr>)"
    by (simp add: stop_epoch_def fh_bool_def)
  let ?h = "hz_hook_had_error s \<or> hook_fails E (hz_trace s)"
  let ?s2 = "?s1\<lparr>hz_hook_had_error := False\<rparr>"
  consider "\<not> bool_of E (hz_trace s) (Compiler CompilerStop)"
    | "bool_of E (hz_trace s) (Compiler CompilerStop)" ?h
    | "bool_of E (hz_trace s) (Compiler CompilerStop)" "\<not> ?h" by blast
  then show thesis
  proof cases
    case 1
    with assms stop have "r = Inl BackendReplayFailed \<and>
        s' = clear_state_locked (?s1\<lparr>hz_hook_had_error := ?h\<rparr>)"
      by (simp add: do_materialize_locked_def)
    with 1 show thesis by (intro stop_failed) simp_all
  next
    case 2
    with assms stop have "r = Inl BridgeHookFailed \<and> s' = clear_state_locked ?s2"
      by (auto simp: do_materialize_locked_def hazeReplayBridgeTakeHookHadError_def)
    with 2 show thesis by (intro hook_failed) simp_all
  next
    case 3
    have "?s2 = ?s1" using 3 by (simp add: fh_emit_def)
    then have stop3: "stop_epoch E s = (True, ?s1)" and take: "hazeReplayBridgeTakeHookHadError ?s1 = (False, ?s1)"
      using 3 stop by (simp_all add: hazeReplayBridgeTakeHookHadError_def)
    have rest: "do_materialize_locked E run s = (if \<not> run then (Inr (), clear_state_locked ?s1)
        else case backend_replay E ?s1 of
          (False, s3) \<Rightarrow> (Inl BackendReplayFailed, clear_state_locked s3)
        | (True, s3) \<Rightarrow> (case populate_shadows E (pending_outputs (hz_epoch s3)) s3 of
             (Inl e, s4) \<Rightarrow> (Inl e, clear_state_locked s4)
           | (Inr _, s4) \<Rightarrow> (Inr (), clear_state_locked s4)))"
      using assms(2) stop3 take by (simp add: do_materialize_locked_def)
    let ?s3 = "s\<lparr>hz_trace := hz_trace s @ [Compiler CompilerStop, Compiler CompilerReplay]\<rparr>"
    have s3: "fh_emit (Compiler CompilerReplay) ?s1 = ?s3" by (simp add: fh_emit_def)
    define ok where "ok \<longleftrightarrow> \<not> throws E (hz_trace ?s1) (Compiler CompilerReplay) \<and>
      bool_of E (hz_trace ?s1) (Compiler CompilerReplay)"
    have rp: "backend_replay E ?s1 = (ok, ?s3)"
      by (simp add: backend_replay_def fh_bool_def ok_def s3 del: fh_emit_simps)
    obtain q s4 where po: "populate_shadows E (pending_outputs (hz_epoch s)) ?s3 = (q, s4)"
      by (rule prod.exhaust)
    have h4: "\<not> hz_hook_had_error s4" using populate_prefix [OF po] 3 by auto
    show thesis
    proof (cases "run \<and> ok")
      case True
      with assms(1) rest rp po have "r = q \<and> s' = clear_state_locked s4"
        by (cases q) auto
      with True 3 po h4 show thesis by (intro read_back [of ?s3 s4]) simp_all
    next
      case False
      show thesis
      proof (cases run)
        case True
        with False assms(1) rest rp
        have "r = Inl BackendReplayFailed \<and> s' = clear_state_locked ?s3" by simp
        with True 3 show thesis by (intro replay_failed) simp_all
      next
        case False
        with assms(1) rest have "r = Inr () \<and> s' = clear_state_locked ?s1" by simp
        with False 3 show thesis by (intro written) simp_all
      qed
    qed
  qed
qed

lemma materialize_frame:
  assumes "do_materialize_locked E run s = (r, s')" and "recording (hz_epoch s)"
  shows "hz_epoch s' = epoch_init" and "hz_config s' = hz_config s" and "hz_host s' = hz_host s"
proof -
  have pop: "hz_config u = hz_config t \<and> hz_host u = hz_host t"
    if "populate_shadows E outs t = (q, u)" for outs t q u
    using populate_frame(1,3) [of E outs t] that by simp
  have "hz_epoch s' = epoch_init \<and> hz_config s' = hz_config s \<and> hz_host s' = hz_host s"
    using assms
    by (auto simp: do_materialize_locked_def stop_epoch_def fh_bool_def backend_replay_def
        hazeReplayBridgeTakeHookHadError_def dest!: pop split: if_splits prod.splits bool.splits sum.splits)
  then show "hz_epoch s' = epoch_init" and "hz_config s' = hz_config s" and "hz_host s' = hz_host s"
    by simp_all
qed

definition nothing_pending :: "'p epoch \<Rightarrow> bool" where
  "nothing_pending ep \<longleftrightarrow> pending_outputs ep = [] \<and> pending_mrp_groups ep = []"

lemma finalize_form:
  assumes "haze_inv s" and "recording (hz_epoch s)"
  shows "finalize_locked E run s =
    (if nothing_pending (hz_epoch s) then (Inr (), clear_state_locked s)
     else do_materialize_locked E run (s\<lparr>hz_trace := hz_trace s @ output_tags E (hz_epoch s)\<rparr>))"
  using assms(2) tag_pending_outputs_ok [OF haze_inv_epoch [OF assms(1)], of E]
  by (simp add: finalize_locked_def nothing_pending_def)

lemma flush_form:
  assumes "\<not> format_refused (hz_config s)"
  shows "flush E s = finalize_locked E True s"
  using assms by (auto simp: flush_def format_refused_def replay_and_populate_def Let_def)

section \<open>Properties\<close>

text \<open>
  C13. However the compiler, the bridge and replay answer, a flush from a consistent state
  ends in one of three ways. With a data format the local target cannot replay it refuses
  and changes nothing; with no recording open it succeeds and changes nothing; otherwise it
  leaves the epoch in its initial state with the captures cleared last, reports success or
  one of five errors, and changes neither liveness, pool, host memory, configuration nor
  the shadow of any address that was not tagged.
\<close>

theorem flush_always_cleans:
  assumes "haze_inv s" and "flush E s = (r, s')"
  shows "if format_refused (hz_config s) then r = Inl UnsupportedDataFormat \<and> s' = s
    else if \<not> recording (hz_epoch s) then r = Inr () \<and> s' = s
    else hz_epoch s' = epoch_init \<and> (\<exists>cs. hz_trace s' = hz_trace s @ cs @ [Compiler ClearCaptured]) \<and>
      (r = Inr () \<or> r \<in> Inl ` flush_errors) \<and>
      (\<exists>sh. hz_alloc s' = (hz_alloc s)\<lparr>shadow_data := sh\<rparr>) \<and>
      hz_host s' = hz_host s \<and> hz_config s' = hz_config s \<and>
      (\<forall>a. a \<notin> al_keys (pending_outputs (hz_epoch s)) \<longrightarrow>
         shadow_data (hz_alloc s') a = shadow_data (hz_alloc s) a)"
proof (cases "format_refused (hz_config s) \<or> \<not> recording (hz_epoch s)")
  case True
  with assms(2) show ?thesis
    by (auto simp: flush_def format_refused_def replay_and_populate_def finalize_locked_def Let_def
        split: if_splits)
next
  case False
  note rec = False [simplified]
  have same: "\<exists>sh. hz_alloc s = (hz_alloc s)\<lparr>shadow_data := sh\<rparr>"
    by (rule exI [of _ "shadow_data (hz_alloc s)"]) simp
  have fl: "finalize_locked E True s = (r, s')" using assms(2) rec by (simp add: flush_form)
  show ?thesis
  proof (cases "nothing_pending (hz_epoch s)")
    case True
    with fl rec have "r = Inr () \<and> s' = clear_state_locked s"
      by (auto simp: finalize_form [OF assms(1)])
    with rec same show ?thesis by auto
  next
    case nonempty: False
    let ?s1 = "s\<lparr>hz_trace := hz_trace s @ output_tags E (hz_epoch s)\<rparr>"
    have m: "do_materialize_locked E True ?s1 = (r, s')"
      using fl rec nonempty by (simp add: finalize_form [OF assms(1)])
    have frame: "hz_epoch s' = epoch_init" "hz_config s' = hz_config s" "hz_host s' = hz_host s"
      using materialize_frame [OF m] rec by simp_all
    have rec1: "recording (hz_epoch ?s1)" using rec by simp
    have "(\<exists>cs. hz_trace s' = hz_trace s @ cs @ [Compiler ClearCaptured]) \<and>
      (r = Inr () \<or> r \<in> Inl ` flush_errors) \<and>
      (\<exists>sh. hz_alloc s' = (hz_alloc s)\<lparr>shadow_data := sh\<rparr>) \<and>
      (\<forall>a. a \<notin> al_keys (pending_outputs (hz_epoch s)) \<longrightarrow>
         shadow_data (hz_alloc s') a = shadow_data (hz_alloc s) a)"
      using m rec1
    proof (cases rule: materialize_cases)
      case (read_back s3 s4)
      from populate_prefix [OF read_back(6)] obtain k where
          k: "r = Inr () \<or> r \<in> Inl ` readback_errors"
          "\<forall>a. shadow_data (hz_alloc s4) a \<noteq> shadow_data (hz_alloc s3) a \<longrightarrow>
             a \<in> fst ` set (take k (pending_outputs (hz_epoch s)))"
          "\<exists>sh. hz_alloc s4 = (hz_alloc s3)\<lparr>shadow_data := sh\<rparr>"
          "\<exists>cs. hz_trace s4 = hz_trace s3 @ cs"
        by auto
      have "fst ` set (take k (pending_outputs (hz_epoch s))) \<subseteq> al_keys (pending_outputs (hz_epoch s))"
        by (auto simp: al_keys_def dest: in_set_takeD)
      with k read_back(5,7) show ?thesis by (auto simp: flush_errors_def)
    qed (use same in \<open>auto simp: flush_errors_def\<close>)
    with rec frame show ?thesis by auto
  qed
qed

theorem flush_always_cleans_witness:
  "hz_epoch (snd (flush sim_env demo_recording)) = epoch_init \<and>
   shadow_data (hz_alloc (snd (flush sim_env demo_recording))) 64 = Some [1, 2]"
proof -
  have nf: "\<not> format_refused (hz_config demo_recording)"
    by (simp add: format_refused_def config_init_def)
  obtain r s' where fl: "flush sim_env demo_recording = (r, s')" by (rule prod.exhaust)
  have "hz_epoch s' = epoch_init \<and> shadow_data (hz_alloc s') 64 = shadow_data demo_alloc 64"
    using flush_always_cleans [OF demo_recording_inv fl] nf by auto
  with fl show ?thesis by simp
qed

text \<open>
  C34. A failed flush leaves old bytes behind. There is a \<open>k\<close>, less than the number of
  pending outputs when there is any, such that the first \<open>k\<close> outputs have new vectors of
  the allocation's length while every other address keeps its shadow: a D2H of an output
  from \<open>k\<close> on answers after the failed flush exactly what it answered before, with success
  where an older value was there.
\<close>

theorem failed_flush_keeps_old_bytes:
  assumes "haze_inv s" and "recording (hz_epoch s)" and "flush E s = (Inl e, s')"
    and "e \<noteq> UnsupportedDataFormat"
  shows "\<exists>k \<le> length (pending_outputs (hz_epoch s)).
    (pending_outputs (hz_epoch s) \<noteq> [] \<longrightarrow> k < length (pending_outputs (hz_epoch s))) \<and>
    (\<forall>a \<in> fst ` set (take k (pending_outputs (hz_epoch s))).
       \<exists>v. shadow_data (hz_alloc s') a = Some v \<and> length v = want_elems (hz_alloc s)) \<and>
    (\<forall>a. a \<notin> fst ` set (take k (pending_outputs (hz_epoch s))) \<longrightarrow>
       shadow_data (hz_alloc s') a = shadow_data (hz_alloc s) a) \<and>
    (\<forall>a \<in> fst ` set (drop k (pending_outputs (hz_epoch s))). \<forall>hm d n.
       copy_to_host hm d a n (hz_alloc s') = copy_to_host hm d a n (hz_alloc s))"
proof -
  let ?outs = "pending_outputs (hz_epoch s)"
  let ?s1 = "s\<lparr>hz_trace := hz_trace s @ output_tags E (hz_epoch s)\<rparr>"
  have nf: "\<not> format_refused (hz_config s)"
    using assms(3,4) by (auto simp: flush_def format_refused_def Let_def split: if_splits)
  have fl: "finalize_locked E True s = (Inl e, s')" using assms(3) nf by (simp add: flush_form)
  have m: "do_materialize_locked E True ?s1 = (Inl e, s')"
    using fl by (auto simp: finalize_form [OF assms(1,2)] split: if_splits)
  have rec1: "recording (hz_epoch ?s1)" using assms(2) by simp
  have dist: "distinct (map fst ?outs)"
    using haze_inv_epoch [OF assms(1)] by (simp add: epoch_inv_def bindings_inv_def)
  have "\<exists>k \<le> length ?outs. (?outs \<noteq> [] \<longrightarrow> k < length ?outs) \<and>
    (\<forall>a \<in> fst ` set (take k ?outs). \<exists>v. shadow_data (hz_alloc s') a = Some v \<and>
       length v = want_elems (hz_alloc s)) \<and>
    (\<forall>a. shadow_data (hz_alloc s') a \<noteq> shadow_data (hz_alloc s) a \<longrightarrow> a \<in> fst ` set (take k ?outs)) \<and>
    (\<exists>sh. hz_alloc s' = (hz_alloc s)\<lparr>shadow_data := sh\<rparr>)"
    using m rec1
  proof (cases rule: materialize_cases)
    case (read_back s3 s4)
    from populate_prefix [OF read_back(6)] read_back(5,7) show ?thesis by auto
  qed (auto intro!: exI [of _ 0] intro: exI [of _ "shadow_data (hz_alloc s)"])
  then obtain k where k: "k \<le> length ?outs" "?outs \<noteq> [] \<longrightarrow> k < length ?outs"
      "\<forall>a \<in> fst ` set (take k ?outs). \<exists>v. shadow_data (hz_alloc s') a = Some v \<and>
         length v = want_elems (hz_alloc s)"
      "\<forall>a. a \<notin> fst ` set (take k ?outs) \<longrightarrow> shadow_data (hz_alloc s') a = shadow_data (hz_alloc s) a"
    and al: "\<exists>sh. hz_alloc s' = (hz_alloc s)\<lparr>shadow_data := sh\<rparr>"
    by blast
  have "copy_to_host hm d a n (hz_alloc s') = copy_to_host hm d a n (hz_alloc s)"
    if "a \<in> fst ` set (drop k ?outs)" for a hm d n
  proof -
    have "distinct (map fst (take k ?outs @ drop k ?outs))" using dist by simp
    then have "set (map fst (take k ?outs)) \<inter> set (map fst (drop k ?outs)) = {}"
      unfolding map_append distinct_append by blast
    with that have "a \<notin> fst ` set (take k ?outs)" by auto
    with k(4) al show ?thesis by (auto simp: copy_to_host_def)
  qed
  with k show ?thesis by blast
qed

text \<open>
  A result computed into the uploaded address 64, on a backend whose replay fails, or whose
  first stop fails.
\<close>

definition overwritten :: "(u64 list, sim_mrp) haze" where
  "overwritten = demo_recording\<lparr>hz_epoch := demo_epoch\<lparr>poly_map := [64 \<mapsto> [4, 1]],
     pending_outputs := [(64, ''haze_out_0'')]\<rparr>\<rparr>"

definition no_replay_env :: "(u64 list, sim_mrp) fh_env" where
  "no_replay_env = sim_env\<lparr>bool_of := \<lambda>h c. c \<noteq> Compiler CompilerReplay\<rparr>"

definition no_stop_env :: "(u64 list, sim_mrp) fh_env" where
  "no_stop_env = sim_env\<lparr>bool_of := \<lambda>h c. c = Compiler CompilerStop \<longrightarrow> Compiler CompilerStop \<in> set h,
     hook_fails := \<lambda>h. Compiler CompilerStop \<notin> set h\<rparr>"

lemma overwritten_simps [simp]:
  "hz_config overwritten = config_init\<lparr>cf_ring_dim := 2, cf_moduli := [97]\<rparr>"
  "hz_alloc overwritten = demo_alloc"
  "pending_outputs (hz_epoch overwritten) = [(64, ''haze_out_0'')]"
  "recording (hz_epoch overwritten)"
  by (simp_all add: overwritten_def)

lemma overwritten_inv: "haze_inv overwritten"
  using demo_inv
  by (simp add: haze_inv_def)
     (simp add: overwritten_def epoch_inv_def groups_inv_def bindings_inv_def demo_epoch_def epoch_init_def)

theorem failed_flush_keeps_old_bytes_witness:
  "fst (flush no_replay_env overwritten) = Inl BackendReplayFailed \<and>
   copy_to_host (\<lambda>_. 0) 4096 64 16 (hz_alloc (snd (flush no_replay_env overwritten))) =
     Some (Inr (), write_host (\<lambda>_. 0) 4096 (vec_bytes [1, 2]))"
proof -
  have r: "fst (flush no_replay_env overwritten) = Inl BackendReplayFailed" by code_simp
  then obtain s' where fl: "flush no_replay_env overwritten = (Inl BackendReplayFailed, s')"
    by (cases "flush no_replay_env overwritten") simp
  have "copy_to_host (\<lambda>_. 0) 4096 64 16 (hz_alloc s') = copy_to_host (\<lambda>_. 0) 4096 64 16 demo_alloc"
    using failed_flush_keeps_old_bytes [OF overwritten_inv _ fl] by auto
  then show ?thesis using r fl by (simp add: copy_to_host_def)
qed

text \<open>
  Writing the program never replays: with outputs pending it tags exactly the pending
  outputs and groups, stops the compiler and clears the captures, succeeds precisely when
  the stop did and no hook error is recorded, and leaves the device memory of the host side
  (liveness, shadows, pool) and the host memory untouched.
\<close>

theorem write_program_trace:
  assumes "haze_inv s" and "recording (hz_epoch s)" and "\<not> nothing_pending (hz_epoch s)"
    and "write_program E s = (r, s')"
  shows "hz_trace s' = hz_trace s @ output_tags E (hz_epoch s) @
      [Compiler CompilerStop, Compiler ClearCaptured] \<and>
    (r = Inr () \<longleftrightarrow>
       bool_of E (hz_trace s @ output_tags E (hz_epoch s)) (Compiler CompilerStop) \<and>
       \<not> hz_hook_had_error s \<and> \<not> hook_fails E (hz_trace s @ output_tags E (hz_epoch s))) \<and>
    hz_alloc s' = hz_alloc s \<and> hz_host s' = hz_host s \<and> hz_epoch s' = epoch_init"
proof -
  let ?s1 = "s\<lparr>hz_trace := hz_trace s @ output_tags E (hz_epoch s)\<rparr>"
  have m: "do_materialize_locked E False ?s1 = (r, s')"
    using assms(3,4) by (simp add: write_program_def materialize_only_def finalize_form [OF assms(1,2)])
  have rec1: "recording (hz_epoch ?s1)" using assms(2) by simp
  from m rec1 show ?thesis
    by (cases rule: materialize_cases) (use materialize_frame [OF m rec1] in simp_all)
qed

theorem write_program_trace_witness:
  "hz_trace (snd (write_program sim_env demo_recording)) =
     [Tag (TagOutput ''haze_out_0'' [4, 1]), Compiler CompilerStop, Compiler ClearCaptured]"
proof -
  obtain r s' where w: "write_program sim_env demo_recording = (r, s')" by (rule prod.exhaust)
  have "\<not> nothing_pending (hz_epoch demo_recording)" by (simp add: nothing_pending_def)
  from write_program_trace [OF demo_recording_inv _ this w] show ?thesis
    by (simp add: w output_tags_def)
qed

text \<open>
  The hook flag outlives a failed stop. After a flush of pending outputs the flag is
  raised exactly when the stop failed and the flag was, or has just been, raised: the early
  return on a failed stop skips the call that takes it.
\<close>

theorem hook_flag_after_flush:
  assumes "haze_inv s" and "recording (hz_epoch s)" and "\<not> nothing_pending (hz_epoch s)"
    and "\<not> format_refused (hz_config s)" and "flush E s = (r, s')"
  shows "hz_hook_had_error s' \<longleftrightarrow>
    \<not> bool_of E (hz_trace s @ output_tags E (hz_epoch s)) (Compiler CompilerStop) \<and>
    (hz_hook_had_error s \<or> hook_fails E (hz_trace s @ output_tags E (hz_epoch s)))"
proof -
  let ?s1 = "s\<lparr>hz_trace := hz_trace s @ output_tags E (hz_epoch s)\<rparr>"
  have m: "do_materialize_locked E True ?s1 = (r, s')"
    using assms(3-5) by (simp add: flush_form finalize_form [OF assms(1,2)])
  have rec1: "recording (hz_epoch ?s1)" using assms(2) by simp
  from m rec1 show ?thesis by (cases rule: materialize_cases) simp_all
qed

theorem hook_flag_after_flush_witness:
  "hz_hook_had_error (snd (flush no_stop_env overwritten))"
proof -
  obtain r s' where w: "flush no_stop_env overwritten = (r, s')" by (rule prod.exhaust)
  have np: "\<not> nothing_pending (hz_epoch overwritten)" by (simp add: nothing_pending_def)
  have nf: "\<not> format_refused (hz_config overwritten)"
    by (simp add: format_refused_def config_init_def)
  have tr: "hz_trace overwritten = []" by (simp add: overwritten_def)
  have "hz_hook_had_error s'"
    using hook_flag_after_flush [OF overwritten_inv _ np nf w]
    by (simp add: tr no_stop_env_def output_tags_def overwritten_def demo_epoch_def epoch_init_def)
  with w show ?thesis by simp
qed

end
