(* ===== verification/Haze_Record_Spec.thy ===== *)
theory Haze_Record_Spec
  imports Haze_Flush_Errors
begin

text \<open>
  What recording does not do: it neither moves the bytes a read-back returns nor notices a
  backend that never came up; and what a copy does with the modulus of its source.
\<close>

section \<open>What recording keeps\<close>

text \<open>
  \<open>s'\<close> keeps the bindings of \<open>s\<close>, the shadows of the addresses bound in \<open>s\<close>, liveness, the
  allocation size and host memory.
\<close>

definition keeps :: "('p, 'm) haze \<Rightarrow> ('p, 'm) haze \<Rightarrow> bool" where
  "keeps s s' \<longleftrightarrow> dom (poly_map (hz_epoch s)) \<subseteq> dom (poly_map (hz_epoch s')) \<and>
     (\<forall>a \<in> dom (poly_map (hz_epoch s)). shadow_data (hz_alloc s') a = shadow_data (hz_alloc s) a) \<and>
     alloc_set (hz_alloc s') = alloc_set (hz_alloc s) \<and>
     poly_bytes (hz_alloc s') = poly_bytes (hz_alloc s) \<and> hz_host s' = hz_host s"

lemma keeps_refl [intro, simp]: "keeps s s"
  by (simp add: keeps_def)

lemma keeps_trans: "keeps s t \<Longrightarrow> keeps t u \<Longrightarrow> keeps s u"
  unfolding keeps_def by (metis (no_types, lifting) subset_iff)

lemma keeps_emit [simp]: "keeps s (fh_emit c t) \<longleftrightarrow> keeps s t"
  by (simp add: keeps_def)

lemma keeps_store: "keeps s t \<Longrightarrow> keeps s (upd_epoch (store_compute_result_locked d p q) t)"
  by (auto simp: keeps_def store_compute_result_locked_def)

lemma keeps_modulus: "keeps s (upd_epoch (\<lambda>ep. ep\<lparr>addr_modulus := f ep\<rparr>) t) \<longleftrightarrow> keeps s t"
  by (simp add: keeps_def)

lemma ensure_initialized_host [frame_simps]:
  "hz_host (snd (ensure_initialized E s)) = hz_host s"
proof -
  have "hz_host (snd (fh_try E cs t)) = hz_host t" for cs t
    by (induction cs arbitrary: t) simp_all
  from this [of "init_calls (hz_config s)" s] show ?thesis
    by (auto simp: ensure_initialized_def Let_def split: prod.splits bool.splits)
qed

lemma open_session_host [frame_simps]: "hz_host (open_session E s) = hz_host s"
  using ensure_initialized_host [of E s]
  by (auto simp: open_session_def ensure_recording_locked_def start_recording_def Let_def
      split: prod.splits)

lemma keeps_session: "keeps s (open_session E s)"
  by (simp add: keeps_def frame_simps open_session_epoch)

lemma extract_others:
  assumes "extract_polynomial_components a rd al = (r, al')" and "b \<noteq> a"
  shows "shadow_data al' b = shadow_data al b"
  using assms by (auto simp: extract_polynomial_components_def Let_def split: if_splits option.splits)

lemma keeps_lookup:
  assumes "lookup_or_create_locked E a s = (r, s')"
  shows "keeps s s'"
proof (cases rule: lookup_cases [of s a E])
  case (bound p)
  with assms show ?thesis by simp
next
  case (fails e al)
  note f = extract_frame [of a "cf_ring_dim (hz_config s)" "hz_alloc s", unfolded fails(2) snd_conv]
  have "shadow_data al b = shadow_data (hz_alloc s) b" if "poly_map (hz_epoch s) b = Some p" for b p
    using extract_others [OF fails(2), of b] that fails(1) by (cases "b = a") auto
  then show ?thesis using assms fails(3) f by (auto simp: keeps_def)
next
  case (creates v al)
  note f = extract_frame [of a "cf_ring_dim (hz_config s)" "hz_alloc s", unfolded creates(2) snd_conv]
  have "shadow_data al b = shadow_data (hz_alloc s) b" if "poly_map (hz_epoch s) b = Some p" for b p
    using extract_others [OF creates(2), of b] that creates(1) by (cases "b = a") auto
  then show ?thesis using assms creates(3) f by (auto simp: keeps_def)
qed

lemma keeps_copied: "keeps s t \<Longrightarrow> keeps s (copied E d a p q t)"
  by (simp add: copied_def Let_def keeps_store keeps_modulus)

lemma keeps_exec_instr:
  assumes "exec_instr E i s = (r, s')"
  shows "keeps s s'"
proof -
  let ?s0 = "open_session E s"
  have k0: "keeps s ?s0" by (rule keeps_session)
  have k1: "keeps s s1" if "lookup_or_create_locked E a ?s0 = (q, s1)" for a q s1
    using keeps_trans [OF k0 keeps_lookup [OF that]] .
  have k2: "keeps s s2" if "lookup_or_create_locked E a ?s0 = (q, s1)"
      "lookup_or_create_locked E b s1 = (q', s2)" for a q s1 b q' s2
    using keeps_trans [OF k1 [OF that(1)] keeps_lookup [OF that(2)]] .
  show ?thesis
  proof (cases i)
    case (ICopy d a n)
    obtain q s1 where l: "lookup_or_create_locked E a ?s0 = (q, s1)" by (rule prod.exhaust)
    with assms k1 [OF l] ICopy show ?thesis
      by (cases q)
         (auto simp: copy_device_to_device_def copy_result_fails copy_result_ok intro!: keeps_copied)
  qed (use assms in \<open>auto simp: binary_pp_op_def binary_ps_op_def unary_pq_op_def unary_pi_op_def
        Let_def fh_poly_def intro!: keeps_store intro: k0 k1 k2
        split: if_splits prod.splits sum.splits\<close>)
qed

lemma keeps_run_instrs: "run_instrs E is s = (r, s') \<Longrightarrow> keeps s s'"
proof (induction "is" arbitrary: s)
  case (Cons i "is")
  obtain q s1 where x: "exec_instr E i s = (q, s1)" by (rule prod.exhaust)
  from Cons.prems Cons.IH [of s1] keeps_trans [OF keeps_exec_instr [OF x], of s']
    keeps_exec_instr [OF x]
  show ?case by (cases q) (auto simp: x)
qed simp

section \<open>Read-backs between flushes\<close>

text \<open>
  C35. Recording is invisible to read-backs. Whatever single-residue program is recorded, and
  whether it succeeds or fails, a D2H of an address that was bound before it (an upload or an
  earlier result) answers exactly as before the program: in particular the D2H of an uploaded
  address that has since been computed into succeeds with the bytes of the upload.
\<close>

theorem d2h_ignores_recorded_work:
  assumes "run_instrs E is s = (r, s')" and "poly_map (hz_epoch s) a \<noteq> None"
  shows "copy_to_host_entry h a n s' =
    map_option (\<lambda>(q, t). (q, s'\<lparr>hz_host := hz_host t\<rparr>)) (copy_to_host_entry h a n s)"
proof -
  have "shadow_data (hz_alloc s') a = shadow_data (hz_alloc s) a"
    and k: "alloc_set (hz_alloc s') = alloc_set (hz_alloc s)"
      "poly_bytes (hz_alloc s') = poly_bytes (hz_alloc s)" "hz_host s' = hz_host s"
    using keeps_run_instrs [OF assms(1)] assms(2) by (auto simp: keeps_def)
  then have "copy_to_host (hz_host s') h a n (hz_alloc s') = copy_to_host (hz_host s) h a n (hz_alloc s)"
    by (simp add: copy_to_host_def)
  then show ?thesis by (auto simp: copy_to_host_entry_def split: option.split)
qed

text \<open>Address 64 is uploaded and tagged, then overwritten by a recorded addition.\<close>

definition uploaded :: "(u64 list, sim_mrp) haze" where
  "uploaded = snd (tag_h2d_input sim_env 64 demo)"

theorem d2h_ignores_recorded_work_witness:
  "fst (run_instrs sim_env [IPP SrAddp 64 64 80 0] uploaded) = Inr () \<and>
   dev_mem (\<lambda>p. p) (snd (run_instrs sim_env [IPP SrAddp 64 64 80 0] uploaded)) 64 = Some [4, 1] \<and>
   (\<exists>t. copy_to_host_entry 4096 64 16 (snd (run_instrs sim_env [IPP SrAddp 64 64 80 0] uploaded)) =
      Some (Inr (), t) \<and> hz_host t = write_host (hz_host uploaded) 4096 (vec_bytes [1, 2]))"
proof -
  let ?is = "[IPP SrAddp 64 64 80 0]"
  obtain r s' where run: "run_instrs sim_env ?is uploaded = (r, s')" by (rule prod.exhaust)
  have b: "poly_map (hz_epoch uploaded) 64 \<noteq> None" by code_simp
  have al: "shadow_data (hz_alloc uploaded) 64 = Some [1, 2]" "64 \<in> alloc_set (hz_alloc uploaded)"
      "poly_bytes (hz_alloc uploaded) = 16"
    by code_simp+
  have "fst (run_instrs sim_env ?is uploaded) = Inr ()"
    and "dev_mem (\<lambda>p. p) (snd (run_instrs sim_env ?is uploaded)) 64 = Some [4, 1]"
    by code_simp+
  moreover have "copy_to_host_entry 4096 64 16 uploaded =
      Some (Inr (), uploaded\<lparr>hz_host := write_host (hz_host uploaded) 4096 (vec_bytes [1, 2])\<rparr>)"
    using al by (simp add: copy_to_host_entry_def copy_to_host_def)
  ultimately show ?thesis
    using d2h_ignores_recorded_work [OF run b, of 4096 16] run by simp
qed

section \<open>A backend that never comes up\<close>

text \<open>The address an instruction writes.\<close>

fun instr_dst :: "sr_instr \<Rightarrow> DevAddr" where
  "instr_dst (IPP f d a b i) = d"
| "instr_dst (IPS f d a x i) = d"
| "instr_dst (IPQ f d a i) = d"
| "instr_dst (IAutomorph d a k) = d"
| "instr_dst (ICopy d a n) = d"

lemma lookup_backend [frame_simps]:
  "hz_backend_initialized (snd (lookup_or_create_locked E a s)) = hz_backend_initialized s"
  by (cases rule: lookup_cases [of s a E]; simp)

lemma session_down:
  assumes "\<forall>h argv. throws E h (Compiler (CompilerInit argv))" and "\<not> hz_backend_initialized s"
  shows "\<not> hz_backend_initialized (open_session E s) \<and>
    recording (hz_epoch (open_session E s)) = recording (hz_epoch s)"
proof -
  have "\<not> hz_backend_initialized (snd (ensure_initialized E s))"
    using assms by (auto simp: ensure_initialized_def init_calls_def Let_def)
  moreover from this have "\<not> hz_backend_initialized (open_session E s)"
    by (auto simp: open_session_def ensure_recording_locked_def is_initialized_def split: prod.splits)
  ultimately show ?thesis by (simp add: open_session_epoch)
qed

lemma store_backend [simp]:
  "recording (store_compute_result_locked d p q ep) = recording ep"
  "known_mrp_groups (store_compute_result_locked d p q ep) = known_mrp_groups ep"
  by (simp_all add: store_compute_result_locked_def)

lemma copied_backend [simp]:
  "hz_backend_initialized (copied E d a p q s) = hz_backend_initialized s"
  "recording (hz_epoch (copied E d a p q s)) = recording (hz_epoch s)"
  by (simp_all add: copied_def Let_def)

lemma exec_instr_down:
  assumes "\<forall>h argv. throws E h (Compiler (CompilerInit argv))" and "\<not> hz_backend_initialized s"
    and "exec_instr E i s = (r, s')"
  shows "\<not> hz_backend_initialized s' \<and> recording (hz_epoch s') = recording (hz_epoch s)"
proof -
  note s0 = session_down [OF assms(1,2)]
  have l: "hz_backend_initialized t' = hz_backend_initialized t \<and>
      recording (hz_epoch t') = recording (hz_epoch t)"
    if "lookup_or_create_locked E a t = (q, t')" for a q t t'
    using lookup_backend [of E a t] lookup_frame(3) [of E a t] that by simp
  show ?thesis
  proof (cases i)
    case (ICopy d a n)
    obtain q s1 where x: "lookup_or_create_locked E a (open_session E s) = (q, s1)"
      by (rule prod.exhaust)
    with assms(3) l [OF x] s0 ICopy show ?thesis
      by (cases q) (auto simp: copy_device_to_device_def copy_result_fails copy_result_ok)
  qed (use assms(3) s0 in \<open>auto simp: binary_pp_op_def binary_ps_op_def unary_pq_op_def
        unary_pi_op_def Let_def fh_poly_def dest!: l split: if_splits prod.splits sum.splits\<close>)
qed

lemma run_instrs_down:
  assumes "\<forall>h argv. throws E h (Compiler (CompilerInit argv))" and "\<not> hz_backend_initialized s"
    and "run_instrs E is s = (r, s')"
  shows "\<not> hz_backend_initialized s' \<and> recording (hz_epoch s') = recording (hz_epoch s)"
  using assms(2,3)
proof (induction "is" arbitrary: s)
  case (Cons i "is")
  obtain q s1 where x: "exec_instr E i s = (q, s1)" by (rule prod.exhaust)
  from exec_instr_down [OF assms(1) Cons.prems(1) x] Cons.prems Cons.IH [of s1] show ?case
    by (cases q) (auto simp: x)
qed simp

lemma emplace_outputs_recording:
  "recording (emplace_output a ep) = recording ep"
  "recording (foldl (\<lambda>e a. emplace_output a e) ep as) = recording ep"
proof -
  show one: "recording (emplace_output a ep) = recording ep" for a and ep :: "'a epoch"
    by (simp add: emplace_output_def)
  show "recording (foldl (\<lambda>e a. emplace_output a e) ep as) = recording ep"
    by (induction as arbitrary: ep) (simp_all add: one)
qed

lemma tag_output_recording:
  assumes "epoch_inv ep"
  shows "recording (snd (tag_output_locked a ep)) = recording ep"
  by (cases rule: groups_inv_rev_cases [OF epoch_invD(1) [OF assms], of a])
     (simp_all add: tag_output_locked_def Let_def emplace_outputs_recording)

lemma keeps_dom:
  "run_instrs E is s = (r, s') \<Longrightarrow> poly_map (hz_epoch s) a \<noteq> None \<Longrightarrow> poly_map (hz_epoch s') a \<noteq> None"
  using keeps_run_instrs [of E "is" s r s'] by (auto simp: keeps_def)

lemma exec_instr_binds:
  assumes "exec_instr E i s = (Inr u, s')"
  shows "poly_map (hz_epoch s') (instr_dst i) \<noteq> None"
proof (cases i)
  case (ICopy d a n)
  obtain q s1 where x: "lookup_or_create_locked E a (open_session E s) = (q, s1)"
    by (rule prod.exhaust)
  with assms ICopy show ?thesis
    by (cases q) (auto simp: copy_device_to_device_def copy_result_fails copy_result_ok copied_def
        store_compute_result_locked_def Let_def)
qed (use assms in \<open>auto simp: binary_pp_op_def binary_ps_op_def unary_pq_op_def unary_pi_op_def
      store_compute_result_locked_def Let_def fh_poly_def split: if_splits prod.splits sum.splits\<close>)

lemma run_instrs_binds:
  assumes "run_instrs E is s = (Inr u, s')" and "i \<in> set is"
  shows "poly_map (hz_epoch s') (instr_dst i) \<noteq> None"
  using assms
proof (induction "is" arbitrary: s)
  case (Cons j "is")
  obtain q s1 where x: "exec_instr E j s = (q, s1)" by (rule prod.exhaust)
  with Cons.prems(1) obtain v where q: "q = Inr v" and rest: "run_instrs E is s1 = (Inr u, s')"
    by (cases q) simp_all
  show ?case
  proof (cases "i = j")
    case True
    with keeps_dom [OF rest] exec_instr_binds [OF x [unfolded q]] show ?thesis by simp
  next
    case False
    with Cons.IH [OF rest] Cons.prems(2) show ?thesis by simp
  qed
qed simp

text \<open>
  C37. A backend that never comes up is not reported. Let compiler initialisation always throw,
  and the data format be one the flush does not refuse. From a configured state with
  well-sized shadows, no backend and no recording, and for any fhetch that respects the
  documented meaning of its operations, a program of single-residue operations has the outcome
  it has with a working backend: it succeeds exactly when its eager execution on device memory
  does, and the bindings then denote the same memory. After a success a tag of any address the
  program wrote succeeds as well, and so does the flush that follows, although it makes no
  call to the compiler and changes no shadow.
\<close>

theorem failed_init_is_silent:
  assumes "\<forall>h argv. throws E h (Compiler (CompilerInit argv))"
    and "fh_sound E val D" and "ready s" and "\<forall>i \<in> set is. instr_ok (hz_config s) i"
    and "\<not> hz_backend_initialized s" and "\<not> recording (hz_epoch s)"
    and "\<not> format_refused (hz_config s)" and "run_instrs E is s = (r, s')"
  shows "eager_run D (hz_config s) is (dev_mem val s) =
      (case r of Inr u \<Rightarrow> Some (dev_mem val s') | Inl e \<Rightarrow> None) \<and>
    (r = Inr () \<longrightarrow> (\<forall>a \<in> instr_dst ` set is. \<exists>s2. tag_output a s' = (Inr (), s2) \<and>
       flush E s2 = (Inr (), s2) \<and> hz_alloc s2 = hz_alloc s' \<and> hz_trace s2 = hz_trace s'))"
proof (intro conjI impI ballI)
  note sem = run_instrs_sem [OF assms(2-4,8)]
  from sem show "eager_run D (hz_config s) is (dev_mem val s) =
      (case r of Inr u \<Rightarrow> Some (dev_mem val s') | Inl e \<Rightarrow> None)" by blast
  fix a assume r: "r = Inr ()" and a: "a \<in> instr_dst ` set is"
  from sem r have ready: "ready s'" and cfg: "hz_config s' = hz_config s" by simp_all
  then have inv: "epoch_inv (hz_epoch s')" using haze_inv_epoch by (auto simp: ready_def)
  from a run_instrs_binds [OF assms(8) [unfolded r]] obtain p where "poly_map (hz_epoch s') a = Some p"
    by blast
  from tag_output_eq(2) [OF inv this] obtain ep where ep: "tag_output_locked a (hz_epoch s') = (Inr (), ep)"
    by blast
  have "\<not> recording (hz_epoch s')" using run_instrs_down [OF assms(1,5,8)] assms(6) by simp
  with tag_output_recording [OF inv, of a] ep have rec: "\<not> recording ep" by simp
  let ?s2 = "upd_epoch (\<lambda>_. ep) s'"
  have "flush E ?s2 = (Inr (), ?s2)"
    using rec assms(7) cfg
    by (auto simp: flush_def format_refused_def replay_and_populate_def finalize_locked_def Let_def)
  with ep show "\<exists>s2. tag_output a s' = (Inr (), s2) \<and> flush E s2 = (Inr (), s2) \<and>
      hz_alloc s2 = hz_alloc s' \<and> hz_trace s2 = hz_trace s'"
    by (intro exI [of _ ?s2]) (simp add: tag_output_def)
qed

fun is_compiler_init :: "('p, 'm) fh_call \<Rightarrow> bool" where
  "is_compiler_init (Compiler (CompilerInit argv)) = True"
| "is_compiler_init _ = False"

definition down_env :: "(u64 list, sim_mrp) fh_env" where
  "down_env = sim_env\<lparr>throws := \<lambda>h c. is_compiler_init c\<rparr>"

definition down_run :: "unit expected \<times> (u64 list, sim_mrp) haze" where
  "down_run = run_instrs down_env [IPP SrAddp 96 64 80 0] demo"

theorem failed_init_is_silent_witness:
  "fst down_run = Inr () \<and> fst (tag_output 96 (snd down_run)) = Inr () \<and>
   fst (flush down_env (snd (tag_output 96 (snd down_run)))) = Inr ()"
proof -
  have th: "\<forall>h argv. throws down_env h (Compiler (CompilerInit argv))" by (simp add: down_env_def)
  have sound: "fh_sound down_env (\<lambda>p. p) sim_den"
    using sim_sound by (simp add: fh_sound_def down_env_def)
  have nf: "\<not> format_refused (hz_config demo)" by (simp add: format_refused_def config_init_def)
  have run: "run_instrs down_env [IPP SrAddp 96 64 80 0] demo = (fst down_run, snd down_run)"
    by (simp add: down_run_def del: run_instrs.simps)
  have ok: "fst down_run = Inr ()" by code_simp
  moreover have "\<not> recording (hz_epoch demo)" by (simp add: epoch_init_def)
  ultimately show ?thesis
    using failed_init_is_silent [OF th sound demo_ready _ _ _ nf run] by auto
qed

section \<open>A flag left over\<close>

lemma open_session_flag: "hz_hook_had_error (open_session E s) = hz_hook_had_error s"
proof -
  have "hz_hook_had_error (snd (fh_try E cs t)) = hz_hook_had_error t" for cs and t :: "('a, 'b) haze"
    by (induction cs arbitrary: t) simp_all
  from this [of "init_calls (hz_config s)" s] show ?thesis
    by (auto simp: open_session_def ensure_initialized_def ensure_recording_locked_def
        start_recording_def Let_def split: prod.splits bool.splits)
qed

text \<open>An initialised backend records; recording keeps the bridge's flag.\<close>

lemma open_session_up:
  assumes "hz_backend_initialized s"
  shows "hz_backend_initialized (open_session E s) \<and> recording (hz_epoch (open_session E s)) \<and>
    hz_hook_had_error (open_session E s) = hz_hook_had_error s"
  using assms open_session_flag [of E s]
  by (auto simp: open_session_def ensure_initialized_def ensure_recording_locked_def
      is_initialized_def start_recording_def Let_def split: prod.splits bool.splits)

lemma lookup_flag [frame_simps]:
  "hz_hook_had_error (snd (lookup_or_create_locked E a s)) = hz_hook_had_error s"
  by (cases rule: lookup_cases [of s a E]; simp add: made_input_def)

lemma copied_flag [simp]: "hz_hook_had_error (copied E d a p q s) = hz_hook_had_error s"
  by (simp add: copied_def Let_def)

lemma exec_instr_up:
  assumes "hz_backend_initialized s" and "exec_instr E i s = (Inr u, s')"
  shows "hz_backend_initialized s' \<and> recording (hz_epoch s') \<and> hz_hook_had_error s' = hz_hook_had_error s"
proof -
  note s0 = open_session_up [OF assms(1), of E]
  have l: "hz_backend_initialized t' = hz_backend_initialized t \<and>
      recording (hz_epoch t') = recording (hz_epoch t) \<and> hz_hook_had_error t' = hz_hook_had_error t"
    if "lookup_or_create_locked E a t = (q, t')" for a q t t'
    using lookup_backend [of E a t] lookup_frame(3) [of E a t] lookup_flag [of E a t] that by simp
  show ?thesis
  proof (cases i)
    case (ICopy d a n)
    obtain q s1 where x: "lookup_or_create_locked E a (open_session E s) = (q, s1)"
      by (rule prod.exhaust)
    with assms(2) l [OF x] s0 ICopy show ?thesis
      by (cases q) (auto simp: copy_device_to_device_def copy_result_fails copy_result_ok)
  qed (use assms(2) s0 in \<open>auto simp: binary_pp_op_def binary_ps_op_def unary_pq_op_def
        unary_pi_op_def Let_def fh_poly_def dest!: l split: if_splits prod.splits sum.splits\<close>)
qed

lemma run_instrs_up:
  assumes "run_instrs E is s = (Inr u, s')" and "hz_backend_initialized s" and "is \<noteq> []"
  shows "recording (hz_epoch s') \<and> hz_hook_had_error s' = hz_hook_had_error s"
  using assms
proof (induction "is" arbitrary: s)
  case (Cons i "is")
  obtain q s1 where x: "exec_instr E i s = (q, s1)" by (rule prod.exhaust)
  with Cons.prems(1) obtain v where q: "q = Inr v" and rest: "run_instrs E is s1 = (Inr u, s')"
    by (cases q) simp_all
  from exec_instr_up [OF Cons.prems(2) x [unfolded q]] rest Cons.IH [OF rest] show ?case
    by (cases "is = []") auto
qed simp

lemma run_instrs_config:
  assumes "run_instrs E is s = (r, s')"
  shows "hz_config s' = hz_config s"
  using assms
proof (induction "is" arbitrary: s)
  case (Cons i "is")
  obtain q s1 where x: "exec_instr E i s = (q, s1)" by (rule prod.exhaust)
  have l: "hz_config t' = hz_config t" if "lookup_or_create_locked E a t = (q, t')" for a q t t'
    using lookup_frame [of E a t] that by simp
  have "hz_config s1 = hz_config s"
  proof (cases i)
    case (ICopy d a n)
    obtain v s2 where y: "lookup_or_create_locked E a (open_session E s) = (v, s2)"
      by (rule prod.exhaust)
    with x l [OF y] ICopy show ?thesis
      by (cases v) (auto simp: copy_device_to_device_def copy_result_fails copy_result_ok copied_def
          Let_def frame_simps)
  qed (use x in \<open>auto simp: binary_pp_op_def binary_ps_op_def unary_pq_op_def unary_pi_op_def Let_def
        fh_poly_def frame_simps dest!: l split: if_splits prod.splits sum.splits\<close>)
  with Cons.IH [of s1] Cons.prems x show ?case by (cases q) simp_all
qed simp

lemma haze_inv_run_instrs:
  assumes "haze_inv s" and "run_instrs E is s = (r, s')"
  shows "haze_inv s'"
  using assms
proof (induction "is" arbitrary: s)
  case (Cons i "is")
  obtain q s1 where x: "exec_instr E i s = (q, s1)" by (rule prod.exhaust)
  have "haze_inv (snd (exec_instr E i s))"
    by (cases i) (simp_all add: Cons.prems(1) haze_inv_binary_pp haze_inv_binary_ps haze_inv_unary_pq haze_inv_unary_pi haze_inv_d2d)
  with x have "haze_inv s1" by simp
  with Cons.IH [of s1] Cons.prems x show ?case by (cases q) simp_all
qed simp

lemma tagged_pending:
  assumes "haze_inv s" and "tag_output a s = (Inr (), s')"
  shows "\<not> nothing_pending (hz_epoch s') \<and> recording (hz_epoch s') = recording (hz_epoch s) \<and>
    hz_config s' = hz_config s \<and> hz_hook_had_error s' = hz_hook_had_error s"
proof -
  note inv = haze_inv_epoch [OF assms(1)]
  obtain ep where ep: "tag_output_locked a (hz_epoch s) = (Inr (), ep)" and s': "s' = upd_epoch (\<lambda>_. ep) s"
    using assms(2) by (auto simp: tag_output_def split: prod.splits)
  from ep obtain p where p: "poly_map (hz_epoch s) a = Some p"
    by (auto simp: tag_output_locked_def split: if_splits)
  note eq = tag_output_eq [OF inv p]
  have "a \<in> al_keys (pending_outputs (emplace_outputs (tag_members (hz_epoch s) a) (hz_epoch s)))"
    using eq(1) by simp
  with eq(2) ep have "pending_outputs ep \<noteq> []" by (auto simp: al_keys_def)
  with tag_output_recording [OF inv, of a] ep s' show ?thesis by (simp add: nothing_pending_def)
qed

text \<open>
  C38. A hook failure of one epoch fails the flush of the next. Let the flush of a recorded epoch
  (invariant, initialised backend, data format not refused) find outputs pending, and let the
  stop fail and the bridge's hook fail too. It reports the stop, and keeps the hook's flag for
  later: after any further program of at least one single-residue operation that succeeds, and
  a tag that succeeds, the next flush, whose stop succeeds, reports \<open>BridgeHookFailed\<close> and
  populates nothing, whether or not the hook of that second epoch failed.
\<close>

theorem stale_hook_flag_fails_next_flush:
  assumes "haze_inv s" and "recording (hz_epoch s)" and "hz_backend_initialized s"
    and "\<not> nothing_pending (hz_epoch s)" and "\<not> format_refused (hz_config s)"
    and tr: "tr = hz_trace s @ output_tags E (hz_epoch s)"
    and "\<not> bool_of E tr (Compiler CompilerStop)" and "hook_fails E tr"
    and first: "flush E s = (r1, s1)"
    and prog: "run_instrs E (i # is) s1 = (Inr (), s2)" and tag: "tag_output a s2 = (Inr (), s3)"
    and "bool_of E (hz_trace s3 @ output_tags E (hz_epoch s3)) (Compiler CompilerStop)"
  shows "r1 = Inl BackendReplayFailed \<and> fst (flush E s3) = Inl BridgeHookFailed \<and>
    hz_alloc (snd (flush E s3)) = hz_alloc s3"
proof -
  let ?t = "s\<lparr>hz_trace := tr\<rparr>"
  have "do_materialize_locked E True ?t = (r1, s1)"
    using assms(4,5) first by (simp add: flush_form finalize_form [OF assms(1,2)] tr)
  then have m: "r1 = Inl BackendReplayFailed \<and> s1 = clear_state_locked
      ((fh_emit (Compiler CompilerStop) ?t)\<lparr>hz_hook_had_error := True\<rparr>)"
    using assms(2,7,8) by (simp add: do_materialize_locked_def stop_epoch_def fh_bool_def)
  then have s1: "hz_hook_had_error s1" "hz_backend_initialized s1" "hz_config s1 = hz_config s"
    using assms(3) by (simp_all add: clear_state_locked_def)
  have "haze_inv s1" using haze_inv_flush [OF assms(1), of E] first by simp
  from haze_inv_run_instrs [OF this prog] have inv2: "haze_inv s2" .
  have s2: "recording (hz_epoch s2)" "hz_hook_had_error s2"
    using run_instrs_up [OF prog s1(2)] s1(1) by simp_all
  note t3 = tagged_pending [OF inv2 tag]
  have inv3: "haze_inv s3" using haze_inv_tag_output [OF inv2, of a] tag by simp
  have "hz_config s2 = hz_config s1" by (rule run_instrs_config [OF prog])
  then have nf3: "\<not> format_refused (hz_config s3)" using t3 s1(3) assms(5) by simp
  obtain r4 s4 where f: "flush E s3 = (r4, s4)" by (rule prod.exhaust)
  have m3: "do_materialize_locked E True
      (s3\<lparr>hz_trace := hz_trace s3 @ output_tags E (hz_epoch s3)\<rparr>) = (r4, s4)"
    using f nf3 t3 s2 by (simp add: flush_form finalize_form [OF inv3])
  have "r4 = Inl BridgeHookFailed \<and> hz_alloc s4 = hz_alloc s3"
    by (cases rule: materialize_cases [OF m3]) (use t3 s2 assms(12) in simp_all)
  with m f show ?thesis by simp
qed

text \<open>A first stop that fails with the hook, then a second epoch.\<close>

definition started :: "(u64 list, sim_mrp) haze" where
  "started = overwritten\<lparr>hz_backend_initialized := True\<rparr>"

definition second_run :: "(u64 list, sim_mrp) haze" where
  "second_run = snd (run_instrs no_stop_env [IPP SrAddp 96 64 80 0] (snd (flush no_stop_env started)))"

definition second_epoch :: "(u64 list, sim_mrp) haze" where
  "second_epoch = snd (tag_output 96 second_run)"

theorem stale_hook_flag_fails_next_flush_witness:
  "fst (flush no_stop_env second_epoch) = Inl BridgeHookFailed \<and>
   \<not> hook_fails no_stop_env (hz_trace second_epoch @ output_tags no_stop_env (hz_epoch second_epoch))"
proof -
  let ?E = no_stop_env
  have np: "\<not> nothing_pending (hz_epoch started)"
    by (simp add: nothing_pending_def started_def)
  have nf: "\<not> format_refused (hz_config started)"
    by (simp add: format_refused_def config_init_def started_def)
  have inv: "haze_inv started" using overwritten_inv by (simp add: haze_inv_def started_def)
  have first: "recording (hz_epoch started)" "hz_backend_initialized started"
    "\<not> bool_of ?E (hz_trace started @ output_tags ?E (hz_epoch started)) (Compiler CompilerStop)"
    "hook_fails ?E (hz_trace started @ output_tags ?E (hz_epoch started))"
    by code_simp+
  have second: "fst (run_instrs ?E [IPP SrAddp 96 64 80 0] (snd (flush ?E started))) = Inr ()"
    "fst (tag_output 96 second_run) = Inr ()"
    "bool_of ?E (hz_trace second_epoch @ output_tags ?E (hz_epoch second_epoch)) (Compiler CompilerStop)"
    "\<not> hook_fails ?E (hz_trace second_epoch @ output_tags ?E (hz_epoch second_epoch))"
    by code_simp+
  obtain r1 s1 where f: "flush ?E started = (r1, s1)" by (rule prod.exhaust)
  have run: "run_instrs ?E [IPP SrAddp 96 64 80 0] s1 = (Inr (), second_run)"
    using second(1) by (simp add: f second_run_def prod_eq_iff del: run_instrs.simps)
  have tag: "tag_output 96 second_run = (Inr (), second_epoch)"
    using second(2) by (simp add: second_epoch_def prod_eq_iff)
  show ?thesis
    using stale_hook_flag_fails_next_flush [OF inv first(1,2) np nf refl first(3,4) f run tag second(3)]
      second(4) by blast
qed

section \<open>Moduli\<close>

text \<open>The modulus an instruction records for its destination, given those recorded before.\<close>

fun result_modulus :: "config \<Rightarrow> sr_instr \<Rightarrow> (DevAddr \<Rightarrow> u64) \<Rightarrow> u64" where
  "result_modulus c (IPP f d a b i) mo = cfg_modulus i c"
| "result_modulus c (IPS f d a x i) mo = cfg_modulus i c"
| "result_modulus c (IPQ f d a i) mo = cfg_modulus i c"
| "result_modulus c (IAutomorph d a k) mo = mo a"
| "result_modulus c (ICopy d a n) mo = mo a"

definition recorded :: "('p, 'm) haze \<Rightarrow> DevAddr \<Rightarrow> u64" where
  "recorded s a = recorded_modulus_locked a (hz_epoch s)"

lemma recorded_emit [simp]: "recorded (fh_emit c s) = recorded s"
  by (simp add: recorded_def fun_eq_iff)

lemma recorded_store:
  "recorded (upd_epoch (store_compute_result_locked d p q) s) = (recorded s)(d := q)"
  by (auto simp: recorded_def recorded_modulus_locked_def store_compute_result_locked_def fun_eq_iff)

lemma recorded_bind:
  "recorded (upd_epoch (\<lambda>ep. ep\<lparr>addr_modulus := (addr_modulus ep)(a \<mapsto> q)\<rparr>) s) = (recorded s)(a := q)"
  by (auto simp: recorded_def recorded_modulus_locked_def fun_eq_iff)

lemma recorded_session [simp]: "recorded (open_session E s) = recorded s"
  by (simp add: recorded_def recorded_modulus_locked_def open_session_epoch fun_eq_iff)

lemma recorded_lookup:
  "lookup_or_create_locked E a s = (r, s') \<Longrightarrow> recorded s' = recorded s \<and> hz_config s' = hz_config s"
  using lookup_frame(1,6) [of E a s] by (simp add: recorded_def recorded_modulus_locked_def fun_eq_iff)

lemma recorded_copied:
  "recorded (copied E d a p (recorded s a) s) = (recorded s)(d := recorded s a)"
  by (simp add: copied_def Let_def recorded_store recorded_bind)

text \<open>
  C26. The modulus follows the value. After a successful operation the modulus recorded for
  the destination is the configured one for arithmetic and transforms, and the one recorded
  for the source for automorphisms and device-to-device copies; no other address changes its
  recorded modulus, although a copy writes the source's entry again.
\<close>

theorem modulus_follows_value:
  assumes "exec_instr E i s = (Inr (), s')"
  shows "recorded s' =
    (recorded s)(instr_dst i := result_modulus (hz_config s) i (recorded s))"
proof -
  have c0: "hz_config (open_session E s) = hz_config s" by (simp add: frame_simps)
  show ?thesis
  proof (cases i)
    case (IAutomorph d a k)
    obtain q s1 where l: "lookup_or_create_locked E a (open_session E s) = (q, s1)"
      by (rule prod.exhaust)
    from recorded_lookup [OF l] assms show ?thesis
      by (auto simp: IAutomorph unary_pi_op_def Let_def l fh_poly_def recorded_store
          simp flip: recorded_def split: sum.splits if_splits)
  next
    case (ICopy d a n)
    obtain q s1 where l: "lookup_or_create_locked E a (open_session E s) = (q, s1)"
      by (rule prod.exhaust)
    from assms l obtain p where p: "q = Inr p"
      by (cases q) (auto simp: ICopy copy_device_to_device_def copy_result_fails)
    have "s' = copied E d a p (recorded s1 a) s1"
      using assms l p by (simp add: ICopy copy_device_to_device_def copy_result_ok recorded_def)
    with recorded_lookup [OF l] recorded_copied [of E d a p s1] show ?thesis
      by (simp add: ICopy)
  qed (use assms c0 in \<open>auto simp: binary_pp_op_def binary_ps_op_def unary_pq_op_def Let_def
        fh_poly_def recorded_store dest!: recorded_lookup split: if_splits prod.splits sum.splits\<close>)
qed

theorem modulus_follows_value_witness:
  "recorded (snd (exec_instr sim_env (ICopy 64 96 16)
     (snd (exec_instr sim_env (IPP SrAddp 96 64 80 0) demo)))) 64 = 97"
proof -
  let ?s1 = "snd (exec_instr sim_env (IPP SrAddp 96 64 80 0) demo)"
  have ok: "fst (exec_instr sim_env (ICopy 64 96 16) ?s1) = Inr ()" by code_simp
  then obtain s2 where r: "exec_instr sim_env (ICopy 64 96 16) ?s1 = (Inr (), s2)"
    by (cases "exec_instr sim_env (ICopy 64 96 16) ?s1") (simp del: exec_instr.simps)
  have "recorded ?s1 96 = 97" unfolding recorded_def by code_simp
  with modulus_follows_value [OF r] r show ?thesis by (simp del: exec_instr.simps)
qed

text \<open>
  An upload binds the new bytes and untags the address, but keeps the modulus recorded
  for its previous value: a later copy or automorphism of the upload binds that old modulus.
\<close>

theorem upload_keeps_recorded_modulus:
  assumes "tag_h2d_input E a s = (Inr (), s')"
  shows "recorded s' = recorded s \<and> a \<in> input_addrs (hz_epoch s') \<and>
    a \<notin> al_keys (pending_outputs (hz_epoch s')) \<and>
    (\<exists>v. read_polynomial_components a (cf_ring_dim (hz_config s)) (hz_alloc s) = Inr v \<and>
       poly_map (hz_epoch s') a = Some (input_poly E v (open_session E s)))"
proof -
  let ?s0 = "open_session E s"
  have c0: "hz_config ?s0 = hz_config s" "hz_alloc ?s0 = hz_alloc s" by (simp_all add: frame_simps)
  show ?thesis
  proof (cases "read_polynomial_components a (cf_ring_dim (hz_config ?s0)) (hz_alloc ?s0)")
    case (Inl e)
    with assms show ?thesis by (simp add: tag_h2d_input_def tag_h2d_fails)
  next
    case (Inr v)
    have "recorded (upd_epoch (h2d_bind a p) (made_input E v ?s0)) = recorded s" for p
      by (simp add: recorded_def recorded_modulus_locked_def h2d_bind_def open_session_epoch
          fun_eq_iff)
    with assms Inr c0 show ?thesis
      by (auto simp: tag_h2d_input_def tag_h2d_ok h2d_bind_def)
  qed
qed

theorem upload_keeps_recorded_modulus_witness:
  "recorded (snd (tag_h2d_input sim_env 64
     (snd (exec_instr sim_env (IPP SrAddp 64 64 80 0) uploaded)))) 64 = 97"
proof -
  let ?s1 = "snd (exec_instr sim_env (IPP SrAddp 64 64 80 0) uploaded)"
  have "fst (tag_h2d_input sim_env 64 ?s1) = Inr ()" by code_simp
  then obtain s2 where r: "tag_h2d_input sim_env 64 ?s1 = (Inr (), s2)"
    by (cases "tag_h2d_input sim_env 64 ?s1") (simp del: exec_instr.simps)
  have "recorded ?s1 64 = 97" unfolding recorded_def by code_simp
  with upload_keeps_recorded_modulus [OF r] r show ?thesis by (simp del: exec_instr.simps)
qed

end
