(* ===== verification/Haze_Group_Spec.thy ===== *)
theory Haze_Group_Spec
  imports Haze_System Haze_Simulator
begin

text \<open>
  Who owns an address: registering a group takes its addresses from every other group, and
  freeing an address removes it from every table.
\<close>

section \<open>Registration\<close>

lemma group_of_unique:
  assumes "groups_inv ep" and "known_mrp_groups ep n = Some g" and "known_mrp_groups ep m = Some h"
    and "n \<noteq> m"
  shows "set (mg_addrs g) \<inter> set (mg_addrs h) = {}"
  using groups_inv_member [OF assms(1,2)] groups_inv_member [OF assms(1,3)] assms(4) by fastforce

lemma conflicts_groups:
  assumes "groups_inv ep" and "known_mrp_groups ep n = Some g"
  shows "n \<in> conflicts name addrs ep \<longleftrightarrow> n \<noteq> name \<and> set (mg_addrs g) \<inter> set addrs \<noteq> {}"
proof -
  have "addr_to_mrp_groups ep a = Some [n] \<longleftrightarrow> a \<in> set (mg_addrs g)" for a
    using groups_inv_rev [OF assms(1), of a "[n]"] assms(2) by auto
  then show ?thesis by (auto simp: conflicts_def)
qed

text \<open>
  C19. Registration is latest-write-wins. In a consistent epoch, registering equally many
  addresses and moduli under a name succeeds; afterwards the name stands for exactly these
  addresses and moduli, each of the addresses belongs to that group alone, every other group
  that shared an address with it is gone and every other group that shared none is intact,
  the bindings are untouched, and if the name had been tagged for output with other members
  the new members are pending outputs.
\<close>

theorem register_latest_wins:
  assumes "epoch_inv ep" and "length addrs = length moduli"
  shows "case register_mrp_output_group_locked addrs moduli name ep of (r, ep') \<Rightarrow>
    r = Inr () \<and> known_mrp_groups ep' name = Some \<lparr>mg_addrs = addrs, mg_moduli = moduli\<rparr> \<and>
    (\<forall>a \<in> set addrs. addr_to_mrp_groups ep' a = Some [name]) \<and>
    (\<forall>n. n \<noteq> name \<longrightarrow> known_mrp_groups ep' n =
       (case known_mrp_groups ep n of None \<Rightarrow> None
        | Some g \<Rightarrow> if set (mg_addrs g) \<inter> set addrs = {} then Some g else None)) \<and>
    poly_map ep' = poly_map ep \<and>
    (name \<in> set (pending_mrp_groups ep) \<and> ep' \<noteq> ep \<longrightarrow>
       set addrs \<subseteq> al_keys (pending_outputs ep'))"
proof -
  note g = epoch_invD(1) [OF assms(1)]
  note reg = register_cases [OF g assms(2), of name]
  show ?thesis
  proof (cases "same_group addrs moduli name ep")
    case True
    then have k: "known_mrp_groups ep name = Some \<lparr>mg_addrs = addrs, mg_moduli = moduli\<rparr>"
      by (simp add: same_group_def)
    have "addr_to_mrp_groups ep a = Some [name]" if "a \<in> set addrs" for a
      using groups_inv_rev [OF g, of a "[name]"] k that by auto
    moreover have "set (mg_addrs h) \<inter> set addrs = {}"
      if "known_mrp_groups ep n = Some h" "n \<noteq> name" for n h
      using group_of_unique [OF g that(1) k that(2)] by simp
    ultimately show ?thesis using reg True k by (auto split: option.split)
  next
    case False
    let ?ep2 = "install_group addrs moduli name ep"
    have "known_mrp_groups ?ep2 n = (case known_mrp_groups ep n of None \<Rightarrow> None
        | Some g \<Rightarrow> if set (mg_addrs g) \<inter> set addrs = {} then Some g else None)" if "n \<noteq> name" for n
    proof (cases "known_mrp_groups ep n")
      case (Some h)
      with that conflicts_groups [OF g Some, of name addrs] show ?thesis
        by (auto simp: install_group_def Let_def)
    qed (use that in \<open>simp add: install_group_def Let_def\<close>)
    then show ?thesis using reg False
      by (simp add: Let_def) (simp add: install_group_def Let_def)
  qed
qed

theorem register_latest_wins_witness:
  "known_mrp_groups (snd (register_mrp_output_group_locked [16, 32] [5, 7] ''b''
     (snd (register_mrp_output_group_locked [8, 16] [5, 7] ''a''
       (epoch_init\<lparr>poly_map := [8 \<mapsto> (), 16 \<mapsto> (), 32 \<mapsto> ()]\<rparr>))))) ''a'' = None"
proof -
  let ?ep = "epoch_init\<lparr>poly_map := [8 \<mapsto> (), 16 \<mapsto> (), 32 \<mapsto> ()]\<rparr> :: unit epoch"
  let ?ep1 = "snd (register_mrp_output_group_locked [8, 16] [5, 7] ''a'' ?ep)"
  have "epoch_inv ?ep"
    by (simp add: epoch_inv_def groups_inv_def bindings_inv_def epoch_init_def)
  then have inv1: "epoch_inv ?ep1" by (rule epoch_inv_register) simp_all
  have a: "known_mrp_groups ?ep1 ''a'' = Some \<lparr>mg_addrs = [8, 16], mg_moduli = [5, 7]\<rparr>"
    using register_latest_wins [OF \<open>epoch_inv ?ep\<close>, of "[8, 16]" "[5, 7]" "''a''"] by auto
  show ?thesis
    using register_latest_wins [OF inv1, of "[16, 32]" "[5, 7]" "''b''"] a
    by (auto split: prod.splits)
qed

section \<open>Freeing\<close>

text \<open>
  C25. A freed address leaves no trace. Whatever hazeFree of a non-null pointer returns, in the
  state it leaves the address is not live, has no shadow, no binding, no output tag, no
  modulus, is no input, and belongs to no group; every group it was not part of, and every
  other binding and shadow, is as before.
\<close>

theorem free_forgets_everything:
  assumes "haze_inv s" and "p \<noteq> 0" and "hazeFree p s = (e, s')"
  shows "let a = to_dev_addr p; ep = hz_epoch s; ep' = hz_epoch s' in
    a \<notin> alloc_set (hz_alloc s') \<and> shadow_data (hz_alloc s') = (shadow_data (hz_alloc s))(a := None) \<and>
    poly_map ep' = (poly_map ep)(a := None) \<and> pending_outputs ep' = al_erase a (pending_outputs ep) \<and>
    addr_modulus ep' a = None \<and> a \<notin> input_addrs ep' \<and> addr_to_mrp_groups ep' a = None \<and>
    known_mrp_groups ep' = (\<lambda>n. case known_mrp_groups ep n of None \<Rightarrow> None
      | Some g \<Rightarrow> if a \<in> set (mg_addrs g) then None else Some g)"
proof -
  let ?a = "to_dev_addr p"
  note g = epoch_invD(1) [OF haze_inv_epoch [OF assms(1)]]
  have "known_mrp_groups (drop_groups {n. addr_to_mrp_groups (hz_epoch s) ?a = Some [n]} (hz_epoch s)) n =
      (case known_mrp_groups (hz_epoch s) n of None \<Rightarrow> None
       | Some g \<Rightarrow> if ?a \<in> set (mg_addrs g) then None else Some g)" for n
  proof (cases "known_mrp_groups (hz_epoch s) n")
    case (Some h)
    then have "addr_to_mrp_groups (hz_epoch s) ?a = Some [n] \<longleftrightarrow> ?a \<in> set (mg_addrs h)"
      using groups_inv_rev [OF g, of ?a "[n]"] by auto
    with Some show ?thesis by simp
  qed simp
  then have ep: "known_mrp_groups (invalidate ?a (hz_epoch s)) = (\<lambda>n. case known_mrp_groups (hz_epoch s) n of
        None \<Rightarrow> None | Some g \<Rightarrow> if ?a \<in> set (mg_addrs g) then None else Some g)"
    by (simp add: invalidate_drop [OF g] forget_addr_def fun_eq_iff)
  have rev: "addr_to_mrp_groups (invalidate ?a (hz_epoch s)) ?a = None"
    by (cases rule: groups_inv_rev_cases [OF g, of ?a]) (auto simp: invalidate_drop [OF g] forget_addr_def)
  have al: "?a \<notin> alloc_set (hz_alloc s') \<and>
      shadow_data (hz_alloc s') = (shadow_data (hz_alloc s))(?a := None) \<and>
      hz_epoch s' = invalidate ?a (hz_epoch s)"
  proof (cases "?a \<in> alloc_set (hz_alloc s)")
    case False
    then have "shadow_data (hz_alloc s) ?a = None"
      using haze_inv_alloc_inv [OF assms(1)] by (auto simp: alloc_inv_def)
    with False assms(2,3) show ?thesis
      by (auto simp: hazeFree_def api_alloc_def alloc_free_def free_one_locked_def to_dev_addr_def
          api_result_def fun_eq_iff split: prod.splits)
  qed (use assms(2,3) in \<open>auto simp: hazeFree_def api_alloc_def alloc_free_def free_one_locked_def
        to_dev_addr_def api_result_def split: prod.splits\<close>)
  with ep rev show ?thesis
    by (simp add: Let_def) (simp add: invalidate_drop [OF g] forget_addr_def)
qed

theorem free_forgets_everything_witness:
  "poly_map (hz_epoch (snd (hazeFree 96 demo_recording))) 96 = None \<and>
   96 \<notin> alloc_set (hz_alloc (snd (hazeFree 96 demo_recording)))"
proof -
  obtain e s' where f: "hazeFree 96 demo_recording = (e, s')" by (rule prod.exhaust)
  from free_forgets_everything [OF demo_recording_inv _ f] show ?thesis
    by (simp add: f Let_def to_dev_addr_def)
qed

end
