(* ===== verification/Haze_Api_Spec.thy ===== *)
theory Haze_Api_Spec
  imports Haze_System Haze_Simulator
begin

text \<open>
  Properties of whole sessions of the C ABI: what every reachable state satisfies, what a
  device reset restores, where a read leaves its array, and the digit slicing of ModUp.
\<close>

section \<open>Reachable states\<close>

text \<open>
  C14. Every state the ABI can reach is consistent. Whatever calls were made, in whatever
  order, with whatever answers from the compiler and the files: the allocation size is 8
  bytes per coefficient of the configured ring dimension, which is a power of two or unset;
  no configured modulus is 0; only live addresses have shadow bytes, and no pooled address is
  live; every pending output, input and recorded modulus belongs to a bound address; no two
  groups share an address, and every group has as many moduli as addresses, at least one.
\<close>

theorem reachable_consistent:
  assumes "reachable E s"
  shows "poly_bytes (hz_alloc s) = cf_ring_dim (hz_config s) * 8 \<and>
    (cf_ring_dim (hz_config s) = 0 \<or> is_supported_ring_dim (cf_ring_dim (hz_config s))) \<and>
    0 \<notin> set (cf_moduli (hz_config s)) \<and>
    dom (shadow_data (hz_alloc s)) \<subseteq> alloc_set (hz_alloc s) \<and>
    set (pool_free (hz_alloc s)) \<inter> alloc_set (hz_alloc s) = {} \<and>
    al_keys (pending_outputs (hz_epoch s)) \<union> input_addrs (hz_epoch s) \<union>
      dom (addr_modulus (hz_epoch s)) \<subseteq> dom (poly_map (hz_epoch s)) \<and>
    (\<forall>n g. known_mrp_groups (hz_epoch s) n = Some g \<longrightarrow>
       mg_addrs g \<noteq> [] \<and> length (mg_moduli g) = length (mg_addrs g)) \<and>
    (\<forall>n m g h. known_mrp_groups (hz_epoch s) n = Some g \<and> known_mrp_groups (hz_epoch s) m = Some h \<and>
       n \<noteq> m \<longrightarrow> set (mg_addrs g) \<inter> set (mg_addrs h) = {})"
proof -
  have inv: "haze_inv s" using assms by (rule reachable_inv)
  note g = epoch_invD(1) [OF haze_inv_epoch [OF inv]]
  have "set (mg_addrs u) \<inter> set (mg_addrs v) = {}"
    if "known_mrp_groups (hz_epoch s) n = Some u" "known_mrp_groups (hz_epoch s) m = Some v" "n \<noteq> m"
    for n m u v
    using groups_inv_member [OF g that(1)] groups_inv_member [OF g that(2)] that(3) by fastforce
  moreover have "mg_addrs u \<noteq> [] \<and> length (mg_moduli u) = length (mg_addrs u)"
    if "known_mrp_groups (hz_epoch s) n = Some u" for n u
    using groups_inv_group [OF g that] by simp
  moreover have "poly_bytes (hz_alloc s) = cf_ring_dim (hz_config s) * 8 \<and>
    (cf_ring_dim (hz_config s) = 0 \<or> is_supported_ring_dim (cf_ring_dim (hz_config s))) \<and>
    0 \<notin> set (cf_moduli (hz_config s)) \<and>
    dom (shadow_data (hz_alloc s)) \<subseteq> alloc_set (hz_alloc s) \<and>
    set (pool_free (hz_alloc s)) \<inter> alloc_set (hz_alloc s) = {}"
    using inv by (simp add: haze_inv_def cfg_inv_def alloc_inv_def)
  moreover have "al_keys (pending_outputs (hz_epoch s)) \<union> input_addrs (hz_epoch s) \<union>
      dom (addr_modulus (hz_epoch s)) \<subseteq> dom (poly_map (hz_epoch s))"
    using epoch_invD(2) [OF haze_inv_epoch [OF inv]] by (simp add: bindings_inv_def)
  ultimately show ?thesis by blast
qed

text \<open>
  A session that configures ring dimension 4, allocates twice, and frees the first address.
\<close>

definition session4 :: "(u64 list, sim_mrp) haze" where
  "session4 = snd (hazeFree kHbmBase (snd (hazeMallocMrp False 2 32
     (snd (hazeSetRingDimension 4 (haze_init (\<lambda>_. 0)))))))"

lemma session4_reachable: "reachable sim_env session4"
proof -
  have ring: "api_step E s (fst (hazeSetRingDimension n s)) (snd (hazeSetRingDimension n s))"
    for E and s :: "(u64 list, sim_mrp) haze" and n
    by (rule api_step.intros) simp
  have mal: "api_step E s (fst (fst (hazeMallocMrp b c n s))) (snd (hazeMallocMrp b c n s))"
    for E and s :: "(u64 list, sim_mrp) haze" and b c n
    by (rule st_malloc_mrp [where outs = "snd (fst (hazeMallocMrp b c n s))"]) simp
  have fr: "api_step E s (fst (hazeFree p s)) (snd (hazeFree p s))"
    for E and s :: "(u64 list, sim_mrp) haze" and p
    by (rule st_free) simp
  show ?thesis
    unfolding session4_def
    by (rule reachable.step [OF reachable.step [OF reachable.step [OF reachable.start ring] mal] fr])
qed

theorem reachable_consistent_witness: "poly_bytes (hz_alloc session4) = 32"
proof -
  have "cf_ring_dim (hz_config session4) = 4" by code_simp
  with reachable_consistent [OF session4_reachable] show ?thesis by simp
qed

section \<open>Reset\<close>

text \<open>
  A device reset forgets everything: from any state, reachable or not, it succeeds and
  leaves the state of a fresh process, apart from host memory and the calls already made to
  the compiler, to which it adds the clearing of captures and the compiler's reset.
\<close>

theorem device_reset_pristine:
  "hazeDeviceReset s = (HAZE_SUCCESS, (haze_init (hz_host s))
     \<lparr>hz_trace := hz_trace s @ [Compiler ClearCaptured, Compiler CompilerReset]\<rparr>)"
proof -
  have "epoch_reset s = clear_state_locked s" by (simp add: epoch_reset_def)
  then show ?thesis
    by (simp add: hazeDeviceReset_def reset_all_def backend_reset_def device_reset_def
        events_reset_def streams_reset_def hazeReplayBridgeReset_def haze_init_def Let_def
        allocator_reset_def allocator_init_def config_reset_def config_init_def)
qed

section \<open>Reading past a shadow vector\<close>

definition resized :: "(u64 list, sim_mrp) haze" where
  "resized = (let s1 = snd (hazeSetRingDimension 4 (haze_init (\<lambda>_. 0)));
     s2 = snd (hazeMalloc False 32 s1);
     s3 = snd (the (hazeMemcpy sim_env kHbmBase 4096 32 1 s2))
   in snd (hazeSetRingDimension 8 s3))"

text \<open>
  C39. The size test of a D2H copy does not bound the read. Reachable from a fresh process:
  set ring dimension 4, allocate, upload 32 bytes, set ring dimension 8 (nothing is frozen
  yet), and ask for 64 bytes back. The request passes every check, and the copy would read
  past the 32 bytes the vector holds.
\<close>

theorem ring_change_read_overrun:
  "reachable sim_env resized \<and> hazeMemcpy sim_env 8192 kHbmBase 64 2 resized = None \<and>
   unat (poly_bytes (hz_alloc resized)) = 64 \<and>
   map_option length (shadow_data (hz_alloc resized) kHbmBase) = Some 4"
proof -
  let ?s1 = "snd (hazeSetRingDimension 4 (haze_init (\<lambda>_. 0))) :: (u64 list, sim_mrp) haze"
  let ?s2 = "snd (hazeMalloc False 32 ?s1)"
  let ?s3 = "snd (the (hazeMemcpy sim_env kHbmBase 4096 32 1 ?s2))"
  have ring: "api_step E s (fst (hazeSetRingDimension n s)) (snd (hazeSetRingDimension n s))"
    for E and s :: "(u64 list, sim_mrp) haze" and n
    by (rule api_step.intros) simp
  have r1: "reachable sim_env ?s1" by (rule reachable.step [OF reachable.start ring])
  have r2: "reachable sim_env ?s2"
    by (rule reachable.step [OF r1 st_malloc [where e = "fst (fst (hazeMalloc False 32 ?s1))"
          and out = "snd (fst (hazeMalloc False 32 ?s1))"]]) simp
  have "(kHbmBase :: hostptr) \<noteq> 0" by code_simp
  then have "hazeMemcpy sim_env kHbmBase 4096 32 1 s \<noteq> None" for s :: "(u64 list, sim_mrp) haze"
    by (simp add: hazeMemcpy_def)
  then have r3: "reachable sim_env ?s3"
    using reachable.step [OF r2 st_memcpy] by (metis option.collapse prod.collapse)
  have eq: "resized = snd (hazeSetRingDimension 8 ?s3)" by (simp only: resized_def Let_def)
  have "reachable sim_env resized" unfolding eq by (rule reachable.step [OF r3 ring])
  moreover have "hazeMemcpy sim_env 8192 kHbmBase 64 2 resized = None" by code_simp
  moreover have "unat (poly_bytes (hz_alloc resized)) = 64" by code_simp
  moreover have "map_option length (shadow_data (hz_alloc resized) kHbmBase) = Some 4" by code_simp
  ultimately show ?thesis by blast
qed

section \<open>Digit slicing of ModUp\<close>

lemma slice_digits_exact:
  "offset + sum_list (map unat lens) = length bases \<Longrightarrow>
   \<exists>ds. slice_digits bases offset lens = Some ds \<and> concat ds = drop offset bases \<and>
     map length ds = map unat lens"
proof (induction lens arbitrary: offset)
  case (Cons l lens)
  from Cons.prems have "(offset + unat l) + sum_list (map unat lens) = length bases" by simp
  from Cons.IH [OF this] obtain ds where
    ds: "slice_digits bases (offset + unat l) lens = Some ds"
      "concat ds = drop (offset + unat l) bases" "map length ds = map unat lens"
    by blast
  have "take (unat l) (drop offset bases) @ drop (offset + unat l) bases = drop offset bases"
    by (metis add.commute append_take_drop_id drop_drop)
  with ds Cons.prems show ?case by auto
qed simp

lemma foldl_word_sum:
  fixes lens :: "u64 list"
  assumes "unat a + sum_list (map unat lens) < 2 ^ 64"
  shows "unat (foldl (+) a lens) = unat a + sum_list (map unat lens)"
  using assms
proof (induction lens arbitrary: a)
  case (Cons l lens)
  have "unat (a + l) = unat a + unat l"
    using Cons.prems by (simp add: unat_word_ariths take_bit_nat_eq_self)
  with Cons show ?case by simp
qed simp

lemma mod_up_slices:
  assumes "validate_mod_up p = Inr ()"
    and "mu_digit_bases p = Some qs" and "unat (mu_digit_bases_total_len p) \<le> length qs"
    and "sum_list (map unat (base_of (mu_digit_base_lens p) (mu_digit_count p))) < 2 ^ 64"
  shows "\<exists>ds. slice_digits (base_of (mu_digit_bases p) (mu_digit_bases_total_len p)) 0
        (base_of (mu_digit_base_lens p) (mu_digit_count p)) = Some ds \<and>
      concat ds = take (unat (mu_digit_bases_total_len p)) qs \<and>
      map length ds = map unat (base_of (mu_digit_base_lens p) (mu_digit_count p))"
proof -
  let ?lens = "base_of (mu_digit_base_lens p) (mu_digit_count p)"
  have "foldl (+) 0 ?lens = mu_digit_bases_total_len p"
    using assms(1) by (auto simp: validate_mod_up_def Let_def split: if_splits)
  with foldl_word_sum [of 0 ?lens] assms(4)
  have "sum_list (map unat ?lens) = unat (mu_digit_bases_total_len p)" by simp
  then have "0 + sum_list (map unat ?lens) =
      length (base_of (mu_digit_bases p) (mu_digit_bases_total_len p))"
    using assms(2,3) by (simp add: base_of_def)
  from slice_digits_exact [OF this] assms(2) show ?thesis by (auto simp: base_of_def)
qed

lemma mod_up_defined:
  assumes "slice_digits (base_of (mu_digit_bases p) (mu_digit_bases_total_len p)) 0
     (base_of (mu_digit_base_lens p) (mu_digit_count p)) = Some ds"
  shows "mod_up E dst src p s \<noteq> None"
  using assms by (auto simp: mod_up_def Let_def split: sum.split prod.split)

text \<open>
  C33. The digits of ModUp partition the digit primes. For parameters the validation accepts,
  whose arrays have the announced lengths and whose digit lengths add up without wrapping,
  every slice lies inside the array, the slices have the announced lengths and concatenate
  to the digit primes, and the operation has a defined outcome for every environment.
\<close>

theorem mod_up_digits_partition:
  assumes "validate_mod_up p = Inr ()"
    and "mu_digit_bases p = Some qs" and "unat (mu_digit_bases_total_len p) \<le> length qs"
    and "sum_list (map unat (base_of (mu_digit_base_lens p) (mu_digit_count p))) < 2 ^ 64"
  shows "(\<exists>ds. slice_digits (base_of (mu_digit_bases p) (mu_digit_bases_total_len p)) 0
        (base_of (mu_digit_base_lens p) (mu_digit_count p)) = Some ds \<and>
      concat ds = take (unat (mu_digit_bases_total_len p)) qs \<and>
      map length ds = map unat (base_of (mu_digit_base_lens p) (mu_digit_count p))) \<and>
    mod_up E dst src p s \<noteq> None"
  using mod_up_slices [OF assms] mod_up_defined by metis

definition two_digits :: hazeModUpParams where
  "two_digits = \<lparr>mu_src_base = Some [97, 101, 103], mu_src_base_len = 3,
     mu_digit_bases = Some [97, 101, 103], mu_digit_bases_total_len = 3,
     mu_digit_base_lens = Some [2, 1], mu_digit_count = 2,
     mu_p_base = Some [107], mu_p_base_len = 1\<rparr>"

theorem mod_up_digits_partition_witness:
  "slice_digits [97, 101, 103] 0 [2, 1] = Some [[97, 101], [103]] \<and>
   mod_up sim_env [16, 24, 32, 40, 48, 56, 64, 72] [64, 80, 96] two_digits demo \<noteq> None"
proof -
  have v: "validate_mod_up two_digits = Inr ()" by code_simp
  have "mod_up sim_env [16, 24, 32, 40, 48, 56, 64, 72] [64, 80, 96] two_digits demo \<noteq> None"
    using mod_up_digits_partition [OF v, of "[97, 101, 103]" sim_env _ _ demo]
    by (simp add: two_digits_def base_of_def)
  then show ?thesis by simp
qed

definition wrapping_digits :: hazeModUpParams where
  "wrapping_digits = \<lparr>mu_src_base = Some [97], mu_src_base_len = 1,
     mu_digit_bases = Some [97], mu_digit_bases_total_len = 1,
     mu_digit_base_lens = Some [9223372036854775808, 9223372036854775808, 1], mu_digit_count = 3,
     mu_p_base = Some [107], mu_p_base_len = 1\<rparr>"

text \<open>
  C40. Without that bound the validation does not help: its sum of digit lengths is a 64-bit
  addition, so three lengths of which two add up to 2^64 pass it, and the first slice then
  leaves the array.
\<close>

theorem mod_up_length_sum_wraps:
  "validate_mod_up wrapping_digits = Inr () \<and> mod_up sim_env [16, 24] [64] wrapping_digits demo = None"
proof -
  have v: "validate_mod_up wrapping_digits = Inr ()" by code_simp
  have "\<not> isl (fst (build_mrp_locked sim_env [64] [97] (open_session sim_env demo)))" by code_simp
  then obtain x s1 where "build_mrp_locked sim_env [64] [97] (open_session sim_env demo) = (Inr x, s1)"
    by (cases "build_mrp_locked sim_env [64] [97] (open_session sim_env demo)") (metis fst_conv isl_def sum.exhaust_sel)
  with v show ?thesis by (auto simp: mod_up_def wrapping_digits_def base_of_def)
qed

end
