(* ===== verification/Haze_Synthesis.thy ===== *)
theory Haze_Synthesis
  imports Haze_Replay_Bridge "HOL-Library.Log_Nat"
begin

text \<open>
  The writing half of the replay bridge: crypto contexts, the ciphertexts and templates
  synthesised for captured records, the post-recording hook and the initialisation entry.
  OpenFHE and the serialisers of libnbfhetch are the record \<open>openfhe\<close>; an OpenFHE element is
  seen through \<open>GetAllElements()\<close> as its list of towers. \<open>None\<close> is a thrown exception.
\<close>

type_synonym u32 = "32 word"

record 'cc openfhe =
  gen_context :: "u32 \<Rightarrow> u32 \<Rightarrow> u32 \<Rightarrow> u32 \<Rightarrow> 'cc option option"
  chain_moduli :: "'cc \<Rightarrow> u64 list option"
  zero_towers :: "'cc \<Rightarrow> native_poly list"
  drop_last_elements :: "native_poly list \<Rightarrow> nat \<Rightarrow> native_poly list"
  root_of_unity :: "u32 \<Rightarrow> u64 \<Rightarrow> u64 option"
  switch_modulus_at :: "native_poly list \<Rightarrow> nat \<Rightarrow> u64 \<Rightarrow> u64 \<Rightarrow> native_poly list"
  np_ring_dim :: "native_poly \<Rightarrow> nat"
  np_set_values :: "native_poly \<Rightarrow> u64 list \<Rightarrow> native_poly"
  write_input_bin :: "string \<Rightarrow> ciphertext \<Rightarrow> u64 list \<Rightarrow> bool option"
  write_template :: "string \<Rightarrow> ciphertext \<Rightarrow> bool option"

record 'cc bridge_context =
  cx_ring_dim :: u64
  cx_cc :: 'cc

section \<open>Contexts\<close>

text \<open>\<open>std::bit_width\<close>: the number of binary digits, 0 for 0.\<close>

definition bit_width :: "u64 \<Rightarrow> u32" where
  "bit_width q = of_nat (floorlog 2 (unat q))"

definition build_context ::
    "'cc openfhe \<Rightarrow> u64 \<Rightarrow> u64 list \<Rightarrow> (BridgeError + 'cc bridge_context) option" where
  "build_context F ring_dim moduli =
     (if moduli = [] then Some (Inl InvalidModulus)
      else let max_bits = foldl (\<lambda>m q. max m (bit_width q)) (bit_width (hd moduli)) (tl moduli)
        in case gen_context F (ucast ring_dim) (of_nat (length moduli - 1)) max_bits (max_bits - 1) of
             None \<Rightarrow> None
           | Some None \<Rightarrow> Some (Inl OpenFheUnavailable)
           | Some (Some cc) \<Rightarrow>
               (case chain_moduli F cc of
                  None \<Rightarrow> Some (Inl OpenFheUnavailable)
                | Some chain \<Rightarrow>
                    if chain = [] then Some (Inl OpenFheUnavailable)
                    else Some (Inr \<lparr>cx_ring_dim = ring_dim, cx_cc = cc\<rparr>)))"

definition first_tower_modulus :: "'cc openfhe \<Rightarrow> 'cc \<Rightarrow> u64 option" where
  "first_tower_modulus F cc =
     (case chain_moduli F cc of None \<Rightarrow> None | Some chain \<Rightarrow>
        if chain = [] then None else Some (hd chain))"

section \<open>Ciphertext shells\<close>

definition trim_towers_to ::
    "'cc openfhe \<Rightarrow> native_poly list \<Rightarrow> nat \<Rightarrow> native_poly list option" where
  "trim_towers_to F dcrt target =
     (let current = length dcrt in
      if current < target then None
      else if current > target then Some (drop_last_elements F dcrt (current - target))
      else Some dcrt)"

definition empty_ct_shell :: "'cc openfhe \<Rightarrow> 'cc bridge_context \<Rightarrow> nat \<Rightarrow> ciphertext" where
  "empty_ct_shell F ctx k_count = replicate k_count (zero_towers F (cx_cc ctx))"

definition fill_native_poly :: "'cc openfhe \<Rightarrow> native_poly \<Rightarrow> u64 list \<Rightarrow> native_poly" where
  "fill_native_poly F np values =
     (if length values \<noteq> np_ring_dim F np then np else np_set_values F np values)"

definition switch_tower_modulus ::
    "'cc openfhe \<Rightarrow> native_poly list \<Rightarrow> nat \<Rightarrow> u64 \<Rightarrow> u32 \<Rightarrow> native_poly list option" where
  "switch_tower_modulus F elem t q corder =
     (if q = 0 \<or> q = kCopyModulus then Some elem
      else if np_modulus (elem ! t) = q then Some elem
      else case root_of_unity F corder q of
             None \<Rightarrow> None
           | Some rt \<Rightarrow> Some (switch_modulus_at F elem t q rt))"

fun switch_towers ::
    "'cc openfhe \<Rightarrow> u32 \<Rightarrow> nat \<Rightarrow> u64 list \<Rightarrow> native_poly list \<Rightarrow> native_poly list option" where
  "switch_towers F corder i [] elem = Some elem"
| "switch_towers F corder i (q # qs) elem =
     (case switch_tower_modulus F elem i q corder of
        None \<Rightarrow> None | Some e \<Rightarrow> switch_towers F corder (Suc i) qs e)"

definition corder_of :: "'cc bridge_context \<Rightarrow> u32" where
  "corder_of ctx = ucast (2 * cx_ring_dim ctx)"

definition synthesize_haze_ciphertext ::
    "'cc openfhe \<Rightarrow> 'cc bridge_context \<Rightarrow> u64 \<Rightarrow> u64 list \<Rightarrow> ciphertext option" where
  "synthesize_haze_ciphertext F ctx modulus values =
     (let ct = empty_ct_shell F ctx 1 in
      case trim_towers_to F (ct ! 0) 1 of
        None \<Rightarrow> None
      | Some d \<Rightarrow>
          (case switch_tower_modulus F d 0 modulus (corder_of ctx) of
             None \<Rightarrow> None
           | Some dcrt \<Rightarrow>
               if values = [] then Some (ct[0 := dcrt])
               else Some (ct[0 := dcrt[0 := fill_native_poly F (dcrt ! 0) values]])))"

text \<open>The fill loop over the towers of an element; the sizes have been compared.\<close>

definition fill_towers ::
    "'cc openfhe \<Rightarrow> native_poly list \<Rightarrow> u64 list list \<Rightarrow> native_poly list" where
  "fill_towers F towers row = map (\<lambda>i. fill_native_poly F (towers ! i) (row ! i)) [0..<length towers]"

definition synthesize_haze_mrp_ciphertext ::
    "'cc openfhe \<Rightarrow> 'cc bridge_context \<Rightarrow> u64 list \<Rightarrow> u64 list list \<Rightarrow> ciphertext option" where
  "synthesize_haze_mrp_ciphertext F ctx moduli per_residue_values =
     (let ct = empty_ct_shell F ctx 1 in
      case trim_towers_to F (ct ! 0) (length moduli) of
        None \<Rightarrow> None
      | Some d \<Rightarrow>
          (case switch_towers F (corder_of ctx) 0 moduli d of
             None \<Rightarrow> None
           | Some dcrt \<Rightarrow>
               if per_residue_values = [] then Some (ct[0 := dcrt])
               else if length per_residue_values \<noteq> length moduli then None
               else Some (ct[0 := fill_towers F dcrt per_residue_values])))"

fun shape_elements ::
    "'cc openfhe \<Rightarrow> u32 \<Rightarrow> u64 list \<Rightarrow> ciphertext \<Rightarrow> ciphertext option" where
  "shape_elements F corder moduli [] = Some []"
| "shape_elements F corder moduli (dcrt # els) =
     (case trim_towers_to F dcrt (length moduli) of
        None \<Rightarrow> None
      | Some d \<Rightarrow>
          (case switch_towers F corder 0 moduli d of
             None \<Rightarrow> None
           | Some e \<Rightarrow>
               (case shape_elements F corder moduli els of
                  None \<Rightarrow> None | Some es \<Rightarrow> Some (e # es))))"

fun fill_elements ::
    "'cc openfhe \<Rightarrow> nat \<Rightarrow> ciphertext \<Rightarrow> u64 list list list \<Rightarrow> ciphertext option" where
  "fill_elements F n (e # els) (row # rows) =
     (if length row \<noteq> n then None
      else case fill_elements F n els rows of
             None \<Rightarrow> None | Some es \<Rightarrow> Some (fill_towers F e row # es))"
| "fill_elements F n els rows = Some els"

definition synthesize_haze_array_ciphertext ::
    "'cc openfhe \<Rightarrow> 'cc bridge_context \<Rightarrow> u64 list list \<Rightarrow> u64 list list list \<Rightarrow> ciphertext option" where
  "synthesize_haze_array_ciphertext F ctx per_element_moduli per_element_values =
     (if per_element_moduli = [] then None
      else if \<exists>m \<in> set (tl per_element_moduli). m \<noteq> hd per_element_moduli then None
      else
        let shared_moduli = hd per_element_moduli; k_count = length per_element_moduli in
        case shape_elements F (corder_of ctx) shared_moduli (empty_ct_shell F ctx k_count) of
          None \<Rightarrow> None
        | Some ct \<Rightarrow>
            if per_element_values = [] then Some ct
            else if length per_element_values \<noteq> k_count then None
            else fill_elements F (length shared_moduli) ct per_element_values)"

definition synthesize_for_shape ::
    "'cc openfhe \<Rightarrow> 'cc bridge_context \<Rightarrow> CapturedShape \<Rightarrow> u64 list list \<Rightarrow> ciphertext option" where
  "synthesize_for_shape F ctx shape per_residue_values =
     (case cs_kind shape of
        SRP \<Rightarrow> synthesize_haze_ciphertext F ctx (srp_shape_modulus shape)
                 (if per_residue_values = [] then [] else hd per_residue_values)
      | MRP \<Rightarrow> synthesize_haze_mrp_ciphertext F ctx (hd (cs_per_element_moduli shape))
                 per_residue_values
      | _ \<Rightarrow>
          if per_residue_values = []
          then synthesize_haze_array_ciphertext F ctx (cs_per_element_moduli shape) []
          else (case slice_array_values per_residue_values (cs_per_element_moduli shape) of
                  None \<Rightarrow> None
                | Some rows \<Rightarrow>
                    synthesize_haze_array_ciphertext F ctx (cs_per_element_moduli shape) rows))"

section \<open>The post-recording hook\<close>

record 'cc hook_ctx =
  hk_ring_dim :: u64
  hk_primary :: "'cc bridge_context"

type_synonym 'cc ctx_cache = "u64 list \<rightharpoonup> 'cc bridge_context"

text \<open>
  The context for a shape (\<open>None\<close>: the null pointer), the new cache, and whether an error was
  logged; the outer \<open>None\<close> is an exception out of \<open>build_context\<close>.
\<close>

definition context_for_shape ::
    "'cc openfhe \<Rightarrow> 'cc hook_ctx \<Rightarrow> 'cc ctx_cache \<Rightarrow> CapturedShape \<Rightarrow>
     ('cc bridge_context option \<times> 'cc ctx_cache \<times> bool) option" where
  "context_for_shape F hctx local_cache shape =
     (case cs_per_element_moduli shape of
        [] \<Rightarrow> Some (Some (hk_primary hctx), local_cache, False)
      | moduli # rest \<Rightarrow>
          if moduli = [] then Some (Some (hk_primary hctx), local_cache, False)
          else if \<exists>q \<in> set moduli. q = 0 \<or> q = kCopyModulus
          then Some (Some (hk_primary hctx), local_cache, False)
          else if (cs_kind shape = SRPArray \<or> cs_kind shape = MRPArray) \<and>
                  (\<exists>m \<in> set rest. m \<noteq> moduli) then Some (None, local_cache, True)
          else case local_cache moduli of
                 Some c \<Rightarrow> Some (Some c, local_cache, False)
               | None \<Rightarrow>
                   (case build_context F (hk_ring_dim hctx) moduli of
                      None \<Rightarrow> None
                    | Some (Inl e) \<Rightarrow> Some (None, local_cache, True)
                    | Some (Inr c) \<Rightarrow> Some (Some c, local_cache(moduli \<mapsto> c), False)))"

record captured_input =
  ci_name :: string
  ci_addr_ids :: "u64 list"
  ci_shape :: CapturedShape
  ci_values :: "u64 list list"

datatype bridge_file = InputBin string ciphertext "u64 list" | Template string ciphertext

text \<open>The files handed to the serialisers so far, and the error flag.\<close>

record 'cc hook_state =
  hs_cache :: "'cc ctx_cache"
  hs_error :: bool
  hs_files :: "bridge_file list"

text \<open>
  One record: pick the context, synthesise, write. \<open>write\<close> is the serialiser applied to the
  ciphertext, with the file it produces. Every failure raises the flag and ends the record.
\<close>

definition process_record ::
    "'cc openfhe \<Rightarrow> 'cc hook_ctx \<Rightarrow> CapturedShape \<Rightarrow> u64 list list \<Rightarrow>
     (ciphertext \<Rightarrow> bool option) \<Rightarrow> (ciphertext \<Rightarrow> bridge_file) \<Rightarrow>
     'cc hook_state \<Rightarrow> 'cc hook_state" where
  "process_record F hctx shape per_residue_values write file st =
     (case context_for_shape F hctx (hs_cache st) shape of
        None \<Rightarrow> st\<lparr>hs_error := True\<rparr>
      | Some (None, cache, _) \<Rightarrow> st\<lparr>hs_cache := cache, hs_error := True\<rparr>
      | Some (Some ctx, cache, logged) \<Rightarrow>
          let st1 = st\<lparr>hs_cache := cache, hs_error := hs_error st \<or> logged\<rparr> in
          (case synthesize_for_shape F ctx shape per_residue_values of
             None \<Rightarrow> st1\<lparr>hs_error := True\<rparr>
           | Some ct \<Rightarrow>
               (case write ct of
                  None \<Rightarrow> st1\<lparr>hs_error := True\<rparr>
                | Some ok \<Rightarrow> st1\<lparr>hs_error := hs_error st1 \<or> \<not> ok,
                                hs_files := hs_files st1 @ (if ok then [file ct] else [])\<rparr>)))"

definition process_input ::
    "'cc openfhe \<Rightarrow> 'cc hook_ctx \<Rightarrow> captured_input \<Rightarrow> 'cc hook_state \<Rightarrow> 'cc hook_state" where
  "process_input F hctx rec st =
     (if ci_name rec = ''evalmult_key'' \<or> ci_name rec = ''automorphism_key'' then st
      else process_record F hctx (ci_shape rec) (ci_values rec)
             (\<lambda>ct. write_input_bin F (ci_name rec) ct (ci_addr_ids rec))
             (\<lambda>ct. InputBin (ci_name rec) ct (ci_addr_ids rec)) st)"

definition process_output ::
    "'cc openfhe \<Rightarrow> 'cc hook_ctx \<Rightarrow> string \<times> CapturedShape \<Rightarrow> 'cc hook_state \<Rightarrow> 'cc hook_state" where
  "process_output F hctx = (\<lambda>(name, shape). process_record F hctx shape []
     (\<lambda>ct. write_template F name ct) (\<lambda>ct. Template name ct))"

definition on_post_recording ::
    "'cc openfhe \<Rightarrow> 'cc hook_ctx \<Rightarrow> captured_input list \<Rightarrow> (string \<times> CapturedShape) list \<Rightarrow>
     bool \<Rightarrow> bool \<times> bridge_file list" where
  "on_post_recording F hctx inputs outputs flag =
     (let st0 = \<lparr>hs_cache = Map.empty, hs_error = flag, hs_files = []\<rparr>;
          st1 = fold (process_input F hctx) inputs st0;
          st2 = fold (process_output F hctx) outputs st1
      in (hs_error st2, hs_files st2))"

section \<open>Initialisation\<close>

datatype 'cc init_call =
    InitCompiler "string list"
  | InitProgramInfo string string string
  | InitProgramDirectory string
  | CaptureCryptoContext 'cc
  | ClearAutoCapture
  | InstallHook "'cc hook_ctx"

text \<open>Calls inside the \<open>try\<close> block, up to and including the first that throws.\<close>

fun init_try ::
    "('cc init_call list \<Rightarrow> 'cc init_call \<Rightarrow> bool) \<Rightarrow> 'cc init_call list \<Rightarrow> 'cc init_call list \<Rightarrow>
     bool \<times> 'cc init_call list" where
  "init_try th tr [] = (True, tr)"
| "init_try th tr (c # cs) = (if th tr c then (False, tr @ [c]) else init_try th (tr @ [c]) cs)"

definition install_post_recording_hook :: "'cc hook_ctx \<Rightarrow> 'cc init_call list" where
  "install_post_recording_hook hctx = [ClearAutoCapture, InstallHook hctx]"

text \<open>The error code, the picked modulus if one was written, and the calls made.\<close>

definition hazeReplayBridgeInitCryptoContext ::
    "'cc openfhe \<Rightarrow> ('cc init_call list \<Rightarrow> 'cc init_call \<Rightarrow> bool) \<Rightarrow> config \<Rightarrow>
     u64 \<Rightarrow> u64 \<Rightarrow> bool \<Rightarrow> hazeError_t \<times> u64 option \<times> 'cc init_call list" where
  "hazeReplayBridgeInitCryptoContext F th c ring_dim desired_modulus picked_null =
     (if picked_null then (HAZE_ERROR_INVALID_VALUE, None, [])
      else case init_try th [] [InitCompiler [''haze'', ''--target='' @ cfg_target c,
                                  ''--no-ring-dim-check'', ''--no-prime-check'']] of
        (False, tr) \<Rightarrow> (HAZE_ERROR_INTERNAL, None, tr)
      | (True, tr) \<Rightarrow>
          (case build_context F ring_dim [desired_modulus] of
             None \<Rightarrow> (HAZE_ERROR_INTERNAL, None, tr)
           | Some (Inl e) \<Rightarrow> (to_haze_error e, None, tr)
           | Some (Inr built) \<Rightarrow>
               (case first_tower_modulus F (cx_cc built) of
                  None \<Rightarrow> (HAZE_ERROR_INTERNAL, None, tr)
                | Some picked \<Rightarrow>
                    (case init_try th tr ([InitProgramInfo ''haze'' [] []]
                         @ (if has_program_directory c
                            then [InitProgramDirectory (program_directory c)] else [])
                         @ [CaptureCryptoContext (cx_cc built)]
                         @ install_post_recording_hook
                             \<lparr>hk_ring_dim = ring_dim, hk_primary = built\<rparr>) of
                       (ok, tr1) \<Rightarrow> (if ok then HAZE_SUCCESS else HAZE_ERROR_INTERNAL,
                                     Some picked, tr1)))))"

end
