(* ===== verification/Haze_Synthesis_Spec.thy ===== *)
theory Haze_Synthesis_Spec
  imports Haze_Synthesis Haze_Simulator
begin

text \<open>
  What the bridge hands to the replay path: a multi-residue ciphertext carries exactly the
  captured residues under the trace moduli and reads back as them, records are processed
  independently, and a residue of the wrong length is written as zeros without an error.
\<close>

section \<open>Documented behaviour of the OpenFHE primitives\<close>

text \<open>
  \<open>DropLastElements\<close> keeps a prefix; \<open>SwitchModulusAtIndex\<close> changes the modulus of one tower
  and leaves ring dimensions and the other towers alone; \<open>SetValues\<close> with as many reduced
  values as the ring dimension stores them.
\<close>

definition openfhe_ok :: "'cc openfhe \<Rightarrow> bool" where
  "openfhe_ok F \<longleftrightarrow>
     (\<forall>xs k. drop_last_elements F xs k = take (length xs - k) xs) \<and>
     (\<forall>xs t q r. t < length xs \<longrightarrow>
        (\<exists>np. switch_modulus_at F xs t q r = xs[t := np] \<and> np_modulus np = q \<and>
           np_ring_dim F np = np_ring_dim F (xs ! t))) \<and>
     (\<forall>np v. length v = np_ring_dim F np \<and> (\<forall>x \<in> set v. x < np_modulus np) \<longrightarrow>
        np_values (np_set_values F np v) = v \<and> np_modulus (np_set_values F np v) = np_modulus np)"

lemma trim_ok:
  assumes "openfhe_ok F" and "n \<le> length xs"
  shows "trim_towers_to F xs n = Some (take n xs)"
  using assms by (auto simp: trim_towers_to_def openfhe_ok_def Let_def)

lemma switch_tower_ok:
  assumes "openfhe_ok F" and "t < length xs" and "q \<noteq> 0" and "q \<noteq> kCopyModulus"
    and "root_of_unity F corder q \<noteq> None"
  shows "\<exists>np. switch_tower_modulus F xs t q corder = Some (xs[t := np]) \<and> np_modulus np = q \<and>
    np_ring_dim F np = np_ring_dim F (xs ! t)"
proof (cases "np_modulus (xs ! t) = q")
  case True
  with assms(3,4) show ?thesis
    by (intro exI [of _ "xs ! t"]) (simp add: switch_tower_modulus_def)
next
  case False
  from assms(5) obtain r where "root_of_unity F corder q = Some r" by auto
  with False assms show ?thesis by (auto simp: switch_tower_modulus_def openfhe_ok_def)
qed

lemma switch_towers_ok:
  assumes "openfhe_ok F" and "i + length qs = length xs"
    and "\<forall>q \<in> set qs. q \<noteq> 0 \<and> q \<noteq> kCopyModulus \<and> root_of_unity F corder q \<noteq> None"
    and "\<forall>np \<in> set xs. np_ring_dim F np = N"
  shows "\<exists>ys. switch_towers F corder i qs xs = Some (take i xs @ ys) \<and> map np_modulus ys = qs \<and>
    (\<forall>np \<in> set ys. np_ring_dim F np = N)"
  using assms(2-4)
proof (induction qs arbitrary: i xs)
  case (Cons q qs)
  have i: "i < length xs" using Cons.prems(1) by simp
  obtain np where np: "switch_tower_modulus F xs i q corder = Some (xs[i := np])"
      "np_modulus np = q" "np_ring_dim F np = np_ring_dim F (xs ! i)"
    using switch_tower_ok [OF assms(1) i, of q corder] Cons.prems(2) by auto
  have N: "np_ring_dim F np = N" using np(3) Cons.prems(3) i by simp
  then have "\<forall>m \<in> set (xs[i := np]). np_ring_dim F m = N"
    using Cons.prems(3) set_update_subset_insert [of xs i np] by auto
  with Cons.IH [of "Suc i" "xs[i := np]"] Cons.prems obtain ys where
    ys: "switch_towers F corder (Suc i) qs (xs[i := np]) = Some (take (Suc i) (xs[i := np]) @ ys)"
      "map np_modulus ys = qs" "\<forall>m \<in> set ys. np_ring_dim F m = N"
    by auto
  have "take (Suc i) (xs[i := np]) = take i xs @ [np]" using i by (simp add: take_Suc_conv_app_nth)
  with np ys N show ?case by (intro exI [of _ "np # ys"]) simp
qed simp

lemma fill_towers_ok:
  assumes "openfhe_ok F" and "length vs = length towers"
    and "\<forall>i < length towers. length (vs ! i) = np_ring_dim F (towers ! i) \<and>
      (\<forall>x \<in> set (vs ! i). x < np_modulus (towers ! i))"
  shows "map np_values (fill_towers F towers vs) = vs \<and>
    map np_modulus (fill_towers F towers vs) = map np_modulus towers"
proof -
  have "np_values (fill_native_poly F (towers ! i) (vs ! i)) = vs ! i \<and>
      np_modulus (fill_native_poly F (towers ! i) (vs ! i)) = np_modulus (towers ! i)"
    if "i < length towers" for i
    using that assms(1,3) by (auto simp: fill_native_poly_def openfhe_ok_def)
  then show ?thesis using assms(2) by (auto simp: fill_towers_def intro!: nth_equalityI)
qed

lemma tower_pairs_sound:
  assumes "fh_sound E val D"
  shows "map (\<lambda>(p, q). (val p, q)) (fst (tower_pairs E towers s)) =
    map (\<lambda>np. (np_values np, np_modulus np)) towers"
proof (induction towers arbitrary: s)
  case (Cons np towers)
  obtain p s1 where p: "fh_poly E (FromData (np_values np) (of_nat (length (np_values np)))
      (np_format np)) s = (p, s1)" by (rule prod.exhaust)
  obtain ps s2 where r: "tower_pairs E towers s1 = (ps, s2)" by (rule prod.exhaust)
  have "val p = np_values np" using p fh_soundD(1) [OF assms] by (auto simp: fh_poly_def)
  with Cons.IH [of s1] show ?case by (simp add: p r)
qed simp

text \<open>
  C22. Multi-residue round trip. For OpenFHE primitives that do what they document, a context
  deep enough for the shape and residues of the ring dimension reduced modulo their primes,
  the ciphertext synthesised for a captured multi-residue value has one tower per trace
  modulus, in order, holding exactly the captured residues; and reading such a ciphertext
  back with \<open>fhetch::result\<close> yields polynomials with those residues, paired with those moduli.
\<close>

theorem mrp_ciphertext_round_trip:
  assumes "openfhe_ok F" and "cs_kind shape = MRP" and "cs_per_element_moduli shape = [moduli]"
    and "length moduli \<le> length (zero_towers F (cx_cc ctx))" and "vs \<noteq> []"
    and "\<forall>np \<in> set (zero_towers F (cx_cc ctx)). np_ring_dim F np = N"
    and "\<forall>q \<in> set moduli. q \<noteq> 0 \<and> q \<noteq> kCopyModulus \<and> root_of_unity F (corder_of ctx) q \<noteq> None"
    and "length vs = length moduli"
    and "\<forall>i < length moduli. length (vs ! i) = N \<and> (\<forall>x \<in> set (vs ! i). x < moduli ! i)"
    and "fh_sound E val D"
  shows "\<exists>towers. synthesize_for_shape F ctx shape vs = Some [towers] \<and>
    map np_modulus towers = moduli \<and> map np_values towers = vs \<and>
    map (\<lambda>(p, q). (val p, q)) (fst (tower_pairs E towers s)) = zip vs moduli"
proof -
  let ?zs = "take (length moduli) (zero_towers F (cx_cc ctx))"
  have "\<forall>np \<in> set ?zs. np_ring_dim F np = N" using assms(6) by (auto dest: in_set_takeD)
  moreover have "0 + length moduli = length ?zs" using assms(4) by simp
  ultimately obtain ys where
    ys: "switch_towers F (corder_of ctx) 0 moduli ?zs = Some ys" "map np_modulus ys = moduli"
      "\<forall>np \<in> set ys. np_ring_dim F np = N"
    using switch_towers_ok [OF assms(1) _ assms(7), of 0 ?zs N] by auto
  have len: "length ys = length moduli" using ys(2) by (metis length_map)
  have nth: "np_modulus (ys ! i) = moduli ! i" if "i < length moduli" for i
    using ys(2) that len by (metis nth_map)
  let ?t = "fill_towers F ys vs"
  have fill: "map np_values ?t = vs \<and> map np_modulus ?t = moduli"
    using fill_towers_ok [OF assms(1), of vs ys] assms(8,9) ys len nth by simp
  have "synthesize_for_shape F ctx shape vs = Some [?t]"
    using assms(2,3,5,8) ys(1) trim_ok [OF assms(1,4)]
    by (simp add: synthesize_for_shape_def synthesize_haze_mrp_ciphertext_def empty_ct_shell_def)
  moreover have "map (\<lambda>(p, q). (val p, q)) (fst (tower_pairs E ?t s)) = zip vs moduli"
    using tower_pairs_sound [OF assms(10), of ?t s] fill zip_map_map [of np_values ?t np_modulus ?t]
    by (simp add: zip_same_conv_map)
  ultimately show ?thesis using fill by blast
qed

text \<open>A small OpenFHE: contexts are chains of zero towers of ring dimension 2.\<close>

definition sim_openfhe :: "nat openfhe" where
  "sim_openfhe = \<lparr>gen_context = (\<lambda>n d f sc. Some (Some (Suc (unat d)))),
     chain_moduli = (\<lambda>k. Some (replicate k 7)),
     zero_towers = (\<lambda>k. replicate k \<lparr>np_values = [0, 0], np_format = Evaluation, np_modulus = 7\<rparr>),
     drop_last_elements = (\<lambda>xs k. take (length xs - k) xs), root_of_unity = (\<lambda>c q. Some 1),
     switch_modulus_at = (\<lambda>xs t q r. xs[t := (xs ! t)\<lparr>np_modulus := q\<rparr>]),
     np_ring_dim = (\<lambda>np. 2), np_set_values = (\<lambda>np v. np\<lparr>np_values := v\<rparr>),
     write_input_bin = (\<lambda>n ct ids. Some True), write_template = (\<lambda>n ct. Some True)\<rparr>"

lemma sim_openfhe_simps [simp]:
  "zero_towers sim_openfhe k = replicate k \<lparr>np_values = [0, 0], np_format = Evaluation, np_modulus = 7\<rparr>"
  "np_ring_dim sim_openfhe np = 2"
  "root_of_unity sim_openfhe c q = Some 1"
  by (simp_all add: sim_openfhe_def)

lemma sim_openfhe_ok: "openfhe_ok sim_openfhe"
  by (auto simp: openfhe_ok_def sim_openfhe_def intro: exI [of _ "_\<lparr>np_modulus := _\<rparr>"])

theorem mrp_ciphertext_round_trip_witness:
  "\<exists>towers. synthesize_for_shape sim_openfhe \<lparr>cx_ring_dim = 2, cx_cc = 3\<rparr>
      \<lparr>cs_kind = MRP, cs_per_element_moduli = [[97, 193]]\<rparr> [[1, 2], [3, 190]] = Some [towers] \<and>
    fst (tower_pairs sim_env towers demo) = [([1, 2], 97), ([3, 190], 193)]"
proof -
  let ?shape = "\<lparr>cs_kind = MRP, cs_per_element_moduli = [[97, 193]]\<rparr>"
  let ?ctx = "\<lparr>cx_ring_dim = 2, cx_cc = 3 :: nat\<rparr>"
  have small: "\<forall>i < length [97, 193 :: u64]. length ([[1, 2], [3, 190]] ! i :: u64 list) = 2 \<and>
      (\<forall>x \<in> set ([[1, 2], [3, 190]] ! i). x < [97, 193 :: u64] ! i)"
    by (auto simp: less_Suc_eq)
  show ?thesis
    using mrp_ciphertext_round_trip [OF sim_openfhe_ok, of ?shape "[97, 193]" ?ctx
        "[[1, 2], [3, 190]]" 2 sim_env "\<lambda>p. p" sim_den demo] small sim_sound
    by (auto simp: kCopyModulus_def)
qed

section \<open>The hook\<close>

definition cache_ok :: "'cc openfhe \<Rightarrow> 'cc hook_ctx \<Rightarrow> 'cc ctx_cache \<Rightarrow> bool" where
  "cache_ok F hctx cache \<longleftrightarrow>
     (\<forall>ms c. cache ms = Some c \<longrightarrow> build_context F (hk_ring_dim hctx) ms = Some (Inr c))"

text \<open>The answer for a shape with nothing cached; a cache of built contexts never changes it.\<close>

definition context_choice ::
    "'cc openfhe \<Rightarrow> 'cc hook_ctx \<Rightarrow> CapturedShape \<Rightarrow> 'cc bridge_context option" where
  "context_choice F hctx shape =
     (case context_for_shape F hctx Map.empty shape of None \<Rightarrow> None | Some (c, _) \<Rightarrow> c)"

lemma context_for_shape_cached:
  assumes "cache_ok F hctx cache"
  shows "case context_for_shape F hctx cache shape of
      None \<Rightarrow> context_choice F hctx shape = None
    | Some (c, cache', logged) \<Rightarrow> c = context_choice F hctx shape \<and> cache_ok F hctx cache' \<and>
        (logged \<longleftrightarrow> c = None)"
  using assms
  by (auto simp: context_for_shape_def context_choice_def cache_ok_def
      split: list.split if_split option.split sum.split)

text \<open>What one record contributes by itself: whether it fails, and the file it writes.\<close>

definition record_result ::
    "'cc openfhe \<Rightarrow> 'cc hook_ctx \<Rightarrow> CapturedShape \<Rightarrow> u64 list list \<Rightarrow>
     (ciphertext \<Rightarrow> bool option) \<Rightarrow> (ciphertext \<Rightarrow> bridge_file) \<Rightarrow> bridge_file option" where
  "record_result F hctx shape vs write file =
     (case context_choice F hctx shape of
        None \<Rightarrow> None
      | Some ctx \<Rightarrow>
          (case synthesize_for_shape F ctx shape vs of
             None \<Rightarrow> None
           | Some ct \<Rightarrow> if write ct = Some True then Some (file ct) else None))"

definition opt_list :: "'a option \<Rightarrow> 'a list" where
  "opt_list x = (case x of None \<Rightarrow> [] | Some y \<Rightarrow> [y])"

lemma process_record_result:
  assumes "cache_ok F hctx (hs_cache st)"
    and "st' = process_record F hctx shape vs write file st"
  shows "cache_ok F hctx (hs_cache st')"
    and "hs_error st' \<longleftrightarrow> hs_error st \<or> record_result F hctx shape vs write file = None"
    and "hs_files st' = hs_files st @ opt_list (record_result F hctx shape vs write file)"
  using context_for_shape_cached [OF assms(1), of shape] assms
  by (auto simp: process_record_def record_result_def opt_list_def Let_def split: option.splits)

definition is_key :: "captured_input \<Rightarrow> bool" where
  "is_key rec \<longleftrightarrow> ci_name rec = ''evalmult_key'' \<or> ci_name rec = ''automorphism_key''"

definition input_result where
  "input_result F hctx rec = record_result F hctx (ci_shape rec) (ci_values rec)
     (\<lambda>ct. write_input_bin F (ci_name rec) ct (ci_addr_ids rec))
     (\<lambda>ct. InputBin (ci_name rec) ct (ci_addr_ids rec))"

definition output_result where
  "output_result F hctx = (\<lambda>(name, shape). record_result F hctx shape []
     (\<lambda>ct. write_template F name ct) (\<lambda>ct. Template name ct))"

lemma fold_inputs:
  assumes "cache_ok F hctx (hs_cache st)"
  shows "cache_ok F hctx (hs_cache (fold (process_input F hctx) ins st)) \<and>
    (hs_error (fold (process_input F hctx) ins st) \<longleftrightarrow> hs_error st \<or>
       (\<exists>rec \<in> set ins. \<not> is_key rec \<and> input_result F hctx rec = None)) \<and>
    hs_files (fold (process_input F hctx) ins st) = hs_files st @
       concat (map (\<lambda>rec. opt_list (input_result F hctx rec)) (filter (\<lambda>rec. \<not> is_key rec) ins))"
  using assms
proof (induction ins arbitrary: st)
  case (Cons rec ins)
  show ?case
  proof (cases "is_key rec")
    case True
    then have "process_input F hctx rec st = st" by (auto simp: process_input_def is_key_def)
    with Cons True show ?thesis by simp
  next
    case False
    then have p: "process_input F hctx rec st = process_record F hctx (ci_shape rec) (ci_values rec)
        (\<lambda>ct. write_input_bin F (ci_name rec) ct (ci_addr_ids rec))
        (\<lambda>ct. InputBin (ci_name rec) ct (ci_addr_ids rec)) st"
      by (simp add: process_input_def is_key_def)
    note r = process_record_result [OF Cons.prems p, folded input_result_def]
    from Cons.IH [OF r(1)] r(2,3) False show ?thesis by auto
  qed
qed simp

lemma fold_outputs:
  assumes "cache_ok F hctx (hs_cache st)"
  shows "cache_ok F hctx (hs_cache (fold (process_output F hctx) outs st)) \<and>
    (hs_error (fold (process_output F hctx) outs st) \<longleftrightarrow> hs_error st \<or>
       (\<exists>out \<in> set outs. output_result F hctx out = None)) \<and>
    hs_files (fold (process_output F hctx) outs st) = hs_files st @
       concat (map (\<lambda>out. opt_list (output_result F hctx out)) outs)"
  using assms
proof (induction outs arbitrary: st)
  case (Cons out outs)
  obtain name shape where out: "out = (name, shape)" by (cases out)
  have p: "process_output F hctx out st = process_record F hctx shape []
      (\<lambda>ct. write_template F name ct) (\<lambda>ct. Template name ct) st"
    by (simp add: process_output_def out)
  note r = process_record_result [OF Cons.prems p]
  have o: "output_result F hctx out = record_result F hctx shape []
      (\<lambda>ct. write_template F name ct) (\<lambda>ct. Template name ct)"
    by (simp add: output_result_def out)
  from Cons.IH [OF r(1)] r(2,3) show ?case by (auto simp: o)
qed simp

text \<open>
  The hook treats every record on its own. Whatever the serialisers, OpenFHE and the
  order of the records, the flag is raised exactly when it was raised before or some record
  (keys aside) cannot be routed, synthesised or written, and the files written are those of
  exactly the other records, in order: one failing record hides no other, and the context
  cache never changes a result.
\<close>

lemma on_post_recording_form:
  "on_post_recording F hctx ins outs flag =
     (flag \<or> (\<exists>rec \<in> set ins. \<not> is_key rec \<and> input_result F hctx rec = None) \<or>
        (\<exists>out \<in> set outs. output_result F hctx out = None),
      concat (map (\<lambda>rec. opt_list (input_result F hctx rec)) (filter (\<lambda>rec. \<not> is_key rec) ins)) @
      concat (map (\<lambda>out. opt_list (output_result F hctx out)) outs))"
proof -
  let ?st0 = "\<lparr>hs_cache = Map.empty, hs_error = flag, hs_files = []\<rparr>"
  have c0: "cache_ok F hctx (hs_cache ?st0)" by (simp add: cache_ok_def)
  note i = fold_inputs [OF c0, of ins]
  note o = fold_outputs [OF i [THEN conjunct1], of outs]
  show ?thesis using i o by (simp add: on_post_recording_def Let_def)
qed

text \<open>
  A residue of the wrong length is not reported. When the towers have ring dimension
  \<open>N\<close>, a captured single-residue value of any other length leads to the very ciphertext a
  template gets, the zero towers under the trace modulus, so the hook writes that as the
  input's data and raises no flag on its account.
\<close>

theorem wrong_length_writes_template:
  assumes "\<forall>np. np_ring_dim F np = N" and "cs_kind shape = SRP" and "length v \<noteq> N"
  shows "synthesize_for_shape F ctx shape [v] = synthesize_for_shape F ctx shape []"
proof -
  have "fill_native_poly F np v = np" for np using assms(1,3) by (simp add: fill_native_poly_def)
  then show ?thesis
    using assms(2)
    by (auto simp: synthesize_for_shape_def synthesize_haze_ciphertext_def Let_def split: option.split)
qed

theorem wrong_length_writes_template_witness:
  "synthesize_for_shape sim_openfhe \<lparr>cx_ring_dim = 2, cx_cc = 1\<rparr>
     \<lparr>cs_kind = SRP, cs_per_element_moduli = [[97]]\<rparr> [[5, 6, 7]] =
   Some [[\<lparr>np_values = [0, 0], np_format = Evaluation, np_modulus = 97\<rparr>]]"
proof -
  let ?shape = "\<lparr>cs_kind = SRP, cs_per_element_moduli = [[97]]\<rparr>"
  let ?ctx = "\<lparr>cx_ring_dim = 2, cx_cc = 1 :: nat\<rparr>"
  have "synthesize_for_shape sim_openfhe ?ctx ?shape [[5, 6, 7]] =
      synthesize_for_shape sim_openfhe ?ctx ?shape []"
    by (rule wrong_length_writes_template [where N = 2]) simp_all
  moreover have "synthesize_for_shape sim_openfhe ?ctx ?shape [] =
      Some [[\<lparr>np_values = [0, 0], np_format = Evaluation, np_modulus = 97\<rparr>]]"
    by code_simp
  ultimately show ?thesis by simp
qed

section \<open>Initialisation\<close>

lemma init_try_ok: "init_try th tr cs = (True, tr') \<Longrightarrow> tr' = tr @ cs"
  by (induction cs arbitrary: tr) (fastforce split: if_splits)+

text \<open>
  Initialisation succeeds only with a context built for the requested modulus; then the
  modulus reported is the first of its chain and installing the hook is the last call.
\<close>

lemma init_success:
  assumes "hazeReplayBridgeInitCryptoContext F th c rd q False = (HAZE_SUCCESS, picked, tr)"
  shows "\<exists>ctx. build_context F rd [q] = Some (Inr ctx) \<and> picked \<noteq> None \<and>
    picked = first_tower_modulus F (cx_cc ctx) \<and>
    last tr = InstallHook \<lparr>hk_ring_dim = rd, hk_primary = ctx\<rparr>"
  using assms
  by (auto simp: hazeReplayBridgeInitCryptoContext_def install_post_recording_hook_def
      dest!: init_try_ok split: prod.splits bool.splits option.splits sum.splits if_splits)
     (metis BridgeError.exhaust hazeError_t.distinct to_haze_error.simps)+

end
