(* ===== verification/Haze_Frame.thy ===== *)
theory Haze_Frame
  imports Haze_Inv
begin

text \<open>
  What recording leaves alone. \<open>records s s'\<close> says that \<open>s'\<close> comes from \<open>s\<close> by fhetch calls
  that build data or tag inputs: the trace grows by such calls only, shadows can only
  disappear (when they are promoted), and the rest of the allocator, the configuration, the
  recording state, the host memory and the last error are untouched. Every operation of the
  core that runs inside an epoch session is of this kind.
\<close>

fun data_call :: "('p, 'm) fh_call \<Rightarrow> bool" where
  "data_call (Compiler c) = False"
| "data_call (Tag (TagOutput n p)) = False"
| "data_call (Tag (TagOutputMrp n m)) = False"
| "data_call _ = True"

definition shrinks :: "allocator \<Rightarrow> allocator \<Rightarrow> bool" where
  "shrinks al al' \<longleftrightarrow> shadow_data al' \<subseteq>\<^sub>m shadow_data al \<and> alloc_set al' = alloc_set al \<and>
     pool_free al' = pool_free al \<and> host_set al' = host_set al \<and>
     poly_bytes al' = poly_bytes al \<and> next_addr al' = next_addr al"

definition records :: "('p, 'm) haze \<Rightarrow> ('p, 'm) haze \<Rightarrow> bool" where
  "records s s' \<longleftrightarrow>
     (\<exists>cs. hz_trace s' = hz_trace s @ cs \<and> (\<forall>c \<in> set cs. data_call c)) \<and>
     shrinks (hz_alloc s) (hz_alloc s') \<and> recording (hz_epoch s') = recording (hz_epoch s) \<and>
     hz_config s' = hz_config s \<and> hz_last_error s' = hz_last_error s \<and>
     hz_host s' = hz_host s \<and> hz_backend_initialized s' = hz_backend_initialized s \<and>
     hz_hook_had_error s' = hz_hook_had_error s"

lemma shrinks_refl [simp]: "shrinks al al"
  by (simp add: shrinks_def)

lemma shrinks_trans: "shrinks a b \<Longrightarrow> shrinks b c \<Longrightarrow> shrinks a c"
  by (auto simp: shrinks_def intro: map_le_trans)

lemma sized_shrinks: "sized al \<Longrightarrow> shrinks al al' \<Longrightarrow> sized al'"
  unfolding sized_def shrinks_def map_le_def want_elems_def by (metis domI)

lemma records_refl [simp]: "records s s"
  by (simp add: records_def)

lemma records_trans [trans]:
  assumes "records s t" and "records t u"
  shows "records s u"
proof -
  from assms(1) obtain cs where "hz_trace t = hz_trace s @ cs" "\<forall>c \<in> set cs. data_call c"
    unfolding records_def by blast
  moreover from assms(2) obtain ds where "hz_trace u = hz_trace t @ ds" "\<forall>c \<in> set ds. data_call c"
    unfolding records_def by blast
  ultimately have "hz_trace u = hz_trace s @ (cs @ ds) \<and> (\<forall>c \<in> set (cs @ ds). data_call c)"
    by auto
  with assms shrinks_trans [of "hz_alloc s" "hz_alloc t" "hz_alloc u"] show ?thesis
    unfolding records_def by auto
qed

lemma records_emit [intro]: "data_call c \<Longrightarrow> records s (fh_emit c s)"
  by (simp add: records_def)

lemma records_then_emit: "records s t \<Longrightarrow> data_call c \<Longrightarrow> records s (fh_emit c t)"
  by (erule records_trans) (rule records_emit)

lemma records_epoch [intro]:
  "recording (f (hz_epoch s)) = recording (hz_epoch s) \<Longrightarrow> records s (upd_epoch f s)"
  by (simp add: records_def)

lemma records_alloc: "shrinks (hz_alloc s) al \<Longrightarrow> records s (upd_alloc (\<lambda>_. al) s)"
  by (simp add: records_def)

lemma recordsD:
  assumes "records s s'"
  shows "hz_config s' = hz_config s" and "hz_last_error s' = hz_last_error s"
    and "hz_host s' = hz_host s" and "hz_backend_initialized s' = hz_backend_initialized s"
    and "hz_hook_had_error s' = hz_hook_had_error s"
    and "recording (hz_epoch s') = recording (hz_epoch s)"
    and "shrinks (hz_alloc s) (hz_alloc s')"
  using assms by (simp_all add: records_def)

section \<open>Resolving, storing, tagging\<close>

lemma records_store [intro]:
  "records s t \<Longrightarrow> records s (upd_epoch (store_compute_result_locked a p q) t)"
  by (erule records_trans) (rule records_epoch, simp add: store_compute_result_locked_def)

lemma shrinks_extract: "shrinks al (snd (extract_polynomial_components a rd al))"
  by (auto simp: shrinks_def frame_simps extract_polynomial_components_def Let_def map_le_def
      split: option.splits)

lemma records_lookup:
  assumes "lookup_or_create_locked E a s = (r, s')"
  shows "records s s'"
proof (cases "poly_map (hz_epoch s) a")
  case (Some p)
  with assms show ?thesis by (simp add: lookup_bound)
next
  case None
  obtain x al where x: "extract_polynomial_components a (cf_ring_dim (hz_config s)) (hz_alloc s) = (x, al)"
    by (cases "extract_polynomial_components a (cf_ring_dim (hz_config s)) (hz_alloc s)")
  then have "records s (upd_alloc (\<lambda>_. al) s)"
    using shrinks_extract [of "hz_alloc s" a "cf_ring_dim (hz_config s)"] by (intro records_alloc) simp
  also have "records (upd_alloc (\<lambda>_. al) s) s'"
  proof (cases x)
    case (Inl e)
    then show ?thesis using assms None x
      by (auto simp: lookup_or_create_locked_def cfg_ring_dim_def)
  next
    case (Inr v)
    then show ?thesis using assms None x
      by (auto simp: lookup_or_create_locked_def cfg_ring_dim_def fh_poly_def Let_def records_def)
  qed
  finally show ?thesis .
qed

lemma records_copy_result:
  assumes "copy_result_locked E dst src q s = (r, s')"
  shows "records s s'"
proof -
  obtain x s1 where l: "lookup_or_create_locked E src s = (x, s1)"
    by (cases "lookup_or_create_locked E src s")
  have "records s1 s'"
    using assms
    by (auto simp: copy_result_locked_def l fh_poly_def Let_def records_def
        store_compute_result_locked_def split: sum.splits if_splits)
  with records_lookup [OF l] show ?thesis by (rule records_trans)
qed

lemma records_tag_h2d: "tag_h2d_input_locked E a s = (r, s') \<Longrightarrow> records s s'"
  by (auto simp: tag_h2d_input_locked_def fh_poly_def Let_def records_def
      split: sum.splits if_splits)

lemma records_tag_mrp: "records s (tag_mrp_input_if_new_locked n m s)"
  by (auto simp: tag_mrp_input_if_new_locked_def records_def)

section \<open>Groups\<close>

lemma recording_evict [simp]: "recording (evict_mrp_group_locked n ep) = recording ep"
  by (simp add: evict_mrp_group_locked_def split: option.split)

lemma recording_evict_all:
  "recording (foldl (\<lambda>e n. evict_mrp_group_locked n e) ep ns) = recording ep"
  by (induction ns arbitrary: ep) simp_all

lemma recording_emplace_all [simp]:
  "recording (foldl (\<lambda>e a. emplace_output a e) ep as) = recording ep"
  by (induction as arbitrary: ep) simp_all

lemma recording_conflict:
  "recording (foldl (\<lambda>e m. if m \<noteq> n then evict_mrp_group_locked m e else e) ep ns) = recording ep"
  by (induction ns arbitrary: ep) simp_all

lemma recording_conflicts [simp]: "recording (foldl (evict_conflicts n) ep as) = recording ep"
  by (induction as arbitrary: ep)
     (simp_all add: evict_conflicts_def recording_conflict split: option.split)

lemma recording_register:
  "register_mrp_output_group_locked as ms n ep = (r, ep') \<Longrightarrow> recording ep' = recording ep"
  by (auto simp: register_mrp_output_group_locked_def Let_def split: if_splits option.splits)

lemma recording_group_name:
  "mrp_group_name_locked out a ep = (n, ep') \<Longrightarrow> recording ep' = recording ep"
  by (auto simp: mrp_group_name_locked_def Let_def split: if_splits option.splits)

lemma records_build_pairs: "build_pairs E ps s = (r, s') \<Longrightarrow> records s s'"
proof (induction ps arbitrary: s r s')
  case Nil
  then show ?case by simp
next
  case (Cons x ps)
  obtain ptr q where x: "x = (ptr, q)" by (cases x)
  obtain l s1 where l: "lookup_or_create_locked E (to_dev_addr ptr) s = (l, s1)"
    by (cases "lookup_or_create_locked E (to_dev_addr ptr) s")
  obtain y s2 where y: "build_pairs E ps s1 = (y, s2)" by (cases "build_pairs E ps s1")
  have "s' = s1 \<or> s' = s2" using Cons.prems by (auto simp: x l y split: sum.splits)
  with records_lookup [OF l] Cons.IH [OF y] show ?case by (auto intro: records_trans)
qed

lemma records_group_name:
  "mrp_group_name_locked out a (hz_epoch s) = (n, ep) \<Longrightarrow> records s (upd_epoch (\<lambda>_. ep) s)"
  by (rule records_epoch) (rule recording_group_name)

lemma records_build_mrp:
  assumes "build_mrp_locked E polys base s = (r, s')"
  shows "records s s'"
proof -
  obtain x s1 where b: "build_pairs E (zip polys base) s = (x, s1)"
    by (cases "build_pairs E (zip polys base) s")
  obtain n ep where n: "mrp_group_name_locked False (to_dev_addr (hd polys)) (hz_epoch s1) = (n, ep)"
    by (cases "mrp_group_name_locked False (to_dev_addr (hd polys)) (hz_epoch s1)")
  have "s' = s1 \<or> (\<exists>m. s' = tag_mrp_input_if_new_locked n m (upd_epoch (\<lambda>_. ep) s1))"
    using assms by (auto simp: build_mrp_locked_def b n Let_def split: sum.splits if_splits)
  with records_build_pairs [OF b] records_group_name [OF n] records_tag_mrp show ?thesis
    by (metis records_trans)
qed

lemma records_register_outputs:
  assumes "register_outputs addrs base s = (r, s')"
  shows "records s s'"
proof -
  obtain n ep where n: "mrp_group_name_locked True (hd addrs) (hz_epoch s) = (n, ep)"
    by (cases "mrp_group_name_locked True (hd addrs) (hz_epoch s)")
  obtain r1 ep1 where g: "register_mrp_output_group_locked addrs base n ep = (r1, ep1)"
    by (cases "register_mrp_output_group_locked addrs base n ep")
  have "s' = s \<or> s' = upd_epoch (\<lambda>_. ep1) s"
    using assms by (auto simp: register_outputs_def n g split: if_splits)
  with recording_group_name [OF n] recording_register [OF g] show ?thesis by auto
qed

lemma records_store_residues: "records s (store_residues E m ps s)"
proof (induction ps arbitrary: s)
  case (Cons x ps)
  obtain ptr q where x: "x = (ptr, q)" by (cases x)
  have "records s (upd_epoch (store_compute_result_locked (to_dev_addr ptr) (mrp_at E m q) q) s)"
    by (rule records_store) simp
  with Cons.IH show ?case by (simp add: x) (metis records_trans)
qed simp

lemma records_store_mrp:
  "store_mrp_locked E dst m base s = (r, s') \<Longrightarrow> records s s'"
  unfolding store_mrp_eq
  by (rule records_trans [OF records_store_residues records_register_outputs])

lemma records_copy_residues: "copy_residues E ps s = (r, s') \<Longrightarrow> records s s'"
proof (induction ps arbitrary: s)
  case (Cons x ps)
  obtain d h q where x: "x = (d, h, q)" by (cases x)
  obtain l s1 where l: "copy_result_locked E (to_dev_addr d) (to_dev_addr h) q s = (l, s1)"
    by (cases "copy_result_locked E (to_dev_addr d) (to_dev_addr h) q s")
  have "s' = s1 \<or> copy_residues E ps s1 = (r, s')"
    using Cons.prems by (auto simp: x l split: sum.splits)
  with records_copy_result [OF l] Cons.IH [of s1] show ?case by (auto intro: records_trans)
qed simp

lemma records_h2d_tags: "h2d_tags E ds s = (r, s') \<Longrightarrow> records s s'"
proof (induction ds arbitrary: s)
  case (Cons d ds)
  obtain l s1 where l: "tag_h2d_input_locked E (to_dev_addr d) s = (l, s1)"
    by (cases "tag_h2d_input_locked E (to_dev_addr d) s")
  have "s' = s1 \<or> h2d_tags E ds s1 = (r, s')"
    using Cons.prems by (auto simp: l split: sum.splits)
  with records_tag_h2d [OF l] Cons.IH [of s1] show ?case by (auto intro: records_trans)
qed simp

lemma records_mod_up_digits:
  "mod_up_digits E dst x tb d ds s = (r, s') \<Longrightarrow> records s s'"
proof (induction ds arbitrary: s d)
  case (Cons b ds)
  let ?s1 = "fh_emit (MrSubset x b) s"
  let ?c = "FastBaseConvert (mrp_of E (hz_trace s) (MrSubset x b)) tb (fbc_variant (hz_config ?s1))
    (fbc_center_shape (hz_config ?s1))"
  let ?digit = "mrp_of E (hz_trace ?s1) ?c"
  obtain l s3 where l: "store_mrp_locked E (drop (d * length (mrp_base E ?digit)) dst) ?digit
      (mrp_base E ?digit) (fh_emit ?c ?s1) = (l, s3)" by (rule prod.exhaust)
  have "s' = s3 \<or> mod_up_digits E dst x tb (Suc d) ds s3 = (r, s')"
    using Cons.prems l by (auto simp: fh_mrp_def Let_def split: sum.splits)
  moreover have "records s ?s1" and "records ?s1 (fh_emit ?c ?s1)" by auto
  ultimately show ?case using records_store_mrp [OF l] Cons.IH by (metis records_trans)
qed simp

section \<open>Operations\<close>

text \<open>An operation that may fail before it opens a session, and records otherwise.\<close>

definition in_session :: "('p, 'm) fh_env \<Rightarrow> ('p, 'm) haze \<Rightarrow> ('p, 'm) haze \<Rightarrow> bool" where
  "in_session E s s' \<longleftrightarrow> s' = s \<or> records (open_session E s) s'"

lemma in_sessionI: "records (open_session E s) s' \<Longrightarrow> in_session E s s'"
  by (simp add: in_session_def)

lemmas records_dests = records_lookup records_build_mrp records_store_mrp records_copy_result
  records_tag_h2d records_mod_up_digits

lemmas records_builds = records_store records_then_emit

lemma in_session_sr:
  "in_session E s (snd (binary_pp_op E f1 d a b i s))"
  "in_session E s (snd (binary_ps_op E f2 d a x i s))"
  "in_session E s (snd (unary_pq_op E f3 d a i s))"
  "in_session E s (snd (unary_pi_op E d a x s))"
  by (rule in_sessionI; auto simp: binary_pp_op_def binary_ps_op_def unary_pq_op_def unary_pi_op_def
      fh_poly_def Let_def dest!: records_dests split: sum.splits prod.splits if_splits
      intro!: records_builds intro: records_trans)+

lemma in_session_copies:
  "in_session E s (snd (copy_device_to_device E d a n s))"
  "in_session E s (snd (tag_h2d_input E a s))"
  by (rule in_sessionI; auto simp: copy_device_to_device_def tag_h2d_input_def
      intro: records_copy_result records_tag_h2d prod.collapse [symmetric])+

lemma records_then_store_mrp:
  "records s t \<Longrightarrow> records s (snd (store_mrp_locked E d m b t))"
  by (erule records_trans) (rule records_store_mrp, rule prod.collapse [symmetric])

lemma records_then_digits:
  "records s t \<Longrightarrow> records s (snd (mod_up_digits E dst x tb d ds t))"
  by (erule records_trans) (rule records_mod_up_digits, rule prod.collapse [symmetric])

lemma records_then_register:
  "records s t \<Longrightarrow> records s (snd (register_outputs as b t))"
  by (erule records_trans) (rule records_register_outputs, rule prod.collapse [symmetric])

lemma in_session_mr:
  "in_session E s (snd (binary_pp_op_mrp E f4 ds as1 as2 bs s))"
  "in_session E s (snd (binary_ps_op_mrp E f5 ds as1 xs bs s))"
  "in_session E s (snd (unary_p_op_mrp E f6 ds as1 bs s))"
  "in_session E s (snd (unary_pi_op_mrp E f7 ds as1 x bs s))"
  by (rule in_sessionI; auto simp: binary_pp_op_mrp_def binary_ps_op_mrp_def unary_p_op_mrp_def
      unary_pi_op_mrp_def fh_mrp_def dest!: records_dests split: sum.splits prod.splits
      intro!: records_then_store_mrp records_builds intro: records_trans)+

lemma in_session_d2d_mrp: "in_session E s (snd (copy_device_to_device_mrp E ds as1 bs s))"
  by (rule in_sessionI; auto simp: copy_device_to_device_mrp_def
      dest!: records_copy_residues split: sum.splits prod.splits intro!: records_then_register)

lemma in_session_basis:
  "in_session E s (snd (basis_convert E ds as1 p1 s))"
  "in_session E s (snd (mod_down E ds as1 p2 s))"
  "mod_up E ds as1 p3 s = Some (r, s') \<Longrightarrow> in_session E s s'"
  by (auto simp: basis_convert_def mod_down_def mod_up_def fh_mrp_def Let_def in_session_def
      dest!: records_dests split: sum.splits prod.splits option.splits
      intro!: records_then_store_mrp records_builds intro: records_trans)

lemmas in_session_core = in_session_sr in_session_copies in_session_mr in_session_d2d_mrp
  in_session_basis(1,2)

end
