(* ===== verification/Haze_Protocol.thy ===== *)
theory Haze_Protocol
  imports Haze_Frame Haze_System
begin

text \<open>
  The protocol the library keeps with the compiler: which calls it may make in which phase of
  the compiler's life. \<open>proto_call\<close> is the automaton; it consults the environment for the
  calls that may throw. The trace of every reachable state is a run of the automaton that ends
  in the phase the library's own flags say it is in.
\<close>

section \<open>The automaton\<close>

text \<open>
  \<open>Down\<close>: not initialised; \<open>Starting\<close>: the compiler has been initialised, the settings follow;
  \<open>Idle\<close>: no epoch; \<open>Armed\<close>: an epoch has been opened but not started; \<open>Rec\<close>: recording;
  \<open>Halted\<close>: stopped; \<open>Replayed\<close>: replayed, results may be read back; \<open>Failed\<close>: the stop or the
  replay failed, nothing is left but to clear.
\<close>

datatype phase = Down | Starting | Idle | Armed | Rec | Halted | Replayed | Failed

definition may_throw ::
    "('p, 'm) fh_env \<Rightarrow> ('p, 'm) trace \<Rightarrow> compiler_call \<Rightarrow> phase \<Rightarrow> phase option" where
  "may_throw E h c ph = Some (if throws E h (Compiler c) then Down else ph)"

definition compiler_step ::
    "('p, 'm) fh_env \<Rightarrow> ('p, 'm) trace \<Rightarrow> phase \<Rightarrow> compiler_call \<Rightarrow> phase option" where
  "compiler_step E h ph c =
     (case c of
        CompilerInit argv \<Rightarrow> if ph = Down then may_throw E h c Starting else None
      | SetProgramInfo n v d \<Rightarrow> if ph = Starting then may_throw E h c Starting else None
      | SetProgramDirectory d \<Rightarrow> if ph = Starting then may_throw E h c Starting else None
      | SuppressProbes k \<Rightarrow> if ph = Starting then may_throw E h c Idle else None
      | CompilerStartEpoch \<Rightarrow> if ph = Idle then Some Armed else None
      | CompilerStart \<Rightarrow> if ph = Armed then Some Rec else None
      | CompilerStop \<Rightarrow> 
          if ph = Rec then Some (if bool_of E h (Compiler c) then Halted else Failed) else None
      | CompilerReplay \<Rightarrow> 
          if ph = Halted
          then Some (if bool_of E h (Compiler c) \<and> \<not> throws E h (Compiler c) then Replayed else Failed)
          else None
      | ClearCaptured \<Rightarrow>
          if ph = Down then Some Down
          else if ph \<noteq> Starting \<and> ph \<noteq> Armed then Some Idle else None
      | CompilerReset \<Rightarrow> if ph = Down \<or> ph = Idle then Some Down else None)"

text \<open>
  Data is built and inputs are tagged while recording, or while the compiler is down; outputs
  are tagged while recording only; reading a result back builds it with \<open>from_data\<close>, after the
  replay.
\<close>

definition proto_call ::
    "('p, 'm) fh_env \<Rightarrow> ('p, 'm) trace \<Rightarrow> phase \<Rightarrow> ('p, 'm) fh_call \<Rightarrow> phase option" where
  "proto_call E h ph c =
     (case c of
        Compiler k \<Rightarrow> compiler_step E h ph k
      | FromData v n f \<Rightarrow> if ph = Rec \<or> ph = Down \<or> ph = Replayed then Some ph else None
      | _ \<Rightarrow> if ph = Rec \<or> ph = Down \<and> data_call c then Some ph else None)"

fun proto_run ::
    "('p, 'm) fh_env \<Rightarrow> ('p, 'm) trace \<Rightarrow> phase \<Rightarrow> ('p, 'm) trace \<Rightarrow> phase option" where
  "proto_run E h ph [] = Some ph"
| "proto_run E h ph (c # cs) =
     (case proto_call E h ph c of None \<Rightarrow> None | Some ph' \<Rightarrow> proto_run E (h @ [c]) ph' cs)"

lemma proto_run_append:
  "proto_run E h ph (cs @ ds) =
   (case proto_run E h ph cs of None \<Rightarrow> None | Some ph' \<Rightarrow> proto_run E (h @ cs) ph' ds)"
  by (induction cs arbitrary: h ph) (simp_all split: option.split)

lemma proto_run_snoc:
  "proto_run E [] Down h = Some ph \<Longrightarrow> proto_run E [] Down (h @ [c]) = proto_call E h ph c"
  by (simp add: proto_run_append split: option.split)

lemma data_call_stays:
  "data_call c \<Longrightarrow> ph = Rec \<or> ph = Down \<Longrightarrow> proto_call E h ph c = Some ph"
  by (cases c rule: data_call.cases) (auto simp: proto_call_def)

lemma data_calls_stay:
  "\<forall>c \<in> set cs. data_call c \<Longrightarrow> ph = Rec \<or> ph = Down \<Longrightarrow> proto_run E h ph cs = Some ph"
  by (induction cs arbitrary: h) (simp_all add: data_call_stays)

section \<open>Conformance\<close>

definition phase_of :: "('p, 'm) haze \<Rightarrow> phase" where
  "phase_of s = (if \<not> hz_backend_initialized s then Down
                 else if recording (hz_epoch s) then Rec else Idle)"

definition conforms :: "('p, 'm) fh_env \<Rightarrow> ('p, 'm) haze \<Rightarrow> bool" where
  "conforms E s \<longleftrightarrow> proto_run E [] Down (hz_trace s) = Some (phase_of s) \<and>
     (recording (hz_epoch s) \<longrightarrow> hz_backend_initialized s)"

definition same_phase :: "('p, 'm) haze \<Rightarrow> ('p, 'm) haze \<Rightarrow> bool" where
  "same_phase s s' \<longleftrightarrow> hz_trace s' = hz_trace s \<and>
     hz_backend_initialized s' = hz_backend_initialized s \<and>
     recording (hz_epoch s') = recording (hz_epoch s)"

lemma same_phase_refl [simp]: "same_phase s s"
  by (simp add: same_phase_def)

lemma conforms_same_phase: "conforms E s \<Longrightarrow> same_phase s s' \<Longrightarrow> conforms E s'"
  by (simp add: conforms_def same_phase_def phase_of_def)

lemma conforms_init: "conforms E (haze_init hm)"
  by (simp add: conforms_def haze_init_def phase_of_def epoch_init_def)

lemma conforms_records:
  assumes "conforms E s" and "records s s'" and "phase_of s \<noteq> Idle"
  shows "conforms E s'"
proof -
  from assms(2) obtain cs where cs: "hz_trace s' = hz_trace s @ cs" "\<forall>c \<in> set cs. data_call c"
    unfolding records_def by blast
  have p: "phase_of s' = phase_of s"
    using recordsD [OF assms(2)] by (simp add: phase_of_def)
  have "phase_of s = Rec \<or> phase_of s = Down"
    using assms(3) by (auto simp: phase_of_def split: if_splits)
  from data_calls_stay [OF cs(2) this] assms(1) show ?thesis
    using recordsD [OF assms(2)] by (simp add: conforms_def cs(1) proto_run_append p)
qed

lemma proto_run_init:
  assumes "fh_try E (init_calls c) s = (ok, s')"
    and "proto_run E [] Down (hz_trace s) = Some Down"
  shows "proto_run E [] Down (hz_trace s') = Some (if ok then Idle else Down)"
  using assms
  by (auto simp: init_calls_def proto_run_append proto_call_def compiler_step_def may_throw_def
      split: if_splits)

lemma conforms_initialized:
  assumes "conforms E s" and "ensure_initialized E s = (ok, s')"
  shows "conforms E s'"
proof (cases "hz_backend_initialized s")
  case True
  with assms show ?thesis by (simp add: ensure_initialized_def)
next
  case False
  obtain ok1 s1 where t: "fh_try E (init_calls (hz_config s)) s = (ok1, s1)"
    by (cases "fh_try E (init_calls (hz_config s)) s")
  have fr: "hz_epoch s1 = hz_epoch s" "hz_backend_initialized s1 = False"
    using fh_try_frame [of E "init_calls (hz_config s)" s] t False by simp_all
  have run: "proto_run E [] Down (hz_trace s1) = Some (if ok1 then Idle else Down)"
    using assms(1) False by (intro proto_run_init [OF t]) (simp add: conforms_def phase_of_def)
  have rec: "\<not> recording (hz_epoch s)" using assms(1) False by (simp add: conforms_def)
  show ?thesis
    using assms False run fr rec
    by (auto simp: ensure_initialized_def Let_def t conforms_def phase_of_def split: if_splits bool.splits)
qed

lemma open_session_phase:
  assumes "conforms E s"
  shows "conforms E (open_session E s)" and "phase_of (open_session E s) \<noteq> Idle"
proof -
  obtain ok s1 where i: "ensure_initialized E s = (ok, s1)" by (cases "ensure_initialized E s")
  have c: "conforms E s1" by (rule conforms_initialized [OF assms i])
  show "conforms E (open_session E s)"
    using c by (auto simp: open_session_def i ensure_recording_locked_def is_initialized_def
        start_recording_def Let_def conforms_def phase_of_def proto_run_append proto_call_def
          compiler_step_def split: option.splits)
  show "phase_of (open_session E s) \<noteq> Idle"
    by (auto simp: open_session_def i ensure_recording_locked_def is_initialized_def
        start_recording_def Let_def phase_of_def)
qed

lemma conforms_in_session: "conforms E s \<Longrightarrow> in_session E s s' \<Longrightarrow> conforms E s'"
  unfolding in_session_def
  using open_session_phase conforms_records by blast

section \<open>Finalising\<close>

text \<open>The trace grows by calls of one kind; the phase flags stay.\<close>

definition grows :: "(('p, 'm) fh_call \<Rightarrow> bool) \<Rightarrow> ('p, 'm) haze \<Rightarrow> ('p, 'm) haze \<Rightarrow> bool" where
  "grows P s s' \<longleftrightarrow> (\<exists>cs. hz_trace s' = hz_trace s @ cs \<and> (\<forall>c \<in> set cs. P c)) \<and>
     hz_backend_initialized s' = hz_backend_initialized s \<and>
     recording (hz_epoch s') = recording (hz_epoch s)"

lemma grows_refl [simp]: "grows P s s"
  by (simp add: grows_def)

lemma grows_same: "same_phase s s' \<Longrightarrow> grows P s s'"
  by (simp add: grows_def same_phase_def)

lemma grows_emit: "P c \<Longrightarrow> grows P s (fh_emit c s)"
  by (simp add: grows_def)

lemma grows_trans:
  assumes "grows P s t" and "grows P t u"
  shows "grows P s u"
proof -
  from assms obtain cs ds where "hz_trace t = hz_trace s @ cs" "\<forall>c \<in> set cs. P c"
    "hz_trace u = hz_trace t @ ds" "\<forall>c \<in> set ds. P c"
    unfolding grows_def by blast
  then have "hz_trace u = hz_trace s @ (cs @ ds) \<and> (\<forall>c \<in> set (cs @ ds). P c)" by auto
  with assms show ?thesis unfolding grows_def by metis
qed

lemma grows_emit_then: "grows P (fh_emit c s) t \<Longrightarrow> P c \<Longrightarrow> grows P s t"
  by (rule grows_trans [OF grows_emit])

fun output_tag :: "('p, 'm) fh_call \<Rightarrow> bool" where
  "output_tag (Tag (TagOutput n p)) = True"
| "output_tag (Tag (TagOutputMrp n m)) = True"
| "output_tag _ = False"

fun from_data_call :: "('p, 'm) fh_call \<Rightarrow> bool" where
  "from_data_call (FromData v n f) = True"
| "from_data_call _ = False"

lemma grows_tag_srp: "tag_srp_outputs outs s = (r, s') \<Longrightarrow> grows output_tag s s'"
proof (induction outs s rule: tag_srp_outputs.induct)
  case (2 addr name outs s)
  then show ?case
    by (auto split: option.splits dest: grows_emit_then)
qed simp

lemma grows_tag_mrp: "tag_mrp_outputs E ns s = (r, s') \<Longrightarrow> grows output_tag s s'"
proof (induction E ns s rule: tag_mrp_outputs.induct)
  case (2 E name names s)
  then show ?case
    by (simp split: option.splits sum.splits) (metis grows_emit_then output_tag.simps(2))+
qed simp

lemma grows_tag_pending:
  assumes "tag_pending_outputs_locked E s = (r, s')"
  shows "grows output_tag s s'"
proof -
  obtain x s1 where x: "tag_srp_outputs (pending_outputs (hz_epoch s)) s = (x, s1)"
    by (cases "tag_srp_outputs (pending_outputs (hz_epoch s)) s")
  have "s' = s1 \<or> tag_mrp_outputs E (pending_mrp_groups (hz_epoch s)) s1 = (r, s')"
    using assms by (auto simp: tag_pending_outputs_locked_def x split: sum.splits)
  with grows_tag_srp [OF x] grows_tag_mrp show ?thesis by (metis grows_trans)
qed

lemma grows_result: "grows from_data_call s (snd (fhetch_result E n s))"
  by (auto simp: fhetch_result_def fh_poly_def Let_def split: option.split intro: grows_emit)

lemma grows_populate: "grows from_data_call s (snd (populate_shadows E outs s))"
proof (induction outs arbitrary: s)
  case (Cons x outs)
  obtain a n where x: "x = (a, n)" by (cases x)
  obtain r s1 where r: "fhetch_result E n s = (r, s1)" by (cases "fhetch_result E n s")
  have g: "grows from_data_call s s1" using grows_result [of s E n] r by simp
  moreover have "grows from_data_call s1 (upd_alloc f s1)" for f
    by (rule grows_same) (simp add: same_phase_def)
  ultimately have u: "grows from_data_call s (upd_alloc f s1)" for f by (metis grows_trans)
  then have "grows from_data_call s (snd (populate_shadows E outs (upd_alloc f s1)))" for f
    using Cons.IH by (metis grows_trans)
  with u g show ?case
    by (auto simp: x r split: option.split prod.split sum.split)
qed simp

lemma proto_output_tag: "output_tag c \<Longrightarrow> proto_call E h Rec c = Some Rec"
  by (cases c rule: output_tag.cases) (auto simp: proto_call_def)

lemma proto_from_data: "from_data_call c \<Longrightarrow> proto_call E h Replayed c = Some Replayed"
  by (cases c rule: from_data_call.cases) (auto simp: proto_call_def)

lemma proto_run_stays:
  "\<forall>c \<in> set cs. P c \<Longrightarrow> (\<And>c h. P c \<Longrightarrow> proto_call E h ph c = Some ph) \<Longrightarrow>
   proto_run E h ph cs = Some ph"
  by (induction cs arbitrary: h) simp_all

lemma grows_run:
  assumes "grows P s s'" and "\<And>c h. P c \<Longrightarrow> proto_call E h ph c = Some ph"
    and "proto_run E [] Down (hz_trace s) = Some ph"
  shows "proto_run E [] Down (hz_trace s') = Some ph"
  using assms(1,3) proto_run_stays [of _ P E ph, OF _ assms(2)]
  unfolding grows_def by (auto simp: proto_run_append)

text \<open>Clearing the epoch closes a recording or a stopped epoch.\<close>

lemma conforms_clear:
  assumes "proto_run E [] Down (hz_trace s) = Some ph"
    and "ph \<in> {Idle, Rec, Halted, Replayed, Failed}" and "hz_backend_initialized s"
  shows "conforms E (clear_state_locked s)"
  using assms
  by (auto simp: clear_state_locked_def conforms_def phase_of_def proto_run_append
      proto_call_def compiler_step_def)

lemma conforms_materialize:
  assumes "proto_run E [] Down (hz_trace s) = Some Rec" and "hz_backend_initialized s"
    and "recording (hz_epoch s)"
  shows "conforms E (snd (do_materialize_locked E b s))"
proof -
  obtain ok s1 where st: "stop_epoch E s = (ok, s1)" by (cases "stop_epoch E s")
  have tr1: "hz_trace s1 = hz_trace s @ [Compiler CompilerStop]" and i1: "hz_backend_initialized s1"
    and e1: "hz_epoch s1 = hz_epoch s"
    using st assms(2) by (auto simp: stop_epoch_def fh_bool_def)
  have run1: "proto_run E [] Down (hz_trace s1) = Some (if ok then Halted else Failed)"
    using assms(1) st by (simp add: tr1 proto_run_append proto_call_def compiler_step_def)
      (simp add: stop_epoch_def fh_bool_def)
  have halted: "conforms E (clear_state_locked t)"
    if "proto_run E [] Down (hz_trace t) \<in> {Some Halted, Some Replayed, Some Failed}" and "hz_backend_initialized t" for t
    using that conforms_clear [of E t] by auto
  define s2 where "s2 = s1\<lparr>hz_hook_had_error := False\<rparr>"
  have run2: "proto_run E [] Down (hz_trace s2) = Some (if ok then Halted else Failed)" and i2: "hz_backend_initialized s2"
    using run1 i1 by (simp_all add: s2_def)
  obtain ok3 s3 where rp: "backend_replay E s2 = (ok3, s3)" by (cases "backend_replay E s2")
  have run3: "ok \<Longrightarrow> proto_run E [] Down (hz_trace s3) = Some (if ok3 then Replayed else Failed)"
    and i3: "hz_backend_initialized s3"
    using rp run2 i2
    by (auto simp: backend_replay_def fh_bool_def proto_run_append proto_call_def
        compiler_step_def split: if_splits)
  obtain r4 s4 where pp: "populate_shadows E (pending_outputs (hz_epoch s3)) s3 = (r4, s4)"
    by (cases "populate_shadows E (pending_outputs (hz_epoch s3)) s3")
  have g: "grows from_data_call s3 s4"
    using grows_populate [of s3 E "pending_outputs (hz_epoch s3)"] pp by simp
  have run4: "proto_run E [] Down (hz_trace s4) = Some Replayed" if ok ok3
    using run3 that by (intro grows_run [OF g proto_from_data]) simp_all
  have i4: "hz_backend_initialized s4" using g i3 by (simp add: grows_def)
  show ?thesis
    using assms(3) halted [of s1] halted [of s2] halted [of s3] halted [of s4]
      run1 i1 run2 i2 run3 i3 run4 i4
    by (cases ok; cases ok3; cases r4) (auto simp: do_materialize_locked_def st hazeReplayBridgeTakeHookHadError_def
        s2_def [symmetric] rp pp split: bool.split sum.split)
qed

lemma conforms_finalize:
  assumes "conforms E s"
  shows "conforms E (snd (finalize_locked E b s))"
proof (cases "recording (hz_epoch s)")
  case False
  with assms show ?thesis by (simp add: finalize_locked_def)
next
  case True
  then have i: "hz_backend_initialized s" and run: "proto_run E [] Down (hz_trace s) = Some Rec"
    using assms by (auto simp: conforms_def phase_of_def)
  obtain r s1 where tp: "tag_pending_outputs_locked E s = (r, s1)"
    by (cases "tag_pending_outputs_locked E s")
  note g = grows_tag_pending [OF tp]
  have run1: "proto_run E [] Down (hz_trace s1) = Some Rec"
    by (rule grows_run [OF g proto_output_tag run])
  have f1: "hz_backend_initialized s1" "recording (hz_epoch s1)"
    using g i True by (simp_all add: grows_def)
  have "conforms E s1" using run1 f1 by (simp add: conforms_def phase_of_def)
  with True conforms_materialize [OF run1 f1] conforms_clear [OF run _ i] show ?thesis
    by (simp add: finalize_locked_def tp split: sum.split)
qed

section \<open>Entry points that stay outside the compiler\<close>

lemma same_phase_trans: "same_phase s t \<Longrightarrow> same_phase t u \<Longrightarrow> same_phase s u"
  by (simp add: same_phase_def)

lemma same_phase_simps [simp]:
  "same_phase s (t\<lparr>hz_last_error := e\<rparr>) \<longleftrightarrow> same_phase s t"
  "same_phase s (t\<lparr>hz_host := hm\<rparr>) \<longleftrightarrow> same_phase s t"
  "same_phase s (t\<lparr>hz_config := c\<rparr>) \<longleftrightarrow> same_phase s t"
  "same_phase s (t\<lparr>hz_alloc := al\<rparr>) \<longleftrightarrow> same_phase s t"
  "same_phase s (t\<lparr>hz_active_device := i\<rparr>) \<longleftrightarrow> same_phase s t"
  "same_phase s (t\<lparr>hz_next_stream_id := n\<rparr>) \<longleftrightarrow> same_phase s t"
  "same_phase s (t\<lparr>hz_next_event_id := n\<rparr>) \<longleftrightarrow> same_phase s t"
  "same_phase s (upd_alloc f t) \<longleftrightarrow> same_phase s t"
  by (simp_all add: same_phase_def)

lemma same_phase_api [simp]:
  "same_phase s (snd (api_error e t)) \<longleftrightarrow> same_phase s t"
  "same_phase s (snd (api_result p)) \<longleftrightarrow> same_phase s (snd p)"
  by (simp_all add: api_error_def api_result_def set_error_def split: prod.split)

lemma recording_invalidate [simp]: "recording (invalidate a ep) = recording ep"
  by (simp add: invalidate_def recording_evict_all Let_def split: option.split)

lemma same_phase_invalidate [simp]: "same_phase s (upd_epoch (invalidate a) t) \<longleftrightarrow> same_phase s t"
  by (simp add: same_phase_def)

lemma same_phase_invalidates:
  "same_phase s (foldl (\<lambda>s p. if p \<noteq> 0 then upd_epoch (invalidate (to_dev_addr p)) s else s) t ps)
   \<longleftrightarrow> same_phase s t"
  by (induction ps arbitrary: t) simp_all

lemma same_phase_alloc [simp]: "same_phase s (snd (api_alloc f t)) \<longleftrightarrow> same_phase s t"
  by (simp add: api_alloc_def split: prod.split)

lemma recording_tag_output: "recording (snd (tag_output_locked a ep)) = recording ep"
proof -
  have "recording (foldl (\<lambda>e n. (case known_mrp_groups e n of None \<Rightarrow> e
      | Some g \<Rightarrow> let e1 = foldl (\<lambda>e a. emplace_output a e) e (mg_addrs g)
          in e1\<lparr>pending_mrp_groups := ls_insert n (pending_mrp_groups e1)\<rparr>)) ep ns) = recording ep" for ns
    by (induction ns arbitrary: ep) (simp_all add: Let_def split: option.split)
  then show ?thesis by (simp add: tag_output_locked_def split: option.split)
qed

lemma same_phase_tag [simp]: "same_phase s (snd (tag_output a t)) \<longleftrightarrow> same_phase s t"
  using recording_tag_output [of a "hz_epoch t"]
  by (cases "tag_output_locked a (hz_epoch t)") (simp add: tag_output_def same_phase_def)

lemma same_phase_release:
  "same_phase s (snd (hazeFree p s))"
  "same_phase s (snd (hazeFreeMrp ps s))"
  "same_phase s (snd (hazeTagOutput p s))"
  by (simp_all add: hazeFree_def hazeFreeMrp_def hazeTagOutput_def Let_def same_phase_invalidates
      split: option.split)

lemma same_phase_memory:
  "same_phase s (snd (hazeMalloc b n s))"
  "same_phase s (snd (hazeMallocMrp b c n s))"
  "same_phase s (snd (hazeHostAlloc got b n s))"
  "same_phase s (snd (hazeFreeHost p s))"
  "same_phase s (snd (hazePointerGetAttributes b p s))"
  "same_phase s (snd (hazeMemset p v n s))"
  by (auto simp: hazeMalloc_def hazeMallocMrp_def hazeHostAlloc_def hazeFreeHost_def
      hazePointerGetAttributes_def hazeMemset_def api_alloc_def api_error_def api_result_def
      set_error_def split: prod.split sum.split option.split)

lemma same_phase_settings:
  "same_phase s (snd (hazeSetRingDimension n s))"
  "same_phase s (snd (hazeSetCiphertextModulus i q s))"
  "same_phase s (snd (hazeSetTwiddleFactors i q s))"
  "same_phase s (snd (hazeConfigureDevice s))"
  "same_phase s (snd (hazeSetProgramInfo na ve de s))"
  "same_phase s (snd (hazeSetTarget t s))"
  "same_phase s (snd (hazeSetProgramDirectory t s))"
  "same_phase s (snd (hazeSetMontgomery k s))"
  "same_phase s (snd (hazeSetBitReversal k s))"
  "same_phase s (snd (hazeSetReducedNoise k s))"
  by (simp_all add: hazeSetRingDimension_def hazeSetCiphertextModulus_def hazeSetTwiddleFactors_def
      hazeConfigureDevice_def hazeSetProgramInfo_def hazeSetTarget_def hazeSetProgramDirectory_def
      hazeSetMontgomery_def hazeSetBitReversal_def hazeSetReducedNoise_def api_config_def
      split: prod.split)

lemma same_phase_handles:
  "same_phase s (snd (hazeSetDevice i s))"
  "same_phase s (snd (hazeGetDeviceProperties b i s))"
  "same_phase s (snd (hazeStreamCreate oom b s))"
  "same_phase s (snd (hazeEventCreate oom b s))"
  "same_phase s (snd (hazeGetDeviceCount b s))"
  "same_phase s (snd (hazeGetDevice b s))"
  "same_phase s (snd (unsupported s))"
  "same_phase s (snd (hazeDeviceCanAccessPeer b i j s))"
  "same_phase s (snd (hazeStreamEndCapture h b s))"
  "same_phase s (snd (hazeGraphInstantiate b h s))"
  by (auto simp: hazeSetDevice_def hazeGetDeviceProperties_def hazeStreamCreate_def
      hazeEventCreate_def hazeGetDeviceCount_def hazeGetDevice_def unsupported_def
      hazeDeviceCanAccessPeer_def hazeStreamEndCapture_def hazeGraphInstantiate_def
      unsupported_out_def stream_create_def event_create_def api_error_def api_result_def
      set_error_def split: prod.split sum.split)

lemmas same_phase_shims = same_phase_release same_phase_memory same_phase_settings same_phase_handles

section \<open>Entry points that record\<close>

lemma conforms_api [simp]:
  "conforms E (s\<lparr>hz_last_error := e\<rparr>) \<longleftrightarrow> conforms E s"
  "conforms E (s\<lparr>hz_host := hm\<rparr>) \<longleftrightarrow> conforms E s"
  "conforms E (snd (api_error e s)) \<longleftrightarrow> conforms E s"
  "conforms E (snd (api_result p)) \<longleftrightarrow> conforms E (snd p)"
  by (simp_all add: conforms_def phase_of_def api_error_def api_result_def set_error_def
      split: prod.split)

lemma conforms_shims:
  assumes "conforms E s"
  shows "conforms E (snd (haze_binary_pp E f1 d a b i s))"
    and "conforms E (snd (haze_binary_ps E f2 d a x i s))"
    and "conforms E (snd (haze_unary_pq E f3 d a i s))"
    and "conforms E (snd (hazeAutomorph E d a k s))"
    and "conforms E (snd (haze_binary_pp_mrp E f4 ds as1 as2 bs s))"
    and "conforms E (snd (haze_binary_ps_mrp E f5 ds as1 xs bs s))"
    and "conforms E (snd (haze_unary_p_mrp E f6 ds as1 bs s))"
    and "conforms E (snd (haze_unary_pi_mrp E f7 ds as1 k bs s))"
  using assms in_session_core [THEN conforms_in_session [OF assms]]
  by (simp_all add: haze_binary_pp_def haze_binary_ps_def haze_unary_pq_def hazeAutomorph_def
      haze_binary_pp_mrp_def haze_binary_ps_mrp_def haze_unary_p_mrp_def haze_unary_pi_mrp_def
      with_arrays_def)

lemma conforms_epoch_shims:
  assumes "conforms E s"
  shows "conforms E (snd (hazeFlush E s))" and "conforms E (snd (hazeWriteProgram E s))"
  using assms conforms_finalize [OF assms]
  by (simp_all add: hazeFlush_def hazeWriteProgram_def flush_def write_program_def
      materialize_only_def replay_and_populate_def Let_def)

lemma conforms_basis_dispatch:
  assumes "basis_dispatch params src dst f s = Some (e, s')" and "conforms E s"
    and "\<And>d h p r t. f d h p s = Some (r, t) \<Longrightarrow> conforms E t"
  shows "conforms E s'"
  using assms(1,2)
  by (auto simp: basis_dispatch_def api_error_def set_error_def
      split: option.splits sum.splits prod.splits dest!: assms(3))

lemma conforms_basis_shims:
  assumes "conforms E s"
  shows "hazeBasisConvert E ds as1 p1 s = Some (e, s') \<Longrightarrow> conforms E s'"
    and "hazeModDown E ds as1 p2 s = Some (e, s') \<Longrightarrow> conforms E s'"
    and "hazeModUp E ds as1 p3 s = Some (e, s') \<Longrightarrow> conforms E s'"
proof -
  note c = conforms_in_session [OF assms]
  have "conforms E t" if "Some (basis_convert E d h p s) = Some (r, t)" for d h p r t
    using c [OF in_session_basis(1) [of E s d h p]] that by simp
  then show "hazeBasisConvert E ds as1 p1 s = Some (e, s') \<Longrightarrow> conforms E s'"
    unfolding hazeBasisConvert_def by - (rule conforms_basis_dispatch [OF _ assms])
  have "conforms E t" if "Some (mod_down E d h p s) = Some (r, t)" for d h p r t
    using c [OF in_session_basis(2) [of E s d h p]] that by simp
  then show "hazeModDown E ds as1 p2 s = Some (e, s') \<Longrightarrow> conforms E s'"
    unfolding hazeModDown_def by - (rule conforms_basis_dispatch [OF _ assms])
  show "hazeModUp E ds as1 p3 s = Some (e, s') \<Longrightarrow> conforms E s'"
    unfolding hazeModUp_def
    by (erule conforms_basis_dispatch [OF _ assms]) (rule c [OF in_session_basis(3)])
qed

lemma conforms_h2d_writes:
  "h2d_writes ps n s = (r, s') \<Longrightarrow> same_phase s s'"
proof (induction ps n s rule: h2d_writes.induct)
  case (2 d h rest count s)
  then show ?case
    by (auto split: prod.splits sum.splits) (auto simp: same_phase_def)
qed simp

lemma conforms_copy_to_host_mrp:
  "copy_to_host_mrp ps n s = Some (r, s') \<Longrightarrow> same_phase s s'"
proof (induction ps n s rule: copy_to_host_mrp.induct)
  case (2 h d rest count s)
  then show ?case
    by (auto simp: copy_to_host_entry_def split: option.splits prod.splits sum.splits)
       (auto simp: same_phase_def)
qed simp

lemma conforms_memcpy:
  assumes "conforms E s" and "hazeMemcpy E d h n k s = Some (e, s')"
  shows "conforms E s'"
proof -
  obtain r s1 where a: "api_alloc (copy_h2d (hz_host s) (to_dev_addr d) h n) s = (r, s1)"
    by (rule prod.exhaust)
  have c1: "conforms E s1"
    using conforms_same_phase [OF assms(1), of s1] same_phase_alloc [of s _ s] a
    by (metis same_phase_refl snd_conv)
  have t: "conforms E (snd (tag_h2d_input E (to_dev_addr d) s1))"
    by (rule conforms_in_session [OF c1 in_session_copies(2)])
  have dd: "conforms E (snd (copy_device_to_device E (to_dev_addr d) (to_dev_addr h) n s))"
    by (rule conforms_in_session [OF assms(1) in_session_copies(1)])
  have res: "conforms E v" if "api_result p = (x, v)" and "conforms E (snd p)" for p x v
    using conforms_api(4) [of E p] that by simp
  have err: "conforms E v" if "api_error c s = (x, v)" for c x v
    using conforms_api(3) [of E c s] that assms(1) by simp
  show ?thesis
    using assms(2) c1
    by (auto simp: hazeMemcpy_def a copy_to_host_entry_def assms(1)
        dest!: err dest: res [OF _ t] res [OF _ dd] res split: if_splits sum.splits option.splits prod.splits)
qed

lemma conforms_memcpy_mrp:
  assumes "conforms E s" and "hazeMemcpyMrp E d h n k b s = Some (e, s')"
  shows "conforms E s'"
proof -
  have h2d: "conforms E (snd (copy_h2d_mrp E ds hs n s))" for ds hs
  proof -
    obtain r s1 where w: "h2d_writes (zip ds hs) n s = (r, s1)"
      by (cases "h2d_writes (zip ds hs) n s")
    have c1: "conforms E s1" by (rule conforms_same_phase [OF assms(1) conforms_h2d_writes [OF w]])
    have "in_session E s1 (snd (h2d_tags E ds (open_session E s1)))"
      by (rule in_sessionI) (rule records_h2d_tags, rule prod.collapse [symmetric])
    with c1 show ?thesis
      by (auto simp: copy_h2d_mrp_def w split: sum.split intro: conforms_in_session)
  qed
  have dd: "conforms E (snd (copy_device_to_device_mrp E ds hs bs s))" for ds hs bs
    by (rule conforms_in_session [OF assms(1) in_session_d2d_mrp])
  have dh: "conforms E t" if "copy_to_host_mrp ps n s = Some (r, t)" for ps r t
    using conforms_same_phase [OF assms(1) conforms_copy_to_host_mrp [OF that]] .
  have res: "conforms E v" if "api_result p = (x, v)" and "conforms E (snd p)" for p x v
    using conforms_api(4) [of E p] that by simp
  have dhr: "conforms E v" if "api_result (r, t) = (x, v)" and "copy_to_host_mrp ps n s = Some (r, t)"
    for r t x v ps
    using res [OF that(1)] dh [OF that(2)] by simp
  have err: "conforms E v" if "api_error c s = (x, v)" for c x v
    using conforms_api(3) [of E c s] that assms(1) by simp
  show ?thesis
    using assms(2)
    by (auto simp: hazeMemcpyMrp_def dest!: err dest: res [OF _ h2d] res [OF _ dd]
        intro: dhr split: option.splits if_splits)
qed

lemma conforms_reset: "conforms E s \<Longrightarrow> conforms E (snd (hazeDeviceReset s))"
  by (auto simp: conforms_def phase_of_def hazeDeviceReset_def reset_all_def Let_def
      hazeReplayBridgeReset_def device_reset_def events_reset_def streams_reset_def
      backend_reset_def epoch_reset_def clear_state_locked_def proto_run_append proto_call_def
      compiler_step_def)

section \<open>Reachable states\<close>

lemma conforms_no_effect:
  assumes "f \<in> {hazeStreamDestroy h, hazeStreamSynchronize h, hazeStreamWaitEvent h h',
    hazeEventDestroy h, hazeEventRecord h h', hazeDeviceSynchronize, hazeGetPerformanceCounters}"
    and "f s = (e, s')" and "conforms E s"
  shows "conforms E s'"
proof -
  have "s' = s"
    using assms(1,2)
    by (auto simp: hazeStreamDestroy_def hazeStreamSynchronize_def hazeStreamWaitEvent_def
        hazeEventDestroy_def hazeEventRecord_def hazeDeviceSynchronize_def
        hazeGetPerformanceCounters_def stream_destroy_def event_destroy_def event_record_def)
  with assms(3) show ?thesis by simp
qed

lemma conforms_eqD: "x = (e, s') \<Longrightarrow> conforms E (snd x) \<Longrightarrow> conforms E s'"
  by simp

lemma conforms_shimI: "conforms E s \<Longrightarrow> same_phase s (snd x) \<Longrightarrow> conforms E (snd x)"
  by (rule conforms_same_phase)

lemma api_step_conforms: "api_step E s e s' \<Longrightarrow> conforms E s \<Longrightarrow> conforms E s'"
  by (induction rule: api_step.induct;
      ((erule conforms_eqD, (rule conforms_shims conforms_epoch_shims conforms_reset, assumption))
       | (erule conforms_eqD, (erule conforms_shimI, rule same_phase_shims))
       | (erule (1) conforms_memcpy [rotated]) | (erule (1) conforms_memcpy_mrp [rotated])
       | (erule (1) conforms_basis_shims [rotated]) | (erule (2) conforms_no_effect)
       | (simp only: conforms_api)))

lemma reachable_conforms: "reachable E s \<Longrightarrow> conforms E s"
  by (induction rule: reachable.induct) (auto intro: conforms_init api_step_conforms)

end
