(* ===== verification/Haze_Calls.thy ===== *)
theory Haze_Calls
  imports Haze_Frame Haze_System
begin

text \<open>
  Two effects every entry point has: which vectors it may leave in the shadows, and what it
  does to the last error.
\<close>

section \<open>Sizes of shadow vectors\<close>

text \<open>New vectors have the length the polynomial size asks for; old ones may stay.\<close>

definition fits :: "allocator \<Rightarrow> allocator \<Rightarrow> bool" where
  "fits al al' \<longleftrightarrow> poly_bytes al' = poly_bytes al \<and>
     (8 dvd unat (poly_bytes al) \<longrightarrow>
        (\<forall>a v. shadow_data al' a = Some v \<longrightarrow> shadow_data al a = Some v \<or> length v = want_elems al))"

lemma fits_refl [simp]: "fits al al"
  by (simp add: fits_def)

lemma want_elems_cong: "poly_bytes al' = poly_bytes al \<Longrightarrow> want_elems al' = want_elems al"
  by (simp add: want_elems_def)

lemma fits_trans: "fits a b \<Longrightarrow> fits b c \<Longrightarrow> fits a c"
  unfolding fits_def by (metis want_elems_cong)

lemma fits_shrinks: "shrinks al al' \<Longrightarrow> fits al al'"
  unfolding fits_def shrinks_def map_le_def by (metis domI)

lemma fits_sized: "fits al al' \<Longrightarrow> sized al \<Longrightarrow> sized al'"
  unfolding fits_def sized_def by (metis want_elems_cong)

lemma fits_shadow:
  "shadow_data al' \<subseteq>\<^sub>m shadow_data al \<Longrightarrow> poly_bytes al' = poly_bytes al \<Longrightarrow> fits al al'"
  unfolding fits_def map_le_def by (metis domI)

lemma fits_copy_h2d: "fits al (snd (copy_h2d hm d h n al))"
  by (auto simp: fits_def copy_h2d_def count_fits eight_want_elems)

lemma fits_memset: "fits al (snd (alloc_memset a v n al))"
  by (auto simp: fits_def alloc_memset_def count_fits eight_want_elems)

lemma fits_update: "fits al (snd (update_shadow a v al))"
  by (auto simp: fits_def update_shadow_def Let_def)

lemma fits_free: "fits al (snd (alloc_free a al))"
  by (rule fits_shadow) (auto simp: alloc_free_def free_one_locked_def map_le_def)

lemma free_many_loop_shadow: "shadow_data (snd (free_many_loop as fe al)) \<subseteq>\<^sub>m shadow_data al"
proof (induction as arbitrary: fe al)
  case (Cons a as)
  have "shadow_data (snd (free_one_locked a al)) \<subseteq>\<^sub>m shadow_data al"
    by (auto simp: free_one_locked_def map_le_def)
  with Cons.IH show ?case
    by (auto split: prod.splits sum.splits intro: map_le_trans [OF Cons.IH])
qed simp

lemma fits_free_many: "fits al (snd (free_many as al))"
  by (rule fits_shadow) (simp_all add: free_many_def free_many_loop_shadow frame_simps)

lemma allocate_one_shadow: "shadow_data (snd (allocate_one_locked al)) = shadow_data al"
  by (simp add: allocate_one_locked_def Let_def)

lemma fits_allocate: "fits al (snd (allocate n al))"
  by (rule fits_shadow)
     (auto simp: allocate_def allocate_one_shadow frame_simps split: sum.split)

lemma rollback_shadow:
  "shadow_data (foldl (\<lambda>al a. snd (free_one_locked a al)) al as) \<subseteq>\<^sub>m shadow_data al"
proof (induction as arbitrary: al)
  case (Cons a as)
  have "shadow_data (snd (free_one_locked a al)) \<subseteq>\<^sub>m shadow_data al"
    by (auto simp: free_one_locked_def map_le_def)
  with Cons.IH show ?case by (auto intro: map_le_trans)
qed simp

lemma allocate_loop_shadow: "shadow_data (snd (allocate_loop n out al)) \<subseteq>\<^sub>m shadow_data al"
proof (induction n arbitrary: out al)
  case (Suc n)
  obtain r al1 where a: "allocate_one_locked al = (r, al1)" by (cases "allocate_one_locked al")
  then have "shadow_data al1 = shadow_data al" using allocate_one_shadow [of al] by simp
  with a Suc.IH rollback_shadow [of al1 out] show ?case by (cases r) (auto, metis+)
qed simp

lemma fits_allocate_many: "fits al (snd (allocate_many c n al))"
  by (rule fits_shadow)
     (auto simp: allocate_many_def allocate_loop_shadow frame_simps split: sum.split)

section \<open>Tidy calls\<close>

text \<open>
  A call is tidy when new shadow vectors fit and its error code is the last error, except
  that a success may leave the last error as it was.
\<close>

definition tidy :: "('p, 'm) haze \<Rightarrow> hazeError_t \<Rightarrow> ('p, 'm) haze \<Rightarrow> bool" where
  "tidy s e s' \<longleftrightarrow> fits (hz_alloc s) (hz_alloc s') \<and>
     (hz_last_error s' = e \<or> e = HAZE_SUCCESS \<and> hz_last_error s' = hz_last_error s)"

lemma tidy_error: "fits (hz_alloc s) (hz_alloc t) \<Longrightarrow> api_error c t = (e, s') \<Longrightarrow> tidy s e s'"
  by (auto simp: tidy_def api_error_def set_error_def)

lemma tidy_result:
  "api_result p = (e, s') \<Longrightarrow> fits (hz_alloc s) (hz_alloc (snd p)) \<Longrightarrow> tidy s e s'"
  by (cases p) (auto simp: tidy_def api_result_def split: prod.splits sum.splits
      simp: set_internal_result_def set_error_def)

lemma tidy_set [simp]: "tidy s e (t\<lparr>hz_last_error := e\<rparr>) \<longleftrightarrow> fits (hz_alloc s) (hz_alloc t)"
  by (simp add: tidy_def)

lemma api_error_eq: "api_error c t = (c, t\<lparr>hz_last_error := c\<rparr>)"
  by (simp add: api_error_def set_error_def)

lemma tidy_ok:
  "fits (hz_alloc s) (hz_alloc t) \<Longrightarrow> hz_last_error t = hz_last_error s \<Longrightarrow> tidy s HAZE_SUCCESS t"
  by (simp add: tidy_def)

lemma fits_api_alloc: "fits al (snd (f (hz_alloc s))) \<Longrightarrow> fits al (hz_alloc (snd (api_alloc f s)))"
  by (cases "f (hz_alloc s)") (simp add: api_alloc_def)

lemma fits_invalidates:
  "hz_alloc (foldl (\<lambda>s p. if p \<noteq> 0 then upd_epoch (invalidate (to_dev_addr p)) s else s) s ps) =
   hz_alloc s"
  by (induction ps arbitrary: s) simp_all

lemma tidy_malloc: "hazeMalloc b n s = ((e, out), s') \<Longrightarrow> tidy s e s'"
  using fits_allocate [of "hz_alloc s" n]
  by (auto simp: hazeMalloc_def intro: tidy_ok split: if_splits sum.splits prod.splits
      simp: api_error_eq)

lemma tidy_malloc_mrp: "hazeMallocMrp b c n s = ((e, out), s') \<Longrightarrow> tidy s e s'"
  using fits_allocate_many [of "hz_alloc s" c n]
  by (auto simp: hazeMallocMrp_def intro: tidy_ok split: if_splits sum.splits prod.splits
      simp: api_error_eq)

lemma tidy_free: "hazeFree p s = (e, s') \<Longrightarrow> tidy s e s'"
  unfolding hazeFree_def Let_def
  by (erule tidy_result) (simp add: fits_api_alloc fits_free)

lemma tidy_free_mrp: "hazeFreeMrp ps s = (e, s') \<Longrightarrow> tidy s e s'"
  unfolding hazeFreeMrp_def Let_def
  by (auto simp: fits_invalidates fits_api_alloc fits_free_many api_error_eq
      split: option.splits if_splits elim!: tidy_result)

lemma tidy_host:
  "hazeHostAlloc got b n s = ((e, out), s') \<Longrightarrow> tidy s e s'"
  "hazeFreeHost p s = (e, s') \<Longrightarrow> tidy s e s'"
  by (auto simp: hazeHostAlloc_def hazeFreeHost_def frame_simps intro!: tidy_ok fits_shadow
      split: if_splits option.splits prod.splits simp: api_error_eq)

lemma tidy_attributes: "hazePointerGetAttributes b p s = ((e, at), s') \<Longrightarrow> tidy s e s'"
  by (auto simp: hazePointerGetAttributes_def split: sum.splits prod.splits dest!: tidy_result)

lemma tidy_memset: "hazeMemset p v n s = (e, s') \<Longrightarrow> tidy s e s'"
  using fits_memset [of "hz_alloc s" "to_dev_addr p" v n]
  by (auto simp: hazeMemset_def api_alloc_def intro: tidy_ok
      split: if_splits sum.splits prod.splits dest!: tidy_result simp: api_error_eq)

lemma tidy_settings:
  "hazeSetCiphertextModulus i q s = (e, s') \<Longrightarrow> tidy s e s'"
  "hazeSetTwiddleFactors i q s = (e, s') \<Longrightarrow> tidy s e s'"
  "hazeConfigureDevice s = (e, s') \<Longrightarrow> tidy s e s'"
  "hazeSetProgramInfo na ve de s = (e, s') \<Longrightarrow> tidy s e s'"
  "hazeSetTarget t s = (e, s') \<Longrightarrow> tidy s e s'"
  "hazeSetProgramDirectory t s = (e, s') \<Longrightarrow> tidy s e s'"
  "hazeSetMontgomery k s = (e, s') \<Longrightarrow> tidy s e s'"
  "hazeSetBitReversal k s = (e, s') \<Longrightarrow> tidy s e s'"
  "hazeSetReducedNoise k s = (e, s') \<Longrightarrow> tidy s e s'"
  by (auto simp: hazeSetCiphertextModulus_def hazeSetTwiddleFactors_def hazeConfigureDevice_def
      hazeSetProgramInfo_def hazeSetTarget_def hazeSetProgramDirectory_def hazeSetMontgomery_def
      hazeSetBitReversal_def hazeSetReducedNoise_def api_config_def split: prod.splits
      dest!: tidy_result simp: api_error_eq)

lemma tidy_handles:
  "hazeSetDevice i s = (e, s') \<Longrightarrow> tidy s e s'"
  "hazeGetDeviceProperties b i s = ((e, pr), s') \<Longrightarrow> tidy s e s'"
  "hazeStreamCreate oom b s = ((e, out), s') \<Longrightarrow> tidy s e s'"
  "hazeEventCreate oom b s = ((e, out), s') \<Longrightarrow> tidy s e s'"
  "hazeGetDeviceCount b s = ((e, out_i), s') \<Longrightarrow> tidy s e s'"
  "hazeGetDevice b s = ((e, out_i), s') \<Longrightarrow> tidy s e s'"
  "unsupported s = (e, s') \<Longrightarrow> tidy s e s'"
  "hazeDeviceCanAccessPeer b i j s = ((e, out_i), s') \<Longrightarrow> tidy s e s'"
  "hazeStreamEndCapture h b s = ((e, out), s') \<Longrightarrow> tidy s e s'"
  "hazeGraphInstantiate b h s = ((e, out), s') \<Longrightarrow> tidy s e s'"
  by (auto simp: hazeSetDevice_def hazeGetDeviceProperties_def hazeStreamCreate_def
      hazeEventCreate_def hazeGetDeviceCount_def hazeGetDevice_def unsupported_def
      hazeDeviceCanAccessPeer_def hazeStreamEndCapture_def hazeGraphInstantiate_def
      unsupported_out_def stream_create_def event_create_def api_error_eq
      tidy_def split: prod.splits sum.splits if_splits)
     (auto dest!: tidy_result [where s = s] simp: tidy_def)?

section \<open>Calls that record\<close>

lemma open_session_last_error [frame_simps]: "hz_last_error (open_session E s) = hz_last_error s"
proof -
  have "hz_last_error (snd (fh_try E cs t)) = hz_last_error t" for cs and t :: "('a, 'b) haze"
    by (induction cs arbitrary: t) simp_all
  from this [of "init_calls (hz_config s)" s] show ?thesis
    by (auto simp: open_session_def ensure_initialized_def ensure_recording_locked_def
        start_recording_def Let_def split: prod.splits bool.splits)
qed

lemma in_session_fits:
  assumes "in_session E s s'"
  shows "fits (hz_alloc s) (hz_alloc s')" and "hz_last_error s' = hz_last_error s"
  using assms recordsD [of "open_session E s" s']
  by (auto simp: in_session_def frame_simps intro: fits_shrinks)

lemmas fits_core = in_session_core [THEN in_session_fits(1)]

lemma tidy_sr_shims:
  "haze_binary_pp E f1 d a b i s = (e, s') \<Longrightarrow> tidy s e s'"
  "haze_binary_ps E f2 d a x i s = (e, s') \<Longrightarrow> tidy s e s'"
  "haze_unary_pq E f3 d a i s = (e, s') \<Longrightarrow> tidy s e s'"
  "hazeAutomorph E d a k s = (e, s') \<Longrightarrow> tidy s e s'"
  by (auto simp: haze_binary_pp_def haze_binary_ps_def haze_unary_pq_def hazeAutomorph_def
      api_error_eq fits_core elim!: tidy_result split: if_splits)

lemma tidy_mr_shims:
  "haze_binary_pp_mrp E f4 ds as1 as2 bs s = (e, s') \<Longrightarrow> tidy s e s'"
  "haze_binary_ps_mrp E f5 ds as1 xs bs s = (e, s') \<Longrightarrow> tidy s e s'"
  "haze_unary_p_mrp E f6 ds as1 bs s = (e, s') \<Longrightarrow> tidy s e s'"
  "haze_unary_pi_mrp E f7 ds as1 k bs s = (e, s') \<Longrightarrow> tidy s e s'"
  by (auto simp: haze_binary_pp_mrp_def haze_binary_ps_mrp_def haze_unary_p_mrp_def
      haze_unary_pi_mrp_def with_arrays_def api_error_eq fits_core elim!: tidy_result
      split: if_splits)

section \<open>Finalising\<close>

lemma tag_srp_alloc: "hz_alloc (snd (tag_srp_outputs outs s)) = hz_alloc s"
  by (induction outs s rule: tag_srp_outputs.induct) (simp_all split: option.split)

lemma tag_mrp_alloc: "hz_alloc (snd (tag_mrp_outputs E ns s)) = hz_alloc s"
  by (induction E ns s rule: tag_mrp_outputs.induct) (simp_all split: option.split sum.split)

lemma tag_pending_alloc:
  assumes "tag_pending_outputs_locked E s = (r, s')"
  shows "hz_alloc s' = hz_alloc s"
proof -
  obtain x s1 where x: "tag_srp_outputs (pending_outputs (hz_epoch s)) s = (x, s1)"
    by (cases "tag_srp_outputs (pending_outputs (hz_epoch s)) s")
  have "hz_alloc s1 = hz_alloc s" using tag_srp_alloc [of "pending_outputs (hz_epoch s)" s] x by simp
  with assms tag_mrp_alloc [of E "pending_mrp_groups (hz_epoch s)" s1] show ?thesis
    by (auto simp: tag_pending_outputs_locked_def x split: sum.splits)
qed

lemma fits_populate: "fits (hz_alloc s) (hz_alloc (snd (populate_shadows E outs s)))"
proof (induction outs arbitrary: s)
  case (Cons x outs)
  obtain a n where x: "x = (a, n)" by (cases x)
  obtain r s1 where r: "fhetch_result E n s = (r, s1)" by (cases "fhetch_result E n s")
  have a1: "hz_alloc s1 = hz_alloc s" using fhetch_result_frame(2) [of E n s] r by simp
  have u: "fits (hz_alloc s) al" if "update_shadow a v (hz_alloc s) = (q, al)" for v q al
    using fits_update [of "hz_alloc s" a v] that by simp
  show ?case
    using Cons.IH
    by (auto simp: x r a1 split: option.split prod.split sum.split dest!: u)
       (metis fits_trans upd_alloc_simps(2))+
qed simp

lemma clear_alloc [simp]: "hz_alloc (clear_state_locked s) = hz_alloc s"
  by (simp add: clear_state_locked_def)

lemma fits_populate_eq:
  "populate_shadows E outs s = (r, s') \<Longrightarrow> fits (hz_alloc s) (hz_alloc s')"
  using fits_populate [of s E outs] by simp

lemma fits_materialize:
  "do_materialize_locked E b s = (r, s') \<Longrightarrow> fits (hz_alloc s) (hz_alloc s')"
  by (auto simp: do_materialize_locked_def stop_epoch_def fh_bool_def backend_replay_def
      hazeReplayBridgeTakeHookHadError_def dest!: fits_populate_eq
      split: if_splits prod.splits bool.splits sum.splits)

lemma fits_finalize: "fits (hz_alloc s) (hz_alloc (snd (finalize_locked E b s)))"
proof -
  obtain r s1 where t: "tag_pending_outputs_locked E s = (r, s1)"
    by (cases "tag_pending_outputs_locked E s")
  obtain q s2 where m: "do_materialize_locked E b s1 = (q, s2)"
    by (cases "do_materialize_locked E b s1")
  show ?thesis
    using tag_pending_alloc [OF t] fits_materialize [OF m]
    by (simp add: finalize_locked_def t m split: sum.split)
qed

lemma tidy_epoch_shims:
  "hazeFlush E s = (e, s') \<Longrightarrow> tidy s e s'"
  "hazeWriteProgram E s = (e, s') \<Longrightarrow> tidy s e s'"
  "hazeTagOutput p s = (e, s') \<Longrightarrow> tidy s e s'"
  unfolding hazeFlush_def hazeWriteProgram_def
  subgoal by (erule tidy_result) (simp add: flush_def replay_and_populate_def Let_def fits_finalize)
  subgoal by (erule tidy_result) (simp add: write_program_def materialize_only_def fits_finalize)
  subgoal by (auto simp: hazeTagOutput_def tag_output_def api_error_eq elim!: tidy_result
      split: if_splits prod.splits)
  done

lemma tidy_basis_dispatch:
  assumes "basis_dispatch params src dst f s = Some (e, s')"
    and "\<And>d h p r t. f d h p s = Some (r, t) \<Longrightarrow> in_session E s t"
  shows "tidy s e s'"
  using assms(1)
  by (auto simp: basis_dispatch_def api_error_eq split: option.splits sum.splits prod.splits
      intro!: tidy_ok dest!: assms(2) simp: in_session_fits)

lemma tidy_basis_shims:
  "hazeBasisConvert E ds as1 p1 s = Some (e, s') \<Longrightarrow> tidy s e s'"
  "hazeModDown E ds as1 p2 s = Some (e, s') \<Longrightarrow> tidy s e s'"
  "hazeModUp E ds as1 p3 s = Some (e, s') \<Longrightarrow> tidy s e s'"
proof -
  have b: "in_session E s t" if "Some (basis_convert E d h p s) = Some (r, t)" for d h p r t
    using in_session_basis(1) [of E s d h p] that by simp
  have m: "in_session E s t" if "Some (mod_down E d h p s) = Some (r, t)" for d h p r t
    using in_session_basis(2) [of E s d h p] that by simp
  show "hazeBasisConvert E ds as1 p1 s = Some (e, s') \<Longrightarrow> tidy s e s'"
    unfolding hazeBasisConvert_def by (erule tidy_basis_dispatch) (rule b)
  show "hazeModDown E ds as1 p2 s = Some (e, s') \<Longrightarrow> tidy s e s'"
    unfolding hazeModDown_def by (erule tidy_basis_dispatch) (rule m)
  show "hazeModUp E ds as1 p3 s = Some (e, s') \<Longrightarrow> tidy s e s'"
    unfolding hazeModUp_def by (erule tidy_basis_dispatch) (rule in_session_basis(3))
qed

section \<open>Copies\<close>

lemma fits_h2d_writes: "fits (hz_alloc s) (hz_alloc (snd (h2d_writes ps n s)))"
proof (induction ps n s rule: h2d_writes.induct)
  case (2 d h rest count s)
  obtain r al where c: "copy_h2d (hz_host s) (to_dev_addr d) h count (hz_alloc s) = (r, al)"
    by (cases "copy_h2d (hz_host s) (to_dev_addr d) h count (hz_alloc s)")
  have f: "fits (hz_alloc s) al"
    using fits_copy_h2d [of "hz_alloc s" "hz_host s" "to_dev_addr d" h count] c by simp
  show ?case
  proof (cases r)
    case (Inr u)
    with "2.IH" [of r al u] f show ?thesis by (auto simp: c intro: fits_trans)
  qed (simp add: c f)
qed simp

lemma copy_to_host_mrp_alloc:
  "copy_to_host_mrp ps n s = Some (r, s') \<Longrightarrow> hz_alloc s' = hz_alloc s"
proof (induction ps n s rule: copy_to_host_mrp.induct)
  case (2 h d rest count s)
  then show ?case
    by (fastforce simp: copy_to_host_entry_def split: option.splits prod.splits sum.splits)
qed simp

lemma tidy_same_alloc:
  "api_result (r, t) = (e, s') \<Longrightarrow> hz_alloc t = hz_alloc s \<Longrightarrow> tidy s e s'"
  by (erule tidy_result) simp

lemma tidy_memcpy:
  assumes "hazeMemcpy E d h n k s = Some (e, s')"
  shows "tidy s e s'"
proof -
  obtain r s1 where a: "api_alloc (copy_h2d (hz_host s) (to_dev_addr d) h n) s = (r, s1)"
    by (rule prod.exhaust)
  have f1: "fits (hz_alloc s) (hz_alloc s1)" and l1: "hz_last_error s1 = hz_last_error s"
    using fits_copy_h2d [of "hz_alloc s" "hz_host s" "to_dev_addr d" h n] a
    by (auto simp: api_alloc_def split: prod.splits)
  have t: "fits (hz_alloc s) (hz_alloc (snd (tag_h2d_input E (to_dev_addr d) s1)))"
    by (rule fits_trans [OF f1 in_session_fits(1) [OF in_session_copies(2)]])
  have dd: "fits (hz_alloc s) (hz_alloc (snd (copy_device_to_device E (to_dev_addr d) (to_dev_addr h) n s)))"
    by (rule in_session_fits(1) [OF in_session_copies(1)])
  show ?thesis
    using assms f1
    by (auto simp: hazeMemcpy_def a copy_to_host_entry_def api_error_eq
        dest: tidy_result [OF _ t] tidy_result [OF _ dd] intro: tidy_same_alloc dest!: tidy_result [where p = "(Inl x, y)" for x y]
        split: if_splits sum.splits option.splits prod.splits)
qed

lemma tidy_memcpy_mrp:
  assumes "hazeMemcpyMrp E d h n k b s = Some (e, s')"
  shows "tidy s e s'"
proof -
  have h2d: "fits (hz_alloc s) (hz_alloc (snd (copy_h2d_mrp E ds hs n s)))" for ds hs
  proof -
    obtain r s1 where w: "h2d_writes (zip ds hs) n s = (r, s1)"
      by (cases "h2d_writes (zip ds hs) n s")
    have "in_session E s1 (snd (h2d_tags E ds (open_session E s1)))"
      by (rule in_sessionI) (rule records_h2d_tags, rule prod.collapse [symmetric])
    from in_session_fits(1) [OF this] fits_h2d_writes [of s "zip ds hs" n] show ?thesis
      by (auto simp: copy_h2d_mrp_def w split: sum.split intro: fits_trans)
  qed
  have dd: "fits (hz_alloc s) (hz_alloc (snd (copy_device_to_device_mrp E ds hs bs s)))" for ds hs bs
    by (rule in_session_fits(1) [OF in_session_d2d_mrp])
  show ?thesis
    using assms
    by (auto simp: hazeMemcpyMrp_def api_error_eq dest: tidy_result [OF _ h2d] tidy_result [OF _ dd]
        dest!: copy_to_host_mrp_alloc intro: tidy_same_alloc split: option.splits if_splits)
qed

section \<open>Every call\<close>

text \<open>
  Only setting the ring dimension, a device reset and reading the last error are not tidy:
  the first keeps every vector and may change the size, the second drops every vector, and
  the third returns the cell it clears.
\<close>

lemmas tidy_shims = tidy_malloc tidy_malloc_mrp tidy_free tidy_free_mrp tidy_host tidy_attributes
  tidy_memset tidy_settings tidy_handles tidy_sr_shims tidy_mr_shims tidy_epoch_shims
  tidy_basis_shims tidy_memcpy tidy_memcpy_mrp

lemma tidy_no_effect:
  assumes "f \<in> {hazeStreamDestroy h, hazeStreamSynchronize h, hazeStreamWaitEvent h h',
    hazeEventDestroy h, hazeEventRecord h h', hazeDeviceSynchronize, hazeGetPerformanceCounters}"
    and "f s = (e, s')"
  shows "tidy s e s'"
  using assms
  by (auto simp: hazeStreamDestroy_def hazeStreamSynchronize_def hazeStreamWaitEvent_def
      hazeEventDestroy_def hazeEventRecord_def hazeDeviceSynchronize_def
      hazeGetPerformanceCounters_def stream_destroy_def event_destroy_def event_record_def
      tidy_def)

lemma clear_pool_shadow: "shadow_data (clear_pool_locked al) \<subseteq>\<^sub>m shadow_data al"
proof -
  have "shadow_data (foldl (\<lambda>al a. al\<lparr>alloc_set := alloc_set al - {a},
      shadow_data := (shadow_data al)(a := None)\<rparr>) al as) \<subseteq>\<^sub>m shadow_data al" for as
  proof (induction as arbitrary: al)
    case (Cons a as)
    show ?case
      unfolding foldl_Cons by (rule map_le_trans [OF Cons.IH]) (auto simp: map_le_def split: if_splits)
  qed simp
  then show ?thesis by (simp add: clear_pool_locked_def Let_def)
qed

lemma api_step_effect:
  assumes "api_step E s e s'"
  shows "tidy s e s' \<or>
    shadow_data (hz_alloc s') \<subseteq>\<^sub>m shadow_data (hz_alloc s) \<and> hz_last_error s' = e \<or>
    shadow_data (hz_alloc s') = Map.empty \<and> hz_last_error s' = e \<or>
    e = hz_last_error s \<and> s' = s\<lparr>hz_last_error := HAZE_SUCCESS\<rparr>"
  using assms
proof (cases rule: api_step.cases)
  case (st_host hm)
  then show ?thesis by (simp add: tidy_def)
next
  case (st_last_error cell)
  then show ?thesis by (simp add: hazeGetLastError_def)
next
  case (st_ring n)
  then have "shadow_data (hz_alloc s') \<subseteq>\<^sub>m shadow_data (hz_alloc s) \<and> hz_last_error s' = e"
    by (cases "set_ring_dimension n (hz_config s) (hz_alloc s)")
       (auto simp: hazeSetRingDimension_def set_ring_dimension_def set_polynomial_size_def
        api_result_def clear_pool_shadow set_internal_result_def set_error_def
        split: prod.splits sum.splits if_splits)
  then show ?thesis by blast
next
  case st_reset
  then have "shadow_data (hz_alloc s') = Map.empty \<and> hz_last_error s' = e"
    by (auto simp: hazeDeviceReset_def reset_all_def Let_def hazeReplayBridgeReset_def
        device_reset_def events_reset_def streams_reset_def backend_reset_def epoch_reset_def
        allocator_reset_def)
  then show ?thesis by blast
next
  case (st_destroy f h h')
  then show ?thesis using tidy_no_effect by blast
qed (blast intro: tidy_shims)+

end
