(* ===== verification/Haze_Session_Spec.thy ===== *)
theory Haze_Session_Spec
  imports Haze_Protocol Haze_Calls Haze_Api_Spec
begin

text \<open>
  What a whole session of C ABI calls guarantees: the protocol kept with the compiler, what
  becomes of the error code of each call, and when a read-back is defined.
\<close>

section \<open>A session on the simulated environment\<close>

text \<open>
  Ring dimension 4, two polynomials, two uploads, an addition recorded and its result tagged.
\<close>

definition add_session :: "(u64 list, sim_mrp) haze" where
  "add_session = (let s1 = snd (hazeSetRingDimension 4 (haze_init (\<lambda>_. 0)));
     s2 = snd (hazeSetCiphertextModulus 0 97 s1);
     s3 = snd (hazeMallocMrp False 2 32 s2);
     s4 = snd (the (hazeMemcpy sim_env kHbmBase 4096 32 1 s3));
     s5 = snd (haze_binary_pp sim_env SrAddp (kHbmBase + 32) kHbmBase kHbmBase 0 s4)
   in snd (hazeTagOutput (kHbmBase + 32) s5))"

lemma reachable_ring: "reachable E s \<Longrightarrow> reachable E (snd (hazeSetRingDimension n s))"
  by (erule reachable.step) (rule st_ring, rule prod.collapse [symmetric])

lemma reachable_modulus: "reachable E s \<Longrightarrow> reachable E (snd (hazeSetCiphertextModulus i q s))"
  by (erule reachable.step) (rule st_modulus, rule prod.collapse [symmetric])

lemma reachable_malloc_mrp: "reachable E s \<Longrightarrow> reachable E (snd (hazeMallocMrp b c n s))"
  by (erule reachable.step)
     (rule st_malloc_mrp, subst prod.collapse, rule prod.collapse [symmetric])

lemma reachable_memcpy:
  "reachable E s \<Longrightarrow> hazeMemcpy E d h n k s \<noteq> None \<Longrightarrow> reachable E (snd (the (hazeMemcpy E d h n k s)))"
  by (erule reachable.step)
     (rule st_memcpy [where d = d and h = h and n = n and k = k
       and e = "fst (the (hazeMemcpy E d h n k s))"], simp)

lemma reachable_pp: "reachable E s \<Longrightarrow> reachable E (snd (haze_binary_pp E f d a b i s))"
  by (erule reachable.step) (rule st_pp, rule prod.collapse [symmetric])

lemma reachable_tag: "reachable E s \<Longrightarrow> reachable E (snd (hazeTagOutput p s))"
  by (erule reachable.step) (rule st_tag, rule prod.collapse [symmetric])

lemma memcpy_upload_defined: "d \<noteq> 0 \<Longrightarrow> h \<noteq> 0 \<Longrightarrow> hazeMemcpy E d h n 1 s \<noteq> None"
  by (auto simp: hazeMemcpy_def split: sum.splits prod.splits)

lemma add_session_reachable: "reachable sim_env add_session"
  unfolding add_session_def Let_def
  by (intro reachable_tag reachable_pp reachable_memcpy memcpy_upload_defined reachable_malloc_mrp
      reachable_modulus reachable_ring reachable.start) (simp_all add: kHbmBase_def)

section \<open>The protocol with the compiler\<close>

text \<open>
  C15. In every reachable state the calls the library has made to the compiler follow its
  protocol. It is initialised only while it is down, at first, after a reset, or
  after an initialisation that threw; its settings come between the initialisation and the
  first epoch; an epoch is opened, started and stopped in this order, and replayed only after a
  stop that succeeded. While it is up, inputs are built and outputs tagged while recording only,
  results are built after a replay that succeeded only, and after a stop or a replay that failed
  nothing but the clearing of the captures follows; captures are cleared before the next epoch
  opens. While it is down no epoch is opened, started, stopped or replayed and no output tagged:
  besides an initialisation there are only resets, clearings, and data calls of operations
  recorded in vain. The library's two flags tell the compiler's phase, and the recording flag is
  never up without the initialised one. (The bridge's own calls are not the library's.)
\<close>

theorem trace_follows_protocol:
  assumes "reachable E s"
  shows "proto_run E [] Down (hz_trace s) =
      Some (if \<not> hz_backend_initialized s then Down
            else if recording (hz_epoch s) then Rec else Idle) \<and>
    (recording (hz_epoch s) \<longrightarrow> hz_backend_initialized s)"
  using reachable_conforms [OF assms] by (simp add: conforms_def phase_of_def)

theorem trace_follows_protocol_witness:
  "hz_trace add_session \<noteq> [] \<and> proto_run sim_env [] Down (hz_trace add_session) = Some Rec"
proof -
  have "hz_trace add_session \<noteq> []" and "hz_backend_initialized add_session"
    and "recording (hz_epoch add_session)"
    by code_simp+
  with trace_follows_protocol [OF add_session_reachable] show ?thesis by simp
qed

section \<open>Error codes\<close>

text \<open>
  C18. A failing call is remembered, and a succeeding one invents no failure. After any entry
  point that returns an error code the last error is that code; after one that succeeds it is
  success or what it was before (some calls succeed without touching it). The one exception is
  hazeGetLastError, which returns the cell and clears it and changes nothing else.
\<close>

theorem error_code_retained:
  assumes "api_step E s e s'"
  shows "(e \<noteq> HAZE_SUCCESS \<and> hz_last_error s' = e) \<or>
    (e = HAZE_SUCCESS \<and> hz_last_error s' \<in> {HAZE_SUCCESS, hz_last_error s}) \<or>
    (e, hz_last_error s') = hazeGetLastError (hz_last_error s) \<and>
      s' = s\<lparr>hz_last_error := HAZE_SUCCESS\<rparr>"
  using api_step_effect [OF assms] by (auto simp: tidy_def hazeGetLastError_def)

theorem error_code_retained_witness:
  "hz_last_error (snd (hazeSetRingDimension 5 session4)) = HAZE_ERROR_INVALID_VALUE"
proof -
  have step: "api_step sim_env session4 (fst (hazeSetRingDimension 5 session4))
      (snd (hazeSetRingDimension 5 session4))"
    by (rule st_ring) simp
  have "fst (hazeSetRingDimension 5 session4) = HAZE_ERROR_INVALID_VALUE"
    and "hz_last_error session4 = HAZE_SUCCESS"
    by code_simp+
  with error_code_retained [OF step] show ?thesis by (auto simp: hazeGetLastError_def)
qed

section \<open>Defined read-backs\<close>

text \<open>
  Sessions in which the polynomial size changes only while no vector is in the shadows: the
  ring dimension is set before the first upload, or after a reset.
\<close>

inductive steady_run :: "('p, 'm) fh_env \<Rightarrow> ('p, 'm) haze \<Rightarrow> bool" for E where
  steady_start: "steady_run E (haze_init hm)"
| steady_step: "steady_run E s \<Longrightarrow> api_step E s e s' \<Longrightarrow>
    poly_bytes (hz_alloc s') = poly_bytes (hz_alloc s) \<or> shadow_data (hz_alloc s) = Map.empty \<Longrightarrow>
    steady_run E s'"

lemma steady_reachable: "steady_run E s \<Longrightarrow> reachable E s"
  by (induction rule: steady_run.induct) (auto intro: reachable.intros)

lemma reachable_eight_dvd:
  assumes "reachable E s"
  shows "8 dvd unat (poly_bytes (hz_alloc s))"
proof -
  have "poly_bytes (hz_alloc s) = cf_ring_dim (hz_config s) * 8"
    using reachable_inv [OF assms] by (simp add: haze_inv_def cfg_inv_def)
  then have "unat (poly_bytes (hz_alloc s)) = unat (cf_ring_dim (hz_config s)) * 8 mod 2 ^ 64"
    by (simp add: unat_word_ariths)
  then show ?thesis by (simp add: dvd_mod_iff)
qed

lemma steady_sized: "steady_run E s \<Longrightarrow> sized (hz_alloc s)"
proof (induction rule: steady_run.induct)
  case (steady_start hm)
  then show ?case by (simp add: haze_init_def allocator_init_def sized_def)
next
  case (steady_step s e s')
  have d: "8 dvd unat (poly_bytes (hz_alloc s'))"
    using reachable_eight_dvd reachable.step steady_reachable steady_step.hyps(1,2) by blast
  have keep: "sized (hz_alloc s')"
    if "shadow_data (hz_alloc s') \<subseteq>\<^sub>m shadow_data (hz_alloc s)"
    using that steady_step.IH steady_step.hyps(3) d map_le_implies_dom_le [OF that]
    by (auto simp: sized_def want_elems_def map_le_def dom_def)
  have fit: "sized (hz_alloc s')" if "tidy s e s'"
    using that steady_step.IH fits_sized by (auto simp: tidy_def)
  have none: "sized (hz_alloc s')" if "shadow_data (hz_alloc s') = Map.empty"
    using that d by (simp add: sized_def)
  from api_step_effect [OF steady_step.hyps(2)] steady_step.IH show ?case
    by (elim disjE conjE) (auto intro: keep fit none)
qed

lemma sized_entry:
  assumes "sized (hz_alloc s)"
  shows "\<exists>r s'. copy_to_host_entry h a n s = Some (r, s') \<and> hz_alloc s' = hz_alloc s"
  using sized_copy_to_host [OF assms, of "hz_host s" h a n]
  by (auto simp: copy_to_host_entry_def)

lemma sized_entries: "sized (hz_alloc s) \<Longrightarrow> copy_to_host_mrp ps n s \<noteq> None"
proof (induction ps n s rule: copy_to_host_mrp.induct)
  case (2 h d rest n s)
  obtain r s' where e: "copy_to_host_entry h (to_dev_addr d) n s = Some (r, s')"
      and a: "hz_alloc s' = hz_alloc s"
    using sized_entry [OF "2.prems", where h = h and a = "to_dev_addr d" and n = n] by blast
  show ?case
  proof (cases r)
    case (Inr u)
    with e have "copy_to_host_entry h (to_dev_addr d) n s = Some (Inr u, s')" by simp
    with "2.IH" "2.prems" show ?thesis by (simp add: a)
  qed (simp add: e)
qed simp

text \<open>
  In such a session a read-back never runs past the vector it reads, whatever addresses,
  size and direction it is called with: hazeMemcpy is defined, and so is hazeMemcpyMrp for
  every list of residues.
\<close>

theorem reads_defined:
  assumes "steady_run E s"
  shows "hazeMemcpy E d h n k s \<noteq> None \<and> hazeMemcpyMrp E ds hs n k bs s \<noteq> None"
proof -
  note z = steady_sized [OF assms]
  obtain r t where "copy_to_host_entry d (to_dev_addr h) n s = Some (r, t)"
    using sized_entry [OF z] by blast
  then have "hazeMemcpy E d h n k s \<noteq> None"
    by (simp add: hazeMemcpy_def)
  moreover have "hazeMemcpyMrp E ds hs n k bs s = None \<Longrightarrow> False"
    using sized_entries [OF z]
    by (simp add: hazeMemcpyMrp_def split: option.splits if_splits del: not_None_eq)
  ultimately show ?thesis by blast
qed

lemma steady_api:
  "steady_run E s \<Longrightarrow> api_step E s e s' \<Longrightarrow>
   poly_bytes (hz_alloc s') = poly_bytes (hz_alloc s) \<Longrightarrow> steady_run E s'"
  by (rule steady_step) (assumption+, rule disjI1)

theorem reads_defined_witness:
  "\<exists>s. steady_run sim_env s \<and> shadow_data (hz_alloc s) kHbmBase = Some [0, 0, 0, 0] \<and>
     hazeMemcpy sim_env 8192 kHbmBase 32 2 s \<noteq> None"
proof -
  let ?s1 = "snd (hazeSetRingDimension 4 (haze_init (\<lambda>_. 0))) :: (u64 list, sim_mrp) haze"
  let ?s2 = "snd (hazeMallocMrp False 2 32 ?s1)"
  let ?s3 = "snd (hazeMemset kHbmBase 0 32 ?s2)"
  have r1: "steady_run sim_env ?s1"
    by (rule steady_step [OF steady_start [of sim_env "\<lambda>_. 0"]
          st_ring [where n = 4, OF prod.collapse [symmetric]]])
       (simp add: haze_init_def allocator_init_def)
  have m: "api_step sim_env ?s1 (fst (fst (hazeMallocMrp False 2 32 ?s1))) ?s2"
    by (rule st_malloc_mrp, subst prod.collapse, rule prod.collapse [symmetric])
  have w: "api_step sim_env ?s2 (fst (hazeMemset kHbmBase 0 32 ?s2)) ?s3"
    by (rule st_memset, rule prod.collapse [symmetric])
  have p: "poly_bytes (hz_alloc ?s2) = poly_bytes (hz_alloc ?s1)"
      "poly_bytes (hz_alloc ?s3) = poly_bytes (hz_alloc ?s2)"
    by code_simp+
  have r3: "steady_run sim_env ?s3" by (rule steady_api [OF steady_api [OF r1 m p(1)] w p(2)])
  have "shadow_data (hz_alloc ?s3) kHbmBase = Some [0, 0, 0, 0]" by code_simp
  with r3 reads_defined [OF r3, where d = 8192 and h = kHbmBase and n = 32 and k = 2] show ?thesis
    by blast
qed

end
