(* ===== verification/Haze_Mrp_Semantics.thy ===== *)
theory Haze_Mrp_Semantics
  imports Haze_Semantics Haze_Frame
begin

text \<open>
  What a recording of multi-residue operations means. A multi-residue polynomial denotes its
  towers: residue vectors with their moduli. The documented meaning of the fhetch operations
  on towers is \<open>mr_sound\<close>: an \<open>mr_*\<close> operation fans out to the single-residue operation on
  each tower, the basis conversions are arbitrary functions whose result has the documented
  base. Against it every multi-residue operation of the core is the eager one on device
  memory: all residues are read before the first is written.
\<close>

section \<open>Documented behaviour\<close>

type_synonym rns = "(u64 list \<times> u64) list"

record mr_denotation =
  den_rot :: "u64 list \<Rightarrow> u64 \<Rightarrow> u64 \<Rightarrow> u64 list"
  den_fbc :: "rns \<Rightarrow> u64 list \<Rightarrow> FbcVariant \<Rightarrow> FbcCenterShape \<Rightarrow> rns"
  den_rescale :: "rns \<Rightarrow> u64 list \<Rightarrow> FbcVariant \<Rightarrow> FbcCenterShape \<Rightarrow> rns"
  den_subset :: "rns \<Rightarrow> u64 list \<Rightarrow> rns"

fun pp_tower :: "mr_pp \<Rightarrow> sr_pp" where
  "pp_tower MrAddp = SrAddp" | "pp_tower MrSubp = SrSubp" | "pp_tower MrMulp = SrMulp"

fun ps_tower :: "mr_ps \<Rightarrow> sr_ps" where
  "ps_tower MrAddps = SrAddps" | "ps_tower MrSubps = SrSubps" | "ps_tower MrMulps = SrMulps"

fun p_tower :: "mr_p \<Rightarrow> sr_pq" where
  "p_tower MrNtt = SrNtt" | "p_tower MrIntt = SrIntt"

definition rns_pp :: "fh_denotation \<Rightarrow> mr_pp \<Rightarrow> rns \<Rightarrow> rns \<Rightarrow> rns" where
  "rns_pp D f xs ys = map2 (\<lambda>(a, q) (b, _). (den_pp D (pp_tower f) a b q, q)) xs ys"

definition rns_ps :: "fh_denotation \<Rightarrow> mr_ps \<Rightarrow> rns \<Rightarrow> mrs \<Rightarrow> rns" where
  "rns_ps D f xs ss = map2 (\<lambda>(a, q) (x, _). (den_ps D (ps_tower f) a x q, q)) xs ss"

definition rns_p :: "fh_denotation \<Rightarrow> mr_p \<Rightarrow> rns \<Rightarrow> rns" where
  "rns_p D f xs = map (\<lambda>(a, q). (den_pq D (p_tower f) a q, q)) xs"

definition rns_pi :: "fh_denotation \<Rightarrow> mr_denotation \<Rightarrow> mr_pi \<Rightarrow> rns \<Rightarrow> u64 \<Rightarrow> rns" where
  "rns_pi D M f xs k = map (\<lambda>(a, q).
     (case f of MrAutomorphEval \<Rightarrow> den_automorph D a k | MrRotAutomorphCoeff \<Rightarrow> den_rot M a q k, q)) xs"

definition mr_sound ::
    "('p, 'm) fh_env \<Rightarrow> ('p \<Rightarrow> u64 list) \<Rightarrow> ('m \<Rightarrow> rns) \<Rightarrow> fh_denotation \<Rightarrow> mr_denotation \<Rightarrow> bool"
  where
  "mr_sound E val mval D M \<longleftrightarrow>
     (\<forall>ps. mval (mrp_from_pairs E ps) = map (\<lambda>(p, q). (val p, q)) ps) \<and>
     (\<forall>m. mrp_base E m = map snd (mval m)) \<and>
     (\<forall>m v q. distinct (map snd (mval m)) \<and> (v, q) \<in> set (mval m) \<longrightarrow> val (mrp_at E m q) = v) \<and>
     (\<forall>h f a b. distinct (map snd (mval a)) \<and> map snd (mval a) = map snd (mval b) \<longrightarrow>
        mval (mrp_of E h (MrPP f a b)) = rns_pp D f (mval a) (mval b)) \<and>
     (\<forall>h f a ss. distinct (map snd (mval a)) \<and> map snd (mval a) = map snd ss \<longrightarrow>
        mval (mrp_of E h (MrPS f a ss)) = rns_ps D f (mval a) ss) \<and>
     (\<forall>h f a. mval (mrp_of E h (MrP f a)) = rns_p D f (mval a)) \<and>
     (\<forall>h f a k. mval (mrp_of E h (MrPI f a k)) = rns_pi D M f (mval a) k) \<and>
     (\<forall>h a tb v sh. mval (mrp_of E h (FastBaseConvert a tb v sh)) = den_fbc M (mval a) tb v sh) \<and>
     (\<forall>h a rb v sh. mval (mrp_of E h (RescaleFbc a rb v sh)) = den_rescale M (mval a) rb v sh) \<and>
     (\<forall>h a db. mval (mrp_of E h (MrSubset a db)) = den_subset M (mval a) db) \<and>
     (\<forall>xs tb v sh. map snd (den_fbc M xs tb v sh) = tb) \<and>
     (\<forall>xs rb v sh. map snd (den_rescale M xs rb v sh) = filter (\<lambda>q. q \<notin> set rb) (map snd xs))"

lemma mr_soundD:
  assumes "mr_sound E val mval D M"
  shows "mval (mrp_from_pairs E ps) = map (\<lambda>(p, q). (val p, q)) ps"
    and "mrp_base E m = map snd (mval m)"
    and "distinct (map snd (mval m)) \<Longrightarrow> (v, q) \<in> set (mval m) \<Longrightarrow> val (mrp_at E m q) = v"
    and "distinct (map snd (mval a)) \<Longrightarrow> map snd (mval a) = map snd (mval b) \<Longrightarrow>
        mval (mrp_of E h (MrPP f1 a b)) = rns_pp D f1 (mval a) (mval b)"
    and "distinct (map snd (mval a)) \<Longrightarrow> map snd (mval a) = map snd ss \<Longrightarrow>
        mval (mrp_of E h (MrPS f2 a ss)) = rns_ps D f2 (mval a) ss"
    and "mval (mrp_of E h (MrP f3 a)) = rns_p D f3 (mval a)"
    and "mval (mrp_of E h (MrPI f4 a k)) = rns_pi D M f4 (mval a) k"
    and "mval (mrp_of E h (FastBaseConvert a tb w sh)) = den_fbc M (mval a) tb w sh"
    and "mval (mrp_of E h (RescaleFbc a tb w sh)) = den_rescale M (mval a) tb w sh"
    and "mval (mrp_of E h (MrSubset a tb)) = den_subset M (mval a) tb"
    and "map snd (den_fbc M xs tb w sh) = tb"
    and "map snd (den_rescale M xs tb w sh) = filter (\<lambda>q. q \<notin> set tb) (map snd xs)"
  using assms by (simp_all add: mr_sound_def)

lemma rns_bases [simp]:
  "length xs = length ys \<Longrightarrow> map snd (rns_pp D f1 xs ys) = map snd xs"
  "length xs = length ss \<Longrightarrow> map snd (rns_ps D f2 xs ss) = map snd xs"
  "map snd (rns_p D f3 xs) = map snd xs"
  "map snd (rns_pi D M f4 xs k) = map snd xs"
proof -
  show "length xs = length ys \<Longrightarrow> map snd (rns_pp D f1 xs ys) = map snd xs"
    unfolding rns_pp_def by (induction xs ys rule: list_induct2) (auto split: prod.splits)
  show "length xs = length ss \<Longrightarrow> map snd (rns_ps D f2 xs ss) = map snd xs"
    unfolding rns_ps_def by (induction xs ss rule: list_induct2) (auto split: prod.splits)
qed (simp_all add: rns_p_def rns_pi_def comp_def split_def)

lemma rns_lengths [simp]:
  "length (rns_pp D f1 xs ys) = min (length xs) (length ys)"
  "length (rns_ps D f2 xs ss) = min (length xs) (length ss)"
  "length (rns_p D f3 xs) = length xs"
  "length (rns_pi D M f4 xs k) = length xs"
  by (simp_all add: rns_pp_def rns_ps_def rns_p_def rns_pi_def)

section \<open>Groups in device memory\<close>

type_synonym dmem = "DevAddr \<rightharpoonup> u64 list"

fun read_pairs :: "dmem \<Rightarrow> (hostptr \<times> u64) list \<Rightarrow> rns option" where
  "read_pairs m [] = Some []"
| "read_pairs m ((ptr, q) # ps) =
     (case m (to_dev_addr ptr) of
        None \<Rightarrow> None
      | Some v \<Rightarrow> map_option ((#) (v, q)) (read_pairs m ps))"

definition read_group :: "dmem \<Rightarrow> hostptr list \<Rightarrow> u64 list \<Rightarrow> rns option" where
  "read_group m ptrs base = read_pairs m (zip ptrs base)"

fun write_pairs :: "dmem \<Rightarrow> (hostptr \<times> u64 list \<times> u64) list \<Rightarrow> dmem" where
  "write_pairs m [] = m"
| "write_pairs m ((ptr, v, q) # ps) = write_pairs (m(to_dev_addr ptr \<mapsto> v)) ps"

definition write_group :: "dmem \<Rightarrow> hostptr list \<Rightarrow> rns \<Rightarrow> dmem" where
  "write_group m ptrs xs = write_pairs m (zip ptrs xs)"

lemma read_pairs_base: "read_pairs m ps = Some xs \<Longrightarrow> map snd xs = map snd ps"
  by (induction ps arbitrary: xs) (auto split: option.splits)

lemma read_group_base:
  "read_group m ptrs base = Some xs \<Longrightarrow> length base \<le> length ptrs \<Longrightarrow> map snd xs = base"
  by (auto simp: read_group_def map_snd_zip_take dest!: read_pairs_base)

section \<open>Building and storing\<close>

lemma build_pairs_sem:
  assumes "fh_sound E val D" and "ready s" and "build_pairs E ps s = (r, s')"
  shows "dev_mem val s' = dev_mem val s \<and> ready s' \<and> hz_config s' = hz_config s \<and>
    read_pairs (dev_mem val s) ps =
      (case r of Inr xs \<Rightarrow> Some (map (\<lambda>(p, q). (val p, q)) xs) | Inl e \<Rightarrow> None)"
  using assms(2,3)
proof (induction ps arbitrary: s r s')
  case (Cons x ps)
  obtain ptr q where x: "x = (ptr, q)" by (cases x)
  obtain l s1 where l: "lookup_or_create_locked E (to_dev_addr ptr) s = (l, s1)"
    by (cases "lookup_or_create_locked E (to_dev_addr ptr) s")
  note L = lookup_sem [OF assms(1) Cons.prems(1) l]
  show ?case
  proof (cases l)
    case (Inl e)
    then show ?thesis using Cons.prems(2) L by (auto simp: x l)
  next
    case (Inr p)
    obtain y s2 where y: "build_pairs E ps s1 = (y, s2)" by (cases "build_pairs E ps s1")
    from Cons.IH [OF L(2) y] show ?thesis
      using Cons.prems(2) L Inr by (cases y) (auto simp: x l y)
  qed
qed auto

lemma dev_mem_cong:
  "poly_map (hz_epoch t) = poly_map (hz_epoch s) \<Longrightarrow> hz_alloc t = hz_alloc s \<Longrightarrow>
   dev_mem val t = dev_mem val s"
  by (rule ext) (simp add: dev_mem_def split: option.split)

lemma ready_cong:
  "ready s \<Longrightarrow> haze_inv t \<Longrightarrow> hz_alloc t = hz_alloc s \<Longrightarrow> hz_config t = hz_config s \<Longrightarrow> ready t"
  by (simp add: ready_def)

lemma tag_mrp_input_frame:
  "poly_map (hz_epoch (tag_mrp_input_if_new_locked n m s)) = poly_map (hz_epoch s)"
  "hz_alloc (tag_mrp_input_if_new_locked n m s) = hz_alloc s"
  "hz_config (tag_mrp_input_if_new_locked n m s) = hz_config s"
  by (simp_all add: tag_mrp_input_if_new_locked_def)

lemma build_mrp_sem:
  assumes "fh_sound E val D" and "mr_sound E val mval D M" and "ready s"
    and "build_mrp_locked E ptrs base s = (r, s')"
  shows "dev_mem val s' = dev_mem val s" and "ready s'" and "hz_config s' = hz_config s"
    and "read_group (dev_mem val s) ptrs base =
      (case r of Inr m \<Rightarrow> Some (mval m) | Inl e \<Rightarrow> None)"
proof -
  obtain x s1 where b: "build_pairs E (zip ptrs base) s = (x, s1)"
    by (cases "build_pairs E (zip ptrs base) s")
  note B = build_pairs_sem [OF assms(1,3) b]
  obtain n ep where n: "mrp_group_name_locked False (to_dev_addr (hd ptrs)) (hz_epoch s1) = (n, ep)"
    by (cases "mrp_group_name_locked False (to_dev_addr (hd ptrs)) (hz_epoch s1)")
  have pm: "poly_map ep = poly_map (hz_epoch s1)"
    using mrp_group_name_simps(1) [of False "to_dev_addr (hd ptrs)" "hz_epoch s1"] n by simp
  have frame: "poly_map (hz_epoch s') = poly_map (hz_epoch s1) \<and> hz_alloc s' = hz_alloc s1 \<and>
      hz_config s' = hz_config s1"
    using assms(4) pm by (auto simp: build_mrp_locked_def b n Let_def tag_mrp_input_frame
        split: sum.splits if_splits)
  have inv: "haze_inv s'"
    using haze_inv_build_mrp_eq [OF _ assms(4)] assms(3) by (simp add: ready_def)
  show "dev_mem val s' = dev_mem val s"
    using B frame dev_mem_cong [of s' s1 val] by simp
  show "ready s'" by (rule ready_cong [of s1]) (use B frame inv in auto)
  show "hz_config s' = hz_config s" using B frame by simp
  show "read_group (dev_mem val s) ptrs base = (case r of Inr m \<Rightarrow> Some (mval m) | Inl e \<Rightarrow> None)"
    using B assms(4)
    by (cases x) (auto simp: read_group_def build_mrp_locked_def b mr_soundD(1) [OF assms(2)]
        Let_def)
qed

lemma store_residues_sem:
  assumes "mr_sound E val mval D M" and "distinct (map snd (mval m))"
    and "snd ` set ps \<subseteq> set (mval m)"
  shows "dev_mem val (store_residues E m (map (\<lambda>(d, v, q). (d, q)) ps) s) =
    write_pairs (dev_mem val s) ps"
  using assms(3)
proof (induction ps arbitrary: s)
  case (Cons x ps)
  obtain d v q where x: "x = (d, v, q)" by (cases x)
  have "val (mrp_at E m q) = v"
    using mr_soundD(3) [OF assms(1,2), of v q] Cons.prems by (simp add: x)
  with Cons.prems Cons.IH show ?case by (simp add: x dev_mem_store)
qed simp

lemma conflicts_poly_map: "poly_map (foldl (evict_conflicts n) ep as) = poly_map ep"
proof -
  have evicts: "poly_map (foldl (\<lambda>e m. if m \<noteq> n then evict_mrp_group_locked m e else e) ep ns) = poly_map ep"
    for ns and ep :: "'a epoch"
    by (induction ns arbitrary: ep) (auto simp: evict_mrp_group_locked_def split: option.split)
  show ?thesis
    by (induction as arbitrary: ep) (auto simp: evict_conflicts_def evicts split: option.split)
qed

lemma register_outputs_ok:
  assumes "length addrs = length base" and "register_outputs addrs base s = (r, s')"
  shows "r = Inr ()" and "poly_map (hz_epoch s') = poly_map (hz_epoch s)"
    and "hz_alloc s' = hz_alloc s" and "hz_config s' = hz_config s"
proof -
  have reg: "fst (register_mrp_output_group_locked addrs base n ep) = Inr () \<and>
      poly_map (snd (register_mrp_output_group_locked addrs base n ep)) = poly_map ep"
    for n and ep :: "'a epoch"
    using assms(1) by (auto simp: conflicts_poly_map register_mrp_output_group_locked_def Let_def split: option.split)
  obtain n ep where n: "mrp_group_name_locked True (hd addrs) (hz_epoch s) = (n, ep)"
    by (cases "mrp_group_name_locked True (hd addrs) (hz_epoch s)")
  have pm: "poly_map ep = poly_map (hz_epoch s)"
    using mrp_group_name_simps(1) [of True "hd addrs" "hz_epoch s"] n by simp
  show "r = Inr ()" and "poly_map (hz_epoch s') = poly_map (hz_epoch s)"
    and "hz_alloc s' = hz_alloc s" and "hz_config s' = hz_config s"
    using assms(2) reg [of n ep] pm
    by (auto simp: register_outputs_def n split: if_splits prod.splits)
qed

lemma store_mrp_sem:
  assumes "mr_sound E val mval D M" and "ready s" and "map snd (mval m) = base"
    and "distinct base" and "length base \<le> length ds"
    and "store_mrp_locked E ds m base s = (r, s')"
  shows "r = Inr ()" and "dev_mem val s' = write_group (dev_mem val s) ds (mval m)"
    and "ready s'" and "hz_config s' = hz_config s"
proof -
  let ?ps = "zip ds (mval m)"
  let ?t = "store_residues E m (zip ds base) s"
  have z: "zip ds base = map (\<lambda>(d, v, q). (d, q)) ?ps"
    by (simp add: assms(3) [symmetric] zip_map2 split_def)
  have sub: "snd ` set ?ps \<subseteq> set (mval m)" by (auto dest: set_zip_rightD)
  have sem: "dev_mem val ?t = write_group (dev_mem val s) ds (mval m)"
    using store_residues_sem [OF assms(1) _ sub, of s] assms(3,4)
    by (simp add: z write_group_def)
  have st: "register_outputs (map to_dev_addr (take (length base) ds)) base ?t = (r, s')"
    using assms(6) by (simp add: store_mrp_eq)
  note R = register_outputs_ok [OF _ st]
  have len: "length (map to_dev_addr (take (length base) ds)) = length base" using assms(5) by simp
  show "r = Inr ()" by (rule R(1) [OF len])
  show "dev_mem val s' = write_group (dev_mem val s) ds (mval m)"
    using R [OF len] sem dev_mem_cong [of s' ?t val] by simp
  show c: "hz_config s' = hz_config s" using R(4) [OF len] by (simp add: frame_simps)
  have "haze_inv s'"
    using haze_inv_store_mrp [of s E ds m base] assms(2,6) by (simp add: ready_def)
  then show "ready s'"
    using ready_cong [OF assms(2), of s'] R(3) [OF len] c by (simp add: frame_simps)
qed

section \<open>Instructions\<close>

datatype mr_instr =
    MPP mr_pp "hostptr list" "hostptr list" "hostptr list" "u64 list"
  | MPS mr_ps "hostptr list" "hostptr list" "u64 list" "u64 list"
  | MP mr_p "hostptr list" "hostptr list" "u64 list"
  | MPI mr_pi "hostptr list" "hostptr list" u64 "u64 list"
  | MConvert "hostptr list" "hostptr list" hazeBasisConvertParams
  | MDown "hostptr list" "hostptr list" hazeModDownParams
  | MUp "hostptr list" "hostptr list" hazeModUpParams
  | MCopy "hostptr list" "hostptr list" "u64 list"

fun exec_mr ::
    "('p, 'm) fh_env \<Rightarrow> mr_instr \<Rightarrow> ('p, 'm) haze \<Rightarrow> (unit expected \<times> ('p, 'm) haze) option"
  where
  "exec_mr E (MPP f d a b base) s = Some (binary_pp_op_mrp E f d a b base s)"
| "exec_mr E (MPS f d a xs base) s = Some (binary_ps_op_mrp E f d a xs base s)"
| "exec_mr E (MP f d a base) s = Some (unary_p_op_mrp E f d a base s)"
| "exec_mr E (MPI f d a k base) s = Some (unary_pi_op_mrp E f d a k base s)"
| "exec_mr E (MConvert d a p) s = Some (basis_convert E d a p s)"
| "exec_mr E (MDown d a p) s = Some (mod_down E d a p s)"
| "exec_mr E (MUp d a p) s = mod_up E d a p s"
| "exec_mr E (MCopy d a base) s = Some (copy_device_to_device_mrp E d a base s)"

text \<open>
  Eager execution. The digits of a mod-up all come from the source as it was; a copy goes
  residue by residue, so it sees its own earlier writes.
\<close>

fun eager_digits ::
    "mr_denotation \<Rightarrow> config \<Rightarrow> rns \<Rightarrow> u64 list \<Rightarrow> hostptr list \<Rightarrow> nat \<Rightarrow> u64 list list \<Rightarrow> dmem \<Rightarrow>
     dmem" where
  "eager_digits M c xs tb ds d [] m = m"
| "eager_digits M c xs tb ds d (db # dbs) m =
     eager_digits M c xs tb ds (Suc d) dbs
       (write_group m (drop (d * length tb) ds)
         (den_fbc M (den_subset M xs db) tb (fbc_variant c) (fbc_center_shape c)))"

fun eager_copies :: "(hostptr \<times> hostptr) list \<Rightarrow> dmem \<Rightarrow> dmem option" where
  "eager_copies [] m = Some m"
| "eager_copies ((d, a) # ps) m =
     (case m (to_dev_addr a) of
        None \<Rightarrow> None
      | Some v \<Rightarrow> eager_copies ps (m(to_dev_addr d \<mapsto> v)))"

definition on_group ::
    "dmem \<Rightarrow> hostptr list \<Rightarrow> u64 list \<Rightarrow> (rns \<Rightarrow> dmem option) \<Rightarrow> dmem option" where
  "on_group m ptrs base k = (case read_group m ptrs base of None \<Rightarrow> None | Some xs \<Rightarrow> k xs)"

fun eager_mr ::
    "fh_denotation \<Rightarrow> mr_denotation \<Rightarrow> config \<Rightarrow> mr_instr \<Rightarrow> dmem \<Rightarrow> dmem option" where
  "eager_mr D M c (MPP f d a b base) m =
     on_group m a base (\<lambda>xs. on_group m b base (\<lambda>ys. Some (write_group m d (rns_pp D f xs ys))))"
| "eager_mr D M c (MPS f d a ss base) m =
     on_group m a base (\<lambda>xs. Some (write_group m d (rns_ps D f xs (zip ss base))))"
| "eager_mr D M c (MP f d a base) m =
     on_group m a base (\<lambda>xs. Some (write_group m d (rns_p D f xs)))"
| "eager_mr D M c (MPI f d a k base) m =
     on_group m a base (\<lambda>xs. Some (write_group m d (rns_pi D M f xs k)))"
| "eager_mr D M c (MConvert d a p) m =
     (case validate_basis_convert p of Inl e \<Rightarrow> None
      | Inr _ \<Rightarrow> on_group m a (base_of (bc_src_base p) (bc_src_base_len p)) (\<lambda>xs.
          Some (write_group m d (den_fbc M xs (base_of (bc_dst_base p) (bc_dst_base_len p))
            (fbc_variant c) (fbc_center_shape c)))))"
| "eager_mr D M c (MDown d a p) m =
     (case validate_mod_down p of Inl e \<Rightarrow> None
      | Inr _ \<Rightarrow> on_group m a (base_of (md_src_base p) (md_src_base_len p)) (\<lambda>xs.
          Some (write_group m d (den_rescale M xs
            (base_of (md_rescale_base p) (md_rescale_base_len p))
            (fbc_variant c) (fbc_center_shape c)))))"
| "eager_mr D M c (MUp d a p) m =
     (case validate_mod_up p of Inl e \<Rightarrow> None
      | Inr _ \<Rightarrow> on_group m a (base_of (mu_src_base p) (mu_src_base_len p)) (\<lambda>xs.
          map_option (\<lambda>dbs. eager_digits M c xs
              (map snd xs @ base_of (mu_p_base p) (mu_p_base_len p)) d 0 dbs m)
            (slice_digits (base_of (mu_digit_bases p) (mu_digit_bases_total_len p)) 0
              (base_of (mu_digit_base_lens p) (mu_digit_count p)))))"
| "eager_mr D M c (MCopy d a base) m = eager_copies (map (\<lambda>(d, a, q). (d, a)) (zip d (zip a base))) m"

text \<open>
  The array contract of the ABI: every pointer array is at least as long as its base says, and
  the moduli of a result are distinct.
\<close>

fun mr_ok :: "mr_instr \<Rightarrow> bool" where
  "mr_ok (MPP f d a b base) \<longleftrightarrow> distinct base \<and> length base \<le> length d \<and>
     length base \<le> length a \<and> length base \<le> length b"
| "mr_ok (MPS f d a ss base) \<longleftrightarrow> distinct base \<and> length base \<le> length d \<and>
     length base \<le> length a \<and> length base \<le> length ss"
| "mr_ok (MP f d a base) \<longleftrightarrow> distinct base \<and> length base \<le> length d \<and> length base \<le> length a"
| "mr_ok (MPI f d a k base) \<longleftrightarrow> distinct base \<and> length base \<le> length d \<and> length base \<le> length a"
| "mr_ok (MConvert d a p) \<longleftrightarrow>
     (let tb = base_of (bc_dst_base p) (bc_dst_base_len p) in distinct tb \<and> length tb \<le> length d)"
| "mr_ok (MDown d a p) \<longleftrightarrow>
     (let sb = base_of (md_src_base p) (md_src_base_len p);
          rb = base_of (md_rescale_base p) (md_rescale_base_len p)
      in distinct sb \<and> length sb \<le> length a \<and> length (filter (\<lambda>q. q \<notin> set rb) sb) \<le> length d)"
| "mr_ok (MUp d a p) \<longleftrightarrow>
     (let sb = base_of (mu_src_base p) (mu_src_base_len p);
          tb = sb @ base_of (mu_p_base p) (mu_p_base_len p);
          dlens = base_of (mu_digit_base_lens p) (mu_digit_count p)
      in distinct tb \<and> length sb \<le> length a \<and> length dlens * length tb \<le> length d)"
| "mr_ok (MCopy d a base) \<longleftrightarrow> length base \<le> length d \<and> length base \<le> length a"

lemma emit_store_sem:
  assumes "mr_sound E val mval D M" and "ready s" and "map snd (mval m) = base"
    and "distinct base" and "length base \<le> length ds"
    and "store_mrp_locked E ds m base (fh_emit c s) = (r, s')"
  shows "r = Inr () \<and> dev_mem val s' = write_group (dev_mem val s) ds (mval m) \<and> ready s' \<and>
    hz_config s' = hz_config s"
  using store_mrp_sem [OF assms(1) _ assms(3-6)] assms(2) by simp

lemma build_session:
  assumes "fh_sound E val D" and "mr_sound E val mval D M" and "ready s"
    and "build_mrp_locked E ptrs base (open_session E s) = (r1, s1)"
  shows "dev_mem val s1 = dev_mem val s" and "ready s1" and "hz_config s1 = hz_config s"
    and "r1 = Inl e \<Longrightarrow> read_group (dev_mem val s) ptrs base = None"
    and "r1 = Inr m \<Longrightarrow> read_group (dev_mem val s) ptrs base = Some (mval m)"
    and "r1 = Inr m \<Longrightarrow> length base \<le> length ptrs \<Longrightarrow> map snd (mval m) = base"
proof -
  note B = build_mrp_sem [OF assms(1,2) ready_session [OF assms(3)] assms(4)]
  show "dev_mem val s1 = dev_mem val s" and "ready s1" and "hz_config s1 = hz_config s"
    using B by (simp_all add: frame_simps)
  show "r1 = Inl e \<Longrightarrow> read_group (dev_mem val s) ptrs base = None"
    and g: "r1 = Inr m \<Longrightarrow> read_group (dev_mem val s) ptrs base = Some (mval m)"
    using B(4) by simp_all
  show "r1 = Inr m \<Longrightarrow> length base \<le> length ptrs \<Longrightarrow> map snd (mval m) = base"
    by (rule read_group_base [OF g])
qed

text \<open>The statement proved for each operation.\<close>

definition refines ::
    "('p \<Rightarrow> u64 list) \<Rightarrow> ('p, 'm) haze \<Rightarrow> dmem option \<Rightarrow> unit expected \<times> ('p, 'm) haze \<Rightarrow> bool"
  where
  "refines val s eager res \<longleftrightarrow>
     eager = (case fst res of Inr u \<Rightarrow> Some (dev_mem val (snd res)) | Inl e \<Rightarrow> None) \<and>
     ready (snd res) \<and> hz_config (snd res) = hz_config s"

lemma refines_pair:
  "refines val s eager (r, s') \<longleftrightarrow>
     eager = (case r of Inr u \<Rightarrow> Some (dev_mem val s') | Inl e \<Rightarrow> None) \<and>
     ready s' \<and> hz_config s' = hz_config s"
  by (cases r) (simp_all add: refines_def)

lemma refines_store:
  assumes "mr_sound E val mval D M" and "ready s1" and "dev_mem val s1 = dev_mem val s"
    and "hz_config s1 = hz_config s" and "map snd (mval m) = base" and "distinct base"
    and "length base \<le> length ds" and "mval m = xs"
  shows "refines val s (Some (write_group (dev_mem val s) ds xs))
    (store_mrp_locked E ds m base (fh_emit c s1))"
proof -
  obtain r s' where st: "store_mrp_locked E ds m base (fh_emit c s1) = (r, s')" by (rule prod.exhaust)
  from emit_store_sem [OF assms(1,2,5-7) st] assms(3,4,8) show ?thesis
    by (simp add: refines_def st)
qed

lemma refines_error:
  "ready s1 \<Longrightarrow> hz_config s1 = hz_config s \<Longrightarrow> refines val s None (Inl e, s1)"
  by (simp add: refines_def)

lemmas mr_bases = mr_soundD(2,11,12)

lemma refines_pp:
  assumes "fh_sound E val D" and "mr_sound E val mval D M" and "ready s"
    and "mr_ok (MPP f d a b base)"
  shows "refines val s (eager_mr D M (hz_config s) (MPP f d a b base) (dev_mem val s))
    (binary_pp_op_mrp E f d a b base s)"
proof -
  obtain r1 s1 where b1: "build_mrp_locked E a base (open_session E s) = (r1, s1)" by (rule prod.exhaust)
  note B1 = build_session [OF assms(1-3) b1]
  obtain r2 s2 where b2: "build_mrp_locked E b base s1 = (r2, s2)" by (rule prod.exhaust)
  note B2 = build_mrp_sem [OF assms(1,2) B1(2) b2]
  show ?thesis
  proof (cases r1)
    case (Inl e)
    then show ?thesis
      using B1 by (simp add: binary_pp_op_mrp_def b1 on_group_def refines_error)
  next
    case m1: (Inr m1)
    show ?thesis
    proof (cases r2)
      case (Inl e)
      then show ?thesis
        using B1 B2 m1 by (simp add: binary_pp_op_mrp_def b1 b2 on_group_def refines_error)
    next
      case m2: (Inr m2)
      have g2: "read_group (dev_mem val s) b base = Some (mval m2)"
        using B1(1) B2(4) m2 by simp
      have bases: "map snd (mval m1) = base" "map snd (mval m2) = base"
        using B1(6) [OF m1] read_group_base [OF g2] assms(4) by simp_all
      then have "length (mval m1) = length (mval m2)" by (metis length_map)
      moreover have "mval (mrp_of E (hz_trace s2) (MrPP f m1 m2)) = rns_pp D f (mval m1) (mval m2)"
        using mr_soundD(4) [OF assms(2)] bases assms(4) by simp
      ultimately have "refines val s (Some (write_group (dev_mem val s) d (rns_pp D f (mval m1) (mval m2))))
          (store_mrp_locked E d (mrp_of E (hz_trace s2) (MrPP f m1 m2)) base
            (fh_emit (MrPP f m1 m2) s2))"
        using B1 B2 bases assms(4) by (intro refines_store [OF assms(2)]) simp_all
      with B1(5) [OF m1] g2 show ?thesis
        by (simp add: binary_pp_op_mrp_def b1 b2 m1 m2 on_group_def fh_mrp_def)
    qed
  qed
qed

text \<open>An operation with one source: \<open>C\<close> is its call, \<open>g\<close> its meaning, \<open>B\<close> the base it stores.\<close>

lemma refines_unary:
  assumes "fh_sound E val D" and "mr_sound E val mval D M" and "ready s"
    and "\<And>m s1. read_group (dev_mem val s) a sb = Some (mval m) \<Longrightarrow> hz_config s1 = hz_config s \<Longrightarrow>
      mval (mrp_of E (hz_trace s1) (C s1 m)) = g (mval m) \<and>
      map snd (g (mval m)) = B (mrp_of E (hz_trace s1) (C s1 m)) \<and>
      distinct (map snd (g (mval m))) \<and> length (g (mval m)) \<le> length d"
  shows "refines val s
    (on_group (dev_mem val s) a sb (\<lambda>xs. Some (write_group (dev_mem val s) d (g xs))))
    (case build_mrp_locked E a sb (open_session E s) of
        (Inl e, s1) \<Rightarrow> (Inl e, s1)
      | (Inr m, s1) \<Rightarrow> (case fh_mrp E (C s1 m) s1 of
          (result, s2) \<Rightarrow> store_mrp_locked E d result (B result) s2))"
proof -
  obtain r1 s1 where b1: "build_mrp_locked E a sb (open_session E s) = (r1, s1)" by (rule prod.exhaust)
  note B1 = build_session [OF assms(1-3) b1]
  show ?thesis
  proof (cases r1)
    case (Inl e)
    then show ?thesis using B1 by (simp add: b1 on_group_def refines_error)
  next
    case (Inr m)
    let ?m = "mrp_of E (hz_trace s1) (C s1 m)"
    note A = assms(4) [OF B1(5) [OF Inr] B1(3)]
    then have "distinct (B ?m)" and "length (B ?m) \<le> length d" by (metis, metis length_map)
    with A have "refines val s (Some (write_group (dev_mem val s) d (g (mval m))))
        (store_mrp_locked E d ?m (B ?m) (fh_emit (C s1 m) s1))"
      using B1 by (intro refines_store [OF assms(2)]) simp_all
    with B1(5) [OF Inr] show ?thesis by (simp add: b1 Inr on_group_def fh_mrp_def)
  qed
qed

lemma read_group_length:
  "read_group m ptrs base = Some xs \<Longrightarrow> length base \<le> length ptrs \<Longrightarrow> length xs = length base"
  using read_group_base [of m ptrs base xs] by (metis length_map)

lemma refines_arith:
  assumes "fh_sound E val D" and "mr_sound E val mval D M" and "ready s"
  shows "mr_ok (MPS f1 d a ss base) \<Longrightarrow>
      refines val s (eager_mr D M (hz_config s) (MPS f1 d a ss base) (dev_mem val s))
        (binary_ps_op_mrp E f1 d a ss base s)"
    and "mr_ok (MP f2 d a base) \<Longrightarrow>
      refines val s (eager_mr D M (hz_config s) (MP f2 d a base) (dev_mem val s))
        (unary_p_op_mrp E f2 d a base s)"
    and "mr_ok (MPI f3 d a k base) \<Longrightarrow>
      refines val s (eager_mr D M (hz_config s) (MPI f3 d a k base) (dev_mem val s))
        (unary_pi_op_mrp E f3 d a k base s)"
proof -
  assume ok: "mr_ok (MPS f1 d a ss base)"
  then have z: "map snd (zip ss base) = base" by (simp add: map_snd_zip_take)
  show "refines val s (eager_mr D M (hz_config s) (MPS f1 d a ss base) (dev_mem val s))
      (binary_ps_op_mrp E f1 d a ss base s)"
    unfolding eager_mr.simps binary_ps_op_mrp_def build_mrs_def
  proof (rule refines_unary [OF assms])
    fix m and s1 :: "('a, 'b) haze"
    assume g: "read_group (dev_mem val s) a base = Some (mval m)"
    from read_group_base [OF g] read_group_length [OF g] ok
    have b: "map snd (mval m) = base" "length (mval m) = length base" by simp_all
    have "length (zip ss base) = length base" using z by (metis length_map)
    with b ok z mr_soundD(5) [OF assms(2), of m "zip ss base" _ f1]
    show "mval (mrp_of E (hz_trace s1) (MrPS f1 m (zip ss base))) = rns_ps D f1 (mval m) (zip ss base) \<and>
      map snd (rns_ps D f1 (mval m) (zip ss base)) = base \<and>
      distinct (map snd (rns_ps D f1 (mval m) (zip ss base))) \<and>
      length (rns_ps D f1 (mval m) (zip ss base)) \<le> length d"
      by (simp del: length_zip)
  qed
next
  assume ok: "mr_ok (MP f2 d a base)"
  show "refines val s (eager_mr D M (hz_config s) (MP f2 d a base) (dev_mem val s))
      (unary_p_op_mrp E f2 d a base s)"
    unfolding eager_mr.simps unary_p_op_mrp_def
    using ok mr_soundD(6) [OF assms(2)] read_group_base [of "dev_mem val s" a base]
      read_group_length [of "dev_mem val s" a base]
    by (intro refines_unary [OF assms]) simp_all
next
  assume ok: "mr_ok (MPI f3 d a k base)"
  show "refines val s (eager_mr D M (hz_config s) (MPI f3 d a k base) (dev_mem val s))
      (unary_pi_op_mrp E f3 d a k base s)"
    unfolding eager_mr.simps unary_pi_op_mrp_def
    using ok mr_soundD(7) [OF assms(2)] read_group_base [of "dev_mem val s" a base]
      read_group_length [of "dev_mem val s" a base]
    by (intro refines_unary [OF assms]) simp_all
qed

lemma refines_convert:
  assumes "fh_sound E val D" and "mr_sound E val mval D M" and "ready s"
    and "mr_ok (MConvert d a p)"
  shows "refines val s (eager_mr D M (hz_config s) (MConvert d a p) (dev_mem val s))
    (basis_convert E d a p s)"
proof (cases "validate_basis_convert p")
  case (Inl e)
  then show ?thesis using assms(3) by (simp add: basis_convert_def refines_error)
next
  case (Inr u)
  let ?tb = "base_of (bc_dst_base p) (bc_dst_base_len p)"
  let ?g = "\<lambda>xs. den_fbc M xs ?tb (fbc_variant (hz_config s)) (fbc_center_shape (hz_config s))"
  have len: "length (?g xs) = length ?tb" for xs
    using mr_soundD(11) [OF assms(2), of xs ?tb] by (metis length_map)
  have "refines val s
    (on_group (dev_mem val s) a (base_of (bc_src_base p) (bc_src_base_len p))
      (\<lambda>xs. Some (write_group (dev_mem val s) d (?g xs))))
    (case build_mrp_locked E a (base_of (bc_src_base p) (bc_src_base_len p)) (open_session E s) of
        (Inl e, s1) \<Rightarrow> (Inl e, s1)
      | (Inr m, s1) \<Rightarrow> (case fh_mrp E (FastBaseConvert m ?tb (fbc_variant (hz_config s1))
            (fbc_center_shape (hz_config s1))) s1 of
          (result, s2) \<Rightarrow> store_mrp_locked E d result ?tb s2))"
    by (rule refines_unary [OF assms(1-3)])
       (use assms(4) in \<open>simp add: mr_soundD(8,11) [OF assms(2)] len Let_def\<close>)
  with Inr show ?thesis unfolding basis_convert_def Let_def by simp
qed

lemma refines_down:
  assumes "fh_sound E val D" and "mr_sound E val mval D M" and "ready s"
    and "mr_ok (MDown d a p)"
  shows "refines val s (eager_mr D M (hz_config s) (MDown d a p) (dev_mem val s))
    (mod_down E d a p s)"
proof (cases "validate_mod_down p")
  case (Inl e)
  then show ?thesis using assms(3) by (simp add: mod_down_def refines_error)
next
  case (Inr u)
  let ?sb = "base_of (md_src_base p) (md_src_base_len p)"
  let ?rb = "base_of (md_rescale_base p) (md_rescale_base_len p)"
  let ?g = "\<lambda>xs. den_rescale M xs ?rb (fbc_variant (hz_config s)) (fbc_center_shape (hz_config s))"
  have len: "length (?g xs) = length (filter (\<lambda>q. q \<notin> set ?rb) (map snd xs))" for xs
    using mr_soundD(12) [OF assms(2), of xs ?rb] by (metis length_map)
  have "refines val s
    (on_group (dev_mem val s) a ?sb (\<lambda>xs. Some (write_group (dev_mem val s) d (?g xs))))
    (case build_mrp_locked E a ?sb (open_session E s) of
        (Inl e, s1) \<Rightarrow> (Inl e, s1)
      | (Inr m, s1) \<Rightarrow> (case fh_mrp E (RescaleFbc m ?rb (fbc_variant (hz_config s1))
            (fbc_center_shape (hz_config s1))) s1 of
          (result, s2) \<Rightarrow> store_mrp_locked E d result (mrp_base E result) s2))"
  proof (rule refines_unary [OF assms(1-3)])
    fix m and s1 :: "('a, 'b) haze"
    assume g: "read_group (dev_mem val s) a ?sb = Some (mval m)" and c: "hz_config s1 = hz_config s"
    from read_group_base [OF g] assms(4) have "map snd (mval m) = ?sb" by (simp add: Let_def)
    with assms(4) c show "mval (mrp_of E (hz_trace s1) (RescaleFbc m ?rb (fbc_variant (hz_config s1))
          (fbc_center_shape (hz_config s1)))) = ?g (mval m) \<and>
      map snd (?g (mval m)) = mrp_base E (mrp_of E (hz_trace s1) (RescaleFbc m ?rb
          (fbc_variant (hz_config s1)) (fbc_center_shape (hz_config s1)))) \<and>
      distinct (map snd (?g (mval m))) \<and> length (?g (mval m)) \<le> length d"
      by (simp add: mr_soundD(2,9,12) [OF assms(2)] len Let_def)
  qed
  with Inr show ?thesis by (simp add: mod_down_def)
qed

lemma mod_up_digits_sem:
  assumes "fh_sound E val D" and "mr_sound E val mval D M" and "distinct tb"
    and "ready s" and "(k + length dbs) * length tb \<le> length ds"
  shows "\<exists>s'. mod_up_digits E ds x tb k dbs s = (Inr (), s') \<and>
    dev_mem val s' = eager_digits M (hz_config s) (mval x) tb ds k dbs (dev_mem val s) \<and>
    ready s' \<and> hz_config s' = hz_config s"
  using assms(4,5)
proof (induction dbs arbitrary: s k)
  case (Cons db dbs)
  let ?sub = "mrp_of E (hz_trace s) (MrSubset x db)"
  let ?s1 = "fh_emit (MrSubset x db) s"
  let ?c = "FastBaseConvert ?sub tb (fbc_variant (hz_config s)) (fbc_center_shape (hz_config s))"
  let ?digit = "mrp_of E (hz_trace ?s1) ?c"
  let ?v = "den_fbc M (den_subset M (mval x) db) tb (fbc_variant (hz_config s))
      (fbc_center_shape (hz_config s))"
  have v: "mval ?digit = ?v" and b: "map snd (mval ?digit) = tb"
    by (simp_all add: mr_soundD(8,10,11) [OF assms(2)])
  have room: "length tb \<le> length (drop (k * length tb) ds)"
    using Cons.prems(2) by (simp add: algebra_simps)
  obtain r s2 where st: "store_mrp_locked E (drop (k * length tb) ds) ?digit tb (fh_emit ?c ?s1) = (r, s2)"
    by (rule prod.exhaust)
  from emit_store_sem [OF assms(2) _ b assms(3) room st] Cons.prems(1) v
  have S: "r = Inr ()" "dev_mem val s2 = write_group (dev_mem val s) (drop (k * length tb) ds) ?v"
      "ready s2" "hz_config s2 = hz_config s"
    by simp_all
  have "(Suc k + length dbs) * length tb \<le> length ds" using Cons.prems(2) by simp
  from Cons.IH [OF S(3) this] obtain s' where up: "mod_up_digits E ds x tb (Suc k) dbs s2 = (Inr (), s')"
    and s': "dev_mem val s' = eager_digits M (hz_config s2) (mval x) tb ds (Suc k) dbs (dev_mem val s2)"
      "ready s'" "hz_config s' = hz_config s2" by blast
  have "mrp_base E ?digit = tb" using b by (simp only: mr_soundD(2) [OF assms(2)])
  note base = this [simplified] and store = st [simplified]
  have "mod_up_digits E ds x tb k (db # dbs) s = (Inr (), s')"
    using up by (simp add: fh_mrp_def Let_def base store S(1))
  with s' S show ?case by simp
qed simp

lemma slice_digits_count: "slice_digits xs k dlens = Some dbs \<Longrightarrow> length dbs = length dlens"
  by (induction dlens arbitrary: k dbs) (auto split: if_splits option.splits)

lemma refines_up:
  assumes "fh_sound E val D" and "mr_sound E val mval D M" and "ready s"
    and "mr_ok (MUp d a p)" and "mod_up E d a p s = Some (r, s')"
  shows "refines val s (eager_mr D M (hz_config s) (MUp d a p) (dev_mem val s)) (r, s')"
proof (cases "validate_mod_up p")
  case (Inl e)
  with assms(5) have "r = Inl e" and "s' = s" by (simp_all add: mod_up_def)
  with Inl assms(3) show ?thesis by (simp add: refines_error)
next
  case (Inr u)
  let ?sb = "base_of (mu_src_base p) (mu_src_base_len p)"
  let ?pb = "base_of (mu_p_base p) (mu_p_base_len p)"
  let ?sl = "slice_digits (base_of (mu_digit_bases p) (mu_digit_bases_total_len p)) 0
      (base_of (mu_digit_base_lens p) (mu_digit_count p))"
  obtain r1 s1 where b1: "build_mrp_locked E a ?sb (open_session E s) = (r1, s1)" by (rule prod.exhaust)
  note B1 = build_session [OF assms(1-3) b1]
  show ?thesis
  proof (cases r1)
    case (Inl e)
    with Inr B1 assms(5) show ?thesis by (auto simp: mod_up_def b1 on_group_def intro: refines_error)
  next
    case x: (Inr x)
    from assms(5) Inr x obtain dbs where dbs: "?sl = Some dbs"
        and up: "mod_up_digits E d x (mrp_base E x @ ?pb) 0 dbs s1 = (r, s')"
      by (auto simp: mod_up_def b1 Let_def split: option.splits)
    have xb: "map snd (mval x) = ?sb" using B1(6) [OF x] assms(4) by (simp add: Let_def)
    let ?tb = "?sb @ ?pb"
    have tb: "mrp_base E x @ ?pb = ?tb" by (simp add: mr_soundD(2) [OF assms(2)] xb)
    have "(0 + length dbs) * length ?tb \<le> length d"
      using assms(4) slice_digits_count [OF dbs] by (simp add: Let_def)
    from mod_up_digits_sem [OF assms(1,2) _ B1(2) this, of x] assms(4) up B1(1,3)
    have "r = Inr () \<and> dev_mem val s' = eager_digits M (hz_config s) (mval x) ?tb d 0 dbs (dev_mem val s) \<and>
        ready s' \<and> hz_config s' = hz_config s"
      unfolding tb by (auto simp: Let_def)
    with Inr B1(5) [OF x] dbs xb show ?thesis by (simp add: refines_def on_group_def)
  qed
qed

section \<open>Copies\<close>

lemma copy_residues_sem:
  assumes "fh_sound E val D" and "ready s" and "copy_residues E ps s = (r, s')"
  shows "eager_copies (map (\<lambda>(d, a, q). (d, a)) ps) (dev_mem val s) =
      (case r of Inr u \<Rightarrow> Some (dev_mem val s') | Inl e \<Rightarrow> None) \<and>
    ready s' \<and> hz_config s' = hz_config s"
  using assms(2,3)
proof (induction ps arbitrary: s)
  case (Cons x ps)
  obtain d a q where x: "x = (d, a, q)" by (cases x)
  obtain l s1 where l: "copy_result_locked E (to_dev_addr d) (to_dev_addr a) q s = (l, s1)"
    by (rule prod.exhaust)
  from copy_result_sem [OF assms(1) Cons.prems(1) l] Cons.IH [of s1] Cons.prems(2) show ?case
    by (auto simp: x l split: sum.splits option.splits)
qed auto

lemma refines_copy:
  assumes "fh_sound E val D" and "ready s" and "mr_ok (MCopy d a base)"
  shows "refines val s (eager_mr D M (hz_config s) (MCopy d a base) (dev_mem val s))
    (copy_device_to_device_mrp E d a base s)"
proof -
  let ?ps = "zip d (zip a base)"
  obtain r1 s1 where c: "copy_residues E ?ps (open_session E s) = (r1, s1)" by (rule prod.exhaust)
  note C = copy_residues_sem [OF assms(1) ready_session [OF assms(2)] c]
  have cfg: "hz_config (open_session E s) = hz_config s" by (simp add: frame_simps)
  let ?as = "map (\<lambda>(d, _). to_dev_addr d) ?ps"
  have len: "length ?as = length base" using assms(3) by simp
  obtain r2 s2 where g: "register_outputs ?as base s1 = (r2, s2)" by (rule prod.exhaust)
  note R = register_outputs_ok [OF len g]
  have inv: "haze_inv (snd (copy_device_to_device_mrp E d a base s))"
    using haze_inv_copy_d2d_mrp [of s E d a base] assms(2) by (simp add: ready_def)
  show ?thesis
  proof (cases r1)
    case (Inl e)
    with C cfg c show ?thesis by (simp add: refines_def copy_device_to_device_mrp_def)
  next
    case (Inr u)
    then have "snd (copy_device_to_device_mrp E d a base s) = s2"
      by (simp add: copy_device_to_device_mrp_def c g)
    with inv have "ready s2" using C ready_cong [of s1 s2] R by simp
    with Inr C cfg R show ?thesis
      using dev_mem_cong [of s2 s1 val]
      by (simp add: refines_def copy_device_to_device_mrp_def c g)
  qed
qed

section \<open>Programs\<close>

lemma exec_mr_sem:
  assumes "fh_sound E val D" and "mr_sound E val mval D M" and "ready s" and "mr_ok ins"
    and "exec_mr E ins s = Some (r, s')"
  shows "refines val s (eager_mr D M (hz_config s) ins (dev_mem val s)) (r, s')"
proof (cases ins)
  case (MPP f d a b base)
  with refines_pp [OF assms(1-3), of f d a b base] assms(4,5) show ?thesis by simp
next
  case (MPS f d a ss base)
  with refines_arith(1) [OF assms(1-3), of f d a ss base] assms(4,5) show ?thesis by simp
next
  case (MP f d a base)
  with refines_arith(2) [OF assms(1-3), of f d a base] assms(4,5) show ?thesis by simp
next
  case (MPI f d a k base)
  with refines_arith(3) [OF assms(1-3), where ?f3.0 = f and d = d and a = a and base = base and k = k] assms(4,5) show ?thesis by simp
next
  case (MConvert d a p)
  with refines_convert [OF assms(1-3), of d a p] assms(4,5) show ?thesis by simp
next
  case (MDown d a p)
  with refines_down [OF assms(1-3), of d a p] assms(4,5) show ?thesis by simp
next
  case (MUp d a p)
  with refines_up [OF assms(1-3), of d a p r s'] assms(4,5) show ?thesis by simp
next
  case (MCopy d a base)
  with refines_copy [OF assms(1,3), of d a base M] assms(4,5) show ?thesis by simp
qed

text \<open>Programs mix single-residue and multi-residue operations.\<close>

datatype instr = Single sr_instr | Group mr_instr

fun exec_any ::
    "('p, 'm) fh_env \<Rightarrow> instr \<Rightarrow> ('p, 'm) haze \<Rightarrow> (unit expected \<times> ('p, 'm) haze) option" where
  "exec_any E (Single i) s = Some (exec_instr E i s)"
| "exec_any E (Group i) s = exec_mr E i s"

fun eager_any ::
    "fh_denotation \<Rightarrow> mr_denotation \<Rightarrow> config \<Rightarrow> instr \<Rightarrow> dmem \<Rightarrow> dmem option" where
  "eager_any D M c (Single i) m = eager_instr D c i m"
| "eager_any D M c (Group i) m = eager_mr D M c i m"

fun any_ok :: "config \<Rightarrow> instr \<Rightarrow> bool" where
  "any_ok c (Single i) = instr_ok c i"
| "any_ok c (Group i) = mr_ok i"

fun run_any ::
    "('p, 'm) fh_env \<Rightarrow> instr list \<Rightarrow> ('p, 'm) haze \<Rightarrow> (unit expected \<times> ('p, 'm) haze) option"
  where
  "run_any E [] s = Some (Inr (), s)"
| "run_any E (i # is) s =
     (case exec_any E i s of
        None \<Rightarrow> None
      | Some (Inl e, s1) \<Rightarrow> Some (Inl e, s1)
      | Some (Inr _, s1) \<Rightarrow> run_any E is s1)"

fun eager_program ::
    "fh_denotation \<Rightarrow> mr_denotation \<Rightarrow> config \<Rightarrow> instr list \<Rightarrow> dmem \<Rightarrow> dmem option" where
  "eager_program D M c [] m = Some m"
| "eager_program D M c (i # is) m =
     (case eager_any D M c i m of None \<Rightarrow> None | Some m1 \<Rightarrow> eager_program D M c is m1)"

lemma exec_any_sem:
  assumes "fh_sound E val D" and "mr_sound E val mval D M" and "ready s"
    and "any_ok (hz_config s) i" and "exec_any E i s = Some (r, s')"
  shows "refines val s (eager_any D M (hz_config s) i (dev_mem val s)) (r, s')"
proof (cases i)
  case (Single j)
  with exec_instr_sem [OF assms(1,3), of j r s'] assms(4,5) show ?thesis
    by (simp add: refines_pair)
next
  case (Group j)
  with exec_mr_sem [OF assms(1-3), of j r s'] assms(4,5) show ?thesis by simp
qed

lemma run_any_sem:
  assumes "fh_sound E val D" and "mr_sound E val mval D M" and "ready s"
    and "\<forall>i \<in> set is. any_ok (hz_config s) i" and "run_any E is s = Some (r, s')"
  shows "refines val s (eager_program D M (hz_config s) is (dev_mem val s)) (r, s')"
  using assms(3-)
proof (induction "is" arbitrary: s)
  case Nil
  then show ?case by (auto simp: refines_def)
next
  case (Cons i "is")
  from Cons.prems(3) obtain r1 s1 where x: "exec_any E i s = Some (r1, s1)"
    by (auto split: option.splits)
  have "any_ok (hz_config s) i" using Cons.prems(2) by simp
  from exec_any_sem [OF assms(1,2) Cons.prems(1) this x]
  have S: "eager_any D M (hz_config s) i (dev_mem val s) =
        (case r1 of Inr u \<Rightarrow> Some (dev_mem val s1) | Inl e \<Rightarrow> None)"
      "ready s1" "hz_config s1 = hz_config s"
    by (simp_all add: refines_pair)
  show ?case
  proof (cases r1)
    case (Inl e)
    with Cons.prems(3) x have "r = Inl e" and "s' = s1" by simp_all
    with S Inl show ?thesis by (simp add: refines_error)
  next
    case (Inr u)
    with Cons.IH [of s1] Cons.prems(2,3) x S show ?thesis by (simp add: refines_pair)
  qed
qed

end
