(* ===== verification/Haze_Effects.thy ===== *)
theory Haze_Effects
  imports Haze_Mrp_Semantics Haze_Flush Haze_Calls
begin

text \<open>
  What each recorded operation does to the bookkeeping a flush depends on: the addresses it
  binds, the outputs that stay tagged, and the output names it may use up when it registers a
  group whose name is already tagged.
\<close>

section \<open>Bookkeeping effects\<close>

text \<open>
  \<open>tame B A k\<close>: groups have at most \<open>B\<close> members and only members in \<open>A\<close>, tagged outputs lie in
  \<open>A\<close>, output names are distinct and \<open>k\<close> more can be issued before the counter wraps.
\<close>

definition tame :: "nat \<Rightarrow> DevAddr set \<Rightarrow> nat \<Rightarrow> 'p epoch \<Rightarrow> bool" where
  "tame B A k ep \<longleftrightarrow>
     (\<forall>n g. known_mrp_groups ep n = Some g \<longrightarrow>
        length (mg_addrs g) \<le> B \<and> set (mg_addrs g) \<subseteq> A) \<and>
     al_keys (pending_outputs ep) \<subseteq> A \<and> names_inv ep \<and> room k ep"

text \<open>
  \<open>effect B A W n\<close>: bindings and tags are kept, the addresses \<open>W\<close> are bound afterwards, and at
  most \<open>n\<close> output names are used up.
\<close>

definition effect :: "nat \<Rightarrow> DevAddr set \<Rightarrow> DevAddr set \<Rightarrow> nat \<Rightarrow> 'p epoch \<Rightarrow> 'p epoch \<Rightarrow> bool" where
  "effect B A W n ep ep' \<longleftrightarrow>
     dom (poly_map ep) \<union> W \<subseteq> dom (poly_map ep') \<and>
     al_keys (pending_outputs ep) \<subseteq> al_keys (pending_outputs ep') \<and>
     (\<forall>k. tame B A (k + n) ep \<longrightarrow> tame B A k ep')"

lemma tame_mono: "tame B A k ep \<Longrightarrow> j \<le> k \<Longrightarrow> tame B A j ep"
  by (auto simp: tame_def room_def)

lemma effect_quiet:
  assumes "known_mrp_groups ep' = known_mrp_groups ep"
    and "pending_outputs ep' = pending_outputs ep" and "output_counter ep' = output_counter ep"
    and "dom (poly_map ep) \<union> W \<subseteq> dom (poly_map ep')"
  shows "effect B A W 0 ep ep'"
  using assms by (auto simp: effect_def tame_def names_inv_def room_def)

lemma effect_refl [simp]: "effect B A {} 0 ep ep"
  by (rule effect_quiet) simp_all

lemma effectI:
  assumes "dom (poly_map ep) \<union> W \<subseteq> dom (poly_map ep')"
    and "al_keys (pending_outputs ep) \<subseteq> al_keys (pending_outputs ep')"
    and "\<And>k. tame B A (k + n) ep \<Longrightarrow> tame B A k ep'"
  shows "effect B A W n ep ep'"
  using assms by (simp add: effect_def)

lemma effectD:
  assumes "effect B A W n ep ep'"
  shows "dom (poly_map ep) \<subseteq> dom (poly_map ep')" and "W \<subseteq> dom (poly_map ep')"
    and "al_keys (pending_outputs ep) \<subseteq> al_keys (pending_outputs ep')"
    and "tame B A (k + n) ep \<Longrightarrow> tame B A k ep'"
  using assms by (simp_all add: effect_def)

lemma effect_trans:
  assumes "effect B A W m ep ep1" and "effect B A V n ep1 ep2"
  shows "effect B A (W \<union> V) (m + n) ep ep2"
proof (rule effectI)
  fix k
  assume "tame B A (k + (m + n)) ep"
  then have "tame B A (k + n + m) ep" by (simp add: ac_simps)
  from effectD(4) [OF assms(2) effectD(4) [OF assms(1) this]] show "tame B A k ep2" .
qed (use effectD(1-3) [OF assms(1)] effectD(1-3) [OF assms(2)] in blast)+

lemma effect_weaken:
  assumes "effect B A W m ep ep'" and "V \<subseteq> W" and "m \<le> n"
  shows "effect B A V n ep ep'"
proof (rule effectI)
  fix k
  assume "tame B A (k + n) ep"
  then have "tame B A (k + m) ep" by (rule tame_mono) (simp add: assms(3))
  then show "tame B A k ep'" by (rule effectD(4) [OF assms(1)])
qed (use effectD(1-3) [OF assms(1)] assms(2) in auto)

lemma effect_then: "effect B A {} 0 ep ep1 \<Longrightarrow> effect B A V n ep1 ep2 \<Longrightarrow> effect B A V n ep ep2"
  using effect_trans [of B A "{}" 0 ep ep1 V n ep2] by simp

lemma effect_store: "effect B A {a} 0 ep (store_compute_result_locked a p q ep)"
  by (rule effect_quiet) (auto simp: store_compute_result_locked_def)

lemma effect_lookup:
  assumes "lookup_or_create_locked E a s = (r, s')"
  shows "effect B A {} 0 (hz_epoch s) (hz_epoch s')"
  using assms by (cases rule: lookup_cases [of s a E]) (auto intro!: effect_quiet)

lemma effect_copy_result:
  assumes "copy_result_locked E d a q s = (Inr u, s')"
  shows "effect B A {d} 0 (hz_epoch s) (hz_epoch s')"
proof -
  obtain r s1 where l: "lookup_or_create_locked E a s = (r, s1)" by (rule prod.exhaust)
  from assms l obtain p where p: "r = Inr p" by (cases r) (auto simp: copy_result_fails)
  have "effect B A {d} 0 (hz_epoch s1) (hz_epoch (copied E d a p w s1))" for w
    by (rule effect_quiet) (auto simp: copied_def Let_def store_compute_result_locked_def)
  with effect_lookup [OF l] assms show ?thesis
    by (auto simp: copy_result_ok [OF l [unfolded p]] intro: effect_then)
qed

lemma effect_session: "effect B A {} 0 (hz_epoch s) (hz_epoch (open_session E s))"
  by (rule effect_quiet) (simp_all add: open_session_epoch)

section \<open>Groups\<close>

lemma evict_shrinks:
  "known_mrp_groups (evict_mrp_group_locked n ep) \<subseteq>\<^sub>m known_mrp_groups ep \<and>
   pending_outputs (evict_mrp_group_locked n ep) = pending_outputs ep \<and>
   output_counter (evict_mrp_group_locked n ep) = output_counter ep"
  by (auto simp: evict_mrp_group_locked_def map_le_def split: option.split)

lemma conflicts_shrink:
  "known_mrp_groups (foldl (evict_conflicts n) ep as) \<subseteq>\<^sub>m known_mrp_groups ep \<and>
   pending_outputs (foldl (evict_conflicts n) ep as) = pending_outputs ep \<and>
   output_counter (foldl (evict_conflicts n) ep as) = output_counter ep"
proof -
  let ?keeps = "\<lambda>ep ep'. known_mrp_groups ep' \<subseteq>\<^sub>m known_mrp_groups ep \<and>
      pending_outputs ep' = pending_outputs ep \<and> output_counter ep' = output_counter ep"
  have step: "?keeps ep (foldl (\<lambda>e m. if m \<noteq> n then evict_mrp_group_locked m e else e) ep ns)" for ns
    and ep :: "'a epoch"
  proof (induction ns arbitrary: ep)
    case (Cons m ns)
    show ?case
      using Cons.IH [of ep] Cons.IH [of "evict_mrp_group_locked m ep"] evict_shrinks [of m ep]
      by (auto intro: map_le_trans)
  qed simp
  have one: "?keeps ep (evict_conflicts n ep a)" for a and ep :: "'a epoch"
    using step by (simp add: evict_conflicts_def split: option.split)
  show ?thesis
  proof (induction as arbitrary: ep)
    case (Cons a as)
    show ?case
      using Cons.IH [of "evict_conflicts n ep a"] one [of ep a] by (auto intro: map_le_trans)
  qed simp
qed

lemma effect_emplaces: "effect B A {} (length as) ep (emplace_outputs as ep)" if "set as \<subseteq> A"
proof -
  have "tame B A k (emplace_outputs as ep)" if "tame B A (k + length as) ep" for k
    using that \<open>set as \<subseteq> A\<close>
  proof (induction as arbitrary: ep)
    case (Cons a as)
    have "tame B A (k + length as) (emplace_output a ep)"
      using Cons.prems names_emplace [of ep "k + length as" a] by (auto simp: tame_def)
    with Cons.IH Cons.prems(2) show ?case by simp
  qed simp
  then show ?thesis by (simp add: effect_def)
qed

lemma effect_register:
  assumes "length as \<le> B" and "set as \<subseteq> A"
    and "register_mrp_output_group_locked as ms n ep = (r, ep')"
  shows "effect B A {} (length as) ep ep'"
proof -
  let ?c = "foldl (evict_conflicts n) ep as"
  have keep: "poly_map ?c = poly_map ep"
    by (rule conflicts_poly_map)
  have new: "effect B A {} 0 ep (?c\<lparr>known_mrp_groups := (known_mrp_groups ?c)
      (n \<mapsto> \<lparr>mg_addrs = as, mg_moduli = ms\<rparr>), addr_to_mrp_groups := m\<rparr>)" for m
  proof (rule effectI)
    fix k
    assume t: "tame B A (k + 0) ep"
    have "length (mg_addrs g) \<le> B \<and> set (mg_addrs g) \<subseteq> A" if "known_mrp_groups ?c n' = Some g" for n' g
    proof -
      have "known_mrp_groups ep n' = Some g"
        using conflicts_shrink [of n ep as] that unfolding map_le_def by (metis domI)
      with t show ?thesis by (simp add: tame_def)
    qed
    with t assms(1,2) conflicts_shrink [of n ep as]
    show "tame B A k (?c\<lparr>known_mrp_groups := (known_mrp_groups ?c)
        (n \<mapsto> \<lparr>mg_addrs = as, mg_moduli = ms\<rparr>), addr_to_mrp_groups := m\<rparr>)"
      by (simp add: tame_def names_inv_def room_def)
  qed (use conflicts_shrink [of n ep as] keep in simp_all)
  have none: "effect B A {} (length as) ep ep" by (rule effect_weaken [OF effect_refl]) simp_all
  have old: "effect B A {} (length as) ep (?c\<lparr>known_mrp_groups := (known_mrp_groups ?c)
      (n \<mapsto> \<lparr>mg_addrs = as, mg_moduli = ms\<rparr>), addr_to_mrp_groups := m\<rparr>)" for m
    by (rule effect_weaken [OF new]) simp_all
  have tagged: "effect B A {} (length as) ep (emplace_outputs as (?c\<lparr>known_mrp_groups :=
      (known_mrp_groups ?c)(n \<mapsto> \<lparr>mg_addrs = as, mg_moduli = ms\<rparr>), addr_to_mrp_groups := m\<rparr>))" for m
    by (rule effect_then [OF new effect_emplaces [OF assms(2)]])
  show ?thesis
    using assms(3) none old tagged
    by (auto simp: register_mrp_output_group_locked_def Let_def split: if_splits option.splits)
qed

lemma effect_register_outputs:
  assumes "length as = length base" and "length as \<le> B" and "set as \<subseteq> A"
    and "register_outputs as base s = (r, s')"
  shows "effect B A {} (length as) (hz_epoch s) (hz_epoch s')"
proof (cases "1 < length base")
  case True
  obtain n ep where n: "mrp_group_name_locked True (hd as) (hz_epoch s) = (n, ep)"
    by (cases "mrp_group_name_locked True (hd as) (hz_epoch s)")
  obtain q ep1 where g: "register_mrp_output_group_locked as base n ep = (q, ep1)"
    by (rule prod.exhaust)
  have "effect B A {} 0 (hz_epoch s) ep"
    using mrp_group_name_simps [of True "hd as" "hz_epoch s"] n
    by (intro effect_quiet) simp_all
  from effect_then [OF this effect_register [OF assms(2,3) g]] show ?thesis
    using assms(4) True by (auto simp: register_outputs_def n g)
next
  case False
  with assms(4) show ?thesis
    by (auto simp: register_outputs_def intro: effect_weaken [OF effect_refl])
qed

lemma effect_build_pairs:
  "build_pairs E ps s = (r, s') \<Longrightarrow> effect B A {} 0 (hz_epoch s) (hz_epoch s')"
proof (induction ps arbitrary: s r s')
  case (Cons x ps)
  obtain ptr q where x: "x = (ptr, q)" by (cases x)
  obtain l s1 where l: "lookup_or_create_locked E (to_dev_addr ptr) s = (l, s1)"
    by (rule prod.exhaust)
  obtain y s2 where y: "build_pairs E ps s1 = (y, s2)" by (cases "build_pairs E ps s1")
  have "s' = s1 \<or> s' = s2" using Cons.prems by (auto simp: x l y split: sum.splits)
  with effect_lookup [OF l] Cons.IH [OF y] show ?case by (auto intro: effect_then)
qed simp

lemma effect_build_mrp:
  assumes "build_mrp_locked E ptrs base s = (r, s')"
  shows "effect B A {} 0 (hz_epoch s) (hz_epoch s')"
proof -
  obtain x s1 where b: "build_pairs E (zip ptrs base) s = (x, s1)"
    by (cases "build_pairs E (zip ptrs base) s")
  obtain n ep where n: "mrp_group_name_locked False (to_dev_addr (hd ptrs)) (hz_epoch s1) = (n, ep)"
    by (cases "mrp_group_name_locked False (to_dev_addr (hd ptrs)) (hz_epoch s1)")
  have "effect B A {} 0 (hz_epoch s1) (hz_epoch (tag_mrp_input_if_new_locked n m (upd_epoch (\<lambda>_. ep) s1)))"
    for m
    using mrp_group_name_simps [of False "to_dev_addr (hd ptrs)" "hz_epoch s1"] n
    by (intro effect_quiet) (auto simp: tag_mrp_input_if_new_locked_def)
  moreover have "s' = s1 \<or> (\<exists>m. s' = tag_mrp_input_if_new_locked n m (upd_epoch (\<lambda>_. ep) s1))"
    using assms by (auto simp: build_mrp_locked_def b n Let_def split: sum.splits if_splits)
  ultimately show ?thesis using effect_build_pairs [OF b] by (auto intro: effect_then)
qed

lemma effect_store_residues:
  "effect B A (to_dev_addr ` fst ` set ps) 0 (hz_epoch s) (hz_epoch (store_residues E m ps s))"
proof (induction ps arbitrary: s)
  case (Cons x ps)
  obtain ptr q where x: "x = (ptr, q)" by (cases x)
  let ?s1 = "upd_epoch (store_compute_result_locked (to_dev_addr ptr) (mrp_at E m q) q) s"
  have "effect B A {to_dev_addr ptr} 0 (hz_epoch s) (hz_epoch ?s1)" by (simp add: effect_store)
  from effect_trans [OF this Cons.IH] show ?case by (simp add: x)
qed simp

text \<open>The pointers an operation writes.\<close>

definition ptr_addrs :: "hostptr list \<Rightarrow> DevAddr set" where
  "ptr_addrs ps = to_dev_addr ` set ps"

lemma effect_store_mrp:
  assumes "store_mrp_locked E ds m base s = (r, s')" and "length base \<le> length ds"
    and "length base \<le> B" and "ptr_addrs (take (length base) ds) \<subseteq> A"
  shows "effect B A (ptr_addrs (take (length base) ds)) (length base) (hz_epoch s) (hz_epoch s')"
proof -
  let ?as = "map to_dev_addr (take (length base) ds)"
  let ?t = "store_residues E m (zip ds base) s"
  have st: "register_outputs ?as base ?t = (r, s')" using assms(1) by (simp add: store_mrp_eq)
  have len: "length ?as = length base" using assms(2) by simp
  have "effect B A {} (length ?as) (hz_epoch ?t) (hz_epoch s')"
    by (rule effect_register_outputs [OF len _ _ st]) (use assms(3,4) len in \<open>simp_all add: ptr_addrs_def\<close>)
  from effect_trans [OF effect_store_residues this] show ?thesis
    using len by (simp add: ptr_addrs_def zip_covers_take)
qed

section \<open>Operations\<close>

lemma effect_bind:
  assumes "effect B A {} 0 ep (hz_epoch t)"
  shows "effect B A {d} 0 ep (hz_epoch (upd_epoch (store_compute_result_locked d p q) t))"
  using effect_then [OF assms effect_store] by simp

lemma effect_bind_emit:
  "effect B A {} 0 ep (hz_epoch t) \<Longrightarrow>
   effect B A {d} 0 ep (hz_epoch (upd_epoch (store_compute_result_locked d p q) (fh_emit c t)))"
  using effect_bind [of B A ep "fh_emit c t"] by simp

lemma effect_resolve:
  "lookup_or_create_locked E a (open_session E s) = (r, s1) \<Longrightarrow>
   effect B A {} 0 (hz_epoch s) (hz_epoch s1)"
  by (rule effect_then [OF effect_session effect_lookup])

lemma effect_pp:
  assumes "binary_pp_op E f d a b i s = (Inr u, s')"
  shows "effect B A {d} 0 (hz_epoch s) (hz_epoch s')"
proof -
  obtain x1 s1 where l1: "lookup_or_create_locked E a (open_session E s) = (x1, s1)" by (rule prod.exhaust)
  obtain x2 s2 where l2: "lookup_or_create_locked E b s1 = (x2, s2)" by (rule prod.exhaust)
  have e: "effect B A {} 0 (hz_epoch s) (hz_epoch s2)"
    by (rule effect_then [OF effect_resolve [OF l1] effect_lookup [OF l2]])
  show ?thesis
    using assms
    by (auto simp: binary_pp_op_def Let_def l1 l2 fh_poly_def simp del: upd_epoch_simps
        split: if_splits sum.splits intro!: effect_bind_emit [OF e])
qed

lemma effect_unary:
  assumes "lookup_or_create_locked E a (open_session E s) = (x1, s1)"
  shows "binary_ps_op E f2 d a x i s = (Inr u, s') \<Longrightarrow> effect B A {d} 0 (hz_epoch s) (hz_epoch s')"
    and "unary_pq_op E f3 d a i s = (Inr u, s') \<Longrightarrow> effect B A {d} 0 (hz_epoch s) (hz_epoch s')"
    and "unary_pi_op E d a x s = (Inr u, s') \<Longrightarrow> effect B A {d} 0 (hz_epoch s) (hz_epoch s')"
proof -
  have e: "effect B A {} 0 (hz_epoch s) (hz_epoch s1)" by (rule effect_resolve [OF assms])
  have e2: "effect B A {} 0 (hz_epoch s) (hz_epoch (fh_emit c1 (fh_emit c2 s1)))" for c1 c2
    using e by simp
  show "binary_ps_op E f2 d a x i s = (Inr u, s') \<Longrightarrow> effect B A {d} 0 (hz_epoch s) (hz_epoch s')"
    and "unary_pq_op E f3 d a i s = (Inr u, s') \<Longrightarrow> effect B A {d} 0 (hz_epoch s) (hz_epoch s')"
    and "unary_pi_op E d a x s = (Inr u, s') \<Longrightarrow> effect B A {d} 0 (hz_epoch s) (hz_epoch s')"
    by (auto simp: binary_ps_op_def unary_pq_op_def unary_pi_op_def Let_def assms fh_poly_def
        simp del: upd_epoch_simps
        split: if_splits sum.splits intro!: effect_bind_emit [OF e] effect_bind_emit [OF e2])
qed

lemma effect_d2d:
  assumes "copy_device_to_device E d a n s = (Inr u, s')"
  shows "effect B A {d} 0 (hz_epoch s) (hz_epoch s')"
  using effect_then [OF effect_session effect_copy_result] assms
  by (simp add: copy_device_to_device_def)

lemma effect_source:
  "build_mrp_locked E ptrs base (open_session E s) = (r, s1) \<Longrightarrow>
   effect B A {} 0 (hz_epoch s) (hz_epoch s1)"
  by (rule effect_then [OF effect_session effect_build_mrp])

text \<open>A result of base \<open>base\<close> stored into \<open>ds\<close>.\<close>

definition fits_group :: "nat \<Rightarrow> DevAddr set \<Rightarrow> hostptr list \<Rightarrow> u64 list \<Rightarrow> bool" where
  "fits_group B A ds base \<longleftrightarrow> length base \<le> length ds \<and> length base \<le> B \<and>
     ptr_addrs (take (length base) ds) \<subseteq> A"

lemma effect_result:
  assumes "effect B A {} 0 ep (hz_epoch t)" and "fits_group B A ds base"
    and "store_mrp_locked E ds m base (fh_emit c t) = (r, s')"
  shows "effect B A (ptr_addrs (take (length base) ds)) (length base) ep (hz_epoch s')"
  using effect_then [OF assms(1)] effect_store_mrp [OF assms(3), of B A] assms(2)
  by (simp add: fits_group_def)

lemma effect_mr_arith:
  assumes "fits_group B A d base"
  shows "binary_pp_op_mrp E f1 d a b base s = (Inr u, s') \<Longrightarrow>
      effect B A (ptr_addrs (take (length base) d)) (length base) (hz_epoch s) (hz_epoch s')"
    and "binary_ps_op_mrp E f2 d a ss base s = (Inr u, s') \<Longrightarrow>
      effect B A (ptr_addrs (take (length base) d)) (length base) (hz_epoch s) (hz_epoch s')"
    and "unary_p_op_mrp E f3 d a base s = (Inr u, s') \<Longrightarrow>
      effect B A (ptr_addrs (take (length base) d)) (length base) (hz_epoch s) (hz_epoch s')"
    and "unary_pi_op_mrp E f4 d a k base s = (Inr u, s') \<Longrightarrow>
      effect B A (ptr_addrs (take (length base) d)) (length base) (hz_epoch s) (hz_epoch s')"
proof -
  obtain x1 s1 where b1: "build_mrp_locked E a base (open_session E s) = (x1, s1)" by (rule prod.exhaust)
  obtain x2 s2 where b2: "build_mrp_locked E b base s1 = (x2, s2)" by (rule prod.exhaust)
  note e1 = effect_source [OF b1, of B A]
  have e2: "effect B A {} 0 (hz_epoch s) (hz_epoch s2)"
    by (rule effect_then [OF e1 effect_build_mrp [OF b2]])
  show "binary_pp_op_mrp E f1 d a b base s = (Inr u, s') \<Longrightarrow>
      effect B A (ptr_addrs (take (length base) d)) (length base) (hz_epoch s) (hz_epoch s')"
    by (auto simp: binary_pp_op_mrp_def b1 b2 fh_mrp_def split: sum.splits
        dest: effect_result [OF e2 assms])
  show "binary_ps_op_mrp E f2 d a ss base s = (Inr u, s') \<Longrightarrow>
      effect B A (ptr_addrs (take (length base) d)) (length base) (hz_epoch s) (hz_epoch s')"
    and "unary_p_op_mrp E f3 d a base s = (Inr u, s') \<Longrightarrow>
      effect B A (ptr_addrs (take (length base) d)) (length base) (hz_epoch s) (hz_epoch s')"
    and "unary_pi_op_mrp E f4 d a k base s = (Inr u, s') \<Longrightarrow>
      effect B A (ptr_addrs (take (length base) d)) (length base) (hz_epoch s) (hz_epoch s')"
    by (auto simp: binary_ps_op_mrp_def unary_p_op_mrp_def unary_pi_op_mrp_def b1 fh_mrp_def
        split: sum.splits dest: effect_result [OF e1 assms])
qed

lemma effect_convert:
  assumes "fits_group B A d (base_of (bc_dst_base p) (bc_dst_base_len p))"
    and "basis_convert E d a p s = (Inr u, s')"
  shows "effect B A (ptr_addrs (take (length (base_of (bc_dst_base p) (bc_dst_base_len p))) d))
    (length (base_of (bc_dst_base p) (bc_dst_base_len p))) (hz_epoch s) (hz_epoch s')"
proof -
  obtain x1 s1 where b1: "build_mrp_locked E a (base_of (bc_src_base p) (bc_src_base_len p))
      (open_session E s) = (x1, s1)" by (rule prod.exhaust)
  show ?thesis
    using assms(2)
    by (auto simp: basis_convert_def b1 fh_mrp_def Let_def split: sum.splits
        dest: effect_result [OF effect_source [OF b1] assms(1)])
qed

definition down_base :: "hazeModDownParams \<Rightarrow> u64 list" where
  "down_base p = filter (\<lambda>q. q \<notin> set (base_of (md_rescale_base p) (md_rescale_base_len p)))
     (base_of (md_src_base p) (md_src_base_len p))"

lemma effect_down:
  assumes "mr_sound E val mval D M" and "fh_sound E val D" and "ready s" and "mr_ok (MDown d a p)"
    and "fits_group B A d (down_base p)" and "mod_down E d a p s = (Inr u, s')"
  shows "effect B A (ptr_addrs (take (length (down_base p)) d)) (length (down_base p))
    (hz_epoch s) (hz_epoch s')"
proof -
  let ?sb = "base_of (md_src_base p) (md_src_base_len p)"
  obtain x1 s1 where b1: "build_mrp_locked E a ?sb (open_session E s) = (x1, s1)" by (rule prod.exhaust)
  note B1 = build_session [OF assms(2,1,3) b1]
  from assms(6) b1 obtain m where m: "x1 = Inr m"
    by (cases x1) (auto simp: mod_down_def split: sum.splits)
  have "map snd (mval m) = ?sb" using B1(6) [OF m] assms(4) by (simp add: Let_def)
  then have tb: "mrp_base E (mrp_of E h (RescaleFbc m
      (base_of (md_rescale_base p) (md_rescale_base_len p)) v sh)) = down_base p" for h v sh
    by (simp add: down_base_def mr_soundD(2,9,12) [OF assms(1)])
  show ?thesis
    using assms(6)
    by (auto simp: mod_down_def b1 m fh_mrp_def tb split: sum.splits
        dest: effect_result [OF effect_source [OF b1] assms(5)])
qed

lemma effect_digits:
  assumes "mr_sound E val mval D M" and "(k + length dbs) * length tb \<le> length ds"
    and "length tb \<le> B" and "ptr_addrs (take ((k + length dbs) * length tb) ds) \<subseteq> A"
    and "mod_up_digits E ds x tb k dbs s = (Inr u, s')"
  shows "effect B A (ptr_addrs (take (length dbs * length tb) (drop (k * length tb) ds)))
    (length dbs * length tb) (hz_epoch s) (hz_epoch s')"
  using assms(2,4,5)
proof (induction dbs arbitrary: s k)
  case Nil
  then show ?case by (simp add: ptr_addrs_def)
next
  case (Cons db dbs)
  let ?n = "length tb"
  let ?sub = "mrp_of E (hz_trace s) (MrSubset x db)"
  let ?s1 = "fh_emit (MrSubset x db) s"
  let ?c = "FastBaseConvert ?sub tb (fbc_variant (hz_config s)) (fbc_center_shape (hz_config s))"
  let ?digit = "mrp_of E (hz_trace ?s1) ?c"
  have base: "mrp_base E ?digit = tb" by (simp add: mr_soundD(2,8,11) [OF assms(1)])
  note base' = base [simplified]
  obtain r s2 where st: "store_mrp_locked E (drop (k * ?n) ds) ?digit tb (fh_emit ?c ?s1) = (r, s2)"
    by (rule prod.exhaust)
  note store = st [simplified]
  have cut: "take (length (db # dbs) * ?n) (drop (k * ?n) ds) =
      take ?n (drop (k * ?n) ds) @ take (length dbs * ?n) (drop (Suc k * ?n) ds)"
    by (simp add: take_add add.commute)
  have all: "take ((k + length (db # dbs)) * ?n) ds = take (k * ?n) ds @
      take (length (db # dbs) * ?n) (drop (k * ?n) ds)"
    by (simp only: take_add distrib_right)
  from Cons.prems(2) have sub: "ptr_addrs (take ?n (drop (k * ?n) ds)) \<subseteq> A"
    unfolding all cut by (auto simp: ptr_addrs_def)
  have fit: "fits_group B A (drop (k * ?n) ds) tb"
    using Cons.prems(1) assms(3) sub by (simp add: fits_group_def algebra_simps)
  have e: "effect B A (ptr_addrs (take ?n (drop (k * ?n) ds))) ?n (hz_epoch s) (hz_epoch s2)"
    by (rule effect_result [OF _ fit st]) simp
  have up: "mod_up_digits E ds x tb (Suc k) dbs s2 = (Inr u, s')"
    using Cons.prems(3) by (cases r) (simp_all add: fh_mrp_def Let_def base' store)
  have "effect B A (ptr_addrs (take (length dbs * ?n) (drop (Suc k * ?n) ds))) (length dbs * ?n)
      (hz_epoch s2) (hz_epoch s')"
    by (rule Cons.IH [OF _ _ up]) (use Cons.prems(1,2) in simp_all)
  from effect_trans [OF e this] show ?case
    unfolding cut by (simp add: ptr_addrs_def image_Un)
qed

definition up_base :: "hazeModUpParams \<Rightarrow> u64 list" where
  "up_base p = base_of (mu_src_base p) (mu_src_base_len p) @ base_of (mu_p_base p) (mu_p_base_len p)"

definition up_count :: "hazeModUpParams \<Rightarrow> nat" where
  "up_count p = length (base_of (mu_digit_base_lens p) (mu_digit_count p))"

lemma effect_up:
  assumes "mr_sound E val mval D M" and "fh_sound E val D" and "ready s" and "mr_ok (MUp d a p)"
    and "up_count p * length (up_base p) \<le> B"
    and "ptr_addrs (take (up_count p * length (up_base p)) d) \<subseteq> A"
    and "mod_up E d a p s = Some (Inr u, s')"
  shows "effect B A (ptr_addrs (take (up_count p * length (up_base p)) d))
    (up_count p * length (up_base p)) (hz_epoch s) (hz_epoch s')"
proof -
  let ?sb = "base_of (mu_src_base p) (mu_src_base_len p)"
  obtain x1 s1 where b1: "build_mrp_locked E a ?sb (open_session E s) = (x1, s1)" by (rule prod.exhaust)
  note B1 = build_session [OF assms(2,1,3) b1]
  from assms(7) b1 obtain x where x: "x1 = Inr x"
    by (cases x1) (auto simp: mod_up_def split: sum.splits)
  have "map snd (mval x) = ?sb" using B1(6) [OF x] assms(4) by (simp add: Let_def)
  then have tb: "mrp_base E x @ base_of (mu_p_base p) (mu_p_base_len p) = up_base p"
    by (simp add: up_base_def mr_soundD(2) [OF assms(1)])
  from assms(7) obtain dbs where dbs: "length dbs = up_count p"
      and up: "mod_up_digits E d x (up_base p) 0 dbs s1 = (Inr u, s')"
    by (auto simp: mod_up_def b1 x tb Let_def up_count_def split: sum.splits option.splits
        dest: slice_digits_count)
  have "up_count p * length (up_base p) \<le> length d"
    using assms(4) by (simp add: up_count_def up_base_def Let_def)
  have "effect B A (ptr_addrs (take (up_count p * length (up_base p)) d))
      (up_count p * length (up_base p)) (hz_epoch s1) (hz_epoch s')"
  proof (cases "up_count p")
    case 0
    with dbs up show ?thesis by (simp add: ptr_addrs_def)
  next
    case (Suc n)
    with assms(5) have "length (up_base p) \<le> B" by simp
    with effect_digits [OF assms(1) _ _ _ up] dbs assms(6) \<open>up_count p * _ \<le> length d\<close> show ?thesis
      by simp
  qed
  with effect_source [OF b1] show ?thesis by (rule effect_then)
qed

lemma effect_copies:
  "copy_residues E ps s = (Inr u, s') \<Longrightarrow>
   effect B A (ptr_addrs (map fst ps)) 0 (hz_epoch s) (hz_epoch s')"
proof (induction ps arbitrary: s)
  case (Cons x ps)
  obtain d a q where x: "x = (d, a, q)" by (cases x)
  obtain l s1 where l: "copy_result_locked E (to_dev_addr d) (to_dev_addr a) q s = (l, s1)"
    by (rule prod.exhaust)
  from Cons.prems l obtain w where w: "l = Inr w" by (cases l) (auto simp: x)
  from Cons.prems l w have "copy_residues E ps s1 = (Inr u, s')" by (simp add: x)
  from effect_trans [OF effect_copy_result [OF l [unfolded w]] Cons.IH [OF this]]
  show ?case by (simp add: x ptr_addrs_def)
qed (simp add: ptr_addrs_def)

lemma effect_copy_group:
  assumes "length base \<le> length a" and "fits_group B A d base"
    and "copy_device_to_device_mrp E d a base s = (Inr u, s')"
  shows "effect B A (ptr_addrs (take (length base) d)) (length base) (hz_epoch s) (hz_epoch s')"
proof -
  let ?ps = "zip d (zip a base)"
  obtain r1 s1 where c: "copy_residues E ?ps (open_session E s) = (r1, s1)" by (rule prod.exhaust)
  from assms(3) c obtain w where w: "r1 = Inr w"
    by (cases r1) (auto simp: copy_device_to_device_mrp_def)
  have fsts: "map fst ?ps = take (length base) d"
    using assms(1,2) by (simp add: fits_group_def map_fst_zip_take)
  let ?as = "map (\<lambda>(d, _). to_dev_addr d) ?ps"
  have as: "?as = map to_dev_addr (take (length base) d)"
    unfolding fsts [symmetric] by (simp add: comp_def split_def)
  have reg: "register_outputs ?as base s1 = (Inr u, s')"
    using assms(3) by (simp add: copy_device_to_device_mrp_def c w)
  have "effect B A {} (length base) (hz_epoch s1) (hz_epoch s')"
    using effect_register_outputs [OF _ _ _ reg, of B A] assms(2)
    by (simp add: as fits_group_def ptr_addrs_def)
  from effect_trans [OF effect_then [OF effect_session effect_copies [OF c [unfolded w]]] this]
  show ?thesis by (simp add: fsts)
qed

section \<open>Instructions\<close>

fun writes :: "instr \<Rightarrow> hostptr list" where
  "writes (Single (IPP f d a b i)) = [d]"
| "writes (Single (IPS f d a x i)) = [d]"
| "writes (Single (IPQ f d a i)) = [d]"
| "writes (Single (IAutomorph d a k)) = [d]"
| "writes (Single (ICopy d a n)) = [d]"
| "writes (Group (MPP f d a b base)) = take (length base) d"
| "writes (Group (MPS f d a ss base)) = take (length base) d"
| "writes (Group (MP f d a base)) = take (length base) d"
| "writes (Group (MPI f d a k base)) = take (length base) d"
| "writes (Group (MConvert d a p)) = take (length (base_of (bc_dst_base p) (bc_dst_base_len p))) d"
| "writes (Group (MDown d a p)) = take (length (down_base p)) d"
| "writes (Group (MUp d a p)) = take (up_count p * length (up_base p)) d"
| "writes (Group (MCopy d a base)) = take (length base) d"

lemma effect_any:
  assumes "fh_sound E val D" and "mr_sound E val mval D M" and "ready s"
    and "any_ok (hz_config s) i" and "ptr_addrs (writes i) \<subseteq> A" and "length (writes i) \<le> B"
    and "exec_any E i s = Some (Inr u, s')"
  shows "effect B A (ptr_addrs (writes i)) (length (writes i)) (hz_epoch s) (hz_epoch s')"
proof -
  note any = assms(4-7)
  have one: "ptr_addrs [d] = {d}" for d by (simp add: ptr_addrs_def to_dev_addr_def)
  have grp: "fits_group B A d base" if "length base \<le> length d" and "ptr_addrs (take (length base) d) \<subseteq> A"
      "length (take (length base) d) \<le> B" for d and base :: "u64 list"
    using that by (simp add: fits_group_def)
  show ?thesis
  proof (cases i)
    case (Single j)
    have weak: "effect B A {d} 0 ep ep' \<Longrightarrow> effect B A {d} (Suc 0) ep ep'" for d and ep ep' :: "'a epoch"
      by (erule effect_weaken) simp_all
    show ?thesis
    proof (cases j)
      case (IPP f d a b k)
      with any effect_pp show ?thesis by (auto simp: Single one intro!: weak)
    next
      case (IPS f d a x k)
      with any show ?thesis
        by (auto simp: Single one intro!: weak effect_unary(1) [OF prod.collapse [symmetric]])
    next
      case (IPQ f d a k)
      with any show ?thesis
        by (auto simp: Single one intro!: weak effect_unary(2) [OF prod.collapse [symmetric]])
    next
      case (IAutomorph d a k)
      with any show ?thesis
        by (auto simp: Single one intro!: weak effect_unary(3) [OF prod.collapse [symmetric]])
    next
      case (ICopy d a n)
      with any effect_d2d show ?thesis by (auto simp: Single one intro!: weak)
    qed
  next
    case (Group j)
    show ?thesis
    proof (cases j)
      case (MPP f d a b base)
      with any grp [of base d] effect_mr_arith(1) [of B A d base E f a b s u s'] show ?thesis
        by (simp add: Group)
    next
      case (MPS f d a ss base)
      with any grp [of base d] effect_mr_arith(2) [of B A d base E f a ss s u s'] show ?thesis
        by (simp add: Group)
    next
      case (MP f d a base)
      with any grp [of base d] effect_mr_arith(3) [of B A d base E f a s u s'] show ?thesis
        by (simp add: Group)
    next
      case (MPI f d a k base)
      with any grp [of base d] effect_mr_arith(4) [of B A d base E f a k s u s'] show ?thesis
        by (simp add: Group)
    next
      case (MConvert d a p)
      with any grp [of "base_of (bc_dst_base p) (bc_dst_base_len p)" d]
        effect_convert [of B A d p E a s u s'] show ?thesis
        by (simp add: Group Let_def)
    next
      case (MDown d a p)
      with any grp [of "down_base p" d] effect_down [OF assms(2,1,3), of d a p B A u s'] show ?thesis
        by (simp add: Group Let_def down_base_def)
    next
      case (MUp d a p)
      have "up_count p * length (up_base p) \<le> length d"
        using any(1) by (simp add: Group MUp up_count_def up_base_def Let_def)
      with MUp any effect_up [OF assms(2,1,3), of d a p B A u s'] show ?thesis
        by (simp add: Group)
    next
      case (MCopy d a base)
      with any grp [of base d] effect_copy_group [of base a B A d E s u s'] show ?thesis
        by (simp add: Group)
    qed
  qed
qed

end
