(* ===== verification/Haze_Client.thy ===== *)
theory Haze_Client
  imports Haze_Effects Haze_System
begin

text \<open>
  A client's view of a recording session. The abstract machine knows the value of every
  device pointer, which pointers hold a value made in the session, and which are declared
  outputs; uploads and operations act on it at once. The C ABI simulates it: whatever the
  machine accepts, the calls succeed on, and a flush and a read-back then deliver the
  machine's values.
\<close>

section \<open>The abstract machine\<close>

datatype client_call = Upload hostptr hostptr | Compute instr | TagOut hostptr

record client_state =
  cl_mem :: dmem
  cl_bound :: "DevAddr set"
  cl_out :: "DevAddr set"

text \<open>What the shims check: no null pointer, no empty base.\<close>

fun api_ok :: "instr \<Rightarrow> bool" where
  "api_ok (Single (IPP f d a b i)) \<longleftrightarrow> d \<noteq> 0 \<and> a \<noteq> 0 \<and> b \<noteq> 0"
| "api_ok (Single (IPS f d a x i)) \<longleftrightarrow> d \<noteq> 0 \<and> a \<noteq> 0"
| "api_ok (Single (IPQ f d a i)) \<longleftrightarrow> d \<noteq> 0 \<and> a \<noteq> 0"
| "api_ok (Single (IAutomorph d a k)) \<longleftrightarrow> d \<noteq> 0 \<and> a \<noteq> 0"
| "api_ok (Single (ICopy d a n)) \<longleftrightarrow> d \<noteq> 0 \<and> a \<noteq> 0"
| "api_ok (Group (MPP f d a b base)) \<longleftrightarrow> base \<noteq> []"
| "api_ok (Group (MPS f d a ss base)) \<longleftrightarrow> base \<noteq> []"
| "api_ok (Group (MP f d a base)) \<longleftrightarrow> base \<noteq> []"
| "api_ok (Group (MPI f d a k base)) \<longleftrightarrow> base \<noteq> []"
| "api_ok (Group (MCopy d a base)) \<longleftrightarrow> base \<noteq> []"
| "api_ok (Group j) \<longleftrightarrow> True"

definition upload_value :: "config \<Rightarrow> hostmem \<Rightarrow> hostptr \<Rightarrow> u64 list" where
  "upload_value c hm h = bytes_vec (read_host hm h (8 * unat (cf_ring_dim c)))"

fun client_step ::
    "fh_denotation \<Rightarrow> mr_denotation \<Rightarrow> config \<Rightarrow> DevAddr set \<Rightarrow> hostmem \<Rightarrow> client_call \<Rightarrow>
     client_state \<Rightarrow> client_state option" where
  "client_step D M c A hm (Upload d h) st =
     (if d \<noteq> 0 \<and> h \<noteq> 0 \<and> to_dev_addr d \<in> A
      then Some (st\<lparr>cl_mem := (cl_mem st)(to_dev_addr d \<mapsto> upload_value c hm h),
                    cl_bound := insert (to_dev_addr d) (cl_bound st),
                    cl_out := cl_out st - {to_dev_addr d}\<rparr>)
      else None)"
| "client_step D M c A hm (Compute i) st =
     (if api_ok i \<and> any_ok c i \<and> ptr_addrs (writes i) \<subseteq> A
      then map_option (\<lambda>m. st\<lparr>cl_mem := m, cl_bound := cl_bound st \<union> ptr_addrs (writes i)\<rparr>)
             (eager_any D M c i (cl_mem st))
      else None)"
| "client_step D M c A hm (TagOut p) st =
     (if p \<noteq> 0 \<and> to_dev_addr p \<in> cl_bound st
      then Some (st\<lparr>cl_out := insert (to_dev_addr p) (cl_out st)\<rparr>) else None)"

fun client_run ::
    "fh_denotation \<Rightarrow> mr_denotation \<Rightarrow> config \<Rightarrow> DevAddr set \<Rightarrow> hostmem \<Rightarrow> client_call list \<Rightarrow>
     client_state \<Rightarrow> client_state option" where
  "client_run D M c A hm [] st = Some st"
| "client_run D M c A hm (x # xs) st =
     (case client_step D M c A hm x st of None \<Rightarrow> None | Some st1 \<Rightarrow> client_run D M c A hm xs st1)"

section \<open>The calls\<close>

fun api_instr ::
    "('p, 'm) fh_env \<Rightarrow> instr \<Rightarrow> ('p, 'm) haze \<Rightarrow> (hazeError_t \<times> ('p, 'm) haze) option" where
  "api_instr E (Single (IPP f d a b i)) s = Some (haze_binary_pp E f d a b i s)"
| "api_instr E (Single (IPS f d a x i)) s = Some (haze_binary_ps E f d a x i s)"
| "api_instr E (Single (IPQ f d a i)) s = Some (haze_unary_pq E f d a i s)"
| "api_instr E (Single (IAutomorph d a k)) s = Some (hazeAutomorph E d a k s)"
| "api_instr E (Single (ICopy d a n)) s = hazeMemcpy E d a n 3 s"
| "api_instr E (Group (MPP f d a b base)) s =
     Some (haze_binary_pp_mrp E f (Some d) (Some a) (Some b) (Some base) s)"
| "api_instr E (Group (MPS f d a ss base)) s =
     Some (haze_binary_ps_mrp E f (Some d) (Some a) (Some ss) (Some base) s)"
| "api_instr E (Group (MP f d a base)) s =
     Some (haze_unary_p_mrp E f (Some d) (Some a) (Some base) s)"
| "api_instr E (Group (MPI f d a k base)) s =
     Some (haze_unary_pi_mrp E f (Some d) (Some a) k (Some base) s)"
| "api_instr E (Group (MConvert d a p)) s = hazeBasisConvert E (Some d) (Some a) (Some p) s"
| "api_instr E (Group (MDown d a p)) s = hazeModDown E (Some d) (Some a) (Some p) s"
| "api_instr E (Group (MUp d a p)) s = hazeModUp E (Some d) (Some a) (Some p) s"
| "api_instr E (Group (MCopy d a base)) s =
     hazeMemcpyMrp E (Some d) (Some a) (poly_bytes (hz_alloc s)) 3 (Some base) s"

fun api_call ::
    "('p, 'm) fh_env \<Rightarrow> client_call \<Rightarrow> ('p, 'm) haze \<Rightarrow> (hazeError_t \<times> ('p, 'm) haze) option" where
  "api_call E (Upload d h) s = hazeMemcpy E d h (poly_bytes (hz_alloc s)) 1 s"
| "api_call E (Compute i) s = api_instr E i s"
| "api_call E (TagOut p) s = Some (hazeTagOutput p s)"

text \<open>A session stops at its first failing call.\<close>

fun api_run ::
    "('p, 'm) fh_env \<Rightarrow> client_call list \<Rightarrow> ('p, 'm) haze \<Rightarrow>
     (hazeError_t \<times> ('p, 'm) haze) option" where
  "api_run E [] s = Some (HAZE_SUCCESS, s)"
| "api_run E (x # xs) s =
     (case api_call E x s of
        None \<Rightarrow> None
      | Some (e, s1) \<Rightarrow> if e = HAZE_SUCCESS then api_run E xs s1 else Some (e, s1))"

lemma api_instr_exec:
  assumes "api_ok i" and "exec_any E i s = Some (Inr u, s1)"
  shows "\<exists>e. api_instr E i s = Some (HAZE_SUCCESS, s1\<lparr>hz_last_error := e\<rparr>)"
proof -
  have same: "\<exists>e. s1 = s1\<lparr>hz_last_error := e\<rparr>" by (rule exI [of _ "hz_last_error s1"]) simp
  show ?thesis
  proof (cases i)
    case (Single j)
    with assms show ?thesis
      by (cases j) (auto simp: haze_binary_pp_def haze_binary_ps_def haze_unary_pq_def
          hazeAutomorph_def hazeMemcpy_def to_dev_addr_def)
  next
    case (Group j)
    with assms same show ?thesis
      by (cases j) (auto simp: haze_binary_pp_mrp_def haze_binary_ps_mrp_def haze_unary_p_mrp_def
          haze_unary_pi_mrp_def with_arrays_def hazeMemcpyMrp_def hazeBasisConvert_def
          hazeModDown_def hazeModUp_def basis_dispatch_def)
  qed
qed

section \<open>What the calls leave alone\<close>

lemma in_session_sndD: "x = (r, s') \<Longrightarrow> in_session E s (snd x) \<Longrightarrow> in_session E s s'"
  by simp

lemma in_session_any: "exec_any E i s = Some (r, s') \<Longrightarrow> in_session E s s'"
proof (cases i)
  case (Single j)
  assume x: "exec_any E i s = Some (r, s')"
  show ?thesis
    using x unfolding Single
    apply (cases j)
    apply (simp_all only: exec_any.simps exec_instr.simps option.inject)
        apply (erule in_session_sndD, rule in_session_sr in_session_copies)+
    done
next
  case (Group j)
  assume x: "exec_any E i s = Some (r, s')"
  show ?thesis
    using x unfolding Group
    apply (cases j)
    apply (simp_all only: exec_any.simps exec_mr.simps option.inject)
    apply (erule in_session_basis(3)
        | erule in_session_sndD, rule in_session_mr in_session_basis(1,2) in_session_d2d_mrp)+
    done
qed

definition starts :: "('p, 'm) fh_env \<Rightarrow> bool" where
  "starts E \<longleftrightarrow> (\<forall>h k. \<not> throws E h (Compiler k))"

lemma starts_recording:
  assumes "starts E" and "\<not> format_refused (hz_config s)"
  shows "recording (hz_epoch (open_session E s))"
proof -
  have "fst (fh_try E (map Compiler ks) t) = True" for ks and t :: "('a, 'b) haze"
    using assms(1) by (induction ks arbitrary: t) (simp_all add: starts_def)
  then have "fst (fh_try E (init_calls (hz_config s)) s) = True" unfolding init_calls_def .
  then obtain t where "fh_try E (init_calls (hz_config s)) s = (True, t)"
    by (cases "fh_try E (init_calls (hz_config s)) s") simp
  with assms(2) show ?thesis
    by (auto simp: open_session_epoch ensure_initialized_def Let_def format_refused_def)
qed

lemma open_session_rest:
  "hz_host (open_session E s) = hz_host s"
  "hz_hook_had_error (open_session E s) = hz_hook_had_error s"
proof -
  have "hz_host (snd (fh_try E cs t)) = hz_host t \<and>
      hz_hook_had_error (snd (fh_try E cs t)) = hz_hook_had_error t" for cs and t :: "('a, 'b) haze"
    by (induction cs arbitrary: t) simp_all
  from this [of "init_calls (hz_config s)" s]
  show "hz_host (open_session E s) = hz_host s"
    and "hz_hook_had_error (open_session E s) = hz_hook_had_error s"
    by (auto simp: open_session_def ensure_initialized_def ensure_recording_locked_def
        start_recording_def Let_def split: prod.splits bool.splits)
qed

lemma in_session_frame:
  assumes "in_session E s s'"
  shows "hz_config s' = hz_config s" and "alloc_set (hz_alloc s') = alloc_set (hz_alloc s)"
    and "hz_host s' = hz_host s" and "hz_hook_had_error s' = hz_hook_had_error s"
    and "starts E \<Longrightarrow> \<not> format_refused (hz_config s) \<Longrightarrow> s' = s \<or> recording (hz_epoch s')"
  using assms recordsD [of "open_session E s" s'] starts_recording [of E s] open_session_rest [of E s]
  by (auto simp: in_session_def frame_simps shrinks_def)

section \<open>Simulation\<close>

text \<open>\<open>k\<close> output names are still free; groups have at most \<open>B\<close> members.\<close>

definition simulates ::
    "('p \<Rightarrow> u64 list) \<Rightarrow> config \<Rightarrow> DevAddr set \<Rightarrow> hostmem \<Rightarrow> nat \<Rightarrow> nat \<Rightarrow> ('p, 'm) haze \<Rightarrow>
     client_state \<Rightarrow> bool" where
  "simulates val c A hm B k s st \<longleftrightarrow>
     ready s \<and> hz_config s = c \<and> alloc_set (hz_alloc s) = A \<and> hz_host s = hm \<and>
     \<not> hz_hook_had_error s \<and> dev_mem val s = cl_mem st \<and>
     cl_bound st \<subseteq> dom (poly_map (hz_epoch s)) \<and>
     cl_out st \<subseteq> al_keys (pending_outputs (hz_epoch s)) \<and> 0 \<notin> cl_out st \<and>
     tame B A k (hz_epoch s) \<and> cl_bound st \<subseteq> A \<and>
     (poly_map (hz_epoch s) \<noteq> Map.empty \<longrightarrow> recording (hz_epoch s))"

lemma simulatesD:
  assumes "simulates val c A hm B k s st"
  shows "ready s" and "hz_config s = c" and "alloc_set (hz_alloc s) = A" and "hz_host s = hm"
    and "\<not> hz_hook_had_error s" and "dev_mem val s = cl_mem st"
    and "cl_bound st \<subseteq> dom (poly_map (hz_epoch s))"
    and "cl_out st \<subseteq> al_keys (pending_outputs (hz_epoch s))" and "0 \<notin> cl_out st"
    and "tame B A k (hz_epoch s)"
    and "poly_map (hz_epoch s) \<noteq> Map.empty \<Longrightarrow> recording (hz_epoch s)"
    and "cl_bound st \<subseteq> A"
  using assms by (simp_all add: simulates_def)

lemma dev_mem_last_error [simp]: "dev_mem val (s\<lparr>hz_last_error := e\<rparr>) = dev_mem val s"
  by (simp add: dev_mem_def fun_eq_iff split: option.split)

lemma simulates_last_error [simp]:
  "simulates val c A hm B k (s\<lparr>hz_last_error := e\<rparr>) st \<longleftrightarrow> simulates val c A hm B k s st"
  by (simp add: simulates_def ready_def)

text \<open>Only a modulus-up whose digits overrun their array is undefined, and the machine refuses it.\<close>

lemma exec_any_defined:
  assumes "fh_sound E val D" and "mr_sound E val mval D M" and "ready s"
    and "eager_any D M c i (dev_mem val s) = Some m"
  shows "\<exists>r s1. exec_any E i s = Some (r, s1)"
proof (cases i)
  case (Single j)
  then show ?thesis by (cases "exec_instr E j s") simp
next
  case (Group j)
  have def: "\<exists>r s1. Some x = Some (r, s1)" for x :: "unit expected \<times> ('a, 'b) haze"
    by (cases x) simp
  show ?thesis
  proof (cases j)
    case (MUp d a p)
    obtain r1 s1 where b: "build_mrp_locked E a (base_of (mu_src_base p) (mu_src_base_len p))
        (open_session E s) = (r1, s1)" by (rule prod.exhaust)
    show ?thesis
      using assms(4) build_session(5) [OF assms(1-3) b] def
      by (auto simp: Group MUp mod_up_def b on_group_def Let_def split: sum.split sum.splits option.splits)
  qed (use def in \<open>simp_all add: Group\<close>)
qed

lemma simulate_compute:
  assumes "fh_sound E val D" and "mr_sound E val mval D M" and "starts E" and "\<not> format_refused c"
    and "simulates val c A hm B (k + B) s st" and "length (writes i) \<le> B"
    and "client_step D M c A hm (Compute i) st = Some st1"
  shows "\<exists>s1. api_call E (Compute i) s = Some (HAZE_SUCCESS, s1) \<and> simulates val c A hm B k s1 st1"
proof -
  note S = simulatesD [OF assms(5)]
  from assms(7) obtain m where ok: "api_ok i" "any_ok c i" "ptr_addrs (writes i) \<subseteq> A"
      and m: "eager_any D M c i (cl_mem st) = Some m"
      and st1: "st1 = st\<lparr>cl_mem := m, cl_bound := cl_bound st \<union> ptr_addrs (writes i)\<rparr>"
    by (auto split: if_splits)
  obtain r s1 where x: "exec_any E i s = Some (r, s1)"
    using exec_any_defined [OF assms(1,2) S(1), of c i m] m S(6) by auto
  from exec_any_sem [OF assms(1,2) S(1) _ x] ok(2) S(2,6) m
  have R: "Some m = (case r of Inr u \<Rightarrow> Some (dev_mem val s1) | Inl e \<Rightarrow> None)" "ready s1"
      "hz_config s1 = c"
    by (simp_all add: refines_pair)
  then obtain u where r: "r = Inr u" and m1: "dev_mem val s1 = m" by (cases r) auto
  obtain e where call: "api_instr E i s = Some (HAZE_SUCCESS, s1\<lparr>hz_last_error := e\<rparr>)"
    using api_instr_exec [OF ok(1) x [unfolded r]] by blast
  note F = in_session_frame [OF in_session_any [OF x]]
  have rec: "poly_map (hz_epoch s1) \<noteq> Map.empty \<longrightarrow> recording (hz_epoch s1)"
    using F(5) assms(3,4) S(2,11) by auto
  have eff: "effect B A (ptr_addrs (writes i)) (length (writes i)) (hz_epoch s) (hz_epoch s1)"
    using effect_any [OF assms(1,2) S(1) _ ok(3) assms(6)] x r S(2) ok(2) by simp
  note X = effectD [OF effect_weaken [OF eff order_refl assms(6)]]
  have "tame B A k (hz_epoch s1)" by (rule X(4) [OF S(10)])
  moreover have "cl_bound st1 \<subseteq> dom (poly_map (hz_epoch s1))"
    using subset_trans [OF S(7) X(1)] X(2) by (simp add: st1)
  moreover have "cl_out st1 \<subseteq> al_keys (pending_outputs (hz_epoch s1))"
    using subset_trans [OF S(8) X(3)] by (simp add: st1)
  ultimately have "simulates val c A hm B k s1 st1"
    using R(2,3) F(1-4) S(2-5,9,12) m1 rec ok(3) by (simp add: simulates_def st1)
  with call show ?thesis by (intro exI [of _ "s1\<lparr>hz_last_error := e\<rparr>"]) simp
qed

subsection \<open>Uploads\<close>

lemma whole_upload:
  assumes "ready s" and "a \<in> alloc_set (hz_alloc s)" and "h \<noteq> 0"
  shows "copy_h2d (hz_host s) a h (poly_bytes (hz_alloc s)) (hz_alloc s) =
    (Inr (), (hz_alloc s)\<lparr>shadow_data := (shadow_data (hz_alloc s))
       (a \<mapsto> upload_value (hz_config s) (hz_host s) h)\<rparr>)"
    and "length (upload_value (hz_config s) (hz_host s) h) = want_elems (hz_alloc s)"
proof -
  let ?n = "unat (poly_bytes (hz_alloc s))"
  have n: "?n = 8 * want_elems (hz_alloc s)"
    using eight_want_elems [of "hz_alloc s"] assms(1) by (simp add: ready_def sized_def)
  then have v: "overwrite_prefix (read_host (hz_host s) h ?n) (shadow_for_write a (hz_alloc s)) =
      upload_value (hz_config s) (hz_host s) h"
    by (simp add: overwrite_prefix_def upload_value_def ready_size(1) [OF assms(1)])
  show "copy_h2d (hz_host s) a h (poly_bytes (hz_alloc s)) (hz_alloc s) =
    (Inr (), (hz_alloc s)\<lparr>shadow_data := (shadow_data (hz_alloc s))
       (a \<mapsto> upload_value (hz_config s) (hz_host s) h)\<rparr>)"
    using assms(2,3) by (simp add: copy_h2d_def v)
  show "length (upload_value (hz_config s) (hz_host s) h) = want_elems (hz_alloc s)"
    by (simp add: upload_value_def length_bytes_vec ready_size(1) [OF assms(1)])
qed

lemma names_erase:
  "names_inv ep \<Longrightarrow> names_inv (ep\<lparr>pending_outputs := al_erase a (pending_outputs ep)\<rparr>)"
  by (auto simp: names_inv_def al_erase_def distinct_map_filter)

lemma tame_erase: "tame B A k ep \<Longrightarrow> tame B A k (h2d_bind a p ep)"
  using names_erase [of ep a] by (auto simp: tame_def h2d_bind_def bind_input_def names_inv_def room_def)

lemma simulate_upload:
  assumes "fh_sound E val D" and "starts E" and "\<not> format_refused c"
    and "simulates val c A hm B k s st"
    and "client_step D M c A hm (Upload d h) st = Some st1"
  shows "\<exists>s1. api_call E (Upload d h) s = Some (HAZE_SUCCESS, s1) \<and> simulates val c A hm B k s1 st1"
proof -
  note S = simulatesD [OF assms(4)]
  let ?a = "to_dev_addr d" and ?v = "upload_value c hm h"
  from assms(5) have ok: "d \<noteq> 0" "h \<noteq> 0" "?a \<in> A"
      and st1: "st1 = st\<lparr>cl_mem := (cl_mem st)(?a \<mapsto> ?v), cl_bound := insert ?a (cl_bound st),
        cl_out := cl_out st - {?a}\<rparr>"
    by (auto split: if_splits)
  let ?al = "(hz_alloc s)\<lparr>shadow_data := (shadow_data (hz_alloc s))(?a \<mapsto> ?v)\<rparr>"
  let ?s1 = "upd_alloc (\<lambda>_. ?al) s"
  have w: "copy_h2d hm ?a h (poly_bytes (hz_alloc s)) (hz_alloc s) = (Inr (), ?al)"
      and len: "length ?v = want_elems (hz_alloc s)"
    using whole_upload [OF S(1) _ ok(2), of ?a] ok(3) S(2-4) by simp_all
  have r1: "ready ?s1"
    using S(1,4) len w haze_inv_h2d_step [of s ?a h "poly_bytes (hz_alloc s)"]
    by (auto simp: ready_def api_alloc_def sized_def want_elems_def)
  let ?t = "open_session E ?s1"
  have t: "hz_config ?t = c" "hz_alloc ?t = ?al" "hz_host ?t = hm" "\<not> hz_hook_had_error ?t"
      "recording (hz_epoch ?t)" "poly_map (hz_epoch ?t) = poly_map (hz_epoch s)"
      "pending_outputs (hz_epoch ?t) = pending_outputs (hz_epoch s)"
    using S(2,4,5) starts_recording [OF assms(2), of ?s1] assms(3)
    by (simp_all add: frame_simps open_session_rest open_session_epoch)
  have read: "read_polynomial_components ?a (cf_ring_dim (hz_config ?t)) (hz_alloc ?t) = Inr ?v"
    using S(1-3) ok(3) len ready_size [OF S(1)] by (simp add: read_polynomial_components_def ready_def t)
  let ?p = "input_poly E ?v ?t"
  let ?s2 = "upd_epoch (h2d_bind ?a ?p) (made_input E ?v ?t)"
  have step: "tag_h2d_input E ?a ?s1 = (Inr (), ?s2)"
    by (simp add: tag_h2d_input_def tag_h2d_ok [OF read])
  have "ready ?s2"
    using haze_inv_tag_h2d_input [of ?s1 E ?a] r1 step S(2)
    by (simp add: ready_def t)
  moreover have "dev_mem val ?s2 = (dev_mem val s)(?a \<mapsto> ?v)"
    using fh_soundD(1) [OF assms(1)]
    by (auto simp: dev_mem_def fun_eq_iff h2d_bind_def input_poly_def t split: option.split)
  moreover have "tame B A k (hz_epoch ?t)"
    using S(10) effectD(4) [OF effect_session, of B A k s]
    by (simp add: open_session_epoch tame_def names_inv_def room_def)
  then have "tame B A k (hz_epoch ?s2)" by (simp add: tame_erase)
  moreover have "hz_config ?s2 = c" and "alloc_set (hz_alloc ?s2) = A" and "hz_host ?s2 = hm"
      and "\<not> hz_hook_had_error ?s2" and "recording (hz_epoch ?s2)"
      and "poly_map (hz_epoch ?s2) = (poly_map (hz_epoch s))(?a \<mapsto> ?p)"
      and "al_keys (pending_outputs (hz_epoch ?s2)) = al_keys (pending_outputs (hz_epoch s)) - {?a}"
    using t S(3) by (simp_all add: h2d_bind_def bind_input_def made_input_def)
  ultimately have "simulates val c A hm B k ?s2 st1"
    using S(6-9,12) ok(3) unfolding simulates_def st1 by auto
  moreover have "\<exists>e. api_call E (Upload d h) s = Some (HAZE_SUCCESS, ?s2\<lparr>hz_last_error := e\<rparr>)"
    by (rule exI [of _ HAZE_SUCCESS]) (use ok S(4) w step in \<open>simp add: hazeMemcpy_def api_alloc_def\<close>)
  ultimately show ?thesis by (metis simulates_last_error)
qed

subsection \<open>Outputs\<close>

lemma names_retag [simp]: "names_inv (ep\<lparr>pending_mrp_groups := g\<rparr>) \<longleftrightarrow> names_inv ep"
  by (simp add: names_inv_def)

lemma members_tame:
  assumes "epoch_inv ep" and "tame B A k ep" and "1 \<le> B" and "a \<in> A"
  shows "length (tag_members ep a) \<le> B" and "set (tag_members ep a) \<subseteq> A"
proof -
  have "length (tag_members ep a) \<le> B \<and> set (tag_members ep a) \<subseteq> A"
  proof (cases rule: groups_inv_rev_cases [OF epoch_invD(1) [OF assms(1)], of a])
    case 1
    with assms(3,4) show ?thesis by (simp add: tag_members_def)
  next
    case (2 n g)
    with assms(2) show ?thesis by (simp add: tag_members_def tame_def)
  qed
  then show "length (tag_members ep a) \<le> B" and "set (tag_members ep a) \<subseteq> A" by simp_all
qed

lemma simulate_tag:
  assumes "simulates val c A hm B (k + B) s st" and "1 \<le> B"
    and "client_step D M c A hm (TagOut p) st = Some st1"
  shows "\<exists>s1. api_call E (TagOut p) s = Some (HAZE_SUCCESS, s1) \<and> simulates val c A hm B k s1 st1"
proof -
  note S = simulatesD [OF assms(1)]
  let ?a = "to_dev_addr p" and ?ep = "hz_epoch s"
  from assms(3) have p: "p \<noteq> 0" and b: "?a \<in> cl_bound st"
      and st1: "st1 = st\<lparr>cl_out := insert ?a (cl_out st)\<rparr>"
    by (auto split: if_splits)
  obtain x where x: "poly_map ?ep ?a = Some x" using b S(7) by blast
  have inv: "epoch_inv ?ep" using S(1) by (simp add: ready_def haze_inv_epoch)
  let ?ms = "tag_members ?ep ?a"
  obtain g where t: "tag_output_locked ?a ?ep =
      (Inr (), (emplace_outputs ?ms ?ep)\<lparr>pending_mrp_groups := g\<rparr>)" and m: "?a \<in> set ?ms"
    using tag_output_eq [OF inv x] by blast
  let ?ep' = "(emplace_outputs ?ms ?ep)\<lparr>pending_mrp_groups := g\<rparr>"
  let ?s1 = "upd_epoch (\<lambda>_. ?ep') s"
  have A: "?a \<in> A" using b S(12) by blast
  note M = members_tame [OF inv S(10) assms(2) A]
  have "tame B A k (emplace_outputs ?ms ?ep)"
    by (rule effectD(4) [OF effect_weaken [OF effect_emplaces [OF M(2)] order_refl M(1)] S(10)])
  then have "tame B A k ?ep'" by (simp add: tame_def room_def)
  moreover have "ready ?s1"
    using S(1) epoch_inv_tag_output [OF inv, of ?a] t
    by (simp add: ready_def haze_inv_upd_epoch)
  moreover have "dev_mem val ?s1 = dev_mem val s"
    by (simp add: dev_mem_def fun_eq_iff split: option.split)
  ultimately have "simulates val c A hm B k ?s1 st1"
    using S m p by (auto simp: simulates_def st1 to_dev_addr_def)
  moreover have "\<exists>e. api_call E (TagOut p) s = Some (HAZE_SUCCESS, ?s1\<lparr>hz_last_error := e\<rparr>)"
    by (rule exI [of _ HAZE_SUCCESS]) (use p t in \<open>simp add: hazeTagOutput_def tag_output_def\<close>)
  ultimately show ?thesis by (metis simulates_last_error)
qed

section \<open>Sessions\<close>

text \<open>Room for a call: a group has no more members than its bound.\<close>

fun width :: "client_call \<Rightarrow> nat" where
  "width (Compute i) = length (writes i)"
| "width _ = 1"

lemma simulates_weaken: "simulates val c A hm B k s st \<Longrightarrow> j \<le> k \<Longrightarrow> simulates val c A hm B j s st"
  by (auto simp: simulates_def intro: tame_mono)

lemma simulate_run:
  assumes "fh_sound E val D" and "mr_sound E val mval D M" and "starts E" and "\<not> format_refused c"
    and "1 \<le> B" and "\<forall>x \<in> set cs. width x \<le> B"
  shows "simulates val c A hm B (B * length cs) s st \<Longrightarrow> client_run D M c A hm cs st = Some st' \<Longrightarrow>
    \<exists>s'. api_run E cs s = Some (HAZE_SUCCESS, s') \<and> simulates val c A hm B 0 s' st'"
  using assms(6)
proof (induction cs arbitrary: s st)
  case (Cons x cs)
  from Cons.prems(2) obtain st1 where st1: "client_step D M c A hm x st = Some st1"
      and run: "client_run D M c A hm cs st1 = Some st'"
    by (auto split: option.splits)
  have sim: "simulates val c A hm B (B * length cs + B) s st"
    using Cons.prems(1) by (simp add: algebra_simps)
  have "\<exists>s1. api_call E x s = Some (HAZE_SUCCESS, s1) \<and> simulates val c A hm B (B * length cs) s1 st1"
  proof (cases x)
    case (Upload d h)
    show ?thesis
      using simulate_upload [OF assms(1,3,4) simulates_weaken [OF sim]] st1 by (simp add: Upload)
  next
    case (Compute i)
    with Cons.prems(3) show ?thesis
      using simulate_compute [OF assms(1-4) sim] st1 by simp
  next
    case (TagOut p)
    then show ?thesis using simulate_tag [OF sim assms(5)] st1 by simp
  qed
  then obtain s1 where "api_call E x s = Some (HAZE_SUCCESS, s1)"
      and s1: "simulates val c A hm B (B * length cs) s1 st1" by blast
  with Cons.IH [OF s1 run] Cons.prems(3) show ?case by simp
qed simp

end
