(* ===== verification/Haze_Mrp_Spec.thy ===== *)
theory Haze_Mrp_Spec
  imports Haze_Mrp_Semantics Haze_Simulator
begin

text \<open>
  The property of multi-residue recordings, with the simulated environment as its instance.
\<close>

definition sim_mr_den :: mr_denotation where
  "sim_mr_den = \<lparr>den_rot = (\<lambda>v q k. sim_automorph v k),
     den_fbc = (\<lambda>xs tb v sh. map (\<lambda>q. (fst (hd xs), q)) tb),
     den_rescale = (\<lambda>xs rb v sh. filter (\<lambda>(p, q). q \<notin> set rb) xs),
     den_subset = (\<lambda>xs db. filter (\<lambda>(p, q). q \<in> set db) xs)\<rparr>"

lemma towers: "sim_mr_pp f1 = pp_tower f1" "sim_mr_ps f2 = ps_tower f2"
  by (cases f1; simp) (cases f2; simp)

lemma sim_at_member: "distinct (map snd m) \<Longrightarrow> (v, q) \<in> set m \<Longrightarrow> sim_at m q = v"
proof -
  assume d: "distinct (map snd m)" and "(v, q) \<in> set m"
  then have "(q, v) \<in> set (map (\<lambda>(p, q). (q, p)) m)" by force
  moreover have "distinct (map fst (map (\<lambda>(p, q). (q, p)) m))"
    using d by (simp add: comp_def split_def)
  ultimately have "map_of (map (\<lambda>(p, q). (q, p)) m) q = Some v" by (simp add: map_of_eq_Some_iff)
  then show ?thesis by (simp add: sim_at_def)
qed

lemma sim_pp_towers:
  assumes "distinct (map snd a)" and "map snd a = map snd b"
  shows "map (\<lambda>(p, q). (sim_pp (pp_tower f) p (sim_at b q) q, q)) a = rns_pp sim_den f a b"
proof -
  have len: "length a = length b" using assms(2) by (metis length_map)
  have b: "distinct (map snd b)" using assms by simp
  have "sim_at b (snd (a ! i)) = fst (b ! i)" if "i < length a" for i
  proof (rule sim_at_member [OF b])
    have "snd (a ! i) = snd (b ! i)" using assms(2) that len by (metis nth_map)
    then show "(fst (b ! i), snd (a ! i)) \<in> set b" using that len by simp
  qed
  then show ?thesis
    by (intro nth_equalityI) (auto simp: rns_pp_def len sim_den_def split_def)
qed

lemma sim_mr_sound: "mr_sound sim_env (\<lambda>p. p) (\<lambda>m. m) sim_den sim_mr_den"
proof -
  have "map snd (filter (\<lambda>(p, q). q \<notin> set rb) xs) = filter (\<lambda>q. q \<notin> set rb) (map snd xs)"
    for rb :: "u64 list" and xs :: rns
    by (induction xs) auto
  moreover have "map2 (\<lambda>(p, q) (x, _). (sim_ps (ps_tower f) p x q, q)) a ss = rns_ps sim_den f a ss"
    for f a ss
    by (simp add: rns_ps_def sim_den_def)
  moreover have "rns_p sim_den f a = a" for f a
    by (simp add: rns_p_def sim_den_def sim_pq_def)
  moreover have "rns_pi sim_den sim_mr_den f a k = map (\<lambda>(p, q). (sim_automorph p k, q)) a" for f a k
    by (cases f) (simp_all add: rns_pi_def sim_den_def sim_mr_den_def)
  moreover have "\<forall>f a b. distinct (map snd a) \<and> map snd a = map snd b \<longrightarrow>
      map (\<lambda>(p, q). (sim_pp (pp_tower f) p (sim_at b q) q, q)) a = rns_pp sim_den f a b"
    using sim_pp_towers by blast
  ultimately show ?thesis
    using sim_at_member
    by (simp add: mr_sound_def towers) (simp add: sim_mr_den_def comp_def split_def)
qed

section \<open>Recording of groups\<close>

text \<open>
  C4. Recording refines eager execution for multi-residue programs too. In a configured state
  with well-sized shadows, for any fhetch whose multi-residue operations fan out to the
  residues, with pointer arrays as long as their bases and distinct moduli, a program of
  single-residue and multi-residue operations (arithmetic, scalar, transform, automorphism,
  basis conversion, mod-down, mod-up, device-to-device copy of a group) succeeds when recorded
  exactly when its eager execution on device memory succeeds, and then leaves the eager result
  in device memory. A group operation reads all its residues before it writes the first, so
  any overlap of its arrays is harmless; a group copy goes residue by residue.
\<close>

theorem recorded_groups_are_eager:
  assumes "fh_sound E val D" and "mr_sound E val mval D M" and "ready s"
    and "\<forall>i \<in> set is. any_ok (hz_config s) i" and "run_any E is s = Some (r, s')"
  shows "eager_program D M (hz_config s) is (dev_mem val s) =
    (case r of Inr u \<Rightarrow> Some (dev_mem val s') | Inl e \<Rightarrow> None)"
  using run_any_sem [OF assms] by (simp add: refines_pair)

lemma overlap_eager:
  assumes "m 64 = Some [1, 2]" and "m 80 = Some [3, 96]"
  shows "eager_mr sim_den sim_mr_den c (MPP MrAddp [96, 64] [64, 80] [64, 80] [97, 89]) m =
    Some (m(96 \<mapsto> [2, 4], 64 \<mapsto> [6, 14]))"
proof -
  have p: "sim_pp SrAddp [1, 2] [1, 2] 97 = [2, 4]" "sim_pp SrAddp [3, 96] [3, 96] 89 = [6, 14]"
    by code_simp+
  have g: "read_group m [64, 80] [97, 89] = Some [([1, 2], 97), ([3, 96], 89)]"
    using assms by (simp add: read_group_def to_dev_addr_def)
  have "rns_pp sim_den MrAddp [([1, 2], 97), ([3, 96], 89)] [([1, 2], 97), ([3, 96], 89)] =
      [([2, 4], 97), ([6, 14], 89)]"
    by (simp add: rns_pp_def sim_den_def p)
  then show ?thesis by (simp add: on_group_def g write_group_def to_dev_addr_def)
qed

theorem recorded_groups_are_eager_witness:
  "\<exists>s'. run_any sim_env [Group (MPP MrAddp [96, 64] [64, 80] [64, 80] [97, 89]),
       Single (ICopy 80 64 16)] demo = Some (Inr (), s') \<and>
     dev_mem (\<lambda>p. p) s' 96 = Some [2, 4] \<and> dev_mem (\<lambda>p. p) s' 64 = Some [6, 14] \<and>
     dev_mem (\<lambda>p. p) s' 80 = Some [6, 14]"
proof -
  let ?is = "[Group (MPP MrAddp [96, 64] [64, 80] [64, 80] [97, 89]), Single (ICopy 80 64 16)]"
  have "run_any sim_env ?is demo \<noteq> None"
    by (simp split: prod.split sum.split del: not_None_eq)
  then obtain r s' where r: "run_any sim_env ?is demo = Some (r, s')" by auto
  have "\<forall>i \<in> set ?is. any_ok (hz_config demo) i" by simp
  note E = recorded_groups_are_eager [OF sim_sound sim_mr_sound demo_ready this r]
  have m: "dev_mem (\<lambda>p. p) demo 64 = Some [1, 2]" "dev_mem (\<lambda>p. p) demo 80 = Some [3, 96]"
    by (simp_all add: dev_mem_def epoch_init_def)
  have "eager_program sim_den sim_mr_den (hz_config demo) ?is (dev_mem (\<lambda>p. p) demo) =
      Some ((dev_mem (\<lambda>p. p) demo)(96 \<mapsto> [2, 4], 64 \<mapsto> [6, 14], 80 \<mapsto> [6, 14]))"
    by (simp add: overlap_eager [OF m] del: demo_simps eager_mr.simps)
  with E have "r = Inr ()" and
      "dev_mem (\<lambda>p. p) s' = (dev_mem (\<lambda>p. p) demo)(96 \<mapsto> [2, 4], 64 \<mapsto> [6, 14], 80 \<mapsto> [6, 14])"
    by (cases r; simp)+
  with r show ?thesis by simp
qed

end
