(* ===== verification/Haze_Client_Spec.thy ===== *)
theory Haze_Client_Spec
  imports Haze_Client Haze_Mrp_Spec
begin

text \<open>
  The contract of the device as its client sees it: a session of uploads, operations and tags,
  then one flush, then read-backs.
\<close>

definition client_start :: "('p \<Rightarrow> u64 list) \<Rightarrow> ('p, 'm) haze \<Rightarrow> client_state" where
  "client_start val s = \<lparr>cl_mem = dev_mem val s, cl_bound = {}, cl_out = {}\<rparr>"

lemma simulates_start:
  assumes "ready s" and "hz_epoch s = epoch_init" and "\<not> hz_hook_had_error s" and "n < 2 ^ 64"
  shows "simulates val (hz_config s) (alloc_set (hz_alloc s)) (hz_host s) B n s (client_start val s)"
  using assms
  by (simp add: simulates_def client_start_def tame_def epoch_init_def names_inv_def room_def al_keys_def)

lemma simulated_flush:
  assumes "fh_sound E val D" and "replay_serves E val" and "\<not> format_refused c"
    and "simulates val c A hm B 0 s st" and "a \<in> cl_out st" and "dst \<noteq> 0"
    and "\<forall>v \<in> ran (cl_mem st). length v = unat (cf_ring_dim c)"
  shows "\<exists>s1 s2 v. hazeFlush E s = (HAZE_SUCCESS, s1) \<and> cl_mem st a = Some v \<and>
    hazeMemcpy E dst a (poly_bytes (hz_alloc s)) 2 s1 = Some (HAZE_SUCCESS, s2) \<and>
    hz_host s2 = write_host hm dst (vec_bytes v)"
proof -
  note S = simulatesD [OF assms(4)]
  let ?outs = "al_keys (pending_outputs (hz_epoch s))"
  have len: "length (val p) = want_elems (hz_alloc s)" if "poly_map (hz_epoch s) b = Some p" for b p
  proof -
    have "cl_mem st b = Some (val p)" using that S(6) [symmetric] by (simp add: dev_mem_def)
    then have "length (val p) = unat (cf_ring_dim c)" using assms(7) by (auto simp: ran_def)
    then show ?thesis using ready_size(1) [OF S(1)] S(2) by simp
  qed
  have a: "a \<in> ?outs" using assms(5) S(8) by blast
  obtain p where p: "poly_map (hz_epoch s) a = Some p"
    using a S(1) by (auto simp: ready_def haze_inv_def epoch_inv_def bindings_inv_def)
  have "recording (hz_epoch s)" using p S(11) by force
  moreover have "names_inv (hz_epoch s)" and "?outs \<subseteq> alloc_set (hz_alloc s)"
    using S(3,10) by (simp_all add: tame_def)
  ultimately obtain s1 v where s1: "flush E s = (Inr (), s1)" and v: "dev_mem val s a = Some v"
      and copy: "copy_to_host_entry dst a (poly_bytes (hz_alloc s)) s1 = Some (Inr (),
        s1\<lparr>hz_host := write_host (hz_host s) dst (take (unat (poly_bytes (hz_alloc s))) (vec_bytes v))\<rparr>)"
    using flush_reads_back [OF assms(2,1) S(1) _ S(5) _ _ _ _ a assms(6) order_refl] assms(3) S(2) len
    by blast
  have "v = val p" using v p by (simp add: dev_mem_def)
  then have "length (vec_bytes v) = unat (poly_bytes (hz_alloc s))"
    using len [OF p] eight_want_elems [of "hz_alloc s"] S(1) by (simp add: ready_def sized_def)
  moreover have "copy_to_host_entry dst a n (s1\<lparr>hz_last_error := e\<rparr>) =
      map_option (\<lambda>(r, t). (r, t\<lparr>hz_last_error := e\<rparr>)) (copy_to_host_entry dst a n s1)" for n e
    by (simp add: copy_to_host_entry_def split: option.split)
  moreover have "a \<noteq> 0" using assms(5) S(9) by metis
  ultimately show ?thesis
    using s1 v copy assms(6) S(4,6)
    by (simp add: hazeFlush_def hazeMemcpy_def to_dev_addr_def)
qed

lemma session_run:
  assumes "fh_sound E val D" and "mr_sound E val mval D M" and "replay_serves E val" and "starts E"
    and "\<not> format_refused c" and "1 \<le> B" and "\<forall>x \<in> set cs. width x \<le> B"
    and "simulates val c A hm B (B * length cs) s st0" and "client_run D M c A hm cs st0 = Some st"
    and "cl_out st \<noteq> {}" and "\<forall>v \<in> ran (cl_mem st). length v = unat (cf_ring_dim c)"
    and "dst \<noteq> 0"
  shows "\<exists>s1 s2. api_run E cs s = Some (HAZE_SUCCESS, s1) \<and> hazeFlush E s1 = (HAZE_SUCCESS, s2) \<and>
    (\<forall>a \<in> cl_out st. \<exists>s3 v. cl_mem st a = Some v \<and>
       hazeMemcpy E dst a (poly_bytes (hz_alloc s)) 2 s2 = Some (HAZE_SUCCESS, s3) \<and>
       hz_host s3 = write_host hm dst (vec_bytes v))"
proof -
  let ?sim = "simulates val c A hm B"
  obtain s1 where run: "api_run E cs s = Some (HAZE_SUCCESS, s1)" and sim: "?sim 0 s1 st"
    using simulate_run [OF assms(1,2,4-9)] by blast
  have "poly_bytes (hz_alloc s1) = poly_bytes (hz_alloc s)"
    using ready_size(2) simulatesD(1,2) [OF sim] simulatesD(1,2) [OF assms(8)] by metis
  then have each: "\<exists>s2 s3 v. hazeFlush E s1 = (HAZE_SUCCESS, s2) \<and> cl_mem st a = Some v \<and>
      hazeMemcpy E dst a (poly_bytes (hz_alloc s)) 2 s2 = Some (HAZE_SUCCESS, s3) \<and>
      hz_host s3 = write_host hm dst (vec_bytes v)" if "a \<in> cl_out st" for a
    using simulated_flush [OF assms(1,3,5) sim that assms(12,11)] by simp
  from assms(10) obtain b where "b \<in> cl_out st" by blast
  from each [OF this] obtain s2 where fl: "hazeFlush E s1 = (HAZE_SUCCESS, s2)" by blast
  have "\<exists>s3 v. cl_mem st a = Some v \<and>
      hazeMemcpy E dst a (poly_bytes (hz_alloc s)) 2 s2 = Some (HAZE_SUCCESS, s3) \<and>
      hz_host s3 = write_host hm dst (vec_bytes v)" if "a \<in> cl_out st" for a
    using each [OF that] fl by auto
  with run fl show ?thesis by blast
qed

text \<open>
  C2. A session delivers what its client computed. From a configured device with no recording
  under way, for any fhetch that computes what its operations denote, starts and serves the
  values of its outputs: whenever the abstract machine accepts a sequence of uploads,
  single- and multi-residue operations and output tags, with some output tagged and every
  value as long as the ring dimension, every call of the sequence reports success, the flush
  reports success, and each tagged output can then be read back, exactly as the bytes of the
  value the machine holds. The bound says that the output names do not wrap.
\<close>

theorem session_delivers:
  assumes "fh_sound E val D" and "mr_sound E val mval D M" and "replay_serves E val" and "starts E"
    and "ready s" and "hz_epoch s = epoch_init" and "\<not> hz_hook_had_error s"
    and "\<not> format_refused (hz_config s)"
    and "1 \<le> B" and "\<forall>x \<in> set cs. width x \<le> B" and "B * length cs < 2 ^ 64"
    and "client_run D M (hz_config s) (alloc_set (hz_alloc s)) (hz_host s) cs (client_start val s) = Some st"
    and "cl_out st \<noteq> {}" and "\<forall>v \<in> ran (cl_mem st). length v = unat (cf_ring_dim (hz_config s))"
    and "dst \<noteq> 0"
  shows "\<exists>s1 s2. api_run E cs s = Some (HAZE_SUCCESS, s1) \<and> hazeFlush E s1 = (HAZE_SUCCESS, s2) \<and>
    (\<forall>a \<in> cl_out st. \<exists>s3 v. cl_mem st a = Some v \<and>
       hazeMemcpy E dst a (poly_bytes (hz_alloc s)) 2 s2 = Some (HAZE_SUCCESS, s3) \<and>
       hz_host s3 = write_host (hz_host s) dst (vec_bytes v))"
  by (rule session_run [OF assms(1-4,8-10) simulates_start [OF assms(5-7,11)] assms(12-15)])

section \<open>A session of the simulated device\<close>

text \<open>An upload over an existing value, a group operation in place, two tagged outputs.\<close>

definition demo_host :: hostmem where
  "demo_host p = (if p = 512 then 5 else if p = 520 then 6 else 0)"

definition demo_calls :: "client_call list" where
  "demo_calls = [Upload 80 512, Compute (Group (MPP MrAddp [96, 64] [64, 80] [64, 80] [97, 89])),
     Compute (Single (ICopy 80 64 16)), TagOut 96, TagOut 80]"

lemma demo_upload: "upload_value c demo_host 512 = [5, 6]" if "cf_ring_dim c = 2"
proof -
  have "bytes_vec (read_host demo_host 512 16) = [5, 6]" by code_simp
  with that show ?thesis by (simp add: upload_value_def)
qed

lemma demo_group:
  assumes "m 64 = Some [1, 2]" and "m 80 = Some [5, 6]"
  shows "eager_mr sim_den sim_mr_den c (MPP MrAddp [96, 64] [64, 80] [64, 80] [97, 89]) m =
    Some (m(96 \<mapsto> [2, 4], 64 \<mapsto> [10, 12]))"
proof -
  have p: "sim_pp SrAddp [1, 2] [1, 2] 97 = [2, 4]" "sim_pp SrAddp [5, 6] [5, 6] 89 = [10, 12]"
    by code_simp+
  have g: "read_group m [64, 80] [97, 89] = Some [([1, 2], 97), ([5, 6], 89)]"
    using assms by (simp add: read_group_def to_dev_addr_def)
  have "rns_pp sim_den MrAddp [([1, 2], 97), ([5, 6], 89)] [([1, 2], 97), ([5, 6], 89)] =
      [([2, 4], 97), ([10, 12], 89)]"
    by (simp add: rns_pp_def sim_den_def p)
  then show ?thesis by (simp add: on_group_def g write_group_def to_dev_addr_def)
qed

lemma demo_run:
  "client_run sim_den sim_mr_den (hz_config demo) {64, 80, 96} demo_host demo_calls
     \<lparr>cl_mem = [64 \<mapsto> [1, 2], 80 \<mapsto> [3, 96]], cl_bound = {}, cl_out = {}\<rparr> =
   Some \<lparr>cl_mem = [96 \<mapsto> [2, 4], 64 \<mapsto> [10, 12], 80 \<mapsto> [10, 12]], cl_bound = {64, 80, 96},
     cl_out = {80, 96}\<rparr>"
  by (auto simp: demo_calls_def to_dev_addr_def ptr_addrs_def demo_upload demo_group fun_eq_iff
      simp del: eager_mr.simps)

theorem session_delivers_witness:
  "\<exists>s1 s2 s3. api_run sim_env demo_calls (demo\<lparr>hz_host := demo_host\<rparr>) = Some (HAZE_SUCCESS, s1) \<and>
     hazeFlush sim_env s1 = (HAZE_SUCCESS, s2) \<and>
     hazeMemcpy sim_env 1024 80 16 2 s2 = Some (HAZE_SUCCESS, s3) \<and>
     hz_host s3 = write_host demo_host 1024 (vec_bytes [10, 12])"
proof -
  let ?s = "demo\<lparr>hz_host := demo_host\<rparr>"
  have "ready ?s" using demo_ready by (simp add: ready_def)
  moreover have "client_start (\<lambda>p. p) ?s =
      \<lparr>cl_mem = [64 \<mapsto> [1, 2], 80 \<mapsto> [3, 96]], cl_bound = {}, cl_out = {}\<rparr>"
    by (auto simp: client_start_def dev_mem_def epoch_init_def fun_eq_iff)
  moreover have "\<forall>x \<in> set demo_calls. width x \<le> 2" and "length demo_calls = 5"
    by (simp_all add: demo_calls_def)
  moreover have "starts sim_env" by (simp add: starts_def)
  moreover have "\<not> format_refused (hz_config demo)" by (simp add: format_refused_def config_init_def)
  moreover have "\<forall>v \<in> ran [96 \<mapsto> [2, 4::u64], 64 \<mapsto> [10, 12], 80::u64 \<mapsto> [10, 12]]. length v = 2"
    by (auto simp: ran_def split: if_splits)
  ultimately show ?thesis
    using session_delivers [OF sim_sound sim_mr_sound sim_serves, of ?s 2 demo_calls _ 1024] demo_run
    by simp blast
qed

end
