(* ===== verification/Haze_Threads.thy ===== *)
theory Haze_Threads
  imports "HOL-Library.Multiset"
begin

text \<open>
  Client threads and the mutexes of common/thread_safety.hpp. A thread is a program tree: it
  takes a mutex, gives it back, or runs the code between two lock operations as one step on
  the shared state. Threads interleave at these steps.
\<close>

section \<open>Programs\<close>

text \<open>The \<open>HazeMutex\<close> objects: \<open>CompilerBackend::init_mutex_\<close> and the \<open>mutex_\<close> of each singleton.\<close>

datatype lock = InitMutex | EpochMutex | ConfigMutex | AllocMutex

text \<open>\<open>Undefined\<close> is undefined behaviour of the C++ code.\<close>

datatype ('s, 'a) prog =
    Ret 'a
  | Undefined
  | Acquire lock "('s, 'a) prog"
  | Release lock "('s, 'a) prog"
  | Act "'s \<Rightarrow> 's" "'s \<Rightarrow> ('s, 'a) prog"

primrec bindp :: "('s, 'a) prog \<Rightarrow> ('a \<Rightarrow> ('s, 'b) prog) \<Rightarrow> ('s, 'b) prog" where
  "bindp (Ret x) k = k x"
| "bindp Undefined k = Undefined"
| "bindp (Acquire l p) k = Acquire l (bindp p k)"
| "bindp (Release l p) k = Release l (bindp p k)"
| "bindp (Act u c) k = Act u (\<lambda>s. bindp (c s) k)"

definition act :: "('s \<Rightarrow> 'a \<times> 's) \<Rightarrow> ('s, 'a) prog" where
  "act f = Act (\<lambda>s. snd (f s)) (\<lambda>s. Ret (fst (f s)))"

text \<open>\<open>HazeLockGuard\<close>: the constructor locks, the destructor unlocks at the end of the scope.\<close>

definition guard :: "lock \<Rightarrow> ('s, 'a) prog \<Rightarrow> ('s, 'a) prog" where
  "guard l p = Acquire l (bindp p (\<lambda>x. Release l (Ret x)))"

section \<open>A thread by itself\<close>

primrec alone :: "('s, 'a) prog \<Rightarrow> 's \<Rightarrow> ('a \<times> 's) option" where
  "alone (Ret x) s = Some (x, s)"
| "alone Undefined s = None"
| "alone (Acquire l p) s = alone p s"
| "alone (Release l p) s = alone p s"
| "alone (Act u c) s = alone (c s) (u s)"

lemma alone_bind [simp]:
  "alone (bindp p k) s = (case alone p s of None \<Rightarrow> None | Some (x, s1) \<Rightarrow> alone (k x) s1)"
  by (induction p arbitrary: s) simp_all

lemma alone_act [simp]: "alone (act f) s = Some (f s)"
  by (simp add: act_def)

lemma alone_guard [simp]: "alone (guard l p) s = alone p s"
  by (simp add: guard_def split: option.split)

section \<open>Interleaving\<close>

record ('s, 'a) world =
  w_shared :: 's
  w_owner :: "lock \<Rightarrow> nat option"
  w_threads :: "('s, 'a) prog list"

text \<open>
  \<open>HazeMutex::lock\<close> returns when the mutex is free; \<open>unlock\<close> is defined for its owner only.
  The first argument is the thread that moves.
\<close>

inductive wstep :: "nat \<Rightarrow> ('s, 'a) world \<Rightarrow> ('s, 'a) world \<Rightarrow> bool" where
  w_lock: "i < length (w_threads w) \<Longrightarrow> w_threads w ! i = Acquire l p \<Longrightarrow> w_owner w l = None \<Longrightarrow>
    wstep i w (w\<lparr>w_owner := (w_owner w)(l := Some i), w_threads := (w_threads w)[i := p]\<rparr>)"
| w_unlock: "i < length (w_threads w) \<Longrightarrow> w_threads w ! i = Release l p \<Longrightarrow> w_owner w l = Some i \<Longrightarrow>
    wstep i w (w\<lparr>w_owner := (w_owner w)(l := None), w_threads := (w_threads w)[i := p]\<rparr>)"
| w_act: "i < length (w_threads w) \<Longrightarrow> w_threads w ! i = Act u c \<Longrightarrow>
    wstep i w (w\<lparr>w_shared := u (w_shared w), w_threads := (w_threads w)[i := c (w_shared w)]\<rparr>)"

inductive runs :: "('s, 'a) world \<Rightarrow> ('s, 'a) world \<Rightarrow> bool" where
  runs_refl: "runs w w"
| runs_step: "runs w w1 \<Longrightarrow> wstep i w1 w2 \<Longrightarrow> runs w w2"

text \<open>Executable: the scheduler picks the threads in the order of a list.\<close>

definition step_of :: "nat \<Rightarrow> ('s, 'a) world \<Rightarrow> ('s, 'a) world option" where
  "step_of i w = (if length (w_threads w) \<le> i then None else
     (case w_threads w ! i of
        Ret x \<Rightarrow> None
      | Undefined \<Rightarrow> None
      | Acquire l p \<Rightarrow> if w_owner w l = None
          then Some (w\<lparr>w_owner := (w_owner w)(l := Some i), w_threads := (w_threads w)[i := p]\<rparr>) else None
      | Release l p \<Rightarrow> if w_owner w l = Some i
          then Some (w\<lparr>w_owner := (w_owner w)(l := None), w_threads := (w_threads w)[i := p]\<rparr>) else None
      | Act u c \<Rightarrow>
          Some (w\<lparr>w_shared := u (w_shared w), w_threads := (w_threads w)[i := c (w_shared w)]\<rparr>)))"

fun schedule :: "nat list \<Rightarrow> ('s, 'a) world \<Rightarrow> ('s, 'a) world option" where
  "schedule [] w = Some w"
| "schedule (i # is) w = (case step_of i w of None \<Rightarrow> None | Some w1 \<Rightarrow> schedule is w1)"

lemma step_of_iff: "step_of i w = Some w' \<longleftrightarrow> wstep i w w'"
  by (auto simp: step_of_def wstep.simps not_le split: prog.splits if_splits)

lemma runs_trans: "runs w1 w2 \<Longrightarrow> runs w w1 \<Longrightarrow> runs w w2"
  by (induction rule: runs.induct) (auto intro: runs_step)

lemma runs_first: "wstep i w w1 \<Longrightarrow> runs w1 w2 \<Longrightarrow> runs w w2"
  by (blast intro: runs_trans runs_step runs_refl)

lemma schedule_runs: "schedule is w = Some w' \<Longrightarrow> runs w w'"
  by (induction "is" arbitrary: w) (auto simp: step_of_iff split: option.splits intro: runs_refl runs_first)

definition start :: "'s \<Rightarrow> ('s, 'a) prog list \<Rightarrow> ('s, 'a) world" where
  "start s ps = \<lparr>w_shared = s, w_owner = (\<lambda>_. None), w_threads = ps\<rparr>"

text \<open>A thread has ended when it has returned (or its behaviour is undefined).\<close>

fun ended :: "('s, 'a) prog \<Rightarrow> bool" where
  "ended (Ret x) \<longleftrightarrow> True"
| "ended Undefined \<longleftrightarrow> True"
| "ended p \<longleftrightarrow> False"

section \<open>Every run is finite\<close>

inductive child :: "('s, 'a) prog \<Rightarrow> ('s, 'a) prog \<Rightarrow> bool" where
  "child p (Acquire l p)"
| "child p (Release l p)"
| "child (c s) (Act u c)"

inductive_simps child_simps: "child q (Ret x)" "child q Undefined" "child q (Acquire l p)"
  "child q (Release l p)" "child q (Act u c)"

lemma wf_child: "wf {(q, p). child q p}"
proof -
  have "p \<in> Wellfounded.acc {(q, p). child q p}" for p :: "('a, 'b) prog"
    by (induction p) (rule accI, fastforce simp: child_simps)+
  then show ?thesis by (rule acc_wfI [OF allI])
qed

lemma wstep_child:
  "wstep i w w' \<Longrightarrow> i < length (w_threads w) \<and>
     (\<exists>q. w_threads w' = (w_threads w)[i := q] \<and> child q (w_threads w ! i))"
  by (erule wstep.cases) (simp; rule exI, rule conjI [OF refl], simp add: child.intros)+

lemma mset_replace:
  assumes "i < length xs"
  shows "mset (xs[i := y]) = mset xs - {#xs ! i#} + {#y#}"
  using assms by (simp add: mset_update)

lemma wf_wstep: "wf {(w', w :: ('s, 'a) world). \<exists>i. wstep i w w'}"
proof (rule wf_subset)
  show "wf (inv_image (mult1 {(q, p). child q p}) (\<lambda>w. mset (w_threads w)))"
    by (rule wf_inv_image, rule wf_mult1, rule wf_child)
  show "{(w', w :: ('s, 'a) world). \<exists>i. wstep i w w'} \<subseteq>
      inv_image (mult1 {(q, p). child q p}) (\<lambda>w. mset (w_threads w))"
  proof (rule subrelI, clarify)
    fix w' w :: "('s, 'a) world" and i
    assume "wstep i w w'"
    then obtain q where i: "i < length (w_threads w)"
        and q: "w_threads w' = (w_threads w)[i := q]" "child q (w_threads w ! i)"
      using wstep_child by blast
    let ?M = "mset (w_threads w) - {#w_threads w ! i#}"
    have "mset (w_threads w) = add_mset (w_threads w ! i) ?M" using i by simp
    moreover have "mset (w_threads w') = ?M + {#q#}" using i q(1) by (simp add: mset_replace)
    ultimately have "(mset (w_threads w'), mset (w_threads w)) \<in> mult1 {(q, p). child q p}"
    proof (rule mult1I)
      fix b assume "b \<in># {#q#}"
      with q(2) show "(b, w_threads w ! i) \<in> {(q, p). child q p}" by simp
    qed
    then show "(w', w) \<in> inv_image (mult1 {(q, p). child q p}) (\<lambda>w. mset (w_threads w))"
      by (simp add: inv_image_def)
  qed
qed

end
