(* ===== verification/Haze_Lock_Protocol.thy ===== *)
theory Haze_Lock_Protocol
  imports Haze_Threads
begin

text \<open>
  The reasoning principle for threads. Each mutex guards a part of the shared state
  (\<open>HAZE_GUARDED_BY\<close>) and promises an invariant of it whenever it is free. A program that
  writes a part only under its mutex, restores the invariant before it unlocks, and takes
  mutexes in rank order keeps its promises under every interleaving with programs of the same
  kind: nobody deadlocks, nobody writes what another thread guards, and every invariant holds
  whenever its mutex is free.
\<close>

section \<open>Protocols\<close>

text \<open>
  \<open>part l s s'\<close>: the two states agree on what \<open>l\<close> guards. \<open>linv l\<close>: the invariant behind \<open>l\<close>.
  \<open>ub\<close>: whether undefined behaviour is tolerated.
\<close>

record 's protocol =
  part :: "lock \<Rightarrow> 's \<Rightarrow> 's \<Rightarrow> bool"
  linv :: "lock \<Rightarrow> 's \<Rightarrow> bool"
  ub :: bool

text \<open>
  The order in which mutexes are taken: the initialisation reads the configuration, a session
  reads the configuration and calls the allocator, and \<open>Config::set_ring_dimension\<close> calls the
  allocator.
\<close>

primrec lock_rank :: "lock \<Rightarrow> nat" where
  "lock_rank InitMutex = 0"
| "lock_rank EpochMutex = 1"
| "lock_rank ConfigMutex = 2"
| "lock_rank AllocMutex = 3"

lemma lock_rank_less: "lock_rank l < 4"
  by (cases l) simp_all

definition agree :: "'s protocol \<Rightarrow> lock set \<Rightarrow> 's \<Rightarrow> 's \<Rightarrow> bool" where
  "agree P H s s' \<longleftrightarrow> (\<forall>l \<in> H. part P l s s')"

text \<open>
  \<open>safe P p H Q s\<close>: the program \<open>p\<close> of a thread that holds \<open>H\<close> and last saw \<open>s\<close> keeps the
  protocol and ends in \<open>Q\<close>. Before each step other threads may have changed everything that
  \<open>H\<close> does not guard.
\<close>

primrec safe ::
    "'s protocol \<Rightarrow> ('s, 'a) prog \<Rightarrow> lock set \<Rightarrow> (lock set \<Rightarrow> 'a \<Rightarrow> 's \<Rightarrow> bool) \<Rightarrow> 's \<Rightarrow> bool"
  where
  "safe P (Ret x) H Q s \<longleftrightarrow> Q H x s"
| "safe P Undefined H Q s \<longleftrightarrow> ub P"
| "safe P (Acquire l p) H Q s \<longleftrightarrow>
     (\<forall>h \<in> H. lock_rank h < lock_rank l) \<and>
     (\<forall>s'. agree P H s s' \<longrightarrow> linv P l s' \<longrightarrow> safe P p (insert l H) Q s')"
| "safe P (Release l p) H Q s \<longleftrightarrow> l \<in> H \<and> linv P l s \<and> safe P p (H - {l}) Q s"
| "safe P (Act u c) H Q s \<longleftrightarrow>
     (\<forall>s'. agree P H s s' \<longrightarrow> agree P (- H) s' (u s') \<and> safe P (c s') H Q (u s'))"

lemma safe_mono:
  "safe P p H Q s \<Longrightarrow> (\<And>H x s. Q H x s \<Longrightarrow> R H x s) \<Longrightarrow> safe P p H R s"
  by (induction p arbitrary: H s) auto

lemma safe_bind:
  "safe P p H (\<lambda>H' x s'. safe P (k x) H' Q s') s \<Longrightarrow> safe P (bindp p k) H Q s"
  by (induction p arbitrary: H s) auto

section \<open>Soundness\<close>

definition all_ended :: "lock set \<Rightarrow> 'a \<Rightarrow> 's \<Rightarrow> bool" where
  "all_ended H x s \<longleftrightarrow> H = {}"

text \<open>What every state of a run satisfies: \<open>Hs ! i\<close> are the mutexes thread \<open>i\<close> holds.\<close>

definition kept :: "'s protocol \<Rightarrow> ('s, 'a) world \<Rightarrow> lock set list \<Rightarrow> bool" where
  "kept P w Hs \<longleftrightarrow> length Hs = length (w_threads w) \<and>
     (\<forall>l i. w_owner w l = Some i \<longleftrightarrow> i < length Hs \<and> l \<in> Hs ! i) \<and>
     (\<forall>l. w_owner w l = None \<longrightarrow> linv P l (w_shared w)) \<and>
     (\<forall>i < length Hs. safe P (w_threads w ! i) (Hs ! i) all_ended (w_shared w))"

definition law_abiding :: "'s protocol \<Rightarrow> ('s, 'a) prog \<Rightarrow> bool" where
  "law_abiding P p \<longleftrightarrow> (\<forall>s. safe P p {} all_ended s)"

locale lock_protocol =
  fixes P :: "'s protocol"
  assumes part_refl: "part P l s s"
    and part_sym: "part P l s s' \<Longrightarrow> part P l s' s"
    and part_trans: "part P l s s' \<Longrightarrow> part P l s' s'' \<Longrightarrow> part P l s s''"
    and linv_part: "part P l s s' \<Longrightarrow> linv P l s \<Longrightarrow> linv P l s'"
begin

lemma agree_refl: "agree P H s s"
  by (simp add: agree_def part_refl)

lemma agree_trans: "agree P H s s' \<Longrightarrow> agree P H s' s'' \<Longrightarrow> agree P H s s''"
  by (auto simp: agree_def intro: part_trans)

lemma agree_sym: "agree P H s s' \<Longrightarrow> agree P H s' s"
  by (auto simp: agree_def intro: part_sym)

lemma agree_mono: "agree P H s s' \<Longrightarrow> G \<subseteq> H \<Longrightarrow> agree P G s s'"
  by (auto simp: agree_def)

text \<open>What other threads do in between does not matter.\<close>

lemma safe_interference:
  assumes "safe P p H Q s" and "agree P H s s'"
    and "\<And>G x s s'. Q G x s \<Longrightarrow> agree P G s s' \<Longrightarrow> Q G x s'"
  shows "safe P p H Q s'"
  using assms(1,2)
proof (induction p arbitrary: H s s')
  case (Ret x)
  then show ?case using assms(3) by simp
next
  case (Acquire l p)
  then show ?case using agree_trans [OF Acquire.prems(2)] by simp
next
  case (Release l p)
  have "safe P p (H - {l}) Q s'"
    using Release.prems by (intro Release.IH [of "H - {l}" s s']) (auto intro: agree_mono)
  moreover have "linv P l s'"
    using Release.prems linv_part [of l s s'] by (auto simp: agree_def)
  ultimately show ?case using Release.prems(1) by simp
next
  case (Act u c)
  then show ?case using agree_trans [OF Act.prems(2)] by simp
qed simp

lemma start_kept:
  assumes "\<And>p. p \<in> set ps \<Longrightarrow> law_abiding P p" and "\<And>l. linv P l s"
  shows "kept P (start s ps) (replicate (length ps) {})"
  using assms by (auto simp: kept_def start_def law_abiding_def)

lemma step_kept:
  assumes "kept P w Hs" and "wstep i w w'"
  shows "\<exists>Hs'. kept P w' Hs'"
proof -
  have len: "length Hs = length (w_threads w)"
    and own: "\<And>l i. w_owner w l = Some i \<longleftrightarrow> i < length Hs \<and> l \<in> Hs ! i"
    and free: "\<And>l. w_owner w l = None \<Longrightarrow> linv P l (w_shared w)"
    and safe: "\<And>i. i < length Hs \<Longrightarrow> safe P (w_threads w ! i) (Hs ! i) all_ended (w_shared w)"
    using assms(1) by (simp_all add: kept_def)
  from assms(2) show ?thesis
  proof cases
    case (w_lock l p)
    then have s: "safe P p (insert l (Hs ! i)) all_ended (w_shared w)"
      using safe [of i] free [of l] agree_refl len by simp
    have none: "l \<notin> Hs ! j" if "j < length Hs" for j
      using own [of l j] w_lock(4) that by auto
    have "kept P w' (Hs[i := insert l (Hs ! i)])"
      unfolding kept_def w_lock(1)
      using len w_lock(2) own free safe s none by (auto simp: nth_list_update)
    then show ?thesis ..
  next
    case (w_unlock l p)
    then have s: "linv P l (w_shared w)" "safe P p (Hs ! i - {l}) all_ended (w_shared w)"
      using safe [of i] len by simp_all
    have other: "l \<notin> Hs ! j" if "j < length Hs" "j \<noteq> i" for j
      using own [of l j] w_unlock(4) that by auto
    have "kept P w' (Hs[i := Hs ! i - {l}])"
      unfolding kept_def w_unlock(1)
      using len w_unlock(2) own free safe s other by (auto simp: nth_list_update)
    then show ?thesis ..
  next
    case (w_act u c)
    let ?s = "w_shared w"
    have s: "agree P (- (Hs ! i)) ?s (u ?s)" "safe P (c ?s) (Hs ! i) all_ended (u ?s)"
      using safe [of i] len w_act agree_refl by simp_all
    have stays: "safe P (w_threads w ! j) (Hs ! j) all_ended (u ?s)" if "j < length Hs" "j \<noteq> i" for j
    proof (rule safe_interference [OF safe [OF that(1)]])
      have "Hs ! j \<subseteq> - (Hs ! i)"
      proof
        fix l assume "l \<in> Hs ! j"
        then have "w_owner w l = Some j" using own that(1) by simp
        then show "l \<in> - (Hs ! i)" using own [of l i] that(2) w_act(2) len by auto
      qed
      with s(1) show "agree P (Hs ! j) ?s (u ?s)" by (rule agree_mono)
    qed (simp add: all_ended_def)
    have "linv P l (u ?s)" if "w_owner w l = None" for l
    proof (rule linv_part [OF _ free [OF that]])
      have "l \<notin> Hs ! i" using own [of l i] that w_act(2) len by auto
      with s(1) show "part P l ?s (u ?s)" by (simp add: agree_def)
    qed
    then have "kept P w' Hs"
      unfolding kept_def w_act(1)
      using len w_act(2) own s(2) stays by (auto simp: nth_list_update)
    then show ?thesis ..
  qed
qed

theorem runs_kept: "runs w w' \<Longrightarrow> kept P w Hs \<Longrightarrow> \<exists>Hs'. kept P w' Hs'"
  by (induction rule: runs.induct) (blast dest: step_kept)+

text \<open>A step changes what a mutex guards only if its thread holds the mutex.\<close>

lemma kept_guarded:
  assumes "kept P w Hs" and "wstep i w w'" and "\<not> part P l (w_shared w) (w_shared w')"
  shows "w_owner w l = Some i"
  using assms(2)
proof cases
  case (w_act u c)
  then have "agree P (- (Hs ! i)) (w_shared w) (w_shared w')"
    using assms(1) agree_refl by (auto simp: kept_def)
  with assms(1,3) w_act(2) show ?thesis by (auto simp: agree_def kept_def)
qed (use assms(3) part_refl in auto)

lemma kept_free: "kept P w Hs \<Longrightarrow> w_owner w l = None \<Longrightarrow> linv P l (w_shared w)"
  by (simp add: kept_def)

text \<open>Undefined behaviour is never reached unless it is tolerated.\<close>

lemma kept_defined: "kept P w Hs \<Longrightarrow> \<not> ub P \<Longrightarrow> Undefined \<notin> set (w_threads w)"
  by (fastforce simp: kept_def in_set_conv_nth)

text \<open>
  No deadlock: look at a thread that waits for a mutex of the highest rank anybody waits for;
  the owner waits for none of a higher rank, so it can move.
\<close>

lemma kept_progress:
  assumes "kept P w Hs" and "p \<in> set (w_threads w)" and "\<not> ended p"
    and "Undefined \<notin> set (w_threads w)"
  shows "\<exists>i w'. wstep i w w'"
proof (rule ccontr)
  assume stuck: "\<nexists>i w'. wstep i w w'"
  have len: "length Hs = length (w_threads w)"
    and own: "\<And>l i. w_owner w l = Some i \<longleftrightarrow> i < length Hs \<and> l \<in> Hs ! i"
    and safe: "\<And>i. i < length Hs \<Longrightarrow> safe P (w_threads w ! i) (Hs ! i) all_ended (w_shared w)"
    using assms(1) by (simp_all add: kept_def)
  have waits: "\<exists>l q j. w_threads w ! i = Acquire l q \<and> w_owner w l = Some j"
    if "i < length (w_threads w)" "\<not> ended (w_threads w ! i)" for i
  proof (cases "w_threads w ! i")
    case (Acquire l q)
    then show ?thesis using stuck w_lock [OF that(1) Acquire] by (cases "w_owner w l") auto
  next
    case (Release l q)
    then show ?thesis using stuck w_unlock [OF that(1) Release] safe [of i] own [of l i] len that(1) by auto
  next
    case (Act u c)
    then show ?thesis using stuck w_act [OF that(1) Act] by blast
  qed (use that(2) in auto)
  let ?W = "\<lambda>l. \<exists>i q. i < length (w_threads w) \<and> w_threads w ! i = Acquire l q"
  from assms(2,3) obtain i0 where "i0 < length (w_threads w)" "\<not> ended (w_threads w ! i0)"
    by (auto simp: in_set_conv_nth)
  with waits [of i0] obtain l0 where "?W l0" by blast
  from ex_has_greatest_nat [of ?W, OF this, of lock_rank 4] obtain l
    where l: "?W l" and top: "\<And>k. ?W k \<Longrightarrow> lock_rank k \<le> lock_rank l"
    by (auto simp: lock_rank_less)
  from l obtain i q where i: "i < length (w_threads w)" "w_threads w ! i = Acquire l q" by blast
  with waits [of i] obtain j where j: "w_owner w l = Some j" by auto
  then have hold: "j < length Hs" "l \<in> Hs ! j" using own by simp_all
  have "\<not> ended (w_threads w ! j)"
  proof (cases "w_threads w ! j")
    case (Ret x)
    then show ?thesis using safe [OF hold(1)] hold(2) by (simp add: all_ended_def)
  next
    case Undefined
    then show ?thesis using assms(4) hold(1) len nth_mem [of j "w_threads w"] by simp
  qed simp_all
  with waits [of j] hold len obtain k q' where k: "w_threads w ! j = Acquire k q'" by auto
  then have "lock_rank l < lock_rank k" using safe [OF hold(1)] hold(2) by auto
  moreover have "lock_rank k \<le> lock_rank l" using top [of k] k hold(1) len by auto
  ultimately show False by simp
qed

end

section \<open>Proof rules\<close>

text \<open>
  \<open>spec P H A p B\<close>: entered with the mutexes \<open>H\<close> in a state with \<open>A\<close>, the program keeps the
  protocol and returns with the same mutexes and \<open>B\<close>. \<open>A\<close> and \<open>B\<close> may speak only of what
  \<open>H\<close> guards (\<open>stable\<close>).
\<close>

definition spec ::
    "'s protocol \<Rightarrow> lock set \<Rightarrow> ('s \<Rightarrow> bool) \<Rightarrow> ('s, 'a) prog \<Rightarrow> ('a \<Rightarrow> 's \<Rightarrow> bool) \<Rightarrow> bool" where
  "spec P H A p B \<longleftrightarrow> (\<forall>s. A s \<longrightarrow> safe P p H (\<lambda>G x s'. G = H \<and> B x s') s)"

definition stable :: "'s protocol \<Rightarrow> lock set \<Rightarrow> ('s \<Rightarrow> bool) \<Rightarrow> bool" where
  "stable P H A \<longleftrightarrow> (\<forall>s s'. A s \<longrightarrow> agree P H s s' \<longrightarrow> A s')"

named_theorems stable_intros

lemma stable_True [stable_intros]: "stable P H (\<lambda>_. True)"
  by (simp add: stable_def)

lemma stable_conj [stable_intros]:
  "stable P H A \<Longrightarrow> stable P H B \<Longrightarrow> stable P H (\<lambda>s. A s \<and> B s)"
  unfolding stable_def by blast

lemma spec_conseq:
  assumes "spec P H A p B" and "\<And>s. A' s \<Longrightarrow> A s" and "\<And>x s. B x s \<Longrightarrow> B' x s"
  shows "spec P H A' p B'"
  unfolding spec_def
proof (intro allI impI)
  fix s assume "A' s"
  with assms(1,2) have "safe P p H (\<lambda>G x s'. G = H \<and> B x s') s" by (simp add: spec_def)
  then show "safe P p H (\<lambda>G x s'. G = H \<and> B' x s') s" by (rule safe_mono) (simp add: assms(3))
qed

lemma spec_ret: "(\<And>s. A s \<Longrightarrow> B x s) \<Longrightarrow> spec P H A (Ret x) B"
  by (simp add: spec_def)

lemma spec_undefined: "ub P \<Longrightarrow> spec P H A Undefined B"
  by (simp add: spec_def)

lemma spec_bind:
  assumes "spec P H A p M" and "\<And>x. spec P H (M x) (k x) B"
  shows "spec P H A (bindp p k) B"
  unfolding spec_def
proof (intro allI impI safe_bind)
  fix s assume "A s"
  with assms(1) have "safe P p H (\<lambda>G x s'. G = H \<and> M x s') s" by (simp add: spec_def)
  then show "safe P p H (\<lambda>H' x s'. safe P (k x) H' (\<lambda>G x s'. G = H \<and> B x s') s') s"
    by (rule safe_mono) (use assms(2) in \<open>simp add: spec_def\<close>)
qed

text \<open>One step: it may write what \<open>H\<close> guards and what nothing guards.\<close>

lemma spec_act:
  assumes "stable P H A"
    and "\<And>s. A s \<Longrightarrow> agree P (- H) s (snd (f s)) \<and> B (fst (f s)) (snd (f s))"
  shows "spec P H A (act f) B"
  using assms by (auto simp: spec_def act_def stable_def)

lemma spec_guard:
  assumes "stable P H A" and "\<forall>h \<in> H. lock_rank h < lock_rank l"
    and "spec P (insert l H) (\<lambda>s. A s \<and> linv P l s) p (\<lambda>x s. linv P l s \<and> B x s)"
  shows "spec P H A (guard l p) B"
proof -
  have l: "l \<notin> H" using assms(2) by auto
  have "safe P (bindp p (\<lambda>x. Release l (Ret x))) (insert l H) (\<lambda>G x s'. G = H \<and> B x s') s"
    if "A s" "linv P l s" for s
  proof (rule safe_bind)
    from assms(3) that have "safe P p (insert l H) (\<lambda>G x s'. G = insert l H \<and> linv P l s' \<and> B x s') s"
      by (simp add: spec_def)
    then show "safe P p (insert l H)
        (\<lambda>H' x s'. safe P (Release l (Ret x)) H' (\<lambda>G x s'. G = H \<and> B x s') s') s"
      by (rule safe_mono) (use l in auto)
  qed
  with assms(1,2) show ?thesis by (simp add: spec_def guard_def stable_def)
qed

lemma spec_law_abiding:
  assumes "spec P {} (\<lambda>_. True) p (\<lambda>_ _. True)"
  shows "law_abiding P p"
  unfolding law_abiding_def
proof
  fix s
  have "safe P p {} (\<lambda>G x s'. G = {} \<and> True) s" using assms by (simp add: spec_def)
  then show "safe P p {} all_ended s" by (rule safe_mono) (simp add: all_ended_def)
qed

end
