(* ===== verification/Haze_Threaded.thy ===== *)
theory Haze_Threaded
  imports Haze_Threads Haze_Mrp_Semantics
begin

text \<open>
  The operations of the library as thread programs: every \<open>HazeLockGuard\<close> and every call from
  one singleton into another at its place. Run without interference each program is the
  operation of the sequential model; that is proved beside each definition.
\<close>

type_synonym ('p, 'm, 'a) thread = "(('p, 'm) haze, 'a) prog"

section \<open>Access to the singletons\<close>

text \<open>\<open>Config\<close>'s getters and setters, \<open>DeviceAllocator\<close>'s methods and \<open>EpochState\<close>'s methods.\<close>

definition cfg_t :: "(config \<Rightarrow> 'a) \<Rightarrow> ('p, 'm, 'a) thread" where
  "cfg_t g = guard ConfigMutex (act (\<lambda>s. (g (hz_config s), s)))"

definition alloc_t :: "(allocator \<Rightarrow> 'a \<times> allocator) \<Rightarrow> ('p, 'm, 'a) thread" where
  "alloc_t f = guard AllocMutex
     (act (\<lambda>s. case f (hz_alloc s) of (r, al) \<Rightarrow> (r, upd_alloc (\<lambda>_. al) s)))"

definition epoch_t :: "('p epoch \<Rightarrow> 'a \<times> 'p epoch) \<Rightarrow> ('p, 'm, 'a) thread" where
  "epoch_t f = guard EpochMutex
     (act (\<lambda>s. case f (hz_epoch s) of (r, ep) \<Rightarrow> (r, upd_epoch (\<lambda>_. ep) s)))"

text \<open>The early return of an error.\<close>

definition bind_ok ::
    "('s, 'a expected) prog \<Rightarrow> ('a \<Rightarrow> ('s, 'b expected) prog) \<Rightarrow> ('s, 'b expected) prog" where
  "bind_ok p k = bindp p (\<lambda>r. case r of Inl e \<Rightarrow> Ret (Inl e) | Inr x \<Rightarrow> k x)"

lemma alone_cfg [simp]: "alone (cfg_t g) s = Some (g (hz_config s), s)"
  by (simp add: cfg_t_def)

lemma alone_alloc [simp]:
  "alone (alloc_t f) s = (case f (hz_alloc s) of (r, al) \<Rightarrow> Some (r, upd_alloc (\<lambda>_. al) s))"
  by (simp add: alloc_t_def split: prod.split)

lemma alone_epoch [simp]:
  "alone (epoch_t f) s = (case f (hz_epoch s) of (r, ep) \<Rightarrow> Some (r, upd_epoch (\<lambda>_. ep) s))"
  by (simp add: epoch_t_def split: prod.split)

lemma alone_bind_ok [simp]:
  "alone (bind_ok p k) s = (case alone p s of
     None \<Rightarrow> None | Some (Inl e, s1) \<Rightarrow> Some (Inl e, s1) | Some (Inr x, s1) \<Rightarrow> alone (k x) s1)"
  by (simp add: bind_ok_def split: option.split sum.split)

section \<open>Initialisation\<close>

text \<open>
  The double-checked lock of \<open>ensure_initialized\<close>: the flag is loaded without the mutex, and
  again with it; the configuration is read getter by getter.
\<close>

definition init_compiler_t :: "('p, 'm) fh_env \<Rightarrow> bool \<Rightarrow> bool \<Rightarrow> ('p, 'm, bool) thread" where
  "init_compiler_t E montgomery bit_reversal =
     bindp (cfg_t program_name) (\<lambda>name. bindp (cfg_t program_version) (\<lambda>version.
     bindp (cfg_t program_description) (\<lambda>description. bindp (cfg_t cfg_target) (\<lambda>target.
     bindp (act (fh_try E (map Compiler
       [CompilerInit ([name, ''--target='' @ target]
          @ (if montgomery then [''--montgomery''] else [])
          @ (if bit_reversal then [''--bit_reversal''] else [])
          @ [''--no-ring-dim-check'', ''--no-prime-check'']),
        SetProgramInfo name version description]))) (\<lambda>ok. if \<not> ok then Ret False else
     bindp (cfg_t has_program_directory) (\<lambda>has. 
     bindp (if has then bindp (cfg_t program_directory)
                          (\<lambda>dir. act (fh_try E [Compiler (SetProgramDirectory dir)]))
            else Ret True) (\<lambda>ok. if \<not> ok then Ret False else
     act (fh_try E [Compiler (SuppressProbes 1)]))))))))"

definition ensure_initialized_t :: "('p, 'm) fh_env \<Rightarrow> ('p, 'm, bool) thread" where
  "ensure_initialized_t E =
     bindp (act (\<lambda>s. (hz_backend_initialized s, s))) (\<lambda>ready. if ready then Ret True else
     guard InitMutex
       (bindp (act (\<lambda>s. (hz_backend_initialized s, s))) (\<lambda>ready. if ready then Ret True else
        bindp (cfg_t cf_montgomery) (\<lambda>montgomery. bindp (cfg_t cf_bit_reversal) (\<lambda>bit_reversal.
        bindp (if montgomery \<or> bit_reversal then cfg_t (\<lambda>c. cfg_target c = kLocalTarget)
               else Ret False) (\<lambda>refused. if refused then Ret False else
        bindp (init_compiler_t E montgomery bit_reversal) (\<lambda>ok. if \<not> ok then Ret False else
        act (\<lambda>s. (True, s\<lparr>hz_backend_initialized := True\<rparr>)))))))))"

lemma fh_try_append:
  "fh_try E (cs @ ds) s = (case fh_try E cs s of (ok, s1) \<Rightarrow> if ok then fh_try E ds s1 else (False, s1))"
  by (induction cs arbitrary: s) simp_all

lemma alone_init_compiler:
  assumes "m = cf_montgomery (hz_config s)" and "b = cf_bit_reversal (hz_config s)"
  shows "alone (init_compiler_t E m b) s = Some (fh_try E (init_calls (hz_config s)) s)"
proof -
  let ?c = "hz_config s"
  let ?first = "map Compiler [CompilerInit (init_argv ?c),
      SetProgramInfo (program_name ?c) (program_version ?c) (program_description ?c)]"
  obtain ok s1 where f: "fh_try E ?first s = (ok, s1)" by (rule prod.exhaust)
  have c1: "hz_config s1 = ?c" using fh_try_frame(1) [of E ?first s] unfolding f by simp
  have calls: "init_calls ?c = ?first @ ((if has_program_directory ?c
      then [Compiler (SetProgramDirectory (program_directory ?c))] else []) @ [Compiler (SuppressProbes 1)])"
    by (simp add: init_calls_def)
  have "fh_try E (init_calls ?c) s = (if ok then fh_try E ((if has_program_directory ?c
      then [Compiler (SetProgramDirectory (program_directory ?c))] else []) @ [Compiler (SuppressProbes 1)]) s1
    else (False, s1))"
    unfolding calls fh_try_append f by simp
  then show ?thesis
    using f c1 assms
    by (simp add: init_compiler_t_def init_argv_def fh_try_append del: list.map fh_try.simps(2)
        split: prod.split)
qed

lemma alone_ensure_initialized [simp]:
  "alone (ensure_initialized_t E) s = Some (ensure_initialized E s)"
proof -
  obtain ok s1 where "fh_try E (init_calls (hz_config s)) s = (ok, s1)" by (rule prod.exhaust)
  then show ?thesis
    by (cases ok) (simp_all add: ensure_initialized_t_def ensure_initialized_def Let_def alone_init_compiler)
qed

text \<open>\<open>EpochSession\<close>: initialise, take the epoch mutex, start the recording.\<close>

definition session_t :: "('p, 'm) fh_env \<Rightarrow> ('p, 'm, 'a) thread \<Rightarrow> ('p, 'm, 'a) thread" where
  "session_t E body = bindp (ensure_initialized_t E) (\<lambda>_. guard EpochMutex
     (bindp (act (\<lambda>s. ((), ensure_recording_locked s))) (\<lambda>_. body)))"

lemma alone_session [simp]: "alone (session_t E body) s = alone body (open_session E s)"
  by (simp add: session_t_def open_session_def split: prod.split)

section \<open>Sessions of the core\<close>

text \<open>
  \<open>lookup_or_create_locked\<close> and \<open>tag_h2d_input_locked\<close> read the configuration and call the
  allocator while the epoch mutex is held; other threads may change the ring dimension or the
  shadows in between.
\<close>

definition lookup_or_create_t ::
    "('p, 'm) fh_env \<Rightarrow> DevAddr \<Rightarrow> ('p, 'm, 'p expected) thread" where
  "lookup_or_create_t E addr =
     bindp (act (\<lambda>s. (poly_map (hz_epoch s) addr, s))) (\<lambda>bound. case bound of
       Some p \<Rightarrow> Ret (Inr p)
     | None \<Rightarrow>
         bindp (cfg_t cfg_ring_dim) (\<lambda>ring_dim.
         bindp (alloc_t (extract_polynomial_components addr ring_dim)) (\<lambda>r. case r of
           Inl e \<Rightarrow> Ret (if e = NoData then Inl SourceUnavailable else Inl e)
         | Inr components \<Rightarrow> act (\<lambda>s.
             let (poly, s2) = fh_poly E (FromData components ring_dim Evaluation) s;
                 name = ''haze_in_'' @ to_string (unat (input_counter (hz_epoch s2)));
                 s3 = upd_epoch (\<lambda>ep. ep\<lparr>input_counter := input_counter ep + 1\<rparr>) s2;
                 s4 = fh_emit (Tag (TagInput name poly)) s3
             in (Inr poly, upd_epoch (\<lambda>ep. ep\<lparr>poly_map := (poly_map ep)(addr \<mapsto> poly),
                   input_addrs := insert addr (input_addrs ep)\<rparr>) s4)))))"

definition tag_h2d_locked_t ::
    "('p, 'm) fh_env \<Rightarrow> DevAddr \<Rightarrow> ('p, 'm, unit expected) thread" where
  "tag_h2d_locked_t E addr =
     bindp (cfg_t cfg_ring_dim) (\<lambda>ring_dim.
       if ring_dim = 0 then Ret (Inl NotConfigured)
       else bind_ok (alloc_t (\<lambda>al. (read_polynomial_components addr ring_dim al, al)))
         (\<lambda>components. act (\<lambda>s.
            let (poly, s1) = fh_poly E (FromData components ring_dim Evaluation) s;
                name = ''haze_in_'' @ to_string (unat (input_counter (hz_epoch s1)));
                s2 = upd_epoch (\<lambda>ep. ep\<lparr>input_counter := input_counter ep + 1\<rparr>) s1;
                s3 = fh_emit (Tag (TagInput name poly)) s2
            in (Inr (), upd_epoch (\<lambda>ep. ep\<lparr>poly_map := (poly_map ep)(addr \<mapsto> poly),
                  pending_outputs := al_erase addr (pending_outputs ep),
                  input_addrs := insert addr (input_addrs ep)\<rparr>) s3))))"

definition copy_result_t ::
    "('p, 'm) fh_env \<Rightarrow> DevAddr \<Rightarrow> DevAddr \<Rightarrow> u64 \<Rightarrow> ('p, 'm, unit expected) thread" where
  "copy_result_t E dst src modulus =
     bind_ok (lookup_or_create_t E src) (\<lambda>src_poly. act (\<lambda>s1.
       let q = (if modulus = kCopyModulus then recorded_modulus_locked src (hz_epoch s1)
                else modulus);
           (cpy, s2) = fh_poly E (SrPS SrAddps src_poly 0 kCopyModulus) s1;
           s3 = (if q \<noteq> kCopyModulus then
                   upd_epoch (\<lambda>ep. ep\<lparr>addr_modulus := (addr_modulus ep)(src \<mapsto> q)\<rparr>)
                     (fh_emit (BindModulus cpy q) (fh_emit (BindModulus src_poly q) s2))
                 else s2)
       in (Inr (), upd_epoch (store_compute_result_locked dst cpy q) s3)))"

lemma alone_lookup [simp]:
  "alone (lookup_or_create_t E a) s = Some (lookup_or_create_locked E a s)"
proof (cases "poly_map (hz_epoch s) a")
  case None
  obtain r al where x: "extract_polynomial_components a (cfg_ring_dim (hz_config s)) (hz_alloc s) = (r, al)"
    by (rule prod.exhaust)
  show ?thesis
    by (cases r) (simp_all add: lookup_or_create_t_def lookup_or_create_locked_def None x fh_poly_def Let_def)
qed (simp add: lookup_or_create_t_def lookup_or_create_locked_def)

lemma upd_alloc_same [simp]: "upd_alloc (\<lambda>_. hz_alloc s) s = s"
  by (simp add: upd_alloc_def)

lemma alone_tag_h2d [simp]: "alone (tag_h2d_locked_t E a) s = Some (tag_h2d_input_locked E a s)"
  by (simp add: tag_h2d_locked_t_def tag_h2d_input_locked_def fh_poly_def Let_def split: sum.split)

lemma alone_copy_result [simp]:
  "alone (copy_result_t E d a q) s = Some (copy_result_locked E d a q s)"
  by (simp add: copy_result_t_def copy_result_locked_def fh_poly_def Let_def split: sum.split prod.split)

section \<open>Compute\<close>

definition binary_pp_t ::
    "('p, 'm) fh_env \<Rightarrow> sr_pp \<Rightarrow> DevAddr \<Rightarrow> DevAddr \<Rightarrow> DevAddr \<Rightarrow> int \<Rightarrow>
     ('p, 'm, unit expected) thread" where
  "binary_pp_t E OpFn dst src1 src2 mod_idx = session_t E
     (bindp (cfg_t (cfg_modulus mod_idx)) (\<lambda>q.
        if q = 0 then Ret (Inl InvalidArgument)
        else bind_ok (lookup_or_create_t E src1) (\<lambda>p1.
             bind_ok (lookup_or_create_t E src2) (\<lambda>p2. act (\<lambda>s.
               case fh_poly E (SrPP OpFn p1 p2 q) s of
                 (p, s3) \<Rightarrow> (Inr (), upd_epoch (store_compute_result_locked dst p q) s3))))))"

definition binary_ps_t ::
    "('p, 'm) fh_env \<Rightarrow> sr_ps \<Rightarrow> DevAddr \<Rightarrow> DevAddr \<Rightarrow> u64 \<Rightarrow> int \<Rightarrow>
     ('p, 'm, unit expected) thread" where
  "binary_ps_t E OpFn dst src scalar mod_idx = session_t E
     (bindp (cfg_t (cfg_modulus mod_idx)) (\<lambda>q.
        if q = 0 then Ret (Inl InvalidArgument)
        else bind_ok (lookup_or_create_t E src) (\<lambda>p. act (\<lambda>s.
               case fh_poly E (SrPS OpFn p scalar q) s of
                 (r, s2) \<Rightarrow> (Inr (), upd_epoch (store_compute_result_locked dst r q) s2)))))"

definition unary_pq_t ::
    "('p, 'm) fh_env \<Rightarrow> sr_pq \<Rightarrow> DevAddr \<Rightarrow> DevAddr \<Rightarrow> int \<Rightarrow> ('p, 'm, unit expected) thread"
  where
  "unary_pq_t E OpFn dst src mod_idx = session_t E
     (bindp (cfg_t (cfg_modulus mod_idx)) (\<lambda>q.
        if q = 0 then Ret (Inl InvalidArgument)
        else bind_ok (lookup_or_create_t E src) (\<lambda>p. act (\<lambda>s.
               case fh_poly E (SrPQ OpFn p q) s of
                 (r, s2) \<Rightarrow> (Inr (), upd_epoch (store_compute_result_locked dst r q) s2)))))"

definition unary_pi_t ::
    "('p, 'm) fh_env \<Rightarrow> DevAddr \<Rightarrow> DevAddr \<Rightarrow> u64 \<Rightarrow> ('p, 'm, unit expected) thread" where
  "unary_pi_t E dst src index = session_t E
     (bind_ok (lookup_or_create_t E src) (\<lambda>p. act (\<lambda>s1.
        let q = recorded_modulus_locked src (hz_epoch s1);
            (result, s2) = fh_poly E (SrAutomorphEval p index) s1;
            s3 = (if q \<noteq> kCopyModulus
                  then fh_emit (BindModulus result q) (fh_emit (BindModulus p q) s2) else s2)
        in (Inr (), upd_epoch (store_compute_result_locked dst result q) s3))))"

lemma alone_single [simp]:
  "alone (binary_pp_t E f1 d a b i) s = Some (binary_pp_op E f1 d a b i s)"
  "alone (binary_ps_t E f2 d a x i) s = Some (binary_ps_op E f2 d a x i s)"
  "alone (unary_pq_t E f3 d a i) s = Some (unary_pq_op E f3 d a i s)"
  "alone (unary_pi_t E d a k) s = Some (unary_pi_op E d a k s)"
  by (simp_all add: binary_pp_t_def binary_pp_op_def binary_ps_t_def binary_ps_op_def unary_pq_t_def
      unary_pq_op_def unary_pi_t_def unary_pi_op_def fh_poly_def Let_def split: sum.split prod.split)

section \<open>Multi-residue operations\<close>

fun build_pairs_t ::
    "('p, 'm) fh_env \<Rightarrow> (hostptr \<times> u64) list \<Rightarrow> ('p, 'm, ('p \<times> u64) list expected) thread" where
  "build_pairs_t E [] = Ret (Inr [])"
| "build_pairs_t E ((ptr, q) # rest) =
     bind_ok (lookup_or_create_t E (to_dev_addr ptr)) (\<lambda>poly.
     bind_ok (build_pairs_t E rest) (\<lambda>pairs. Ret (Inr ((poly, q) # pairs))))"

definition build_mrp_t ::
    "('p, 'm) fh_env \<Rightarrow> hostptr list \<Rightarrow> u64 list \<Rightarrow> ('p, 'm, 'm expected) thread" where
  "build_mrp_t E polys base =
     bind_ok (build_pairs_t E (zip polys base)) (\<lambda>pairs. act (\<lambda>s1.
       let mrp = mrp_from_pairs E pairs; front = to_dev_addr (hd polys) in
       (Inr mrp,
        if length base > 1 \<and> is_input_locked front (hz_epoch s1) then
          (case mrp_group_name_locked False front (hz_epoch s1) of
             (group_name, ep) \<Rightarrow> tag_mrp_input_if_new_locked group_name mrp (upd_epoch (\<lambda>_. ep) s1))
        else s1)))"

text \<open>\<open>store_mrp_locked\<close> takes no further mutex: the call and the store are one step.\<close>

definition mr_store_t ::
    "('p, 'm) fh_env \<Rightarrow> ('p, 'm) fh_call \<Rightarrow> hostptr list \<Rightarrow> ('m \<Rightarrow> u64 list) \<Rightarrow>
     ('p, 'm, unit expected) thread" where
  "mr_store_t E call dst base = act (\<lambda>s. case fh_mrp E call s of
     (result, s1) \<Rightarrow> store_mrp_locked E dst result (base result) s1)"

definition binary_pp_mrp_t ::
    "('p, 'm) fh_env \<Rightarrow> mr_pp \<Rightarrow> hostptr list \<Rightarrow> hostptr list \<Rightarrow> hostptr list \<Rightarrow> u64 list \<Rightarrow>
     ('p, 'm, unit expected) thread" where
  "binary_pp_mrp_t E OpFn dst src1 src2 base = session_t E
     (bind_ok (build_mrp_t E src1 base) (\<lambda>m1. bind_ok (build_mrp_t E src2 base) (\<lambda>m2.
        mr_store_t E (MrPP OpFn m1 m2) dst (\<lambda>_. base))))"

definition binary_ps_mrp_t ::
    "('p, 'm) fh_env \<Rightarrow> mr_ps \<Rightarrow> hostptr list \<Rightarrow> hostptr list \<Rightarrow> u64 list \<Rightarrow> u64 list \<Rightarrow>
     ('p, 'm, unit expected) thread" where
  "binary_ps_mrp_t E OpFn dst src scalars base = session_t E
     (bind_ok (build_mrp_t E src base) (\<lambda>m.
        mr_store_t E (MrPS OpFn m (build_mrs scalars base)) dst (\<lambda>_. base)))"

definition unary_p_mrp_t ::
    "('p, 'm) fh_env \<Rightarrow> mr_p \<Rightarrow> hostptr list \<Rightarrow> hostptr list \<Rightarrow> u64 list \<Rightarrow>
     ('p, 'm, unit expected) thread" where
  "unary_p_mrp_t E OpFn dst src base = session_t E
     (bind_ok (build_mrp_t E src base) (\<lambda>m. mr_store_t E (MrP OpFn m) dst (\<lambda>_. base)))"

definition unary_pi_mrp_t ::
    "('p, 'm) fh_env \<Rightarrow> mr_pi \<Rightarrow> hostptr list \<Rightarrow> hostptr list \<Rightarrow> u64 \<Rightarrow> u64 list \<Rightarrow>
     ('p, 'm, unit expected) thread" where
  "unary_pi_mrp_t E OpFn dst src index base = session_t E
     (bind_ok (build_mrp_t E src base) (\<lambda>m. mr_store_t E (MrPI OpFn m index) dst (\<lambda>_. base)))"

lemma alone_build_pairs [simp]: "alone (build_pairs_t E ps) s = Some (build_pairs E ps s)"
  by (induction ps arbitrary: s) (auto split: sum.split prod.split)

lemma alone_build_mrp [simp]: "alone (build_mrp_t E ps base) s = Some (build_mrp_locked E ps base s)"
  by (auto simp: build_mrp_t_def build_mrp_locked_def Let_def split: sum.split prod.split)

lemma alone_mr_store [simp]:
  "alone (mr_store_t E c dst base) s = (case fh_mrp E c s of
     (result, s1) \<Rightarrow> Some (store_mrp_locked E dst result (base result) s1))"
  by (simp add: mr_store_t_def split: prod.split)

lemma alone_groups [simp]:
  "alone (binary_pp_mrp_t E f1 d a b base) s = Some (binary_pp_op_mrp E f1 d a b base s)"
  "alone (binary_ps_mrp_t E f2 d a ss base) s = Some (binary_ps_op_mrp E f2 d a ss base s)"
  "alone (unary_p_mrp_t E f3 d a base) s = Some (unary_p_op_mrp E f3 d a base s)"
  "alone (unary_pi_mrp_t E f4 d a k base) s = Some (unary_pi_op_mrp E f4 d a k base s)"
  by (simp_all add: binary_pp_mrp_t_def binary_pp_op_mrp_def binary_ps_mrp_t_def
      binary_ps_op_mrp_def unary_p_mrp_t_def unary_p_op_mrp_def unary_pi_mrp_t_def
      unary_pi_op_mrp_def split: sum.split prod.split)

section \<open>Basis conversion\<close>

text \<open>\<open>fbc_variant()\<close> and \<open>fbc_center_shape()\<close> read the configuration at each use.\<close>

definition fbc_options_t :: "('p, 'm, FbcVariant \<times> FbcCenterShape) thread" where
  "fbc_options_t = bindp (cfg_t fbc_variant) (\<lambda>v. bindp (cfg_t fbc_center_shape) (\<lambda>sh. Ret (v, sh)))"

definition basis_convert_t ::
    "('p, 'm) fh_env \<Rightarrow> hostptr list \<Rightarrow> hostptr list \<Rightarrow> hazeBasisConvertParams \<Rightarrow>
     ('p, 'm, unit expected) thread" where
  "basis_convert_t E dst src p = (case validate_basis_convert p of
     Inl e \<Rightarrow> Ret (Inl e)
   | Inr _ \<Rightarrow> session_t E
       (bind_ok (build_mrp_t E src (base_of (bc_src_base p) (bc_src_base_len p))) (\<lambda>src_mrp.
          let target_base = base_of (bc_dst_base p) (bc_dst_base_len p) in
          bindp fbc_options_t (\<lambda>(v, sh).
            mr_store_t E (FastBaseConvert src_mrp target_base v sh) dst (\<lambda>_. target_base)))))"

definition mod_down_t ::
    "('p, 'm) fh_env \<Rightarrow> hostptr list \<Rightarrow> hostptr list \<Rightarrow> hazeModDownParams \<Rightarrow>
     ('p, 'm, unit expected) thread" where
  "mod_down_t E dst src p = (case validate_mod_down p of
     Inl e \<Rightarrow> Ret (Inl e)
   | Inr _ \<Rightarrow> session_t E
       (bind_ok (build_mrp_t E src (base_of (md_src_base p) (md_src_base_len p))) (\<lambda>src_mrp.
          bindp fbc_options_t (\<lambda>(v, sh).
            mr_store_t E (RescaleFbc src_mrp (base_of (md_rescale_base p) (md_rescale_base_len p)) v sh)
              dst (mrp_base E)))))"

fun mod_up_digits_t ::
    "('p, 'm) fh_env \<Rightarrow> hostptr list \<Rightarrow> 'm \<Rightarrow> u64 list \<Rightarrow> nat \<Rightarrow> u64 list list \<Rightarrow>
     ('p, 'm, unit expected) thread" where
  "mod_up_digits_t E dst x target_base d [] = Ret (Inr ())"
| "mod_up_digits_t E dst x target_base d (digit_base # rest) =
     bindp (act (fh_mrp E (MrSubset x digit_base))) (\<lambda>sub. bindp fbc_options_t (\<lambda>(v, sh).
     bind_ok (act (\<lambda>s. case fh_mrp E (FastBaseConvert sub target_base v sh) s of
         (digit, s1) \<Rightarrow> let d_base = mrp_base E digit
           in store_mrp_locked E (drop (d * length d_base) dst) digit d_base s1))
       (\<lambda>_. mod_up_digits_t E dst x target_base (Suc d) rest)))"

definition mod_up_t ::
    "('p, 'm) fh_env \<Rightarrow> hostptr list \<Rightarrow> hostptr list \<Rightarrow> hazeModUpParams \<Rightarrow>
     ('p, 'm, unit expected) thread" where
  "mod_up_t E dst src p = (case validate_mod_up p of
     Inl e \<Rightarrow> Ret (Inl e)
   | Inr _ \<Rightarrow> session_t E
       (bind_ok (build_mrp_t E src (base_of (mu_src_base p) (mu_src_base_len p))) (\<lambda>x.
          case slice_digits (base_of (mu_digit_bases p) (mu_digit_bases_total_len p)) 0
                 (base_of (mu_digit_base_lens p) (mu_digit_count p)) of
            None \<Rightarrow> Undefined
          | Some digit_bases \<Rightarrow>
              let target_base = mrp_base E x @ base_of (mu_p_base p) (mu_p_base_len p)
              in mod_up_digits_t E dst x target_base 0 digit_bases)))"

lemma alone_fbc_options [simp]:
  "alone fbc_options_t s = Some ((fbc_variant (hz_config s), fbc_center_shape (hz_config s)), s)"
  by (simp add: fbc_options_t_def)

lemma alone_mod_up_digits [simp]:
  "alone (mod_up_digits_t E ds x tb d dbs) s = Some (mod_up_digits E ds x tb d dbs s)"
proof (induction dbs arbitrary: d s)
  case (Cons db dbs)
  then show ?case by (simp add: fh_mrp_def Let_def split: sum.split prod.split)
qed simp

lemma alone_conversions [simp]:
  "alone (basis_convert_t E d a p1) s = Some (basis_convert E d a p1 s)"
  "alone (mod_down_t E d a p2) s = Some (mod_down E d a p2 s)"
  "alone (mod_up_t E d a p3) s = mod_up E d a p3 s"
  by (simp_all add: basis_convert_t_def basis_convert_def mod_down_t_def mod_down_def mod_up_t_def
      mod_up_def Let_def split: sum.split prod.split option.split)

end
