(* ===== verification/Haze_Threaded_Api.thy ===== *)
theory Haze_Threaded_Api
  imports Haze_Threaded Haze_Client Haze_Simulator
begin

text \<open>
  The rest of the library's operations as thread programs: transfers, finalisation, memory,
  configuration and reset, with the calls a client thread can make. The mapping of results to
  codes and the thread-local last error stay outside: no other thread sees them. Checks of the
  arguments alone may run inside a critical section here and before it in the code.
\<close>

section \<open>Transfers\<close>

definition act_partial :: "('s \<Rightarrow> ('a \<times> 's) option) \<Rightarrow> ('s, 'a) prog" where
  "act_partial f = Act (\<lambda>s. case f s of None \<Rightarrow> s | Some (x, s1) \<Rightarrow> s1)
     (\<lambda>s. case f s of None \<Rightarrow> Undefined | Some (x, s1) \<Rightarrow> Ret x)"

lemma alone_act_partial [simp]: "alone (act_partial f) s = f s"
  by (simp add: act_partial_def split: option.split)

definition h2d_t :: "DevAddr \<Rightarrow> hostptr \<Rightarrow> u64 \<Rightarrow> ('p, 'm, unit expected) thread" where
  "h2d_t dst src nbytes = guard AllocMutex (act (\<lambda>s.
     case copy_h2d (hz_host s) dst src nbytes (hz_alloc s) of (r, al) \<Rightarrow> (r, upd_alloc (\<lambda>_. al) s)))"

definition d2h_t :: "hostptr \<Rightarrow> DevAddr \<Rightarrow> u64 \<Rightarrow> ('p, 'm, unit expected) thread" where
  "d2h_t dst src nbytes = guard AllocMutex (act_partial (copy_to_host_entry dst src nbytes))"

text \<open>The upload writes the shadow, then opens a session and tags: three critical sections.\<close>

definition upload_t ::
    "('p, 'm) fh_env \<Rightarrow> DevAddr \<Rightarrow> hostptr \<Rightarrow> u64 \<Rightarrow> ('p, 'm, unit expected) thread" where
  "upload_t E dst src nbytes =
     bind_ok (h2d_t dst src nbytes) (\<lambda>_. session_t E (tag_h2d_locked_t E dst))"

fun h2d_writes_t ::
    "(hostptr \<times> hostptr) list \<Rightarrow> u64 \<Rightarrow> ('p, 'm, unit expected) thread" where
  "h2d_writes_t [] nbytes = Ret (Inr ())"
| "h2d_writes_t ((d, h) # rest) nbytes =
     bind_ok (h2d_t (to_dev_addr d) h nbytes) (\<lambda>_. h2d_writes_t rest nbytes)"

fun h2d_tags_t ::
    "('p, 'm) fh_env \<Rightarrow> hostptr list \<Rightarrow> ('p, 'm, unit expected) thread" where
  "h2d_tags_t E [] = Ret (Inr ())"
| "h2d_tags_t E (d # rest) = bind_ok (tag_h2d_locked_t E (to_dev_addr d)) (\<lambda>_. h2d_tags_t E rest)"

definition upload_mrp_t ::
    "('p, 'm) fh_env \<Rightarrow> hostptr list \<Rightarrow> hostptr list \<Rightarrow> u64 \<Rightarrow> ('p, 'm, unit expected) thread" where
  "upload_mrp_t E dst src nbytes =
     bind_ok (h2d_writes_t (zip dst src) nbytes) (\<lambda>_. session_t E (h2d_tags_t E dst))"

fun download_mrp_t ::
    "(hostptr \<times> hostptr) list \<Rightarrow> u64 \<Rightarrow> ('p, 'm, unit expected) thread" where
  "download_mrp_t [] nbytes = Ret (Inr ())"
| "download_mrp_t ((h, d) # rest) nbytes =
     bind_ok (d2h_t h (to_dev_addr d) nbytes) (\<lambda>_. download_mrp_t rest nbytes)"

definition copy_t ::
    "('p, 'm) fh_env \<Rightarrow> DevAddr \<Rightarrow> DevAddr \<Rightarrow> ('p, 'm, unit expected) thread" where
  "copy_t E dst src = session_t E (copy_result_t E dst src kCopyModulus)"

fun copy_residues_t ::
    "('p, 'm) fh_env \<Rightarrow> (hostptr \<times> hostptr \<times> u64) list \<Rightarrow> ('p, 'm, unit expected) thread" where
  "copy_residues_t E [] = Ret (Inr ())"
| "copy_residues_t E ((d, h, q) # rest) =
     bind_ok (copy_result_t E (to_dev_addr d) (to_dev_addr h) q) (\<lambda>_. copy_residues_t E rest)"

definition copy_mrp_t ::
    "('p, 'm) fh_env \<Rightarrow> hostptr list \<Rightarrow> hostptr list \<Rightarrow> u64 list \<Rightarrow>
     ('p, 'm, unit expected) thread" where
  "copy_mrp_t E dst src base = session_t E
     (bind_ok (copy_residues_t E (zip dst (zip src base))) (\<lambda>_.
        act (register_outputs (map (\<lambda>(d, _). to_dev_addr d) (zip dst (zip src base))) base)))"

definition memset_t :: "DevAddr \<Rightarrow> int \<Rightarrow> u64 \<Rightarrow> ('p, 'm, unit expected) thread" where
  "memset_t dev value nbytes = bind_ok (alloc_t (alloc_memset dev value nbytes))
     (\<lambda>_. epoch_t (\<lambda>ep. (Inr (), invalidate dev ep)))"

lemma alone_h2d [simp]:
  "alone (h2d_t d h n) s = (case copy_h2d (hz_host s) d h n (hz_alloc s) of
     (r, al) \<Rightarrow> Some (r, upd_alloc (\<lambda>_. al) s))"
  by (simp add: h2d_t_def split: prod.split)

lemma alone_d2h [simp]: "alone (d2h_t h d n) s = copy_to_host_entry h d n s"
  by (simp add: d2h_t_def)

lemma alone_h2d_writes [simp]: "alone (h2d_writes_t ps n) s = Some (h2d_writes ps n s)"
  by (induction ps arbitrary: s) (auto split: sum.split prod.split)

lemma alone_h2d_tags [simp]: "alone (h2d_tags_t E ds) s = Some (h2d_tags E ds s)"
  by (induction ds arbitrary: s) (auto split: sum.split prod.split)

lemma alone_upload_mrp [simp]: "alone (upload_mrp_t E ds hs n) s = Some (copy_h2d_mrp E ds hs n s)"
  by (simp add: upload_mrp_t_def copy_h2d_mrp_def split: sum.split prod.split)

lemma alone_download_mrp [simp]: "alone (download_mrp_t ps n) s = copy_to_host_mrp ps n s"
  by (induction ps arbitrary: s) (auto split: sum.split prod.split option.split)

lemma alone_copy_residues [simp]: "alone (copy_residues_t E ps) s = Some (copy_residues E ps s)"
  by (induction ps arbitrary: s) (auto split: sum.split prod.split)

lemma alone_copies [simp]:
  "alone (copy_t E d a) s = Some (copy_device_to_device E d a n s)"
  "alone (copy_mrp_t E ds as base) s = Some (copy_device_to_device_mrp E ds as base s)"
  by (simp_all add: copy_t_def copy_device_to_device_def copy_mrp_t_def copy_device_to_device_mrp_def
      split: sum.split prod.split)

section \<open>Finalising an epoch\<close>

text \<open>From the entry of \<open>finalize_locked\<close> to the population loop, which calls the allocator.\<close>

definition finalize_front ::
    "('p, 'm) fh_env \<Rightarrow> bool \<Rightarrow> ('p, 'm) haze \<Rightarrow>
     (unit expected + (DevAddr \<times> string) list) \<times> ('p, 'm) haze" where
  "finalize_front E run_replay s =
     (if \<not> recording (hz_epoch s) then (Inl (Inr ()), s)
      else if pending_outputs (hz_epoch s) = [] \<and> pending_mrp_groups (hz_epoch s) = []
      then (Inl (Inr ()), clear_state_locked s)
      else case tag_pending_outputs_locked E s of
        (Inl e, s1) \<Rightarrow> (Inl (Inl e), s1)
      | (Inr _, s1) \<Rightarrow>
        if \<not> recording (hz_epoch s1) then (Inl (Inr ()), s1)
        else case stop_epoch E s1 of
          (False, s2) \<Rightarrow> (Inl (Inl BackendReplayFailed), clear_state_locked s2)
        | (True, s2) \<Rightarrow>
          (case hazeReplayBridgeTakeHookHadError s2 of
             (True, s3) \<Rightarrow> (Inl (Inl BridgeHookFailed), clear_state_locked s3)
           | (False, s3) \<Rightarrow>
               if \<not> run_replay then (Inl (Inr ()), clear_state_locked s3)
               else
                 (case backend_replay E s3 of
                    (False, s4) \<Rightarrow> (Inl (Inl BackendReplayFailed), clear_state_locked s4)
                  | (True, s4) \<Rightarrow> (Inr (pending_outputs (hz_epoch s4)), s4))))"

fun populate_t ::
    "('p, 'm) fh_env \<Rightarrow> (DevAddr \<times> string) list \<Rightarrow> ('p, 'm, unit expected) thread" where
  "populate_t E [] = Ret (Inr ())"
| "populate_t E ((addr, name) # outs) =
     bind_ok (act (\<lambda>s. case fhetch_result E name s of
         (None, s1) \<Rightarrow> (Inl BackendOutputMissing, s1)
       | (Some result_poly, s1) \<Rightarrow>
           (case extract_polynomial_values E result_poly s1 of
              None \<Rightarrow> (Inl BackendOutputDecodeFailed, s1)
            | Some values \<Rightarrow> (Inr values, s1))))
       (\<lambda>values. bind_ok (alloc_t (update_shadow addr values)) (\<lambda>_. populate_t E outs))"

definition finalize_t :: "('p, 'm) fh_env \<Rightarrow> bool \<Rightarrow> ('p, 'm, unit expected) thread" where
  "finalize_t E run_replay = guard EpochMutex
     (bindp (act (finalize_front E run_replay)) (\<lambda>r. case r of
        Inl result \<Rightarrow> Ret result
      | Inr outs \<Rightarrow> bindp (populate_t E outs) (\<lambda>result.
          bindp (act (\<lambda>s. ((), clear_state_locked s))) (\<lambda>_. Ret result))))"

definition flush_t :: "('p, 'm) fh_env \<Rightarrow> ('p, 'm, unit expected) thread" where
  "flush_t E =
     bindp (cfg_t cf_montgomery) (\<lambda>montgomery.
     bindp (if montgomery then Ret True else cfg_t cf_bit_reversal) (\<lambda>special.
     bindp (if special then cfg_t (\<lambda>c. cfg_target c = kLocalTarget) else Ret False) (\<lambda>refused.
       if refused then Ret (Inl UnsupportedDataFormat) else finalize_t E True)))"

lemma alone_populate [simp]: "alone (populate_t E outs) s = Some (populate_shadows E outs s)"
  by (induction outs arbitrary: s) (auto split: sum.split prod.split option.split)

lemma alone_finalize [simp]: "alone (finalize_t E b) s = Some (finalize_locked E b s)"
  by (simp add: finalize_t_def finalize_front_def finalize_locked_def do_materialize_locked_def
      split: sum.split prod.split bool.split)

lemma alone_flush [simp]: "alone (flush_t E) s = Some (flush E s)"
  by (simp add: flush_t_def flush_def replay_and_populate_def Let_def)

section \<open>Memory and configuration\<close>

definition free_t :: "hostptr \<Rightarrow> ('p, 'm, unit expected) thread" where
  "free_t ptr =
     bindp (if ptr \<noteq> 0 then epoch_t (\<lambda>ep. ((), invalidate (to_dev_addr ptr) ep)) else Ret ())
       (\<lambda>_. alloc_t (alloc_free (to_dev_addr ptr)))"

fun invalidates_t :: "hostptr list \<Rightarrow> ('p, 'm, unit) thread" where
  "invalidates_t [] = Ret ()"
| "invalidates_t (p # ps) =
     bindp (if p \<noteq> 0 then epoch_t (\<lambda>ep. ((), invalidate (to_dev_addr p) ep)) else Ret ())
       (\<lambda>_. invalidates_t ps)"

definition free_mrp_t :: "hostptr list \<Rightarrow> ('p, 'm, unit expected) thread" where
  "free_mrp_t ps = bindp (invalidates_t ps) (\<lambda>_. alloc_t (free_many (map to_dev_addr ps)))"

text \<open>The Config lock is held across the allocator update.\<close>

definition set_ring_dimension_t :: "u64 \<Rightarrow> ('p, 'm, unit expected) thread" where
  "set_ring_dimension_t n =
     (if \<not> is_supported_ring_dim n then Ret (Inl InvalidArgument)
      else guard ConfigMutex
        (bindp (act (\<lambda>s. if cf_configured (hz_config s) \<and> cf_ring_dim (hz_config s) \<noteq> n
             then (False, s) else (True, s\<lparr>hz_config := (hz_config s)\<lparr>cf_ring_dim := n\<rparr>\<rparr>)))
           (\<lambda>ok. if \<not> ok then Ret (Inl NotConfigured)
             else bindp (alloc_t (\<lambda>al. ((), set_polynomial_size (n * 8) al))) (\<lambda>_. Ret (Inr ())))))"

definition cfg_set_t :: "(config \<Rightarrow> unit expected \<times> config) \<Rightarrow> ('p, 'm, unit expected) thread" where
  "cfg_set_t f = guard ConfigMutex
     (act (\<lambda>s. case f (hz_config s) of (r, c) \<Rightarrow> (r, s\<lparr>hz_config := c\<rparr>)))"

text \<open>\<open>reset_all\<close>: one critical section per singleton.\<close>

definition reset_all_t :: "('p, 'm, unit expected) thread" where
  "reset_all_t =
     bindp (guard EpochMutex (act (\<lambda>s. ((), epoch_reset s)))) (\<lambda>_.
     bindp (guard InitMutex (act (\<lambda>s. ((), backend_reset s)))) (\<lambda>_.
     bindp (alloc_t (\<lambda>al. ((), allocator_reset al))) (\<lambda>_.
     bindp (cfg_set_t (\<lambda>c. (Inr (), config_reset c))) (\<lambda>_.
     act (\<lambda>s. (Inr (), fh_emit (Compiler CompilerReset)
       (hazeReplayBridgeReset (device_reset (events_reset (streams_reset s))))))))))"

lemma alone_free [simp]:
  "alone (free_t p) s = Some (api_alloc (alloc_free (to_dev_addr p))
     (if p \<noteq> 0 then upd_epoch (invalidate (to_dev_addr p)) s else s))"
  by (simp add: free_t_def api_alloc_def upd_epoch_def split: prod.split)

lemma alone_invalidates [simp]:
  "alone (invalidates_t ps) s =
     Some ((), foldl (\<lambda>s p. if p \<noteq> 0 then upd_epoch (invalidate (to_dev_addr p)) s else s) s ps)"
  by (induction ps arbitrary: s) (simp_all add: upd_epoch_def)

lemma alone_free_mrp [simp]:
  "alone (free_mrp_t ps) s = Some (api_alloc (free_many (map to_dev_addr ps))
     (foldl (\<lambda>s p. if p \<noteq> 0 then upd_epoch (invalidate (to_dev_addr p)) s else s) s ps))"
  by (simp add: free_mrp_t_def api_alloc_def split: prod.split)

lemma alone_cfg_set [simp]:
  "alone (cfg_set_t f) s = (case f (hz_config s) of (r, c) \<Rightarrow> Some (r, s\<lparr>hz_config := c\<rparr>))"
  by (simp add: cfg_set_t_def split: prod.split)

lemma alone_reset [simp]: "alone reset_all_t s = Some (Inr (), reset_all s)"
  by (simp add: reset_all_t_def reset_all_def Let_def upd_alloc_def)

section \<open>Calls\<close>

text \<open>
  The functions of the header that touch what threads share, with non-null out pointers and
  arrays. \<open>Run\<close> is any recorded operation, \<open>Reset\<close> is \<open>hazeDeviceReset\<close>, \<open>Attributes\<close>
  \<open>hazePointerGetAttributes\<close>; the stream and event counters are atomic. Where the host
  allocates (\<open>HostAlloc\<close>, the handles) it has memory. Asynchronous variants are the same programs. The rest of the header touches nothing that two threads share and one
  of them writes, and has no program here: the device queries, synchronisation and waiting, the
  destruction of the caller's own handles, the entries that are not supported, the performance
  counters and the last error, which each thread has of its own.
\<close>

datatype lib_call =
    Malloc u64 | MallocMrp u64 u64 | Free hostptr | FreeMrp "hostptr list"
  | HostAlloc hostptr | FreeHost hostptr
  | CopyIn hostptr hostptr u64 | CopyInMrp "hostptr list" "hostptr list" u64 "u64 list"
  | CopyOut hostptr hostptr u64 | CopyOutMrp "hostptr list" "hostptr list" u64 "u64 list"
  | Memset hostptr int u64 | Run instr | Tag_Output hostptr | Flush | WriteProgram
  | SetRing u64 | SetModulus int u64 | SetTwiddle int u64 | ConfigureDevice
  | SetProgramInfo "string option" "string option" "string option" | SetTarget "string option"
  | SetDirectory "string option" | SetMontgomery int | SetBitReversal int | SetReducedNoise int
  | Reset | Attributes hostptr | StreamCreate | EventCreate

text \<open>The attributes of a pointer, as words.\<close>

definition attr_words :: "hazePointerAttributes \<Rightarrow> u64 list" where
  "attr_words attrs = [case pa_type attrs of HAZE_MEMORY_TYPE_UNREGISTERED \<Rightarrow> 0
       | HAZE_MEMORY_TYPE_HOST \<Rightarrow> 1 | HAZE_MEMORY_TYPE_DEVICE \<Rightarrow> 2,
     word_of_int (pa_device attrs), pa_devicePointer attrs, pa_hostPointer attrs]"

definition handle_words :: "u64 option \<Rightarrow> u64 list" where
  "handle_words h = (case h of None \<Rightarrow> [] | Some i \<Rightarrow> [i])"

definition plain :: "('p, 'm, unit expected) thread \<Rightarrow> ('p, 'm, DevAddr list expected) thread" where
  "plain p = bind_ok p (\<lambda>_. Ret (Inr []))"

fun instr_t :: "('p, 'm) fh_env \<Rightarrow> instr \<Rightarrow> ('p, 'm, unit expected) thread" where
  "instr_t E (Single (IPP f d a b i)) = binary_pp_t E f d a b i"
| "instr_t E (Single (IPS f d a x i)) = binary_ps_t E f d a x i"
| "instr_t E (Single (IPQ f d a i)) = unary_pq_t E f d a i"
| "instr_t E (Single (IAutomorph d a k)) = unary_pi_t E d a k"
| "instr_t E (Single (ICopy d a n)) = copy_t E d a"
| "instr_t E (Group (MPP f d a b base)) = binary_pp_mrp_t E f d a b base"
| "instr_t E (Group (MPS f d a ss base)) = binary_ps_mrp_t E f d a ss base"
| "instr_t E (Group (MP f d a base)) = unary_p_mrp_t E f d a base"
| "instr_t E (Group (MPI f d a k base)) = unary_pi_mrp_t E f d a k base"
| "instr_t E (Group (MConvert d a p)) = basis_convert_t E d a p"
| "instr_t E (Group (MDown d a p)) = mod_down_t E d a p"
| "instr_t E (Group (MUp d a p)) = mod_up_t E d a p"
| "instr_t E (Group (MCopy d a base)) = copy_mrp_t E d a base"

fun lib_t :: "('p, 'm) fh_env \<Rightarrow> lib_call \<Rightarrow> ('p, 'm, DevAddr list expected) thread" where
  "lib_t E (Malloc n) = bind_ok (alloc_t (allocate n)) (\<lambda>a. Ret (Inr [a]))"
| "lib_t E (MallocMrp k n) = alloc_t (allocate_many k n)"
| "lib_t E (Free p) = plain (free_t p)"
| "lib_t E (FreeMrp ps) = plain (free_mrp_t ps)"
| "lib_t E (HostAlloc p) = plain (alloc_t (\<lambda>al. (Inr (), register_host_pointer p al)))"
| "lib_t E (FreeHost p) = plain (alloc_t (\<lambda>al. (Inr (), unregister_host_pointer p al)))"
| "lib_t E (CopyIn d h n) = plain (upload_t E (to_dev_addr d) h n)"
| "lib_t E (CopyInMrp d h n b) = plain (upload_mrp_t E d h n)"
| "lib_t E (CopyOut h d n) = plain (d2h_t h (to_dev_addr d) n)"
| "lib_t E (CopyOutMrp h d n b) = plain (download_mrp_t (zip h d) n)"
| "lib_t E (Memset d v n) = plain (memset_t (to_dev_addr d) v n)"
| "lib_t E (Run i) = plain (instr_t E i)"
| "lib_t E (Tag_Output p) = plain (epoch_t (tag_output_locked (to_dev_addr p)))"
| "lib_t E Flush = plain (flush_t E)"
| "lib_t E WriteProgram = plain (finalize_t E False)"
| "lib_t E (SetRing n) = plain (set_ring_dimension_t n)"
| "lib_t E (SetModulus i q) = plain (cfg_set_t (set_modulus i q))"
| "lib_t E (SetTwiddle i g) = plain (cfg_set_t (set_twiddle_generator i g))"
| "lib_t E ConfigureDevice = plain (cfg_set_t configure_device)"
| "lib_t E (SetProgramInfo a b c) = plain (cfg_set_t (set_program_info a b c))"
| "lib_t E (SetTarget t) = plain (cfg_set_t (set_target t))"
| "lib_t E (SetDirectory d) = plain (cfg_set_t (set_program_directory d))"
| "lib_t E (SetMontgomery b) = plain (cfg_set_t (\<lambda>c. (Inr (), set_montgomery (b \<noteq> 0) c)))"
| "lib_t E (SetBitReversal b) = plain (cfg_set_t (\<lambda>c. (Inr (), set_bit_reversal (b \<noteq> 0) c)))"
| "lib_t E (SetReducedNoise b) = plain (cfg_set_t (\<lambda>c. (Inr (), set_reduced_noise (b \<noteq> 0) c)))"
| "lib_t E Reset = plain reset_all_t"
| "lib_t E (Attributes p) =
     alloc_t (\<lambda>al. (case pointer_attributes False p al of Inl e \<Rightarrow> Inl e | Inr a \<Rightarrow> Inr (attr_words a), al))"
| "lib_t E StreamCreate = act (\<lambda>s. case stream_create False s of (h, s1) \<Rightarrow> (Inr (handle_words h), s1))"
| "lib_t E EventCreate = act (\<lambda>s. case event_create False s of (h, s1) \<Rightarrow> (Inr (handle_words h), s1))"

text \<open>The entry point behind a call, its code and what it writes through its out pointer.\<close>

definition no_out :: "hazeError_t \<times> ('p, 'm) haze \<Rightarrow> (hazeError_t \<times> hostptr list) \<times> ('p, 'm) haze" where
  "no_out = (\<lambda>(e, s). ((e, []), s))"

fun lib_api ::
    "('p, 'm) fh_env \<Rightarrow> lib_call \<Rightarrow> ('p, 'm) haze \<Rightarrow>
     ((hazeError_t \<times> hostptr list) \<times> ('p, 'm) haze) option" where
  "lib_api E (Malloc n) s = (case hazeMalloc False n s of
     ((e, p), s1) \<Rightarrow> Some ((e, case p of None \<Rightarrow> [] | Some q \<Rightarrow> [q]), s1))"
| "lib_api E (MallocMrp k n) s = (case hazeMallocMrp False k n s of
     ((e, ps), s1) \<Rightarrow> Some ((e, case ps of None \<Rightarrow> [] | Some qs \<Rightarrow> qs), s1))"
| "lib_api E (Free p) s = Some (no_out (hazeFree p s))"
| "lib_api E (FreeMrp ps) s = Some (no_out (hazeFreeMrp (Some ps) s))"
| "lib_api E (HostAlloc p) s =
     (case hazeHostAlloc (Some p) False 1 s of ((e, q), s1) \<Rightarrow> Some ((e, []), s1))"
| "lib_api E (FreeHost p) s = Some (no_out (hazeFreeHost p s))"
| "lib_api E (CopyIn d h n) s = map_option no_out (hazeMemcpy E d h n 1 s)"
| "lib_api E (CopyInMrp d h n b) s = map_option no_out (hazeMemcpyMrp E (Some d) (Some h) n 1 (Some b) s)"
| "lib_api E (CopyOut h d n) s = map_option no_out (hazeMemcpy E h d n 2 s)"
| "lib_api E (CopyOutMrp h d n b) s = map_option no_out (hazeMemcpyMrp E (Some h) (Some d) n 2 (Some b) s)"
| "lib_api E (Memset d v n) s = Some (no_out (hazeMemset d v n s))"
| "lib_api E (Run i) s = map_option no_out (api_instr E i s)"
| "lib_api E (Tag_Output p) s = Some (no_out (hazeTagOutput p s))"
| "lib_api E Flush s = Some (no_out (hazeFlush E s))"
| "lib_api E WriteProgram s = Some (no_out (hazeWriteProgram E s))"
| "lib_api E (SetRing n) s = Some (no_out (hazeSetRingDimension n s))"
| "lib_api E (SetModulus i q) s = Some (no_out (hazeSetCiphertextModulus i q s))"
| "lib_api E (SetTwiddle i g) s = Some (no_out (hazeSetTwiddleFactors i g s))"
| "lib_api E ConfigureDevice s = Some (no_out (hazeConfigureDevice s))"
| "lib_api E (SetProgramInfo a b c) s = Some (no_out (hazeSetProgramInfo a b c s))"
| "lib_api E (SetTarget t) s = Some (no_out (hazeSetTarget t s))"
| "lib_api E (SetDirectory d) s = Some (no_out (hazeSetProgramDirectory d s))"
| "lib_api E (SetMontgomery b) s = Some (no_out (hazeSetMontgomery b s))"
| "lib_api E (SetBitReversal b) s = Some (no_out (hazeSetBitReversal b s))"
| "lib_api E (SetReducedNoise b) s = Some (no_out (hazeSetReducedNoise b s))"
| "lib_api E Reset s = Some (no_out (hazeDeviceReset s))"
| "lib_api E (Attributes p) s = (case hazePointerGetAttributes False p s of
     ((e, a), s1) \<Rightarrow> Some ((e, case a of None \<Rightarrow> [] | Some at \<Rightarrow> attr_words at), s1))"
| "lib_api E StreamCreate s = (case hazeStreamCreate False False s of
     ((e, h), s1) \<Rightarrow> Some ((e, handle_words (Option.bind h id)), s1))"
| "lib_api E EventCreate s = (case hazeEventCreate False False s of
     ((e, h), s1) \<Rightarrow> Some ((e, handle_words (Option.bind h id)), s1))"

fun call_ok :: "lib_call \<Rightarrow> bool" where
  "call_ok (MallocMrp k n) \<longleftrightarrow> unat k \<le> kMaxCiphertextModuli"
| "call_ok (FreeMrp ps) \<longleftrightarrow> length ps \<le> kMaxCiphertextModuli"
| "call_ok (CopyIn d h n) \<longleftrightarrow> d \<noteq> 0 \<and> h \<noteq> 0"
| "call_ok (CopyInMrp d h n b) \<longleftrightarrow> b \<noteq> []"
| "call_ok (CopyOut h d n) \<longleftrightarrow> h \<noteq> 0 \<and> d \<noteq> 0"
| "call_ok (CopyOutMrp h d n b) \<longleftrightarrow> b \<noteq> []"
| "call_ok (Memset d v n) \<longleftrightarrow> d \<noteq> 0"
| "call_ok (Run i) \<longleftrightarrow> api_ok i"
| "call_ok (Tag_Output p) \<longleftrightarrow> p \<noteq> 0"
| "call_ok _ \<longleftrightarrow> True"

definition code_of :: "DevAddr list expected \<Rightarrow> hazeError_t \<times> hostptr list" where
  "code_of r = (case r of Inl e \<Rightarrow> (to_public_error e, []) | Inr as \<Rightarrow> (HAZE_SUCCESS, map to_void_ptr as))"

text \<open>Up to the thread's own last error, a call run alone is its entry point.\<close>

definition unmarked :: "('x \<times> ('p, 'm) haze) option \<Rightarrow> ('x \<times> ('p, 'm) haze) option" where
  "unmarked = map_option (\<lambda>(x, s). (x, s\<lparr>hz_last_error := HAZE_SUCCESS\<rparr>))"

lemma unmarked_plain:
  assumes "alone p s = Some (r, s1)"
  shows "unmarked (map_option (\<lambda>(r, s). (code_of r, s)) (alone (plain p) s)) =
    unmarked (Some (no_out (api_result (r, s1))))"
  using assms by (cases r) (simp_all add: plain_def unmarked_def no_out_def code_of_def)

lemma unmarked_no_out: "unmarked (Some (no_out (api_result (r, s1)))) =
    Some ((case r of Inl e \<Rightarrow> to_public_error e | Inr _ \<Rightarrow> HAZE_SUCCESS, []), s1\<lparr>hz_last_error := HAZE_SUCCESS\<rparr>)"
  by (cases r) (simp_all add: unmarked_def no_out_def)

lemma alone_instr [simp]:
  "alone (instr_t E i) s = exec_any E i s"
  by (cases "(E, i)" rule: instr_t.cases) simp_all

lemma alone_plain:
  "alone (plain p) s = map_option (\<lambda>(r, s1). (case r of Inl e \<Rightarrow> Inl e | Inr u \<Rightarrow> Inr [], s1)) (alone p s)"
  by (auto simp: plain_def split: option.split sum.split)

lemma accepted_call:
  assumes "call_ok c"
  shows "unmarked (lib_api E c s) = unmarked (map_option (\<lambda>(r, s1). (code_of r, s1)) (alone (lib_t E c) s))"
proof -
  have api: "unmarked (map_option no_out (map_option api_result x)) =
      unmarked (map_option (\<lambda>(r, s1). (code_of r, s1))
        (map_option (\<lambda>(r, s1). (case r of Inl e \<Rightarrow> Inl e | Inr u \<Rightarrow> Inr [], s1)) x))"
    for x :: "(unit expected \<times> ('a, 'b) haze) option"
    by (cases x) (auto simp: unmarked_def no_out_def code_of_def split: sum.split)
  note one = api [of "Some y" for y, simplified]
  have dispatch: "unmarked (map_option no_out (basis_dispatch (Some q) (Some a) (Some d) f s)) =
      unmarked (map_option no_out (map_option api_result (f d a q s)))"
    for q :: 'q and a d and f :: "hostptr list \<Rightarrow> hostptr list \<Rightarrow> 'q \<Rightarrow> ('a, 'b) haze \<Rightarrow>
      (unit expected \<times> ('a, 'b) haze) option"
    by (auto simp: basis_dispatch_def api_error_eq unmarked_def no_out_def
        split: option.split sum.split)
  show ?thesis
  proof (cases c)
    case (Malloc n)
    then show ?thesis
      by (simp add: hazeMalloc_def api_error_eq unmarked_def code_of_def split: sum.split prod.split)
  next
    case (MallocMrp k n)
    with assms show ?thesis
      by (simp add: hazeMallocMrp_def api_error_eq unmarked_def code_of_def split: sum.split prod.split)
  next
    case (CopyIn d h n)
    obtain r al where w: "copy_h2d (hz_host s) (to_dev_addr d) h n (hz_alloc s) = (r, al)"
      by (rule prod.exhaust)
    from CopyIn assms w show ?thesis
      by (cases r) (simp_all add: alone_plain upload_t_def hazeMemcpy_def api_alloc_def one
          tag_h2d_input_def, simp add: unmarked_def no_out_def code_of_def)
  next
    case (Memset d v n)
    obtain r al where w: "alloc_memset (to_dev_addr d) v n (hz_alloc s) = (r, al)" by (rule prod.exhaust)
    from Memset assms w show ?thesis
      by (cases r) (simp_all add: alone_plain memset_t_def hazeMemset_def api_alloc_def unmarked_def
          no_out_def code_of_def upd_epoch_def)
  next
    case (Run i)
    have "unmarked (map_option no_out (api_instr E i s)) =
        unmarked (map_option no_out (map_option api_result (exec_any E i s)))"
      using assms unfolding Run
      by (cases "(E, i)" rule: instr_t.cases)
        (auto simp: haze_binary_pp_def haze_binary_ps_def haze_unary_pq_def hazeAutomorph_def
          hazeMemcpy_def to_dev_addr_def haze_binary_pp_mrp_def haze_binary_ps_mrp_def
          haze_unary_p_mrp_def haze_unary_pi_mrp_def with_arrays_def hazeMemcpyMrp_def
          hazeBasisConvert_def hazeModDown_def hazeModUp_def dispatch)
    then show ?thesis by (simp add: Run alone_plain api)
  next
    case (HostAlloc p)
    then show ?thesis
      by (simp add: alone_plain hazeHostAlloc_def unmarked_def code_of_def upd_alloc_def)
  next
    case (FreeHost p)
    then show ?thesis
      by (simp add: alone_plain hazeFreeHost_def unmarked_def code_of_def no_out_def upd_alloc_def)
  next
    case (SetMontgomery b)
    then show ?thesis
      by (simp add: alone_plain hazeSetMontgomery_def unmarked_def code_of_def no_out_def api_error_eq)
  next
    case (SetBitReversal b)
    then show ?thesis
      by (simp add: alone_plain hazeSetBitReversal_def unmarked_def code_of_def no_out_def api_error_eq)
  next
    case (SetReducedNoise b)
    then show ?thesis
      by (simp add: alone_plain hazeSetReducedNoise_def unmarked_def code_of_def no_out_def api_error_eq)
  next
    case (Attributes p)
    have "map to_void_ptr as = as" for as by (simp add: to_void_ptr_def map_idI)
    with Attributes show ?thesis
      by (simp add: hazePointerGetAttributes_def unmarked_def code_of_def upd_alloc_def split: sum.split)
  next
    case StreamCreate
    then show ?thesis
      by (simp add: hazeStreamCreate_def stream_create_def handle_words_def unmarked_def code_of_def
          to_void_ptr_def)
  next
    case EventCreate
    then show ?thesis
      by (simp add: hazeEventCreate_def event_create_def handle_words_def unmarked_def code_of_def
          to_void_ptr_def)
  next
    case Reset
    then show ?thesis
      by (simp add: alone_plain hazeDeviceReset_def unmarked_def code_of_def no_out_def)
  next
    case (SetRing n)
    then show ?thesis
      by (simp add: alone_plain hazeSetRingDimension_def set_ring_dimension_t_def
          set_ring_dimension_def unmarked_def code_of_def no_out_def upd_alloc_def)
  qed (use assms in \<open>simp_all add: alone_plain one api hazeFree_def hazeFreeMrp_def Let_def hazeMemcpyMrp_def
      hazeMemcpy_def hazeTagOutput_def tag_output_def hazeFlush_def hazeWriteProgram_def write_program_def
      materialize_only_def hazeSetCiphertextModulus_def hazeSetTwiddleFactors_def hazeConfigureDevice_def
      hazeSetProgramInfo_def hazeSetTarget_def hazeSetProgramDirectory_def api_config_def
      split: prod.split\<close>)
qed

lemma refused_call:
  assumes "\<not> call_ok c"
  shows "unmarked (lib_api E c s) = unmarked (Some ((HAZE_ERROR_INVALID_VALUE, []), s))"
proof (cases c)
  case (Run i)
  with assms show ?thesis
    by (cases "(E, i)" rule: instr_t.cases)
      (auto simp: haze_binary_pp_def haze_binary_ps_def haze_unary_pq_def hazeAutomorph_def
        hazeMemcpy_def haze_binary_pp_mrp_def haze_binary_ps_mrp_def haze_unary_p_mrp_def
        haze_unary_pi_mrp_def with_arrays_def hazeMemcpyMrp_def api_error_eq unmarked_def no_out_def)
qed (use assms in \<open>auto simp: hazeMallocMrp_def hazeFreeMrp_def hazeMemcpy_def hazeMemcpyMrp_def hazeMemset_def
    hazeTagOutput_def api_error_eq unmarked_def no_out_def\<close>)

text \<open>
  C10. A thread that nobody interferes with behaves as the sequential model says. For each call
  of \<open>lib_call\<close> (the functions of the header that touch what threads share: memory, transfers,
  compute, tagging, flush, write, settings, device reset, pointer attributes, stream and event
  creation), running its locked program from entry to return gives the result and the state of
  its entry point, undefined behaviour included, the thread's own last error apart. A call whose
  arguments the entry point refuses before it touches shared state (null pointers, an empty
  base, more than 64 polynomials) returns \<open>HAZE_ERROR_INVALID_VALUE\<close> and changes nothing. So the
  sequential theorems hold of these calls with their locks.
\<close>

theorem undisturbed_call:
  "if call_ok c
   then unmarked (lib_api E c s) = unmarked (map_option (\<lambda>(r, s1). (code_of r, s1)) (alone (lib_t E c) s))
   else unmarked (lib_api E c s) = unmarked (Some ((HAZE_ERROR_INVALID_VALUE, []), s))"
proof (cases "call_ok c")
  case True
  show ?thesis unfolding if_P [OF True] by (rule accepted_call [OF True])
next
  case False
  show ?thesis unfolding if_not_P [OF False] by (rule refused_call [OF False])
qed

theorem undisturbed_call_witness:
  "unmarked (lib_api sim_env (Run (Single (IPP SrMulp 4096 4096 4096 0))) (haze_init (\<lambda>_. 0))) =
   unmarked (map_option (\<lambda>(r, s1). (code_of r, s1))
     (alone (lib_t sim_env (Run (Single (IPP SrMulp 4096 4096 4096 0)))) (haze_init (\<lambda>_. 0))))"
  using undisturbed_call [of "Run (Single (IPP SrMulp 4096 4096 4096 0))" sim_env "haze_init (\<lambda>_. 0)"]
  by (simp only: call_ok.simps api_ok.simps if_True) simp

end
