(* ===== verification/Haze_Lock_Inv.thy ===== *)
theory Haze_Lock_Inv
  imports Haze_Lock_Protocol Haze_Threaded_Api
begin

text \<open>
  What each mutex of the library guards and promises, and the proof that every operation keeps
  it. The epoch mutex guards \<open>EpochState\<close>, the allocator's its maps, the configuration's the
  parameters and, with the allocator's, the polynomial size; the initialisation mutex guards
  the flag \<open>initialized_\<close> and the calls that initialise the compiler.
\<close>

section \<open>The protocol of the library\<close>

fun is_init :: "('p, 'm) fh_call \<Rightarrow> bool" where
  "is_init (Compiler (CompilerInit argv)) \<longleftrightarrow> True"
| "is_init c \<longleftrightarrow> False"

definition inits :: "('p, 'm) haze \<Rightarrow> nat" where
  "inits s = length (filter is_init (hz_trace s))"

fun guarded :: "lock \<Rightarrow> ('p, 'm) haze \<Rightarrow> ('p, 'm) haze \<Rightarrow> bool" where
  "guarded InitMutex s s' \<longleftrightarrow> hz_backend_initialized s' = hz_backend_initialized s \<and> inits s' = inits s"
| "guarded EpochMutex s s' \<longleftrightarrow> hz_epoch s' = hz_epoch s"
| "guarded ConfigMutex s s' \<longleftrightarrow> hz_config s' = hz_config s \<and>
     poly_bytes (hz_alloc s') = poly_bytes (hz_alloc s)"
| "guarded AllocMutex s s' \<longleftrightarrow> hz_alloc s' = hz_alloc s"

text \<open>
  The invariants. \<open>resize\<close>: the ring dimension may change while threads run, so shadow vectors
  may have an old length, and reading them back may be undefined.
\<close>

definition alloc_ok :: "bool \<Rightarrow> allocator \<Rightarrow> bool" where
  "alloc_ok resize al \<longleftrightarrow> alloc_inv al \<and> (\<not> resize \<longrightarrow> sized al)"

definition cfg_ok :: "config \<Rightarrow> u64 \<Rightarrow> bool" where
  "cfg_ok c bytes \<longleftrightarrow> bytes = cf_ring_dim c * 8 \<and> 0 \<notin> set (cf_moduli c) \<and>
     (cf_ring_dim c = 0 \<or> is_supported_ring_dim (cf_ring_dim c)) \<and>
     (cf_configured c \<longrightarrow> cf_ring_dim c \<noteq> 0)"

fun promise :: "('p, 'm) fh_env \<Rightarrow> bool \<Rightarrow> lock \<Rightarrow> ('p, 'm) haze \<Rightarrow> bool" where
  "promise E resize InitMutex s \<longleftrightarrow> (starts E \<longrightarrow> inits s = (if hz_backend_initialized s then 1 else 0))"
| "promise E resize EpochMutex s \<longleftrightarrow> epoch_inv (hz_epoch s)"
| "promise E resize ConfigMutex s \<longleftrightarrow> cfg_ok (hz_config s) (poly_bytes (hz_alloc s))"
| "promise E resize AllocMutex s \<longleftrightarrow> alloc_ok resize (hz_alloc s)"

definition haze_protocol :: "('p, 'm) fh_env \<Rightarrow> bool \<Rightarrow> ('p, 'm) haze protocol" where
  "haze_protocol E resize = \<lparr>part = guarded, linv = promise E resize, ub = resize\<rparr>"

lemma haze_protocol_simps [simp]:
  "part (haze_protocol E z) = guarded"
  "linv (haze_protocol E z) = promise E z"
  "ub (haze_protocol E z) = z"
  by (simp_all add: haze_protocol_def)

interpretation haze_locks: lock_protocol "haze_protocol E z" for E z
proof unfold_locales
  fix l and s s' s'' :: "('a, 'b) haze"
  show "part (haze_protocol E z) l s s" by (cases l) simp_all
  show "part (haze_protocol E z) l s s' \<Longrightarrow> part (haze_protocol E z) l s' s" by (cases l) simp_all
  show "part (haze_protocol E z) l s s' \<Longrightarrow> part (haze_protocol E z) l s' s'' \<Longrightarrow>
      part (haze_protocol E z) l s s''" by (cases l) simp_all
  show "part (haze_protocol E z) l s s' \<Longrightarrow> linv (haze_protocol E z) l s \<Longrightarrow>
      linv (haze_protocol E z) l s'" by (cases l) simp_all
qed

lemma haze_inv_iff: "haze_inv s \<longleftrightarrow> epoch_inv (hz_epoch s) \<and>
    cfg_ok (hz_config s) (poly_bytes (hz_alloc s)) \<and> alloc_inv (hz_alloc s)"
  by (auto simp: haze_inv_def cfg_inv_def cfg_ok_def)

section \<open>Steps\<close>

text \<open>A quiet step changes the epoch at most, and what no mutex guards.\<close>

definition quiet :: "('p, 'm) haze \<Rightarrow> ('p, 'm) haze \<Rightarrow> bool" where
  "quiet s s' \<longleftrightarrow> hz_config s' = hz_config s \<and> hz_alloc s' = hz_alloc s \<and>
     hz_backend_initialized s' = hz_backend_initialized s \<and> inits s' = inits s"

lemma quiet_refl [simp]: "quiet s s"
  by (simp add: quiet_def)

lemma quiet_trans: "quiet s t \<Longrightarrow> quiet t u \<Longrightarrow> quiet s u"
  by (simp add: quiet_def)

lemma inits_emit [simp]: "inits (fh_emit c s) = (if is_init c then Suc (inits s) else inits s)"
  by (simp add: inits_def)

lemma inits_upd [simp]:
  "inits (upd_epoch f s) = inits s"
  "inits (upd_alloc g s) = inits s"
  "inits (s\<lparr>hz_config := c\<rparr>) = inits s"
  "inits (s\<lparr>hz_host := hm\<rparr>) = inits s"
  "inits (s\<lparr>hz_backend_initialized := b\<rparr>) = inits s"
  "inits (s\<lparr>hz_hook_had_error := b\<rparr>) = inits s"
  by (simp_all add: inits_def)

lemma quiet_emit: "\<not> is_init c \<Longrightarrow> quiet s (fh_emit c s)"
  by (simp add: quiet_def)

lemma quiet_epoch [simp]: "quiet s (upd_epoch f t) \<longleftrightarrow> quiet s t"
  by (simp add: quiet_def)

abbreviation epoch_ok :: "('p, 'm) haze \<Rightarrow> bool" where
  "epoch_ok s \<equiv> epoch_inv (hz_epoch s)"

lemma stable_epoch [stable_intros]: "EpochMutex \<in> H \<Longrightarrow> stable (haze_protocol E z) H (\<lambda>s. A (hz_epoch s))"
  unfolding stable_def agree_def by (metis guarded.simps(2) haze_protocol_simps(1))

text \<open>Code that runs inside a session without taking another mutex.\<close>

lemma spec_session_act:
  assumes "\<And>s. A (hz_epoch s) \<Longrightarrow> quiet s (snd (f s)) \<and> B (fst (f s)) (snd (f s))"
  shows "spec (haze_protocol E z) {EpochMutex} (\<lambda>s. A (hz_epoch s)) (act f) B"
proof (rule spec_act)
  fix s :: "('a, 'b) haze"
  assume "A (hz_epoch s)"
  from assms [OF this] have q: "quiet s (snd (f s))" and b: "B (fst (f s)) (snd (f s))" by simp_all
  have "guarded l s (snd (f s))" if "l \<noteq> EpochMutex" for l
    using q that by (cases l) (simp_all add: quiet_def)
  with b show "agree (haze_protocol E z) (- {EpochMutex}) s (snd (f s)) \<and> B (fst (f s)) (snd (f s))"
    by (simp add: agree_def)
qed (simp add: stable_epoch)

lemma spec_cfg:
  assumes "stable (haze_protocol E z) H A" and "\<forall>h \<in> H. lock_rank h < 2"
  shows "spec (haze_protocol E z) H A (cfg_t g) (\<lambda>_. A)"
  unfolding cfg_t_def
proof (rule spec_guard [OF assms(1)])
  show "\<forall>h \<in> H. lock_rank h < lock_rank ConfigMutex" using assms(2) by simp
  have "stable (haze_protocol E z) (insert ConfigMutex H) (\<lambda>s. A s \<and> promise E z ConfigMutex s)"
    using assms(1) unfolding stable_def agree_def by fastforce
  then show "spec (haze_protocol E z) (insert ConfigMutex H)
      (\<lambda>s. A s \<and> linv (haze_protocol E z) ConfigMutex s) (act (\<lambda>s. (g (hz_config s), s)))
      (\<lambda>x s. linv (haze_protocol E z) ConfigMutex s \<and> A s)"
    by (intro spec_act) (simp_all add: haze_locks.agree_refl)
qed

definition alloc_good :: "bool \<Rightarrow> (allocator \<Rightarrow> 'a \<times> allocator) \<Rightarrow> bool" where
  "alloc_good z f \<longleftrightarrow> (\<forall>al. alloc_ok z al \<longrightarrow>
     alloc_ok z (snd (f al)) \<and> poly_bytes (snd (f al)) = poly_bytes al)"

lemma spec_alloc_step:
  assumes "stable (haze_protocol E z) H A" and "\<forall>h \<in> H. lock_rank h < 3"
    and "\<And>s. alloc_ok z (hz_alloc s) \<Longrightarrow> \<exists>al. snd (f s) = upd_alloc (\<lambda>_. al) s \<and> alloc_ok z al \<and>
        poly_bytes al = poly_bytes (hz_alloc s)"
  shows "spec (haze_protocol E z) H A (guard AllocMutex (act f)) (\<lambda>_. A)"
proof (rule spec_guard [OF assms(1)])
  show "\<forall>h \<in> H. lock_rank h < lock_rank AllocMutex" using assms(2) by simp
  have notin: "AllocMutex \<notin> H" using assms(2) by auto
  have st: "stable (haze_protocol E z) (insert AllocMutex H) (\<lambda>s. A s \<and> promise E z AllocMutex s)"
    using assms(1) unfolding stable_def agree_def by fastforce
  show "spec (haze_protocol E z) (insert AllocMutex H)
      (\<lambda>s. A s \<and> linv (haze_protocol E z) AllocMutex s) (act f)
      (\<lambda>x s. linv (haze_protocol E z) AllocMutex s \<and> A s)"
  proof (rule spec_act)
    fix s assume s: "A s \<and> linv (haze_protocol E z) AllocMutex s"
    then obtain al where al: "snd (f s) = upd_alloc (\<lambda>_. al) s" "alloc_ok z al"
        "poly_bytes al = poly_bytes (hz_alloc s)" using assms(3) [of s] by auto
    have g: "guarded l s (upd_alloc (\<lambda>_. al) s)" if "l \<noteq> AllocMutex" for l
      using that al(3) by (cases l) simp_all
    then have "agree (haze_protocol E z) H s (upd_alloc (\<lambda>_. al) s)"
      using notin unfolding agree_def by (metis haze_protocol_simps(1))
    with assms(1) s have "A (upd_alloc (\<lambda>_. al) s)" unfolding stable_def by blast
    with g al show "agree (haze_protocol E z) (- insert AllocMutex H) s (snd (f s)) \<and>
        linv (haze_protocol E z) AllocMutex (snd (f s)) \<and> A (snd (f s))"
      by (simp add: agree_def)
  qed (use st in simp)
qed

lemma spec_alloc:
  assumes "stable (haze_protocol E z) H A" and "\<forall>h \<in> H. lock_rank h < 3" and "alloc_good z f"
  shows "spec (haze_protocol E z) H A (alloc_t f) (\<lambda>_. A)"
  unfolding alloc_t_def
proof (rule spec_alloc_step [OF assms(1,2)])
qed (use assms(3) in \<open>auto simp: alloc_good_def split: prod.split intro!: exI\<close>)

lemma alloc_goodI:
  assumes "\<And>al. alloc_inv al \<Longrightarrow> alloc_inv (snd (f al))" and "\<And>al. fits al (snd (f al))"
  shows "alloc_good z f"
  unfolding alloc_good_def alloc_ok_def
proof (intro allI impI conjI)
  fix al assume ok: "alloc_inv al \<and> (\<not> z \<longrightarrow> sized al)"
  then show "alloc_inv (snd (f al))" by (simp add: assms(1))
  show "sized (snd (f al))" if "\<not> z" using fits_sized [OF assms(2)] ok that by simp
  show "poly_bytes (snd (f al)) = poly_bytes al" using assms(2) by (simp add: fits_def)
qed

lemma fits_hosts: "fits al (register_host_pointer p al)" "fits al (unregister_host_pointer p al)"
  by (simp_all add: fits_def register_host_pointer_def unregister_host_pointer_def)

lemma alloc_good_ops:
  "alloc_good z (extract_polynomial_components a rd)"
  "alloc_good z (update_shadow a v)"
  "alloc_good z (alloc_memset a w n)"
  "alloc_good z (alloc_free a)"
  "alloc_good z (free_many as)"
  "alloc_good z (allocate n)"
  "alloc_good z (allocate_many c n)"
  "alloc_good z (\<lambda>al. (read_polynomial_components a rd al, al))"
  "alloc_good z (\<lambda>al. (r, register_host_pointer p al))"
  "alloc_good z (\<lambda>al. (r, unregister_host_pointer p al))"
  by (rule alloc_goodI; simp add: alloc_inv_ops fits_hosts fits_update fits_memset fits_free fits_free_many
      fits_allocate fits_allocate_many fits_shrinks [OF shrinks_extract])+

lemma spec_bind_ok:
  assumes "spec P H A p M" and "\<And>x. spec P H (M (Inr x)) (k x) B"
    and "\<And>e s. M (Inl e) s \<Longrightarrow> B (Inl e) s"
  shows "spec P H A (bind_ok p k) B"
  unfolding bind_ok_def
  by (rule spec_bind [OF assms(1)]) (use assms(2,3) in \<open>auto intro: spec_ret split: sum.split\<close>)

section \<open>Initialisation\<close>

text \<open>
  The double-checked lock: the flag is set and the compiler initialised under the mutex only,
  so where nothing throws the compiler is initialised exactly when the flag goes up.
\<close>

abbreviation init_ok :: "('p, 'm) fh_env \<Rightarrow> bool \<Rightarrow> nat \<Rightarrow> bool" where
  "init_ok E up n \<equiv> starts E \<longrightarrow> n = (if up then 1 else 0)"

lemma stable_init [stable_intros]:
  "InitMutex \<in> H \<Longrightarrow>
   stable (haze_protocol E z) H (\<lambda>s. A (hz_backend_initialized s) (inits s))"
  unfolding stable_def agree_def by (fastforce dest!: bspec [of H _ InitMutex])

lemma fh_try_starts:
  "starts E \<Longrightarrow> fh_try E (map Compiler cs) s = (True, s\<lparr>hz_trace := hz_trace s @ map Compiler cs\<rparr>)"
  by (induction cs arbitrary: s) (simp_all add: starts_def fh_emit_def)

lemma inits_trace [simp]: "inits (s\<lparr>hz_trace := hz_trace s @ cs\<rparr>) = inits s + length (filter is_init cs)"
  by (simp add: inits_def)

lemma spec_load:
  assumes "stable (haze_protocol E z) H A"
  shows "spec (haze_protocol E z) H A (act (\<lambda>s. (g s, s))) (\<lambda>_. A)"
  by (rule spec_act [OF assms]) (simp add: haze_locks.agree_refl)

text \<open>A step of the initialisation: it touches the flag and the trace.\<close>

lemma spec_init_act:
  assumes "\<And>s. A (hz_backend_initialized s) (inits s) \<Longrightarrow> hz_config (snd (f s)) = hz_config s \<and>
      hz_alloc (snd (f s)) = hz_alloc s \<and> hz_epoch (snd (f s)) = hz_epoch s \<and>
      B (fst (f s)) (hz_backend_initialized (snd (f s))) (inits (snd (f s)))"
  shows "spec (haze_protocol E z) {InitMutex} (\<lambda>s. A (hz_backend_initialized s) (inits s)) (act f)
    (\<lambda>x s. B x (hz_backend_initialized s) (inits s))"
proof (rule spec_act)
  fix s :: "('a, 'b) haze"
  assume "A (hz_backend_initialized s) (inits s)"
  note F = assms [OF this]
  have "guarded l s (snd (f s))" if "l \<noteq> InitMutex" for l using F that by (cases l) simp_all
  with F show "agree (haze_protocol E z) (- {InitMutex}) s (snd (f s)) \<and>
      B (fst (f s)) (hz_backend_initialized (snd (f s))) (inits (snd (f s)))"
    by (simp add: agree_def)
qed (simp add: stable_init)

lemma spec_init_try:
  "spec (haze_protocol E z) {InitMutex}
     (\<lambda>s. \<not> hz_backend_initialized s \<and> (starts E \<longrightarrow> inits s = n))
     (act (fh_try E (map Compiler cs)))
     (\<lambda>ok s. \<not> hz_backend_initialized s \<and>
        (starts E \<longrightarrow> ok \<and> inits s = n + length (filter is_init (map Compiler cs :: ('p, 'm) fh_call list))))"
  for E :: "('p, 'm) fh_env"
  by (rule spec_init_act) (auto simp: frame_simps fh_try_starts)

lemma spec_init_cfg:
  "spec (haze_protocol E z) {InitMutex} (\<lambda>s. A (hz_backend_initialized s) (inits s)) (cfg_t g)
     (\<lambda>x s. A (hz_backend_initialized s) (inits s))"
  by (rule spec_cfg) (simp_all add: stable_init)

lemma spec_init_compiler:
  fixes E :: "('p, 'm) fh_env"
  defines "Q \<equiv> \<lambda>(ok :: bool) (s :: ('p, 'm) haze). \<not> hz_backend_initialized s \<and>
      (starts E \<longrightarrow> ok \<and> inits s = 1)"
  shows "spec (haze_protocol E z) {InitMutex}
     (\<lambda>s. \<not> hz_backend_initialized s \<and> (starts E \<longrightarrow> inits s = 0)) (init_compiler_t E m b) Q"
proof -
  have quit: "spec (haze_protocol E z) {InitMutex} (Q ok) (if \<not> ok then Ret False else p) Q"
    if "spec (haze_protocol E z) {InitMutex} (\<lambda>s. \<not> hz_backend_initialized s \<and>
        (starts E \<longrightarrow> inits s = 1)) p Q" for ok and p :: "('p, 'm, bool) thread"
    using that by (auto simp: Q_def intro!: spec_ret elim: spec_conseq)
  have calls: "spec (haze_protocol E z) {InitMutex} (\<lambda>s. \<not> hz_backend_initialized s \<and>
      (starts E \<longrightarrow> inits s = 1)) (act (fh_try E [Compiler c])) Q" if "\<not> is_init (Compiler c :: ('p, 'm) fh_call)" for c
    by (rule spec_conseq [OF spec_init_try [of E z 1 "[c]", unfolded list.map]])
      (use that in \<open>auto simp: Q_def\<close>)
  have dir: "spec (haze_protocol E z) {InitMutex} (\<lambda>s. \<not> hz_backend_initialized s \<and>
      (starts E \<longrightarrow> inits s = 1)) (if has then bindp (cfg_t program_directory)
        (\<lambda>dir. act (fh_try E [Compiler (SetProgramDirectory dir)])) else Ret True) Q" for has
  proof (cases has)
    case True
    then show ?thesis
      by (simp only: if_True) (intro spec_bind [OF spec_init_cfg] calls, simp)
  next
    case False
    then show ?thesis by (simp only: if_False) (rule spec_ret, simp add: Q_def)
  qed
  have first: "spec (haze_protocol E z) {InitMutex}
      (\<lambda>s. \<not> hz_backend_initialized s \<and> (starts E \<longrightarrow> inits s = 0))
      (act (fh_try E (map Compiler [CompilerInit argv, compiler_call.SetProgramInfo n v d]))) Q" for argv n v d
    by (rule spec_conseq [OF spec_init_try [of E z 0]]) (auto simp: Q_def)
  show ?thesis
    unfolding init_compiler_t_def
    by (intro spec_bind [OF spec_init_cfg] spec_bind [OF first] spec_bind [OF dir] quit calls) simp
qed

lemma spec_ensure_initialized:
  "spec (haze_protocol E z) {} (\<lambda>_. True) (ensure_initialized_t E) (\<lambda>_ _. True)"
proof -
  have init: "spec (haze_protocol E z) {InitMutex}
      (\<lambda>s. \<not> hz_backend_initialized s \<and> (starts E \<longrightarrow> inits s = 0))
      (bindp (init_compiler_t E m b) (\<lambda>ok. if \<not> ok then Ret False else
        act (\<lambda>s. (True, s\<lparr>hz_backend_initialized := True\<rparr>))))
      (\<lambda>_ s. init_ok E (hz_backend_initialized s) (inits s))" for m b
  proof (rule spec_bind [OF spec_init_compiler])
    fix ok
    have "spec (haze_protocol E z) {InitMutex}
        (\<lambda>s. \<not> hz_backend_initialized s \<and> (starts E \<longrightarrow> ok \<and> inits s = 1))
        (act (\<lambda>s. (True, s\<lparr>hz_backend_initialized := True\<rparr>)))
        (\<lambda>_ s. init_ok E (hz_backend_initialized s) (inits s))"
      by (rule spec_init_act) simp
    then show "spec (haze_protocol E z) {InitMutex}
        (\<lambda>s. \<not> hz_backend_initialized s \<and> (starts E \<longrightarrow> ok \<and> inits s = 1))
        (if \<not> ok then Ret False else act (\<lambda>s. (True, s\<lparr>hz_backend_initialized := True\<rparr>)))
        (\<lambda>_ s. init_ok E (hz_backend_initialized s) (inits s))"
      by (cases ok) (simp_all only: if_True if_False not_True_eq_False not_False_eq_True simp_thms, rule spec_ret, simp)
  qed
  have refuse: "spec (haze_protocol E z) {InitMutex} (\<lambda>s. A (hz_backend_initialized s) (inits s))
      (if c then cfg_t g else Ret v) (\<lambda>_ s. A (hz_backend_initialized s) (inits s))" for c g v A
    by (auto intro: spec_ret spec_init_cfg)
  let ?down = "\<lambda>s :: ('a, 'b) haze. \<not> hz_backend_initialized s \<and> (starts E \<longrightarrow> inits s = 0)"
  have slow: "spec (haze_protocol E z) {InitMutex} ?down
      (bindp (cfg_t cf_montgomery) (\<lambda>m. bindp (cfg_t cf_bit_reversal) (\<lambda>b.
       bindp (if m \<or> b then cfg_t (\<lambda>c. cfg_target c = kLocalTarget) else Ret False)
         (\<lambda>refused. if refused then Ret False else
       bindp (init_compiler_t E m b) (\<lambda>ok. if \<not> ok then Ret False else
       act (\<lambda>s. (True, s\<lparr>hz_backend_initialized := True\<rparr>)))))))
      (\<lambda>_ s. init_ok E (hz_backend_initialized s) (inits s))"
  proof (intro spec_bind [OF spec_init_cfg] spec_bind [OF refuse])
    fix m b refused
    show "spec (haze_protocol E z) {InitMutex} ?down
       (if refused then Ret False else
       bindp (init_compiler_t E m b) (\<lambda>ok. if \<not> ok then Ret False else
       act (\<lambda>s. (True, s\<lparr>hz_backend_initialized := True\<rparr>))))
      (\<lambda>_ s. init_ok E (hz_backend_initialized s) (inits s))"
      using init by (auto intro: spec_ret)
  qed
  have "spec (haze_protocol E z) {InitMutex}
      (\<lambda>s. init_ok E (hz_backend_initialized s) (inits s))
      (bindp (act (\<lambda>s. (hz_backend_initialized s, s))) (\<lambda>ready. if ready then Ret True else
        bindp (cfg_t cf_montgomery) (\<lambda>m. bindp (cfg_t cf_bit_reversal) (\<lambda>b.
        bindp (if m \<or> b then cfg_t (\<lambda>c. cfg_target c = kLocalTarget) else Ret False)
          (\<lambda>refused. if refused then Ret False else
        bindp (init_compiler_t E m b) (\<lambda>ok. if \<not> ok then Ret False else
        act (\<lambda>s. (True, s\<lparr>hz_backend_initialized := True\<rparr>))))))))
      (\<lambda>_ s. init_ok E (hz_backend_initialized s) (inits s))"
  proof (rule spec_bind)
    show "spec (haze_protocol E z) {InitMutex} (\<lambda>s. init_ok E (hz_backend_initialized s) (inits s))
        (act (\<lambda>s. (hz_backend_initialized s, s)))
        (\<lambda>r s. init_ok E (hz_backend_initialized s) (inits s) \<and> r = hz_backend_initialized s)"
      by (rule spec_init_act) simp
  next
    fix r
    show "spec (haze_protocol E z) {InitMutex}
        (\<lambda>s. init_ok E (hz_backend_initialized s) (inits s) \<and> r = hz_backend_initialized s)
        (if r then Ret True else
          bindp (cfg_t cf_montgomery) (\<lambda>m. bindp (cfg_t cf_bit_reversal) (\<lambda>b.
          bindp (if m \<or> b then cfg_t (\<lambda>c. cfg_target c = kLocalTarget) else Ret False)
            (\<lambda>refused. if refused then Ret False else
          bindp (init_compiler_t E m b) (\<lambda>ok. if \<not> ok then Ret False else
          act (\<lambda>s. (True, s\<lparr>hz_backend_initialized := True\<rparr>)))))))
        (\<lambda>_ s. init_ok E (hz_backend_initialized s) (inits s))"
    proof (cases r)
      case True
      then show ?thesis by (simp only: if_True) (rule spec_ret, simp)
    next
      case False
      then show ?thesis by (simp only: if_False) (rule spec_conseq [OF slow], simp_all)
    qed
  qed
  then have locked: "spec (haze_protocol E z) {} (\<lambda>_. True) (guard InitMutex
      (bindp (act (\<lambda>s. (hz_backend_initialized s, s))) (\<lambda>ready. if ready then Ret True else
        bindp (cfg_t cf_montgomery) (\<lambda>m. bindp (cfg_t cf_bit_reversal) (\<lambda>b.
        bindp (if m \<or> b then cfg_t (\<lambda>c. cfg_target c = kLocalTarget) else Ret False)
          (\<lambda>refused. if refused then Ret False else
        bindp (init_compiler_t E m b) (\<lambda>ok. if \<not> ok then Ret False else
        act (\<lambda>s. (True, s\<lparr>hz_backend_initialized := True\<rparr>))))))))) (\<lambda>_ _. True)"
    by (intro spec_guard stable_True) simp_all
  show ?thesis
    unfolding ensure_initialized_t_def
    by (rule spec_bind [OF spec_load]) (simp_all add: stable_True locked spec_ret)
qed

end
