(* ===== verification/Haze_Lock_Ops.thy ===== *)
theory Haze_Lock_Ops
  imports Haze_Lock_Inv
begin

text \<open>
  Every operation of the library keeps the protocol of the mutexes: compute, transfers,
  finalisation, memory, configuration and reset, call by call.
\<close>

section \<open>Code that runs inside a session\<close>

text \<open>\<open>under E z p B\<close>: entered and left under the epoch mutex with the bookkeeping in order.\<close>

abbreviation under ::
    "('p, 'm) fh_env \<Rightarrow> bool \<Rightarrow> ('p, 'm, 'a) thread \<Rightarrow> ('a \<Rightarrow> 'p epoch \<Rightarrow> bool) \<Rightarrow> bool" where
  "under E z p B \<equiv> spec (haze_protocol E z) {EpochMutex} epoch_ok p
     (\<lambda>r s. epoch_ok s \<and> B r (hz_epoch s))"

abbreviation fine :: "'a \<Rightarrow> 'p epoch \<Rightarrow> bool" where
  "fine \<equiv> \<lambda>_ _. True"

lemma spec_session:
  assumes "under E z body fine"
  shows "spec (haze_protocol E z) {} (\<lambda>_. True) (session_t E body) (\<lambda>_ _. True)"
  unfolding session_t_def
proof (rule spec_bind [OF spec_ensure_initialized])
  have rec: "spec (haze_protocol E z) {EpochMutex} epoch_ok (act (\<lambda>s. ((), ensure_recording_locked s)))
      (\<lambda>_. epoch_ok)"
    by (rule spec_session_act)
      (simp add: ensure_recording_locked_def start_recording_def Let_def quiet_emit quiet_trans quiet_def)
  show "spec (haze_protocol E z) {} (\<lambda>_. True) (guard EpochMutex
      (bindp (act (\<lambda>s. ((), ensure_recording_locked s))) (\<lambda>_. body))) (\<lambda>_ _. True)"
  proof (rule spec_guard [OF stable_True])
    have "spec (haze_protocol E z) {EpochMutex} epoch_ok
        (bindp (act (\<lambda>s. ((), ensure_recording_locked s))) (\<lambda>_. body)) (\<lambda>_. epoch_ok)"
      by (rule spec_bind [OF rec]) (use assms in simp)
    then show "spec (haze_protocol E z) {EpochMutex} (\<lambda>s. True \<and> linv (haze_protocol E z) EpochMutex s)
        (bindp (act (\<lambda>s. ((), ensure_recording_locked s))) (\<lambda>_. body))
        (\<lambda>x s. linv (haze_protocol E z) EpochMutex s \<and> True)"
      by simp
  qed simp
qed

text \<open>One step of a session: the epoch stays in order whatever the environment answers.\<close>

lemma under_act:
  assumes "\<And>s. epoch_ok s \<Longrightarrow> quiet s (snd (f s)) \<and> epoch_ok (snd (f s))"
  shows "under E z (act f) fine"
  by (rule spec_session_act) (use assms in simp)

lemma under_ret: "(\<And>ep. B x ep) \<Longrightarrow> under E z (Ret x) B"
  by (rule spec_ret) simp

lemma under_weaken: "under E z p B \<Longrightarrow> under E z p fine"
  by (erule spec_conseq) simp_all

lemma under_bind:
  assumes "under E z p fine" and "\<And>x. under E z (k x) B"
  shows "under E z (bindp p k) B"
  by (rule spec_bind [OF assms(1)]) (use assms(2) in simp)

lemma under_bind_ok:
  assumes "under E z p fine" and "\<And>x. under E z (k x) B" and "\<And>e ep. B (Inl e) ep"
  shows "under E z (bind_ok p k) B"
  by (rule spec_bind_ok [OF assms(1)]) (use assms(2,3) in simp_all)

lemma under_cfg: "under E z (cfg_t g) fine"
  using spec_cfg [of E z "{EpochMutex}" epoch_ok g] by (simp add: stable_epoch)

lemma under_alloc: "alloc_good z f \<Longrightarrow> under E z (alloc_t f) fine"
  using spec_alloc [of E z "{EpochMutex}" epoch_ok f] by (simp add: stable_epoch)

lemma under_if:
  assumes "c \<Longrightarrow> under E z p B" and "\<not> c \<Longrightarrow> under E z q B"
  shows "under E z (if c then p else q) B"
  by (cases c) (simp_all only: if_True if_False assms simp_thms not_False_eq_True)

lemma quiet_emit_trans: "\<not> is_init c \<Longrightarrow> quiet s t \<Longrightarrow> quiet s (fh_emit c t)"
  by (simp add: quiet_def)

lemma quiet_host: "quiet s (t\<lparr>hz_hook_had_error := b\<rparr>) \<longleftrightarrow> quiet s t"
  by (simp add: quiet_def)

section \<open>Resolving, tagging and copying\<close>

text \<open>The steps made of \<open>fh_poly\<close>, \<open>fh_mrp\<close>, emissions and updates of the epoch.\<close>

lemma quiet_calls [simp]:
  "quiet s (snd (fh_poly E c s)) \<longleftrightarrow> \<not> is_init c"
  "quiet s (snd (fh_mrp E c s)) \<longleftrightarrow> \<not> is_init c"
  by (simp_all add: fh_poly_def fh_mrp_def quiet_def)

text \<open>\<open>bound D\<close>: in order, and the addresses \<open>D\<close> are bound; a session never unbinds.\<close>

definition bound :: "DevAddr set \<Rightarrow> 'p epoch \<Rightarrow> bool" where
  "bound D ep \<longleftrightarrow> epoch_inv ep \<and> D \<subseteq> dom (poly_map ep)"

definition resolved :: "DevAddr set \<Rightarrow> DevAddr \<Rightarrow> 'a expected \<Rightarrow> 'p epoch \<Rightarrow> bool" where
  "resolved D a r ep \<longleftrightarrow> bound D ep \<and> (\<forall>x. r = Inr x \<longrightarrow> a \<in> dom (poly_map ep))"

lemma under_fresh:
  "spec (haze_protocol E z) {EpochMutex} (\<lambda>s. bound D (hz_epoch s)) (act (\<lambda>s.
     let (poly, s2) = fh_poly E (FromData v rd Evaluation) s;
         name = ''haze_in_'' @ to_string (unat (input_counter (hz_epoch s2)));
         s3 = upd_epoch (\<lambda>ep. ep\<lparr>input_counter := input_counter ep + 1\<rparr>) s2;
         s4 = fh_emit (Tag (TagInput name poly)) s3
     in (Inr poly, upd_epoch (\<lambda>ep. ep\<lparr>poly_map := (poly_map ep)(a \<mapsto> poly),
           input_addrs := insert a (input_addrs ep)\<rparr>) s4))) (\<lambda>r s. resolved D a r (hz_epoch s))"
  (is "spec _ _ _ (act ?f) _")
proof (rule spec_session_act)
  fix s :: "('a, 'b) haze"
  assume ok: "bound D (hz_epoch s)"
  then have "epoch_ok s" by (simp add: bound_def)
  from ok epoch_inv_bind_input [OF this, of a]
  show "quiet s (snd (?f s)) \<and> resolved D a (fst (?f s)) (hz_epoch (snd (?f s)))"
    by (auto simp: fh_poly_def Let_def quiet_def bound_def resolved_def bind_input_def)
qed

lemma spec_lookup:
  "spec (haze_protocol E z) {EpochMutex} (\<lambda>s. bound D (hz_epoch s)) (lookup_or_create_t E a)
     (\<lambda>r s. resolved D a r (hz_epoch s))"
  unfolding lookup_or_create_t_def
proof (rule spec_bind)
  show "spec (haze_protocol E z) {EpochMutex} (\<lambda>s. bound D (hz_epoch s))
      (act (\<lambda>s. (poly_map (hz_epoch s) a, s)))
      (\<lambda>r s. bound D (hz_epoch s) \<and> r = poly_map (hz_epoch s) a)"
    by (rule spec_session_act) simp
next
  fix r :: "'a option"
  let ?B = "\<lambda>s. bound D (hz_epoch s)"
  have cfg: "spec (haze_protocol E z) {EpochMutex} ?B (cfg_t g) (\<lambda>_. ?B)" for g
    by (rule spec_cfg) (simp_all add: stable_epoch)
  have alloc: "spec (haze_protocol E z) {EpochMutex} ?B (alloc_t (extract_polynomial_components a rd)) (\<lambda>_. ?B)" for rd
    by (rule spec_alloc) (simp_all add: stable_epoch alloc_good_ops)
  have create: "spec (haze_protocol E z) {EpochMutex} ?B (bindp (cfg_t cfg_ring_dim) (\<lambda>rd.
      bindp (alloc_t (extract_polynomial_components a rd)) (\<lambda>r. case r of
        Inl e \<Rightarrow> Ret (if e = NoData then Inl SourceUnavailable else Inl e) | Inr v \<Rightarrow> act (f rd v))))
      (\<lambda>r s. resolved D a r (hz_epoch s))"
    if "\<And>rd v. spec (haze_protocol E z) {EpochMutex} ?B (act (f rd v)) (\<lambda>r s. resolved D a r (hz_epoch s))"
    for f :: "u64 \<Rightarrow> u64 list \<Rightarrow> ('a, 'b) haze \<Rightarrow> 'a expected \<times> ('a, 'b) haze"
    by (intro spec_bind [OF cfg] spec_bind [OF alloc])
      (use that in \<open>auto split: sum.split intro!: spec_ret simp: resolved_def\<close>)
  note create = create [OF under_fresh]
  show "spec (haze_protocol E z) {EpochMutex} (\<lambda>s. bound D (hz_epoch s) \<and> r = poly_map (hz_epoch s) a)
      (case r of Some p \<Rightarrow> Ret (Inr p) | None \<Rightarrow>
        bindp (cfg_t cfg_ring_dim) (\<lambda>ring_dim.
        bindp (alloc_t (extract_polynomial_components a ring_dim)) (\<lambda>r. case r of
           Inl e \<Rightarrow> Ret (if e = NoData then Inl SourceUnavailable else Inl e)
         | Inr components \<Rightarrow> act (\<lambda>s.
             let (poly, s2) = fh_poly E (FromData components ring_dim Evaluation) s;
                 name = ''haze_in_'' @ to_string (unat (input_counter (hz_epoch s2)));
                 s3 = upd_epoch (\<lambda>ep. ep\<lparr>input_counter := input_counter ep + 1\<rparr>) s2;
                 s4 = fh_emit (Tag (TagInput name poly)) s3
             in (Inr poly, upd_epoch (\<lambda>ep. ep\<lparr>poly_map := (poly_map ep)(a \<mapsto> poly),
                   input_addrs := insert a (input_addrs ep)\<rparr>) s4)))))
      (\<lambda>r s. resolved D a r (hz_epoch s))"
  proof (cases r)
    case (Some p)
    then show ?thesis
      by (simp only: option.case) (rule spec_ret, metis resolved_def domI)
  next
    case None
    then show ?thesis by (simp only: option.case) (rule spec_conseq [OF create], simp_all)
  qed
qed

lemma under_lookup_fine: "under E z (lookup_or_create_t E a) fine"
  by (rule spec_conseq [OF spec_lookup [of E z "{}"]]) (simp_all add: resolved_def bound_def)

lemma h2d_bind_eq: "h2d_bind a p ep = ep\<lparr>input_counter := input_counter ep + 1,
    poly_map := (poly_map ep)(a \<mapsto> p), pending_outputs := al_erase a (pending_outputs ep),
    input_addrs := insert a (input_addrs ep)\<rparr>"
  by (rule epoch.equality) (simp_all add: h2d_bind_def bind_input_def)

lemma under_tag_h2d: "under E z (tag_h2d_locked_t E a) fine"
  unfolding tag_h2d_locked_t_def
proof (intro under_bind [OF under_cfg] under_if under_ret under_bind_ok [OF under_alloc [OF alloc_good_ops(8)]] TrueI)
  fix rd v
  show "under E z (act (\<lambda>s.
            let (poly, s1) = fh_poly E (FromData v rd Evaluation) s;
                name = ''haze_in_'' @ to_string (unat (input_counter (hz_epoch s1)));
                s2 = upd_epoch (\<lambda>ep. ep\<lparr>input_counter := input_counter ep + 1\<rparr>) s1;
                s3 = fh_emit (Tag (TagInput name poly)) s2
            in (Inr (), upd_epoch (\<lambda>ep. ep\<lparr>poly_map := (poly_map ep)(a \<mapsto> poly),
                  pending_outputs := al_erase a (pending_outputs ep),
                  input_addrs := insert a (input_addrs ep)\<rparr>) s3))) fine"
    (is "under E z (act ?f) _")
  proof (rule under_act)
    fix s :: "('a, 'b) haze"
    assume "epoch_ok s"
    from epoch_inv_h2d_bind [OF this, of a] show "quiet s (snd (?f s)) \<and> epoch_ok (snd (?f s))"
      by (simp add: fh_poly_def Let_def quiet_def h2d_bind_eq)
  qed
qed

lemma store_dom: "dom (poly_map (store_compute_result_locked a p q ep)) = insert a (dom (poly_map ep))"
  by (auto simp: store_compute_result_locked_def)

lemma spec_copy_result:
  "spec (haze_protocol E z) {EpochMutex} (\<lambda>s. bound D (hz_epoch s)) (copy_result_t E dst src q)
     (\<lambda>r s. resolved D dst r (hz_epoch s))"
  unfolding copy_result_t_def
proof (rule spec_bind_ok [OF spec_lookup])
  fix p
  have "spec (haze_protocol E z) {EpochMutex} (\<lambda>s. bound (insert src D) (hz_epoch s))
      (act (\<lambda>s1.
         let q' = (if q = kCopyModulus then recorded_modulus_locked src (hz_epoch s1) else q);
             (cpy, s2) = fh_poly E (SrPS SrAddps p 0 kCopyModulus) s1;
             s3 = (if q' \<noteq> kCopyModulus then
                     upd_epoch (\<lambda>ep. ep\<lparr>addr_modulus := (addr_modulus ep)(src \<mapsto> q')\<rparr>)
                       (fh_emit (BindModulus cpy q') (fh_emit (BindModulus p q') s2))
                   else s2)
         in (Inr (), upd_epoch (store_compute_result_locked dst cpy q') s3)))
      (\<lambda>r s. resolved D dst r (hz_epoch s))"
    by (rule spec_session_act)
      (auto simp: fh_poly_def Let_def quiet_def bound_def resolved_def epoch_inv_store epoch_inv_modulus
        store_dom)
  then show "spec (haze_protocol E z) {EpochMutex} (\<lambda>s. resolved D src (Inr p) (hz_epoch s))
      (act (\<lambda>s1.
         let q' = (if q = kCopyModulus then recorded_modulus_locked src (hz_epoch s1) else q);
             (cpy, s2) = fh_poly E (SrPS SrAddps p 0 kCopyModulus) s1;
             s3 = (if q' \<noteq> kCopyModulus then
                     upd_epoch (\<lambda>ep. ep\<lparr>addr_modulus := (addr_modulus ep)(src \<mapsto> q')\<rparr>)
                       (fh_emit (BindModulus cpy q') (fh_emit (BindModulus p q') s2))
                   else s2)
         in (Inr (), upd_epoch (store_compute_result_locked dst cpy q') s3)))
      (\<lambda>r s. resolved D dst r (hz_epoch s))"
    by (rule spec_conseq) (simp_all add: resolved_def bound_def)
qed (simp add: resolved_def)

section \<open>Compute\<close>

text \<open>\<open>free_law E z p\<close>: entered without a mutex, from any state.\<close>

abbreviation free_law :: "('p, 'm) fh_env \<Rightarrow> bool \<Rightarrow> ('p, 'm, 'a) thread \<Rightarrow> bool" where
  "free_law E z p \<equiv> spec (haze_protocol E z) {} (\<lambda>_. True) p (\<lambda>_ _. True)"

lemmas under_steps = under_bind [OF under_cfg] under_bind_ok [OF under_lookup_fine] under_if under_ret TrueI

lemma law_compute:
  "free_law E z (binary_pp_t E f1 d a b i)"
  "free_law E z (binary_ps_t E f2 d a x i)"
  "free_law E z (unary_pq_t E f3 d a i)"
  "free_law E z (unary_pi_t E d a k)"
  unfolding binary_pp_t_def binary_ps_t_def unary_pq_t_def unary_pi_t_def
  by (intro spec_session under_steps under_act;
      simp add: fh_poly_def Let_def quiet_def epoch_inv_store)+

section \<open>Multi-residue operations\<close>

lemma under_build_pairs: "under E z (build_pairs_t E ps) fine"
proof (induction ps)
  case (Cons x ps)
  then show ?case
    by (cases x) (simp only: build_pairs_t.simps, intro under_bind_ok [OF Cons.IH] under_steps)
qed (simp only: build_pairs_t.simps, rule under_ret, rule TrueI)

lemma tag_mrp_input_quiet:
  assumes "epoch_ok t" and "quiet s t"
  shows "epoch_ok (tag_mrp_input_if_new_locked n m t) \<and> quiet s (tag_mrp_input_if_new_locked n m t)"
  using assms by (simp add: tag_mrp_input_if_new_locked_def quiet_emit_trans)

lemma under_build_mrp: "under E z (build_mrp_t E ps base) fine"
  unfolding build_mrp_t_def
proof (intro under_bind_ok [OF under_build_pairs] under_act TrueI)
  fix pairs and s :: "('a, 'b) haze"
  assume ok: "epoch_ok s"
  obtain n ep where n: "mrp_group_name_locked False (to_dev_addr (hd ps)) (hz_epoch s) = (n, ep)"
    by (rule prod.exhaust)
  have "epoch_ok (upd_epoch (\<lambda>_. ep) s)"
    using epoch_inv_group_name [OF ok, of False "to_dev_addr (hd ps)"] n by simp
  from tag_mrp_input_quiet [OF this, of s n "mrp_from_pairs E pairs"]
  show "quiet s (snd (let mrp = mrp_from_pairs E pairs; front = to_dev_addr (hd ps) in (Inr mrp,
        if 1 < length base \<and> is_input_locked front (hz_epoch s) then
          case mrp_group_name_locked False front (hz_epoch s) of
            (group_name, ep) \<Rightarrow> tag_mrp_input_if_new_locked group_name mrp (upd_epoch (\<lambda>_. ep) s)
        else s))) \<and>
      epoch_ok (snd (let mrp = mrp_from_pairs E pairs; front = to_dev_addr (hd ps) in (Inr mrp,
        if 1 < length base \<and> is_input_locked front (hz_epoch s) then
          case mrp_group_name_locked False front (hz_epoch s) of
            (group_name, ep) \<Rightarrow> tag_mrp_input_if_new_locked group_name mrp (upd_epoch (\<lambda>_. ep) s)
        else s)))"
    using ok n by (simp add: Let_def)
qed

lemma inits_frame: "hz_trace t = hz_trace s \<Longrightarrow> inits t = inits s"
  by (simp add: inits_def)

lemma store_mrp_quiet:
  "epoch_ok t \<Longrightarrow> quiet s t \<Longrightarrow>
   quiet s (snd (store_mrp_locked E d m b t)) \<and> epoch_ok (snd (store_mrp_locked E d m b t))"
  by (simp add: quiet_def frame_simps epoch_inv_store_mrp
      inits_frame [of "snd (store_mrp_locked E d m b t)" t])

lemma under_mr_store: "\<not> is_init c \<Longrightarrow> under E z (mr_store_t E c d base) fine"
  unfolding mr_store_t_def
  by (rule under_act) (simp add: fh_mrp_def store_mrp_quiet epoch_inv_store_mrp quiet_emit)

lemmas under_group_steps = under_bind_ok [OF under_build_mrp] under_mr_store under_ret TrueI

lemma law_groups:
  "free_law E z (binary_pp_mrp_t E f1 d a b base)"
  "free_law E z (binary_ps_mrp_t E f2 d a ss base)"
  "free_law E z (unary_p_mrp_t E f3 d a base)"
  "free_law E z (unary_pi_mrp_t E f4 d a k base)"
  unfolding binary_pp_mrp_t_def binary_ps_mrp_t_def unary_p_mrp_t_def unary_pi_mrp_t_def
  by (intro spec_session under_group_steps; simp)+

section \<open>Basis conversion\<close>

lemma under_fbc_options: "under E z fbc_options_t fine"
  unfolding fbc_options_t_def by (intro under_bind [OF under_cfg] under_ret TrueI)

lemma under_mod_up_digits: "under E z (mod_up_digits_t E d x tb i ds) fine"
proof (induction ds arbitrary: i)
  case (Cons db ds)
  have sub: "under E z (act (fh_mrp E (MrSubset x db))) fine"
    by (rule under_act) (simp add: fh_mrp_def quiet_def)
  have store: "under E z (act (\<lambda>s. case fh_mrp E (FastBaseConvert m tb v sh) s of (digit, s1) \<Rightarrow>
      let d_base = mrp_base E digit in store_mrp_locked E (drop (i * length d_base) d) digit d_base s1)) fine"
    for m v sh
    by (rule under_act) (simp add: fh_mrp_def Let_def store_mrp_quiet epoch_inv_store_mrp quiet_emit)
  show ?case
    unfolding mod_up_digits_t.simps
    by (intro under_bind [OF sub] under_bind [OF under_fbc_options], split prod.split)
      (intro allI impI under_bind_ok [OF store] Cons.IH TrueI)
qed (simp only: mod_up_digits_t.simps, rule under_ret, rule TrueI)

text \<open>The only undefined behaviour: digit slices that run past the array the caller passed.\<close>

definition slices_fit :: "hazeModUpParams \<Rightarrow> bool" where
  "slices_fit p \<longleftrightarrow> slice_digits (base_of (mu_digit_bases p) (mu_digit_bases_total_len p)) 0
     (base_of (mu_digit_base_lens p) (mu_digit_count p)) \<noteq> None"

lemma law_conversions:
  "free_law E z (basis_convert_t E d a p1)"
  "free_law E z (mod_down_t E d a p2)"
  by (auto simp: basis_convert_t_def mod_down_t_def Let_def split: sum.split prod.split
      intro!: spec_ret spec_session under_group_steps under_bind [OF under_fbc_options])

lemma law_mod_up: "z \<or> slices_fit p \<Longrightarrow> free_law E z (mod_up_t E d a p)"
  by (auto simp: mod_up_t_def Let_def slices_fit_def split: sum.split option.split
      intro!: spec_ret spec_session under_group_steps spec_undefined under_mod_up_digits [simplified])

section \<open>Transfers\<close>

lemma copy_to_host_step:
  "copy_to_host_entry h a n s = Some (r, s') \<Longrightarrow> \<exists>hm. s' = s\<lparr>hz_host := hm\<rparr>"
  by (auto simp: copy_to_host_entry_def split: option.splits)

lemma spec_act_partial:
  assumes "stable P H A"
    and "\<And>s. A s \<Longrightarrow> f s = None \<Longrightarrow> ub P \<and> agree P (- H) s s"
    and "\<And>s x s'. A s \<Longrightarrow> f s = Some (x, s') \<Longrightarrow> agree P (- H) s s' \<and> B x s'"
  shows "spec P H A (act_partial f) B"
  unfolding spec_def act_partial_def
proof (intro allI impI)
  fix s assume A: "A s"
  show "safe P (Act (\<lambda>s. case f s of None \<Rightarrow> s | Some (x, s1) \<Rightarrow> s1)
     (\<lambda>s. case f s of None \<Rightarrow> Undefined | Some (x, s1) \<Rightarrow> Ret x)) H (\<lambda>G x s'. G = H \<and> B x s') s"
  proof (simp, intro allI impI)
    fix s' assume "agree P H s s'"
    with A assms(1) have "A s'" unfolding stable_def by blast
    with assms(2,3) [of s'] show "agree P (- H) s' (case f s' of None \<Rightarrow> s' | Some (x, s1) \<Rightarrow> s1) \<and>
        safe P (case f s' of None \<Rightarrow> Undefined | Some (x, s1) \<Rightarrow> Ret x) H (\<lambda>G x s'. G = H \<and> B x s')
          (case f s' of None \<Rightarrow> s' | Some (x, s1) \<Rightarrow> s1)"
      by (auto split: option.split)
  qed
qed

lemma law_d2h: "free_law E z (d2h_t h a n)"
  unfolding d2h_t_def
proof (rule spec_guard [OF stable_True])
  have st: "stable (haze_protocol E z) {AllocMutex} (\<lambda>s. alloc_ok z (hz_alloc s))"
    by (simp add: stable_def agree_def)
  have "spec (haze_protocol E z) {AllocMutex} (\<lambda>s. alloc_ok z (hz_alloc s))
      (act_partial (copy_to_host_entry h a n)) (\<lambda>x s. alloc_ok z (hz_alloc s))"
  proof (rule spec_act_partial [OF st])
    fix s :: "('a, 'b) haze"
    assume ok: "alloc_ok z (hz_alloc s)" and "copy_to_host_entry h a n s = None"
    then have "copy_to_host (hz_host s) h a n (hz_alloc s) = None"
      by (auto simp: copy_to_host_entry_def split: option.splits)
    with ok have z using sized_copy_to_host [of "hz_alloc s" "hz_host s" h a n] by (auto simp: alloc_ok_def)
    then show "ub (haze_protocol E z) \<and> agree (haze_protocol E z) (- {AllocMutex}) s s"
      by (simp add: haze_locks.agree_refl)
  next
    fix s s' :: "('a, 'b) haze" and x
    assume ok: "alloc_ok z (hz_alloc s)" and "copy_to_host_entry h a n s = Some (x, s')"
    from copy_to_host_step [OF this(2)] obtain hm where s': "s' = s\<lparr>hz_host := hm\<rparr>" ..
    have "guarded l s s'" for l by (cases l) (simp_all add: s')
    with ok show "agree (haze_protocol E z) (- {AllocMutex}) s s' \<and> alloc_ok z (hz_alloc s')"
      by (simp add: agree_def s')
  qed
  then show "spec (haze_protocol E z) (insert AllocMutex {}) (\<lambda>s. True \<and> linv (haze_protocol E z) AllocMutex s)
      (act_partial (copy_to_host_entry h a n)) (\<lambda>x s. linv (haze_protocol E z) AllocMutex s \<and> True)"
    by simp
qed simp

lemma law_alloc: "alloc_good z f \<Longrightarrow> free_law E z (alloc_t f)"
  by (rule spec_alloc [OF stable_True]) simp_all

lemma law_h2d: "free_law E z (h2d_t d h n)"
  unfolding h2d_t_def
proof (rule spec_alloc_step [OF stable_True])
  fix s :: "('a, 'b) haze"
  assume ok: "alloc_ok z (hz_alloc s)"
  obtain r al where c: "copy_h2d (hz_host s) d h n (hz_alloc s) = (r, al)" by (rule prod.exhaust)
  have "alloc_good z (copy_h2d (hz_host s) d h n)"
    by (rule alloc_goodI) (simp_all add: alloc_inv_writes fits_copy_h2d)
  then have "alloc_ok z al \<and> poly_bytes al = poly_bytes (hz_alloc s)"
    using ok c by (auto simp: alloc_good_def)
  with c show "\<exists>al. snd (case copy_h2d (hz_host s) d h n (hz_alloc s) of
        (r, al) \<Rightarrow> (r, upd_alloc (\<lambda>_. al) s)) = upd_alloc (\<lambda>_. al) s \<and>
      alloc_ok z al \<and> poly_bytes al = poly_bytes (hz_alloc s)" by auto
qed simp

lemma law_bind_ok: "free_law E z p \<Longrightarrow> (\<And>x. free_law E z (k x)) \<Longrightarrow> free_law E z (bind_ok p k)"
  by (rule spec_bind_ok) simp_all

lemma law_bind: "free_law E z p \<Longrightarrow> (\<And>x. free_law E z (k x)) \<Longrightarrow> free_law E z (bindp p k)"
  by (rule spec_bind) simp_all

lemma law_ret: "free_law E z (Ret x)"
  by (rule spec_ret) simp

lemma law_upload: "free_law E z (upload_t E d h n)"
  unfolding upload_t_def by (intro law_bind_ok law_h2d spec_session under_tag_h2d)

lemma law_h2d_writes: "free_law E z (h2d_writes_t ps n)"
proof (induction ps)
  case (Cons x ps)
  then show ?case by (cases x) (simp only: h2d_writes_t.simps, intro law_bind_ok law_h2d)
qed (simp only: h2d_writes_t.simps law_ret)

lemma under_h2d_tags: "under E z (h2d_tags_t E ds) fine"
proof (induction ds)
  case (Cons d ds)
  then show ?case
    by (simp only: h2d_tags_t.simps) (intro under_bind_ok under_tag_h2d TrueI)
qed (simp only: h2d_tags_t.simps, rule under_ret, rule TrueI)

lemma law_upload_mrp: "free_law E z (upload_mrp_t E ds hs n)"
  unfolding upload_mrp_t_def by (intro law_bind_ok law_h2d_writes spec_session under_h2d_tags)

lemma law_download_mrp: "free_law E z (download_mrp_t ps n)"
proof (induction ps)
  case (Cons x ps)
  then show ?case by (cases x) (simp only: download_mrp_t.simps, intro law_bind_ok law_d2h)
qed (simp only: download_mrp_t.simps law_ret)

lemma law_copy: "free_law E z (copy_t E d a)"
  unfolding copy_t_def
  by (rule spec_session, rule spec_conseq [OF spec_copy_result [of E z "{}"]])
    (simp_all add: bound_def resolved_def)

lemma spec_copy_residues:
  "spec (haze_protocol E z) {EpochMutex} (\<lambda>s. bound D (hz_epoch s)) (copy_residues_t E ps)
     (\<lambda>r s. bound (if r = Inr () then D \<union> to_dev_addr ` fst ` set ps else {}) (hz_epoch s))"
proof (induction ps arbitrary: D)
  case Nil
  then show ?case by (simp only: copy_residues_t.simps) (rule spec_ret, simp)
next
  case (Cons x ps)
  obtain d h q where x: "x = (d, h, q)" by (rule prod_cases3)
  show ?case
    unfolding x copy_residues_t.simps
  proof (rule spec_bind_ok [OF spec_copy_result])
    show "spec (haze_protocol E z) {EpochMutex} (\<lambda>s. resolved D (to_dev_addr d) (Inr u) (hz_epoch s))
        (copy_residues_t E ps) (\<lambda>r s. bound (if r = Inr ()
          then D \<union> to_dev_addr ` fst ` set ((d, h, q) # ps) else {}) (hz_epoch s))" for u :: unit
      by (rule spec_conseq [OF Cons.IH [of "insert (to_dev_addr d) D"]])
        (auto simp: resolved_def bound_def split: if_splits)
  qed (simp add: resolved_def bound_def)
qed

lemma under_register_outputs:
  "spec (haze_protocol E z) {EpochMutex} (\<lambda>s. bound (set as) (hz_epoch s))
     (act (register_outputs as base)) (\<lambda>r s. epoch_ok s \<and> True)"
proof (rule spec_session_act)
  fix s :: "('a, 'b) haze"
  assume "bound (set as) (hz_epoch s)"
  then have "epoch_inv (hz_epoch s)" and "set as \<subseteq> dom (poly_map (hz_epoch s))"
    by (simp_all add: bound_def)
  then have "epoch_ok (snd (register_outputs as base s))" by (rule epoch_inv_register_outputs)
  moreover have "quiet s (snd (register_outputs as base s))"
    unfolding quiet_def
    using register_outputs_frame [of as base s] inits_frame [of "snd (register_outputs as base s)" s]
    by blast
  ultimately show "quiet s (snd (register_outputs as base s)) \<and>
      epoch_ok (snd (register_outputs as base s)) \<and> True" by blast
qed

lemma law_copy_mrp: "free_law E z (copy_mrp_t E d a base)"
  unfolding copy_mrp_t_def
proof (rule spec_session)
  let ?ps = "zip d (zip a base)"
  let ?as = "map (\<lambda>(d, _). to_dev_addr d) ?ps"
  have dst: "set ?as = to_dev_addr ` fst ` set ?ps"
    by (force simp: image_image)
  show "under E z (bind_ok (copy_residues_t E ?ps) (\<lambda>_. act (register_outputs ?as base))) fine"
  proof (rule spec_bind_ok)
    show "spec (haze_protocol E z) {EpochMutex} epoch_ok (copy_residues_t E ?ps)
       (\<lambda>r s. bound (if r = Inr () then {} \<union> to_dev_addr ` fst ` set ?ps else {}) (hz_epoch s))"
      by (rule spec_conseq [OF spec_copy_residues [of E z "{}"]]) (simp_all add: bound_def)
  next
    fix u :: unit
    show "spec (haze_protocol E z) {EpochMutex}
        (\<lambda>s. bound (if Inr u = Inr () then {} \<union> to_dev_addr ` fst ` set ?ps else {}) (hz_epoch s))
        (act (register_outputs ?as base)) (\<lambda>r s. epoch_ok s \<and> True)"
      by (rule spec_conseq [OF under_register_outputs]) (simp_all only: dst, simp_all)
  qed (simp add: bound_def)
qed

section \<open>Finalising, memory and configuration\<close>

lemma quiet_tags: "filter is_init cs = [] \<Longrightarrow> quiet s (s\<lparr>hz_trace := hz_trace s @ cs\<rparr>)"
  by (simp add: quiet_def)

lemma output_tags_no_init: "filter is_init (output_tags E ep) = []"
  by (auto simp: output_tags_def filter_empty_conv)

lemma quiet_clear: "quiet s t \<Longrightarrow> quiet s (clear_state_locked t)"
  by (simp add: quiet_def inits_def)

lemma quiet_stop:
  "quiet s t \<Longrightarrow> quiet s (snd (stop_epoch E t))"
  "hz_epoch (snd (stop_epoch E t)) = hz_epoch t"
  "quiet s t \<Longrightarrow> quiet s (snd (backend_replay E t))"
  "hz_epoch (snd (backend_replay E t)) = hz_epoch t"
  by (simp_all add: stop_epoch_def backend_replay_def fh_bool_def quiet_def)

lemma finalize_front_quiet:
  assumes "epoch_ok s"
  shows "quiet s (snd (finalize_front E rr s)) \<and> epoch_ok (snd (finalize_front E rr s))"
proof -
  let ?s1 = "s\<lparr>hz_trace := hz_trace s @ output_tags E (hz_epoch s)\<rparr>"
  have s1: "quiet s ?s1" by (rule quiet_tags [OF output_tags_no_init])
  obtain ok s2 where st: "stop_epoch E ?s1 = (ok, s2)" by (rule prod.exhaust)
  then have s2: "quiet s s2" "hz_epoch s2 = hz_epoch s"
    using quiet_stop(1) [OF s1, of E] quiet_stop(2) [of E ?s1] by simp_all
  let ?s3 = "s2\<lparr>hz_hook_had_error := False\<rparr>"
  obtain ok' s4 where rp: "backend_replay E ?s3 = (ok', s4)" by (rule prod.exhaust)
  then have s4: "quiet s s4" "hz_epoch s4 = hz_epoch s"
    using quiet_stop(3) [of s ?s3 E] quiet_stop(4) [of E ?s3] s2 by (simp_all add: quiet_host)
  show ?thesis
    using assms s1 s2 s4
    by (simp add: finalize_front_def tag_pending_outputs_ok [OF assms] st rp
        hazeReplayBridgeTakeHookHadError_def quiet_clear quiet_host epoch_inv_init split: bool.split)
qed

lemma under_populate: "under E z (populate_t E outs) fine"
proof (induction outs)
  case (Cons x outs)
  obtain a n where x: "x = (a, n)" by (rule prod.exhaust)
  have read: "under E z (act (\<lambda>s. case fhetch_result E n s of
         (None, s1) \<Rightarrow> (Inl BackendOutputMissing, s1)
       | (Some result_poly, s1) \<Rightarrow>
           (case extract_polynomial_values E result_poly s1 of
              None \<Rightarrow> (Inl BackendOutputDecodeFailed, s1)
            | Some values \<Rightarrow> (Inr values, s1)))) fine"
    by (rule under_act)
      (auto simp: fhetch_result_def fh_poly_def Let_def quiet_def split: option.split prod.split)
  show ?case
    unfolding x populate_t.simps
    by (intro under_bind_ok [OF read] under_bind_ok [OF under_alloc [OF alloc_good_ops(2)]] Cons.IH TrueI)
qed (simp only: populate_t.simps, rule under_ret, rule TrueI)

lemma law_epoch_guard: "under E z p fine \<Longrightarrow> free_law E z (guard EpochMutex p)"
  by (rule spec_guard [OF stable_True]) simp_all

lemma law_finalize: "free_law E z (finalize_t E rr)"
  unfolding finalize_t_def
proof (intro law_epoch_guard under_bind [OF under_act])
  fix s :: "('a, 'b) haze"
  assume "epoch_ok s"
  then show "quiet s (snd (finalize_front E rr s)) \<and> epoch_ok (snd (finalize_front E rr s))"
    by (rule finalize_front_quiet)
next
  fix r :: "unit expected + (DevAddr \<times> string) list"
  have clear: "under E z (act (\<lambda>s. ((), clear_state_locked s))) fine"
    by (rule under_act) (simp add: quiet_clear epoch_inv_init)
  show "under E z (case r of Inl result \<Rightarrow> Ret result | Inr outs \<Rightarrow>
      bindp (populate_t E outs) (\<lambda>result. bindp (act (\<lambda>s. ((), clear_state_locked s))) (\<lambda>_. Ret result))) fine"
    by (cases r; simp only: sum.case)
      (intro under_bind [OF under_populate] under_bind [OF clear] under_ret TrueI)+
qed

lemma law_cfg: "free_law E z (cfg_t g)"
  by (rule spec_cfg [OF stable_True]) simp

lemma law_if: "free_law E z p \<Longrightarrow> free_law E z q \<Longrightarrow> free_law E z (if c then p else q)"
  by simp

lemma law_flush: "free_law E z (flush_t E)"
  unfolding flush_t_def by (intro law_bind law_cfg law_if law_ret law_finalize)

lemma law_epoch:
  assumes "\<And>ep. epoch_inv ep \<Longrightarrow> epoch_inv (snd (f ep))"
  shows "free_law E z (epoch_t f)"
  unfolding epoch_t_def
proof (intro law_epoch_guard under_act)
  fix s :: "('a, 'c) haze"
  assume "epoch_ok s"
  from assms [OF this] show "quiet s (snd (case f (hz_epoch s) of (r, ep) \<Rightarrow> (r, upd_epoch (\<lambda>_. ep) s))) \<and>
      epoch_ok (snd (case f (hz_epoch s) of (r, ep) \<Rightarrow> (r, upd_epoch (\<lambda>_. ep) s)))"
    by (cases "f (hz_epoch s)") simp
qed

lemma law_invalidate: "free_law E z (epoch_t (\<lambda>ep. (r, invalidate a ep)))"
  by (rule law_epoch) (simp add: epoch_inv_invalidate)

lemma law_free: "free_law E z (free_t p)"
  unfolding free_t_def by (intro law_bind law_if law_ret law_invalidate law_alloc alloc_good_ops)

lemma law_invalidates: "free_law E z (invalidates_t ps)"
proof (induction ps)
  case (Cons p ps)
  show ?case
    unfolding invalidates_t.simps by (intro law_bind law_if law_ret law_invalidate Cons.IH)
qed (simp only: invalidates_t.simps law_ret)

lemma law_free_mrp: "free_law E z (free_mrp_t ps)"
  unfolding free_mrp_t_def by (intro law_bind law_invalidates law_alloc alloc_good_ops)

lemma law_memset: "free_law E z (memset_t a v n)"
  unfolding memset_t_def by (intro law_bind_ok law_alloc law_invalidate alloc_good_ops)

lemma law_tag_output: "free_law E z (epoch_t (tag_output_locked a))"
  by (rule law_epoch) (rule epoch_inv_tag_output)

text \<open>A setter keeps the agreement of the configuration with the polynomial size.\<close>

lemma law_cfg_set:
  assumes "\<And>c b. cfg_ok c b \<Longrightarrow> cfg_ok (snd (f c)) b"
  shows "free_law E z (cfg_set_t f)"
  unfolding cfg_set_t_def
proof (rule spec_guard [OF stable_True])
  have "spec (haze_protocol E z) {ConfigMutex} (promise E z ConfigMutex)
      (act (\<lambda>s. case f (hz_config s) of (r, c) \<Rightarrow> (r, s\<lparr>hz_config := c\<rparr>)))
      (\<lambda>x. promise E z ConfigMutex)"
  proof (rule spec_act)
    fix s :: "('a, 'b) haze"
    assume s: "promise E z ConfigMutex s"
    obtain r c where f: "f (hz_config s) = (r, c)" by (rule prod.exhaust)
    have "guarded l s (s\<lparr>hz_config := c\<rparr>)" if "l \<noteq> ConfigMutex" for l
      using that by (cases l) simp_all
    with assms [of "hz_config s" "poly_bytes (hz_alloc s)"] s f
    show "agree (haze_protocol E z) (- {ConfigMutex}) s
          (snd (case f (hz_config s) of (r, c) \<Rightarrow> (r, s\<lparr>hz_config := c\<rparr>))) \<and>
        promise E z ConfigMutex (snd (case f (hz_config s) of (r, c) \<Rightarrow> (r, s\<lparr>hz_config := c\<rparr>)))"
      by (simp add: agree_def)
  qed (simp add: stable_def agree_def)
  then show "spec (haze_protocol E z) (insert ConfigMutex {})
      (\<lambda>s. True \<and> linv (haze_protocol E z) ConfigMutex s)
      (act (\<lambda>s. case f (hz_config s) of (r, c) \<Rightarrow> (r, s\<lparr>hz_config := c\<rparr>)))
      (\<lambda>x s. linv (haze_protocol E z) ConfigMutex s \<and> True)"
    by (simp only: haze_protocol_simps simp_thms)
qed simp

lemma cfg_ok_setters:
  assumes "cfg_ok c b"
  shows "cfg_ok (snd (set_modulus i q c)) b"
    and "cfg_ok (snd (set_twiddle_generator i q c)) b"
    and "cfg_ok (snd (configure_device c)) b"
    and "cfg_ok (snd (set_program_info a1 a2 a3 c)) b"
    and "cfg_ok (snd (set_target a1 c)) b"
    and "cfg_ok (snd (set_program_directory a1 c)) b"
    and "cfg_ok (snd (r, set_montgomery y c)) b"
    and "cfg_ok (snd (r, set_bit_reversal y c)) b"
    and "cfg_ok (snd (r, set_reduced_noise y c)) b"
proof -
  show "cfg_ok (snd (set_modulus i q c)) b"
    using assms set_modulus_cases [of i q c] set_update_subset_insert [of "cf_moduli c" "nat i" q]
    by (auto simp: cfg_ok_def)
qed (use assms in \<open>auto simp: cfg_ok_def set_twiddle_generator_def configure_device_def
      set_program_info_def set_target_def set_program_directory_def set_montgomery_def
      set_bit_reversal_def set_reduced_noise_def Let_def split: option.splits\<close>)

text \<open>
  The ring dimension: between its two writes the configuration and the allocator disagree,
  behind the configuration's mutex.
\<close>

definition ring_set :: "u64 \<Rightarrow> ('p, 'm) haze \<Rightarrow> bool" where
  "ring_set n s \<longleftrightarrow> cfg_ok (hz_config s) (n * 8)"

lemma spec_resize:
  "spec (haze_protocol E True) {ConfigMutex} (ring_set n)
     (alloc_t (\<lambda>al. ((), set_polynomial_size (n * 8) al))) (\<lambda>_. promise E True ConfigMutex)"
  unfolding alloc_t_def
proof (rule spec_guard)
  have st: "stable (haze_protocol E True) H (ring_set n)" if "ConfigMutex \<in> H" for H
    using that by (auto simp: stable_def agree_def ring_set_def dest!: bspec [of H _ ConfigMutex])
  then show "stable (haze_protocol E True) {ConfigMutex} (ring_set n)" by simp
  show "\<forall>h \<in> {ConfigMutex}. lock_rank h < lock_rank AllocMutex" by simp
  show "spec (haze_protocol E True) (insert AllocMutex {ConfigMutex})
      (\<lambda>s. ring_set n s \<and> linv (haze_protocol E True) AllocMutex s)
      (act (\<lambda>s. case ((), set_polynomial_size (n * 8) (hz_alloc s)) of (r, al) \<Rightarrow> (r, upd_alloc (\<lambda>_. al) s)))
      (\<lambda>x s. linv (haze_protocol E True) AllocMutex s \<and> promise E True ConfigMutex s)"
  proof (rule spec_act)
    show "stable (haze_protocol E True) (insert AllocMutex {ConfigMutex})
        (\<lambda>s. ring_set n s \<and> linv (haze_protocol E True) AllocMutex s)"
      by (intro stable_conj st) (simp_all add: stable_def agree_def)
  next
    fix s :: "('a, 'b) haze"
    assume s: "ring_set n s \<and> linv (haze_protocol E True) AllocMutex s"
    let ?al = "set_polynomial_size (n * 8) (hz_alloc s)"
    have al: "alloc_inv ?al" "poly_bytes ?al = n * 8"
      using s alloc_inv_set_polynomial_size by (auto simp: alloc_ok_def set_polynomial_size_def)
    have "guarded l s (upd_alloc (\<lambda>_. ?al) s)" if "l \<noteq> AllocMutex" "l \<noteq> ConfigMutex" for l
      using that by (cases l) simp_all
    with al s show "agree (haze_protocol E True) (- insert AllocMutex {ConfigMutex}) s
          (snd (case ((), ?al) of (r, al) \<Rightarrow> (r, upd_alloc (\<lambda>_. al) s))) \<and>
        linv (haze_protocol E True) AllocMutex (snd (case ((), ?al) of (r, al) \<Rightarrow> (r, upd_alloc (\<lambda>_. al) s))) \<and>
        promise E True ConfigMutex (snd (case ((), ?al) of (r, al) \<Rightarrow> (r, upd_alloc (\<lambda>_. al) s)))"
      by (simp add: agree_def alloc_ok_def ring_set_def)
  qed
qed

lemma law_set_ring: "free_law E True (set_ring_dimension_t n)"
proof (cases "is_supported_ring_dim n")
  case True
  then have n0: "n \<noteq> 0" by (auto simp: is_supported_ring_dim_def)
  let ?f = "\<lambda>s :: ('a, 'b) haze. if cf_configured (hz_config s) \<and> cf_ring_dim (hz_config s) \<noteq> n
      then (False, s) else (True, s\<lparr>hz_config := (hz_config s)\<lparr>cf_ring_dim := n\<rparr>\<rparr>)"
  have set: "spec (haze_protocol E True) {ConfigMutex} (promise E True ConfigMutex) (act ?f)
      (\<lambda>ok s. if ok then ring_set n s else promise E True ConfigMutex s)"
  proof (rule spec_act)
    fix s :: "('a, 'b) haze"
    assume s: "promise E True ConfigMutex s"
    have "guarded l s (snd (?f s))" if "l \<noteq> ConfigMutex" for l
      using that by (cases l) simp_all
    with s True n0 show "agree (haze_protocol E True) (- {ConfigMutex}) s (snd (?f s)) \<and>
        (if fst (?f s) then ring_set n (snd (?f s)) else promise E True ConfigMutex (snd (?f s)))"
      by (auto simp: agree_def ring_set_def cfg_ok_def)
  qed (simp add: stable_def agree_def)
  have rest: "spec (haze_protocol E True) {ConfigMutex}
      (\<lambda>s. if ok then ring_set n s else promise E True ConfigMutex s)
      (if \<not> ok then Ret (Inl NotConfigured)
       else bindp (alloc_t (\<lambda>al. ((), set_polynomial_size (n * 8) al))) (\<lambda>_. Ret (Inr ())))
      (\<lambda>_. promise E True ConfigMutex)" for ok
    by (cases ok; simp only: if_True if_False simp_thms not_False_eq_True)
      (intro spec_bind [OF spec_resize] spec_ret, assumption | intro spec_ret, assumption)+
  have "spec (haze_protocol E True) {} (\<lambda>_. True) (guard ConfigMutex (bindp (act ?f) (\<lambda>ok.
      if \<not> ok then Ret (Inl NotConfigured)
      else bindp (alloc_t (\<lambda>al. ((), set_polynomial_size (n * 8) al))) (\<lambda>_. Ret (Inr ()))))) (\<lambda>_ _. True)"
    by (rule spec_guard [OF stable_True])
      (simp, use spec_bind [OF set rest] in \<open>simp only: haze_protocol_simps simp_thms\<close>)
  with True show ?thesis by (simp add: set_ring_dimension_t_def)
qed (simp add: set_ring_dimension_t_def law_ret)

section \<open>Every call\<close>

text \<open>
  What a call may do while other threads run. Where the polynomial size stays as it is
  (\<open>\<not> resize\<close>), no call has undefined behaviour once its digit slices fit. A device reset is
  never permitted: it takes the mutexes one after the other and keeps no promise in between.
\<close>

fun permitted :: "bool \<Rightarrow> lib_call \<Rightarrow> bool" where
  "permitted resize Reset \<longleftrightarrow> False"
| "permitted resize (SetRing n) \<longleftrightarrow> resize"
| "permitted resize (Run (Group (MUp d a p))) \<longleftrightarrow> resize \<or> slices_fit p"
| "permitted resize c \<longleftrightarrow> True"

lemma law_plain: "free_law E z p \<Longrightarrow> free_law E z (plain p)"
  unfolding plain_def by (intro law_bind_ok law_ret)

lemma law_instr: "permitted z (Run i) \<Longrightarrow> free_law E z (instr_t E i)"
  by (cases "(E, i)" rule: instr_t.cases)
    (simp_all add: law_compute law_copy law_groups law_conversions law_copy_mrp law_mod_up)

lemma law_handles: "free_law E z (lib_t E StreamCreate)" "free_law E z (lib_t E EventCreate)"
proof -
  have g: "guarded l s (s\<lparr>hz_next_stream_id := i\<rparr>) \<and> guarded l s (s\<lparr>hz_next_event_id := i\<rparr>)"
    for l i and s :: "('a, 'b) haze" by (cases l) (simp_all add: inits_def)
  show "free_law E z (lib_t E StreamCreate)" "free_law E z (lib_t E EventCreate)"
    unfolding lib_t.simps
    by (rule spec_act [OF stable_True]; simp add: stream_create_def event_create_def agree_def g)+
qed

lemma law_attributes: "free_law E z (lib_t E (Attributes p))"
  unfolding lib_t.simps
  by (rule law_alloc) (simp add: alloc_good_def split: prod.split)

lemma law_call: "permitted z c \<Longrightarrow> free_law E z (lib_t E c)"
proof (cases c)
  case (Run i)
  then show "permitted z c \<Longrightarrow> ?thesis" by (simp add: law_plain law_instr)
next
  case (Attributes p)
  then show ?thesis using law_attributes by simp
next
  case StreamCreate
  then show ?thesis using law_handles by simp
next
  case EventCreate
  then show ?thesis using law_handles by simp
next
  case Reset
  then show "permitted z c \<Longrightarrow> ?thesis" by simp
next
  case (SetRing n)
  then show "permitted z c \<Longrightarrow> ?thesis" using law_set_ring by (auto intro: law_plain)
qed (simp_all add: law_plain law_alloc law_bind_ok law_ret alloc_good_ops law_free law_free_mrp law_upload
    law_upload_mrp law_d2h law_download_mrp law_memset law_tag_output law_flush law_finalize
    law_cfg_set cfg_ok_setters cfg_ok_setters(7-9) [simplified])

end
