(* ===== verification/Haze_Threads_Spec.thy ===== *)
theory Haze_Threads_Spec
  imports Haze_Lock_Ops Haze_Simulator
begin

text \<open>
  Client threads that call the library at the same time: what holds of every interleaving of
  their lock operations and critical sections.
\<close>

section \<open>Client threads\<close>

text \<open>A client makes calls and goes on from their results.\<close>

datatype 'a client = Finish 'a | Call lib_call "DevAddr list expected \<Rightarrow> 'a client"

primrec client_t :: "('p, 'm) fh_env \<Rightarrow> 'a client \<Rightarrow> ('p, 'm, 'a) thread" where
  "client_t E (Finish x) = Ret x"
| "client_t E (Call c k) = bindp (lib_t E c) (\<lambda>r. client_t E (k r))"

primrec obeys :: "bool \<Rightarrow> 'a client \<Rightarrow> bool" where
  "obeys resize (Finish x) \<longleftrightarrow> True"
| "obeys resize (Call c k) \<longleftrightarrow> permitted resize c \<and> (\<forall>r. obeys resize (k r))"

lemma permitted_unless_reset: "permitted True c \<longleftrightarrow> c \<noteq> Reset"
  by (cases "(True, c)" rule: permitted.cases) simp_all

text \<open>A straight-line client ignores the results.\<close>

primrec straight :: "lib_call list \<Rightarrow> unit client" where
  "straight [] = Finish ()"
| "straight (c # cs) = Call c (\<lambda>_. straight cs)"

lemma obeys_straight: "obeys z (straight cs) \<longleftrightarrow> list_all (permitted z) cs"
  by (induction cs) simp_all

lemma law_client: "obeys z c \<Longrightarrow> free_law E z (client_t E c)"
proof (induction c)
  case (Call c k)
  then show ?case
    by (simp only: client_t.simps obeys.simps) (blast intro: law_bind law_call rangeI)
qed (simp only: client_t.simps law_ret)

abbreviation clients :: "('p, 'm) fh_env \<Rightarrow> ('p, 'm) haze \<Rightarrow> 'a client list \<Rightarrow> (('p, 'm) haze, 'a) world" where
  "clients E s cs \<equiv> start s (map (client_t E) cs)"

text \<open>The state the threads start from: every promise holds.\<close>

definition ready_state :: "('p, 'm) fh_env \<Rightarrow> bool \<Rightarrow> ('p, 'm) haze \<Rightarrow> bool" where
  "ready_state E resize s \<longleftrightarrow> (\<forall>l. promise E resize l s)"

lemma ready_init: "ready_state E z (haze_init hm)"
  unfolding ready_state_def
proof
  fix l
  show "promise E z l (haze_init hm)"
  proof (cases l)
    case AllocMutex
    then show ?thesis
      using alloc_inv_init by (simp add: haze_init_def alloc_ok_def sized_def) (simp add: allocator_init_def)
  qed (simp_all add: haze_init_def inits_def epoch_inv_init cfg_ok_def config_init_def allocator_init_def)
qed

text \<open>A process that has set its ring dimension and its first modulus.\<close>

definition demo_state :: "(u64 list, sim_mrp) haze" where
  "demo_state = (haze_init (\<lambda>_. 0))\<lparr>hz_config := config_init\<lparr>cf_ring_dim := 4, cf_moduli := [97]\<rparr>,
     hz_alloc := set_polynomial_size 32 allocator_init\<rparr>"

lemma ready_demo: "ready_state E z demo_state"
  unfolding ready_state_def
proof
  fix l
  have s: "is_supported_ring_dim 4" by (simp add: is_supported_ring_dim_def)
  show "promise E z l demo_state"
  proof (cases l)
    case AllocMutex
    then show ?thesis
      using alloc_inv_set_polynomial_size [OF alloc_inv_init, of 32]
      by (simp add: demo_state_def alloc_ok_def)
        (simp add: sized_def set_polynomial_size_inv [OF alloc_inv_init], simp add: allocator_init_def)
  qed (use s in \<open>simp_all add: demo_state_def haze_init_def inits_def epoch_inv_init cfg_ok_def
      config_init_def set_polynomial_size_def\<close>)
qed

text \<open>Allocate, upload, multiply, tag, flush and read back.\<close>

definition demo_calls :: "lib_call list" where
  "demo_calls = [Malloc 32, CopyIn 4096 64 32, Run (Single (IPP SrMulp 4096 4096 4096 0)),
     Tag_Output 4096, Flush, CopyOut 128 4096 32]"

lemma demo_malloc: "next_addr (snd (allocate 32 (hz_alloc demo_state))) \<noteq> next_addr (hz_alloc demo_state)"
  by code_simp

lemma clients_kept:
  assumes "ready_state E z s" and "\<forall>c \<in> set cs. obeys z c" and "runs (clients E s cs) w"
  shows "\<exists>Hs. kept (haze_protocol E z) w Hs"
proof -
  have "law_abiding (haze_protocol E z) p" if "p \<in> set (map (client_t E) cs)" for p
    using that assms(2) by (auto intro!: spec_law_abiding law_client)
  then have "kept (haze_protocol E z) (clients E s cs) (replicate (length (map (client_t E) cs)) {})"
  proof (rule haze_locks.start_kept)
    fix l
    show "linv (haze_protocol E z) l s" using assms(1) by (simp add: ready_state_def)
  qed
  then show ?thesis by (rule haze_locks.runs_kept [OF assms(3)])
qed

text \<open>A thread that has returned holds nothing.\<close>

lemma kept_returned:
  assumes "kept P w Hs" and "\<forall>p \<in> set (w_threads w). \<exists>x. p = Ret x"
  shows "w_owner w l = None"
proof (rule ccontr)
  assume "w_owner w l \<noteq> None"
  then obtain i where "w_owner w l = Some i" by blast
  with assms(1) have i: "i < length (w_threads w)" "l \<in> Hs ! i" "i < length Hs" by (auto simp: kept_def)
  with assms obtain x where "w_threads w ! i = Ret x" by (meson nth_mem)
  with assms(1) i have "Hs ! i = {}" by (force simp: kept_def all_ended_def)
  with i show False by simp
qed

lemma runs_to_end: "\<exists>w'. runs w w' \<and> (\<nexists>i w''. wstep i w' w'')"
proof (induction w rule: wf_induct_rule [OF wf_wstep])
  case (1 w)
  show ?case
  proof (cases "\<exists>i w'. wstep i w w'")
    case True
    then obtain i w1 where "wstep i w w1" by blast
    with 1 [of w1] show ?thesis by (blast intro: runs_first)
  qed (blast intro: runs_refl)
qed

text \<open>Where nobody can move and nothing is undefined, every thread has returned.\<close>

lemma stuck_returned:
  assumes "kept (haze_protocol E False) w Hs" and "\<nexists>i w'. wstep i w w'"
  shows "\<forall>p \<in> set (w_threads w). \<exists>x. p = Ret x" and "w_owner w l = None"
proof -
  have defined: "Undefined \<notin> set (w_threads w)" using haze_locks.kept_defined [OF assms(1)] by simp
  show ret: "\<forall>p \<in> set (w_threads w). \<exists>x. p = Ret x"
  proof
    fix p assume p: "p \<in> set (w_threads w)"
    with haze_locks.kept_progress [OF assms(1) p] assms(2) defined show "\<exists>x. p = Ret x"
      by (cases p) auto
  qed
  show "w_owner w l = None" by (rule kept_returned [OF assms(1) ret])
qed

lemma clients_end:
  assumes "ready_state E False s" and "\<forall>c \<in> set cs. obeys False c"
  obtains w where "runs (clients E s cs) w" and "\<nexists>i w'. wstep i w w'" and "\<And>l. w_owner w l = None"
proof -
  from runs_to_end obtain w where w: "runs (clients E s cs) w" "\<nexists>i w'. wstep i w w'" by blast
  from clients_kept [OF assms w(1)] obtain Hs where "kept (haze_protocol E False) w Hs" ..
  from that [OF w stuck_returned(2) [OF this w(2)]] show thesis .
qed

lemma starts_sim: "starts sim_env"
  by (simp add: starts_def)

section \<open>Properties\<close>

text \<open>
  C6. Threads never block each other for good. Let client threads call the library at the same
  time, from a state in which every mutex's promise holds, such as a fresh process. No thread
  resets the device or changes the ring dimension, and the digit slices given to hazeModUp lie
  inside their array (\<open>permitted False\<close>). Then in every state of every interleaving no thread has
  run into undefined behaviour, and as long as some thread has not returned from its last call,
  some thread can move: there is no deadlock. Once all have returned, every mutex is free, the
  state satisfies the sequential invariant, and every shadow vector has the length the
  configuration asks for.
\<close>

theorem threads_return:
  assumes "ready_state E False s" and "\<forall>c \<in> set cs. obeys False c" and "runs (clients E s cs) w"
  shows "Undefined \<notin> set (w_threads w) \<and>
    ((\<exists>p \<in> set (w_threads w). \<nexists>x. p = Ret x) \<longrightarrow> (\<exists>i w'. wstep i w w')) \<and>
    ((\<forall>p \<in> set (w_threads w). \<exists>x. p = Ret x) \<longrightarrow>
       (\<forall>l. w_owner w l = None) \<and> haze_inv (w_shared w) \<and> sized (hz_alloc (w_shared w)))"
proof (intro conjI impI)
  from clients_kept [OF assms] obtain Hs where k: "kept (haze_protocol E False) w Hs" ..
  show "Undefined \<notin> set (w_threads w)" using haze_locks.kept_defined [OF k] by simp
  show "\<exists>i w'. wstep i w w'" if "\<exists>p \<in> set (w_threads w). \<nexists>x. p = Ret x"
    using stuck_returned(1) [OF k] that by blast
  assume ret: "\<forall>p \<in> set (w_threads w). \<exists>x. p = Ret x"
  show free: "\<forall>l. w_owner w l = None" using kept_returned [OF k ret] by blast
  have "promise E False l (w_shared w)" for l using haze_locks.kept_free [OF k, of l] free by simp
  from this [of EpochMutex] this [of ConfigMutex] this [of AllocMutex]
  show "haze_inv (w_shared w)" and "sized (hz_alloc (w_shared w))"
    by (simp_all add: haze_inv_iff alloc_ok_def)
qed

theorem threads_return_witness:
  "\<exists>w. runs (clients sim_env demo_state [straight demo_calls, straight demo_calls]) w \<and>
     w_owner w = (\<lambda>_. None) \<and> haze_inv (w_shared w) \<and> sized (hz_alloc (w_shared w))"
proof -
  let ?cs = "[straight demo_calls, straight demo_calls]"
  have ok: "\<forall>c \<in> set ?cs. obeys False c" by (simp add: obeys_straight demo_calls_def)
  obtain w where w: "runs (clients sim_env demo_state ?cs) w" "\<nexists>i w'. wstep i w w'"
    by (rule clients_end [OF ready_demo ok, of sim_env])
  from threads_return [OF ready_demo ok w(1)] w(2)
  have "\<forall>l. w_owner w l = None" and inv: "haze_inv (w_shared w) \<and> sized (hz_alloc (w_shared w))" by blast+
  then have "w_owner w = (\<lambda>_. None)" by (simp add: fun_eq_iff)
  with w(1) inv show ?thesis by (intro exI [of _ w] conjI) simp_all
qed

text \<open>
  C7. Whatever the mutexes guard is written by their owner only, in every interleaving of client
  threads that do not reset the device, those that change the ring dimension included. A step
  changes the epoch, the configuration, the allocator or the initialisation flag only when its
  thread owns the mutex of that part, and the polynomial size only when it owns both the
  configuration's and the allocator's.
\<close>

theorem only_the_owner_writes:
  assumes "ready_state E True s" and "\<forall>c \<in> set cs. obeys True c" and "runs (clients E s cs) w" and "wstep i w w'"
  shows "(hz_epoch (w_shared w') \<noteq> hz_epoch (w_shared w) \<longrightarrow> w_owner w EpochMutex = Some i) \<and>
    (hz_config (w_shared w') \<noteq> hz_config (w_shared w) \<longrightarrow> w_owner w ConfigMutex = Some i) \<and>
    (hz_alloc (w_shared w') \<noteq> hz_alloc (w_shared w) \<longrightarrow> w_owner w AllocMutex = Some i) \<and>
    (poly_bytes (hz_alloc (w_shared w')) \<noteq> poly_bytes (hz_alloc (w_shared w)) \<longrightarrow>
       w_owner w ConfigMutex = Some i \<and> w_owner w AllocMutex = Some i) \<and>
    (hz_backend_initialized (w_shared w') \<noteq> hz_backend_initialized (w_shared w) \<longrightarrow>
       w_owner w InitMutex = Some i)"
proof -
  from clients_kept [OF assms(1-3)] obtain Hs where k: "kept (haze_protocol E True) w Hs" ..
  have "guarded l (w_shared w) (w_shared w')" if "w_owner w l \<noteq> Some i" for l
    using haze_locks.kept_guarded [OF k assms(4), of l] that by auto
  from this [of EpochMutex] this [of ConfigMutex] this [of AllocMutex] this [of InitMutex]
  show ?thesis by (cases "w_owner w AllocMutex = Some i") auto
qed

theorem only_the_owner_writes_witness:
  "\<exists>w. runs (clients sim_env demo_state [straight demo_calls]) w \<and> w_owner w AllocMutex = Some 0"
proof -
  let ?w0 = "clients sim_env demo_state [straight demo_calls]"
  have ok: "\<forall>c \<in> set [straight demo_calls]. obeys True c" by (simp add: obeys_straight demo_calls_def)
  obtain w where w: "step_of 0 ?w0 = Some w"
    by (simp add: step_of_def start_def demo_calls_def bind_ok_def alloc_t_def guard_def)
  obtain w' where w': "step_of 0 w = Some w'"
    using w by (auto simp: step_of_def start_def demo_calls_def bind_ok_def alloc_t_def guard_def act_def)
  have "hz_alloc (w_shared w') = snd (allocate 32 (hz_alloc demo_state)) \<and> w_shared w = demo_state"
    using w w' by (auto simp: step_of_def start_def demo_calls_def bind_ok_def alloc_t_def guard_def
        act_def split: prod.splits)
  then have "hz_alloc (w_shared w') \<noteq> hz_alloc (w_shared w)" using demo_malloc by auto
  then show ?thesis
    using only_the_owner_writes [OF ready_demo ok _ w' [unfolded step_of_iff], of sim_env]
      w [unfolded step_of_iff] by (blast intro: runs_step runs_refl)
qed

text \<open>
  C8. In every state of every interleaving of client threads none of which resets the device (C11
  shows what a reset does): while the epoch mutex is free the epoch's
  bookkeeping satisfies its invariant; while the configuration's mutex is free, the ring
  dimension is supported and the allocator's polynomial size is eight times it, as
  \<open>Config::set_ring_dimension\<close> promises every observer; while the allocator's is free, live and
  pooled addresses are disjoint and every shadow belongs to a live address.
\<close>

theorem free_mutexes_keep_promises:
  assumes "ready_state E True s" and "\<forall>c \<in> set cs. obeys True c" and "runs (clients E s cs) w"
  shows "(w_owner w EpochMutex = None \<longrightarrow> epoch_inv (hz_epoch (w_shared w))) \<and>
    (w_owner w ConfigMutex = None \<longrightarrow>
       poly_bytes (hz_alloc (w_shared w)) = cf_ring_dim (hz_config (w_shared w)) * 8 \<and>
       (cf_ring_dim (hz_config (w_shared w)) = 0 \<or> is_supported_ring_dim (cf_ring_dim (hz_config (w_shared w)))) \<and>
       0 \<notin> set (cf_moduli (hz_config (w_shared w)))) \<and>
    (w_owner w AllocMutex = None \<longrightarrow> alloc_inv (hz_alloc (w_shared w)))"
proof -
  from clients_kept [OF assms(1-3)] obtain Hs where k: "kept (haze_protocol E True) w Hs" ..
  have "promise E True l (w_shared w)" if "w_owner w l = None" for l
    using haze_locks.kept_free [OF k that] by simp
  from this [of EpochMutex] this [of ConfigMutex] this [of AllocMutex]
  show ?thesis by (simp add: cfg_ok_def alloc_ok_def)
qed

text \<open>One thread sets the ring dimension from 4 to 8: both mutexes, both writes.\<close>

lemma demo_resize:
  obtains w where "schedule [0,0,0,0,0,0] (clients sim_env demo_state [straight [SetRing 8]]) = Some w"
    and "w_owner w = (\<lambda>_. None)" and "cf_ring_dim (hz_config (w_shared w)) = 8"
proof -
  have "is_supported_ring_dim 8" by (simp add: is_supported_ring_dim_def)
  moreover have "\<not> cf_configured (hz_config demo_state)" by (simp add: demo_state_def config_init_def)
  ultimately show thesis
    using that by (force simp: step_of_def start_def plain_def set_ring_dimension_t_def
        bind_ok_def alloc_t_def guard_def act_def fun_eq_iff)
qed

theorem free_mutexes_keep_promises_witness:
  "\<exists>w. runs (clients sim_env demo_state [straight [SetRing 8]]) w \<and>
     poly_bytes (hz_alloc (w_shared w)) = 64 \<and> alloc_inv (hz_alloc (w_shared w))"
proof -
  from demo_resize obtain w where w: "schedule [0,0,0,0,0,0] (clients sim_env demo_state [straight [SetRing 8]]) = Some w"
      "w_owner w = (\<lambda>_. None)" "cf_ring_dim (hz_config (w_shared w)) = 8" .
  note r = schedule_runs [OF w(1)]
  have "\<forall>c \<in> set [straight [SetRing 8]]. obeys True c" by simp
  from free_mutexes_keep_promises [OF ready_demo this r] w(2,3)
  have "poly_bytes (hz_alloc (w_shared w)) = 64 \<and> alloc_inv (hz_alloc (w_shared w))" by simp
  with r show ?thesis by blast
qed

text \<open>
  C9. Threads that race to the first compute call initialise the compiler once. When its calls
  do not throw and no thread resets the device, then in every interleaving, whenever the
  initialisation mutex is free, the compiler has been initialised exactly once if the flag is
  up and not at all if it is down.
\<close>

theorem initialised_once:
  assumes "starts E" and "ready_state E True s" and "\<forall>c \<in> set cs. obeys True c"
    and "runs (clients E s cs) w" and "w_owner w InitMutex = None"
  shows "length (filter is_init (hz_trace (w_shared w))) =
    (if hz_backend_initialized (w_shared w) then 1 else 0)"
proof -
  from clients_kept [OF assms(2-4)] obtain Hs where k: "kept (haze_protocol E True) w Hs" ..
  from haze_locks.kept_free [OF k assms(5)] assms(1) show ?thesis by (simp add: inits_def)
qed

theorem initialised_once_witness:
  "\<exists>w. runs (clients sim_env demo_state [straight demo_calls, straight demo_calls]) w \<and>
     length (filter is_init (hz_trace (w_shared w))) = (if hz_backend_initialized (w_shared w) then 1 else 0)"
proof -
  let ?cs = "[straight demo_calls, straight demo_calls]"
  have ok: "\<forall>c \<in> set ?cs. obeys False c" by (simp add: obeys_straight demo_calls_def)
  obtain w where w: "runs (clients sim_env demo_state ?cs) w" "\<nexists>i w'. wstep i w w'" "\<And>l. w_owner w l = None"
    by (rule clients_end [OF ready_demo ok, of sim_env]) blast
  have "\<forall>c \<in> set ?cs. obeys True c" by (simp add: obeys_straight demo_calls_def)
  from initialised_once [OF starts_sim ready_demo this w(1,3)] w(1) show ?thesis by blast
qed

text \<open>
  C11. A reset that races with another thread leaves the library torn. \<open>reset_all\<close> resets the
  allocator and the configuration in two critical sections. When another thread sets the ring
  dimension between them, both calls succeed, every mutex is free, and yet the configuration has
  no ring dimension while the allocator serves polynomials of 32 bytes, which
  \<open>Config::set_ring_dimension\<close> means to rule out for every observer.
\<close>

theorem reset_race_tears_state:
  "\<exists>w. schedule [0,0,0,0,0,0,0,0,0,1,1,1,1,1,1,0,0,0,0]
      (start demo_state [lib_t sim_env Reset, lib_t sim_env (SetRing 4)]) = Some w \<and>
     w_threads w = [Ret (Inr []), Ret (Inr [])] \<and> w_owner w = (\<lambda>_. None) \<and>
     cf_ring_dim (hz_config (w_shared w)) = 0 \<and> poly_bytes (hz_alloc (w_shared w)) = 32 \<and>
     fst (fst (hazeMalloc False 32 (w_shared w))) = HAZE_SUCCESS"
proof -
  have "is_supported_ring_dim 4" by (simp add: is_supported_ring_dim_def)
  moreover have "\<not> cf_configured (hz_config demo_state)" by (simp add: demo_state_def config_init_def)
  ultimately show ?thesis
    by (simp add: step_of_def start_def plain_def set_ring_dimension_t_def reset_all_t_def
        bind_ok_def alloc_t_def cfg_set_t_def guard_def act_def fun_eq_iff
        backend_reset_def epoch_reset_def hazeReplayBridgeReset_def device_reset_def events_reset_def
        streams_reset_def config_reset_def set_polynomial_size_def allocator_reset_def clear_pool_locked_def
        hazeMalloc_def allocate_def validate_poly_size_locked_def allocate_one_locked_def config_init_def)
qed

end
