(* ===== verification/Haze_Serial.thy ===== *)
theory Haze_Serial
  imports Haze_Threads_Spec
begin

text \<open>
  Recording calls take effect one at a time. A call that records, tags or flushes touches the
  shared state inside one critical section of the epoch mutex; around it, it only reads what no
  such call writes. So an interleaving of recording threads is an execution of whole calls, one
  after the other, in the order in which they took the mutex.
\<close>

section \<open>Phases of a call\<close>

datatype phase = Before | Inside | After

text \<open>
  \<open>phased C p ph Q\<close>: entered in phase \<open>ph\<close>, the program takes the epoch mutex at most once;
  inside it keeps \<open>C\<close>, outside it writes nothing and what it reads is the same in all states
  with \<open>C\<close>; it returns in \<open>Q\<close> and has no undefined behaviour.
\<close>

definition uniform :: "('s \<Rightarrow> bool) \<Rightarrow> ('s \<Rightarrow> 'a) \<Rightarrow> bool" where
  "uniform C c \<longleftrightarrow> (\<forall>s s'. C s \<longrightarrow> C s' \<longrightarrow> c s = c s')"

lemma uniformD: "uniform C c \<Longrightarrow> C s \<Longrightarrow> C s' \<Longrightarrow> c s = c s'"
  unfolding uniform_def by blast

lemma uniform_bind: "uniform C c \<Longrightarrow> uniform C (\<lambda>s. bindp (c s) k)"
  unfolding uniform_def by metis

primrec phased ::
    "('s \<Rightarrow> bool) \<Rightarrow> ('s, 'a) prog \<Rightarrow> phase \<Rightarrow> (phase \<Rightarrow> 'a \<Rightarrow> bool) \<Rightarrow> bool" where
  "phased C (Ret x) ph Q \<longleftrightarrow> Q ph x"
| "phased C Undefined ph Q \<longleftrightarrow> False"
| "phased C (Acquire l p) ph Q \<longleftrightarrow>
     (if l = EpochMutex then ph = Before \<and> phased C p Inside Q else phased C p ph Q)"
| "phased C (Release l p) ph Q \<longleftrightarrow>
     (if l = EpochMutex then ph = Inside \<and> phased C p After Q else phased C p ph Q)"
| "phased C (Act u c) ph Q \<longleftrightarrow> (ph = Inside \<or> uniform C c) \<and>
     (\<forall>s. C s \<longrightarrow> (if ph = Inside then C (u s) else u s = s) \<and> phased C (c s) ph Q)"

lemma phased_bind:
  "phased C p ph (\<lambda>ph' x. phased C (k x) ph' Q) \<Longrightarrow> phased C (bindp p k) ph Q"
proof (induction p arbitrary: ph)
  case (Act u c)
  from Act.prems have "ph = Inside \<or> uniform C (\<lambda>s. bindp (c s) k)" by (auto intro: uniform_bind)
  with Act show ?case by simp
qed (simp_all split: if_splits)

lemma phased_mono:
  "phased C p ph Q \<Longrightarrow> (\<And>ph x. Q ph x \<Longrightarrow> R ph x) \<Longrightarrow> phased C p ph R"
  by (induction p arbitrary: ph) (auto split: if_splits)

definition outside :: "phase \<Rightarrow> 'a \<Rightarrow> bool" where
  "outside ph x \<longleftrightarrow> ph \<noteq> Inside"

text \<open>Run alone, such a program returns; after its section it changes nothing any more.\<close>

lemma phased_returns:
  "phased C p ph Q \<Longrightarrow> C s \<Longrightarrow> \<exists>r s'. alone p s = Some (r, s') \<and> C s'"
proof (induction p arbitrary: ph s)
  case (Act u c)
  then have "C (u s)" and "phased C (c s) ph Q" by (auto split: if_splits)
  with Act.IH [of "c s" ph "u s"] show ?case by simp
qed (auto split: if_splits)

lemma phased_after:
  assumes "phased C p After Q" and "C s"
  shows "\<exists>r. \<forall>s'. C s' \<longrightarrow> alone p s' = Some (r, s')"
  using assms
proof (induction p arbitrary: s)
  case (Act u c)
  then have "phased C (c s) After Q" by simp
  with Act.IH [of "c s" s] Act.prems(2) obtain r where r: "\<And>s'. C s' \<Longrightarrow> alone (c s) s' = Some (r, s')"
    by auto
  have "alone (Act u c) s' = Some (r, s')" if "C s'" for s'
    using Act.prems r [OF that] uniformD [of C c s' s] that by simp
  then show ?case by blast
qed (auto split: if_splits)

section \<open>Whole calls\<close>

text \<open>Thread \<open>i\<close> makes its next call from entry to return, and nobody else moves.\<close>

inductive whole_call ::
    "('p, 'm) fh_env \<Rightarrow> ('p, 'm) haze \<times> 'a client list \<Rightarrow> ('p, 'm) haze \<times> 'a client list \<Rightarrow> bool"
  for E where
  "i < length cs \<Longrightarrow> cs ! i = Call c k \<Longrightarrow> alone (lib_t E c) s = Some (r, s') \<Longrightarrow>
   whole_call E (s, cs) (s', cs[i := k r])"

abbreviation whole_calls where
  "whole_calls E \<equiv> (whole_call E)\<^sup>*\<^sup>*"

abbreviation rest :: "('p, 'm) fh_env \<Rightarrow> ('p, 'm, DevAddr list expected) thread \<Rightarrow>
    (DevAddr list expected \<Rightarrow> 'a client) \<Rightarrow> ('p, 'm, 'a) thread" where
  "rest E p k \<equiv> bindp p (\<lambda>r. client_t E (k r))"

primrec all_phased :: "('p, 'm) fh_env \<Rightarrow> (('p, 'm) haze \<Rightarrow> bool) \<Rightarrow> 'a client \<Rightarrow> bool" where
  "all_phased E C (Finish x) \<longleftrightarrow> True"
| "all_phased E C (Call c k) \<longleftrightarrow> phased C (lib_t E c) Before outside \<and> (\<forall>r. all_phased E C (k r))"

text \<open>
  A thread outside its critical section and what is left of its client: in front of the
  section of a call nothing of the call has happened; behind it, all of it has.
\<close>

inductive tracks ::
    "('p, 'm) fh_env \<Rightarrow> (('p, 'm) haze \<Rightarrow> bool) \<Rightarrow> ('p, 'm, 'a) thread \<Rightarrow> 'a client \<Rightarrow> bool"
  for E C where
  tracks_done: "tracks E C (Ret x) (Finish x)"
| tracks_before: "phased C p Before outside \<Longrightarrow> (\<And>s. C s \<Longrightarrow> alone p s = alone (lib_t E c) s) \<Longrightarrow>
    (\<And>r. all_phased E C (k r)) \<Longrightarrow> tracks E C (rest E p k) (Call c k)"
| tracks_after: "phased C p After outside \<Longrightarrow> (\<And>s. C s \<Longrightarrow> alone p s = Some (r, s)) \<Longrightarrow>
    (\<And>r. all_phased E C (k r)) \<Longrightarrow> tracks E C (rest E p k) (k r)"

lemma tracks_fresh: "all_phased E C a \<Longrightarrow> tracks E C (client_t E a) a"
  by (cases a) (auto intro: tracks.intros)

text \<open>
  Before a thread moves, its client catches up: calls that return without their section are
  made first.
\<close>

definition is_ret :: "('s, 'a) prog \<Rightarrow> bool" where
  "is_ret p \<longleftrightarrow> (\<exists>x. p = Ret x)"

inductive poised ::
    "('p, 'm) fh_env \<Rightarrow> (('p, 'm) haze \<Rightarrow> bool) \<Rightarrow> ('p, 'm, 'a) thread \<Rightarrow> 'a client \<Rightarrow> bool"
  for E C where
  poised_done: "poised E C (Ret x) (Finish x)"
| poised_before: "phased C p Before outside \<Longrightarrow> (\<And>s. C s \<Longrightarrow> alone p s = alone (lib_t E c) s) \<Longrightarrow>
    (\<And>r. all_phased E C (k r)) \<Longrightarrow> \<not> is_ret p \<Longrightarrow> poised E C (rest E p k) (Call c k)"
| poised_after: "phased C p After outside \<Longrightarrow> (\<And>s. C s \<Longrightarrow> alone p s = Some (r, s)) \<Longrightarrow>
    (\<And>r. all_phased E C (k r)) \<Longrightarrow> \<not> is_ret p \<Longrightarrow> poised E C (rest E p k) (k r)"

lemma whole_at:
  assumes "i < length cs" and "cs ! i = Call c k" and "alone (lib_t E c) s = Some (r, s')"
  shows "whole_calls E (s, cs) (s', cs[i := k r])"
  using whole_call.intros [of i cs c k E s r s'] assms by blast

lemma catch_up:
  assumes "C s" and "i < length cs" and "cs ! i = a" and "all_phased E C a"
  shows "\<exists>a'. whole_calls E (s, cs) (s, cs[i := a']) \<and> poised E C (client_t E a) a'"
  using assms(2-4)
proof (induction a arbitrary: cs)
  case (Finish x)
  then have "cs[i := Finish x] = cs" by (metis list_update_id)
  then show ?case by (intro exI [of _ "Finish x"]) (simp add: poised_done)
next
  case (Call c k)
  show ?case
  proof (cases "is_ret (lib_t E c)")
    case True
    then obtain r where r: "lib_t E c = Ret r" by (auto simp: is_ret_def)
    then have w: "whole_calls E (s, cs) (s, cs[i := k r])" using Call.prems by (intro whole_at) auto
    from Call.IH [of "k r" "cs[i := k r]"] Call.prems obtain a'
      where "whole_calls E (s, cs[i := k r]) (s, cs[i := a'])" and "poised E C (client_t E (k r)) a'"
      by auto
    with w r show ?thesis by (auto intro: rtranclp_trans)
  next
    case False
    have "poised E C (rest E (lib_t E c) k) (Call c k)"
      using Call.prems False by (intro poised_before) auto
    moreover have "cs[i := Call c k] = cs" using Call.prems by (metis list_update_id)
    ultimately show ?thesis by (intro exI [of _ "Call c k"]) simp
  qed
qed

lemma tracks_catch_up:
  assumes "C s" and "i < length cs" and "tracks E C q (cs ! i)"
  shows "\<exists>a. whole_calls E (s, cs) (s, cs[i := a]) \<and> poised E C q a"
  using assms(3)
proof cases
  case (tracks_done x)
  then show ?thesis using assms(2) by (intro exI [of _ "Finish x"]) (metis list_update_id poised_done rtranclp.rtrancl_refl)
next
  case (tracks_before p c k)
  show ?thesis
  proof (cases "is_ret p")
    case True
    then obtain r where r: "p = Ret r" by (auto simp: is_ret_def)
    then have "alone (lib_t E c) s = Some (r, s)" using tracks_before(4) [OF assms(1)] by simp
    with assms(2) tracks_before(2) have w: "whole_calls E (s, cs) (s, cs[i := k r])" by (intro whole_at)
    from catch_up [of C s i "cs[i := k r]" "k r" E] assms tracks_before(5) obtain a
      where "whole_calls E (s, cs[i := k r]) (s, cs[i := a])" and "poised E C (client_t E (k r)) a" by auto
    with w r tracks_before(1) show ?thesis by (auto intro: rtranclp_trans)
  next
    case False
    then have "poised E C q (cs ! i)" using tracks_before by (auto intro: poised_before)
    then show ?thesis by (metis list_update_id rtranclp.rtrancl_refl)
  qed
next
  case (tracks_after p r k)
  show ?thesis
  proof (cases "is_ret p")
    case True
    then have "p = Ret r" using tracks_after(4) [OF assms(1)] by (auto simp: is_ret_def)
    with catch_up [of C s i cs "k r" E] assms tracks_after show ?thesis by auto
  next
    case False
    then have "poised E C q (cs ! i)" using tracks_after by (auto intro: poised_after)
    then show ?thesis by (metis list_update_id rtranclp.rtrancl_refl)
  qed
qed

section \<open>Every interleaving is a sequence of whole calls\<close>

text \<open>
  \<open>serial E C w s cs\<close>: the threads of \<open>w\<close> and what the whole calls have led to. A thread
  inside its section is, there, already through its call.
\<close>

definition serial ::
    "('p, 'm) fh_env \<Rightarrow> (('p, 'm) haze \<Rightarrow> bool) \<Rightarrow> (('p, 'm) haze, 'a) world \<Rightarrow> ('p, 'm) haze \<Rightarrow>
     'a client list \<Rightarrow> bool" where
  "serial E C w s cs \<longleftrightarrow> C (w_shared w) \<and> C s \<and> length cs = length (w_threads w) \<and>
     (\<forall>i < length cs. w_owner w EpochMutex \<noteq> Some i \<longrightarrow> tracks E C (w_threads w ! i) (cs ! i)) \<and>
     (case w_owner w EpochMutex of
        None \<Rightarrow> w_shared w = s
      | Some j \<Rightarrow> j < length cs \<and> (\<exists>p k r. w_threads w ! j = rest E p k \<and> cs ! j = k r \<and>
          phased C p Inside outside \<and> alone p (w_shared w) = Some (r, s) \<and>
          (\<forall>r. all_phased E C (k r))))"

lemma outside_simps [simp]: "outside Before x" "\<not> outside Inside x" "outside After x"
  by (simp_all add: outside_def)

text \<open>The owner moves.\<close>

lemma owner_step:
  assumes "serial E C w s cs" and "w_owner w EpochMutex = Some i" and "wstep i w w'"
  shows "serial E C w' s cs"
proof -
  from assms(1,2) obtain p k r where
        C: "C (w_shared w)" "C s" and len: "length cs = length (w_threads w)" and i: "i < length cs"
    and others: "\<And>j. j < length cs \<Longrightarrow> j \<noteq> i \<Longrightarrow> tracks E C (w_threads w ! j) (cs ! j)"
    and t: "w_threads w ! i = rest E p k" and a: "cs ! i = k r"
    and ph: "phased C p Inside outside" and al: "alone p (w_shared w) = Some (r, s)"
    and k: "\<And>r. all_phased E C (k r)"
    by (auto simp: serial_def)
  show ?thesis
  proof (cases p)
    case (Acquire l q)
    then have "l \<noteq> EpochMutex" "phased C q Inside outside" using ph by (auto split: if_splits)
    with assms(2,3) Acquire t C len i others a al k show ?thesis
      by (auto simp: wstep.simps serial_def nth_list_update)
  next
    case (Release l q)
    show ?thesis
    proof (cases "l = EpochMutex")
      case True
      then have q: "phased C q After outside" using ph Release by simp
      from phased_after [OF q C(1)] al Release obtain r' where "\<And>s'. C s' \<Longrightarrow> alone q s' = Some (r', s')"
        by auto
      with al Release C(1) have r: "\<And>s'. C s' \<Longrightarrow> alone q s' = Some (r, s')" and s: "s = w_shared w"
        by auto
      from tracks_after [of C q r E k, OF q r k] have "tracks E C (rest E q k) (cs ! i)" by (simp add: a)
      with assms(2,3) Release True t C len i others s show ?thesis
        by (auto simp: wstep.simps serial_def nth_list_update)
    next
      case False
      with Release have "phased C q Inside outside" using ph by simp
      with False assms(2,3) Release t C len i others a al k show ?thesis
        by (auto simp: wstep.simps serial_def nth_list_update)
    qed
  next
    case (Act u c)
    with ph C(1) have "C (u (w_shared w))" "phased C (c (w_shared w)) Inside outside" by simp_all
    with assms(2,3) Act t C(2) len i others a al k show ?thesis
      by (auto simp: wstep.simps serial_def nth_list_update)
  qed (use ph in simp_all)
qed

text \<open>Another thread moves: it catches up, and taking the epoch mutex is making its call.\<close>

lemma other_step:
  assumes "serial E C w s cs" and "i < length cs" and "w_owner w EpochMutex \<noteq> Some i"
    and "poised E C (w_threads w ! i) (cs ! i)" and "wstep i w w'"
  shows "\<exists>s' cs'. whole_calls E (s, cs) (s', cs') \<and> serial E C w' s' cs'"
proof -
  from assms(1) have C: "C (w_shared w)" "C s" and len: "length cs = length (w_threads w)"
    and others: "\<And>j. j < length cs \<Longrightarrow> w_owner w EpochMutex \<noteq> Some j \<Longrightarrow> tracks E C (w_threads w ! j) (cs ! j)"
    and own: "case w_owner w EpochMutex of None \<Rightarrow> w_shared w = s
      | Some j \<Rightarrow> j < length cs \<and> (\<exists>p k r. w_threads w ! j = rest E p k \<and> cs ! j = k r \<and>
          phased C p Inside outside \<and> alone p (w_shared w) = Some (r, s) \<and> (\<forall>r. all_phased E C (k r)))"
    by (simp_all add: serial_def)
  have quiet: "serial E C w' s cs"
    if "w' = w\<lparr>w_owner := o', w_threads := (w_threads w)[i := q]\<rparr>" and "o' EpochMutex = w_owner w EpochMutex"
      and "tracks E C q (cs ! i)" for o' q
    using that C len others own assms(2,3)
    by (auto simp: serial_def nth_list_update split: option.splits)
  from assms(4) show ?thesis
  proof cases
    case (poised_done x)
    then show ?thesis using assms(5) by (auto simp: wstep.simps)
  next
    case (poised_before p c k)
    show ?thesis
    proof (cases p)
      case (Acquire l q)
      show ?thesis
      proof (cases "l = EpochMutex")
        case True
        then have free: "w_owner w EpochMutex = None"
            and w': "w' = w\<lparr>w_owner := (w_owner w)(EpochMutex := Some i), w_threads := (w_threads w)[i := rest E q k]\<rparr>"
          using assms(5) Acquire poised_before(1) by (auto simp: wstep.simps)
        from poised_before(3) Acquire True have q: "phased C q Inside outside" by simp
        from phased_returns [OF q C(2)] obtain r s' where r: "alone q s = Some (r, s')" "C s'" by blast
        with poised_before(4) [OF C(2)] Acquire have "alone (lib_t E c) s = Some (r, s')" by simp
        with assms(2) poised_before(2) have "whole_calls E (s, cs) (s', cs[i := k r])" by (rule whole_at)
        moreover have "serial E C w' s' (cs[i := k r])"
          using C len others own free q r poised_before(5) assms(2)
          by (auto simp: w' serial_def nth_list_update)
        ultimately show ?thesis by blast
      next
        case False
        with Acquire poised_before have "tracks E C (rest E q k) (cs ! i)"
          by (auto intro!: tracks_before)
        with quiet [where o' = "(w_owner w)(l := Some i)" and q = "rest E q k"] assms(5) Acquire False poised_before(1)
        show ?thesis by (auto simp: wstep.simps)
      qed
    next
      case (Release l q)
      with poised_before(3) have l: "l \<noteq> EpochMutex" by (auto split: if_splits)
      with Release poised_before have "tracks E C (rest E q k) (cs ! i)"
        by (auto intro!: tracks_before)
      with quiet [where o' = "(w_owner w)(l := None)" and q = "rest E q k"] assms(5) Release l poised_before(1)
      show ?thesis by (auto simp: wstep.simps)
    next
      case (Act u c')
      let ?q = "c' (w_shared w)"
      from poised_before(3) Act C(1) have u: "u (w_shared w) = w_shared w" and q: "phased C ?q Before outside"
        and un: "uniform C c'" by auto
      have "alone ?q s1 = alone (lib_t E c) s1" if "C s1" for s1
        using poised_before(3) poised_before(4) [OF that] Act uniformD [OF un that C(1)] that by simp
      with q poised_before(2,5) have "tracks E C (rest E ?q k) (cs ! i)" by (auto intro!: tracks_before)
      with quiet [where o' = "w_owner w" and q = "rest E ?q k"] assms(5) Act u poised_before(1)
      show ?thesis by (auto simp: wstep.simps)
    qed (use poised_before(3,6) in \<open>auto simp: is_ret_def\<close>)
  next
    case (poised_after p r k)
    show ?thesis
    proof (cases p)
      case (Acquire l q)
      with poised_after(3) have l: "l \<noteq> EpochMutex" by (auto split: if_splits)
      have "tracks E C (rest E q k) (k r)" using Acquire l poised_after by (intro tracks_after) auto
      with quiet [where o' = "(w_owner w)(l := Some i)" and q = "rest E q k"] assms(5) Acquire l poised_after(1,2)
      show ?thesis by (auto simp: wstep.simps)
    next
      case (Release l q)
      with poised_after(3) have l: "l \<noteq> EpochMutex" by (auto split: if_splits)
      have "tracks E C (rest E q k) (k r)" using Release l poised_after by (intro tracks_after) auto
      with quiet [where o' = "(w_owner w)(l := None)" and q = "rest E q k"] assms(5) Release l poised_after(1,2)
      show ?thesis by (auto simp: wstep.simps)
    next
      case (Act u c')
      let ?q = "c' (w_shared w)"
      from poised_after(3) Act C(1) have u: "u (w_shared w) = w_shared w" and q: "phased C ?q After outside"
        and un: "uniform C c'" by auto
      have "alone ?q s1 = Some (r, s1)" if "C s1" for s1
        using poised_after(3) poised_after(4) [OF that] Act uniformD [OF un that C(1)] that by simp
      with q poised_after(5) have "tracks E C (rest E ?q k) (k r)" by (intro tracks_after)
      with quiet [where o' = "w_owner w" and q = "rest E ?q k"] assms(5) Act u poised_after(1,2)
      show ?thesis by (auto simp: wstep.simps)
    qed (use poised_after(3,6) in \<open>auto simp: is_ret_def\<close>)
  qed
qed

lemma poised_tracks: "poised E C q a \<Longrightarrow> tracks E C q a"
  by (induction rule: poised.induct) (auto intro: tracks.intros)

lemma bind_is_ret: "is_ret (bindp p k) \<Longrightarrow> is_ret p"
  by (cases p) (simp_all add: is_ret_def)

lemma poised_ret:
  assumes "poised E C (Ret x) a"
  shows "a = Finish x"
  using assms
proof cases
  case (poised_before p c k)
  then have "is_ret (rest E p k)" unfolding is_ret_def by metis
  with poised_before show ?thesis by (blast dest: bind_is_ret)
next
  case (poised_after p r k)
  then have "is_ret (rest E p k)" unfolding is_ret_def by metis
  with poised_after show ?thesis by (blast dest: bind_is_ret)
qed simp_all

lemma serial_catch_up:
  assumes "serial E C w s cs" and "i < length cs" and "w_owner w EpochMutex \<noteq> Some i"
  shows "\<exists>a. whole_calls E (s, cs) (s, cs[i := a]) \<and> serial E C w s (cs[i := a]) \<and>
    poised E C (w_threads w ! i) a"
proof -
  from assms have "C s" and "tracks E C (w_threads w ! i) (cs ! i)" by (simp_all add: serial_def)
  from tracks_catch_up [OF this(1) assms(2) this(2)] obtain a
    where a: "whole_calls E (s, cs) (s, cs[i := a])" "poised E C (w_threads w ! i) a" by blast
  moreover have "serial E C w s (cs[i := a])"
    using assms poised_tracks [OF a(2)] by (auto simp: serial_def nth_list_update split: option.splits)
  ultimately show ?thesis by blast
qed

lemma wstep_length: "wstep i w w' \<Longrightarrow> i < length (w_threads w) \<and> length (w_threads w') = length (w_threads w)"
  by (erule wstep.cases) simp_all

lemma serial_runs:
  assumes "runs w0 w" and "serial E C w0 s0 cs0"
  shows "\<exists>s cs. whole_calls E (s0, cs0) (s, cs) \<and> serial E C w s cs"
  using assms
proof (induction rule: runs.induct)
  case (runs_step w w1 i w2)
  then obtain s cs where s: "whole_calls E (s0, cs0) (s, cs)" "serial E C w1 s cs" by blast
  show ?case
  proof (cases "w_owner w1 EpochMutex = Some i")
    case True
    with owner_step [OF s(2) True runs_step.hyps(2)] s(1) show ?thesis by blast
  next
    case False
    have i: "i < length cs" using wstep_length [OF runs_step.hyps(2)] s(2) by (simp add: serial_def)
    from serial_catch_up [OF s(2) i False] obtain a where a: "whole_calls E (s, cs) (s, cs[i := a])"
        "serial E C w1 s (cs[i := a])" "poised E C (w_threads w1 ! i) a" by blast
    from other_step [OF a(2) _ False _ runs_step.hyps(2)] i a(3) obtain s' cs'
      where "whole_calls E (s, cs[i := a]) (s', cs')" "serial E C w2 s' cs'" by auto
    with s(1) a(1) show ?thesis by (meson rtranclp_trans)
  qed
qed blast

lemma serial_end:
  assumes "serial E C w s cs" and "w_threads w = map Ret xs"
  shows "w_shared w = s \<and> whole_calls E (s, cs) (s, map Finish xs)"
proof -
  have len: "length cs = length xs" using assms by (simp add: serial_def)
  have free: "w_owner w EpochMutex = None"
  proof (rule ccontr)
    assume "w_owner w EpochMutex \<noteq> None"
    then obtain j where "w_owner w EpochMutex = Some j" by blast
    with assms(1) obtain p k where j: "j < length cs" "w_threads w ! j = rest E p k" "phased C p Inside outside"
      by (auto simp: serial_def)
    then have "rest E p k = Ret (xs ! j)" using assms(2) len by simp
    then have "is_ret p" by (metis is_ret_def bind_is_ret)
    with j(3) show False by (auto simp: is_ret_def)
  qed
  have "\<exists>cs'. whole_calls E (s, cs) (s, cs') \<and> serial E C w s cs' \<and> (\<forall>i < n. cs' ! i = Finish (xs ! i))"
    if "n \<le> length xs" for n
    using that
  proof (induction n)
    case 0
    then show ?case using assms(1) by blast
  next
    case (Suc n)
    then obtain cs' where cs': "whole_calls E (s, cs) (s, cs')" "serial E C w s cs'"
        "\<forall>i < n. cs' ! i = Finish (xs ! i)" by auto
    have n: "n < length cs'" using cs'(2) Suc.prems assms(2) by (simp add: serial_def)
    from serial_catch_up [OF cs'(2) n] free obtain a where a: "whole_calls E (s, cs') (s, cs'[n := a])"
        "serial E C w s (cs'[n := a])" "poised E C (w_threads w ! n) a" by auto
    then have "a = Finish (xs ! n)" using Suc.prems assms(2) by (auto dest: poised_ret)
    with cs' a n show ?case by (metis less_Suc_eq nth_list_update rtranclp_trans)
  qed
  from this [of "length xs"] obtain cs' where "whole_calls E (s, cs) (s, cs')" "serial E C w s cs'"
      "\<forall>i < length xs. cs' ! i = Finish (xs ! i)" by auto
  moreover from this have "cs' = map Finish xs"
    using assms(2) by (intro nth_equalityI) (auto simp: serial_def)
  ultimately show ?thesis using assms(1) free by (simp add: serial_def)
qed

lemma serial_start:
  assumes "C s" and "\<forall>a \<in> set cs. all_phased E C a"
  shows "serial E C (clients E s cs) s cs"
  using assms by (auto simp: serial_def start_def tracks_fresh)

lemma clients_serial:
  assumes "C s" and "\<forall>a \<in> set cs. all_phased E C a" and "runs (clients E s cs) w"
    and "w_threads w = map Ret xs"
  shows "whole_calls E (s, cs) (w_shared w, map Finish xs)"
proof -
  from serial_runs [OF assms(3) serial_start [where C = C, OF assms(1,2)]] obtain s' cs'
    where "whole_calls E (s, cs) (s', cs')" and w: "serial E C w s' cs'" by blast
  with serial_end [OF w assms(4)] show ?thesis by auto
qed

section \<open>The recording calls\<close>

text \<open>
  While only such calls are made, the flag stays up and the configuration stays as it is.
\<close>

definition steady :: "config \<Rightarrow> ('p, 'm) haze \<Rightarrow> bool" where
  "steady c s \<longleftrightarrow> hz_backend_initialized s \<and> hz_config s = c"

abbreviation inside :: "config \<Rightarrow> ('p, 'm, 'a) thread \<Rightarrow> bool" where
  "inside c p \<equiv> phased (steady c) p Inside (\<lambda>ph _. ph = Inside)"

lemma inside_bind: "inside c p \<Longrightarrow> (\<And>x. inside c (k x)) \<Longrightarrow> inside c (bindp p k)"
  by (rule phased_bind, erule phased_mono) simp

lemma inside_ret: "inside c (Ret x)"
  by simp

lemma inside_bind_ok: "inside c p \<Longrightarrow> (\<And>x. inside c (k x)) \<Longrightarrow> inside c (bind_ok p k)"
  unfolding bind_ok_def by (rule inside_bind) (simp_all split: sum.split)

lemma inside_act: "(\<And>s. steady c s \<Longrightarrow> steady c (snd (f s))) \<Longrightarrow> inside c (act f)"
  by (simp add: act_def)

lemma inside_if: "inside c p \<Longrightarrow> inside c q \<Longrightarrow> inside c (if b then p else q)"
  by simp

lemma phased_guard:
  assumes "l \<noteq> EpochMutex" and "phased C p ph Q"
  shows "phased C (guard l p) ph Q"
  unfolding guard_def using assms by (simp, intro phased_bind) simp

lemma inside_cfg: "inside c (cfg_t g)"
  unfolding cfg_t_def by (intro phased_guard inside_act) simp_all

lemma inside_alloc: "inside c (alloc_t f)"
  unfolding alloc_t_def by (intro phased_guard inside_act) (simp_all add: steady_def split: prod.split)

lemma inside_cases:
  "(\<And>e. inside c (f e)) \<Longrightarrow> (\<And>x. inside c (g x)) \<Longrightarrow> inside c (case r of Inl e \<Rightarrow> f e | Inr x \<Rightarrow> g x)"
  "inside c p \<Longrightarrow> (\<And>x. inside c (k x)) \<Longrightarrow> inside c (case m of None \<Rightarrow> p | Some x \<Rightarrow> k x)"
  "(\<And>x y. inside c (h x y)) \<Longrightarrow> inside c (case v of (x, y) \<Rightarrow> h x y)"
  by (simp_all split: sum.split option.split prod.split)

lemmas inside_steps = inside_bind_ok inside_bind inside_cfg inside_alloc inside_if inside_ret
  inside_cases inside_act

lemma steady_simps [simp]:
  "steady c (fh_emit x s) = steady c s"
  "steady c (upd_epoch f s) = steady c s"
  "steady c (upd_alloc g s) = steady c s"
  "steady c (snd (fh_poly E x s)) = steady c s"
  "steady c (snd (fh_mrp E x s)) = steady c s"
  "steady c (snd (register_outputs as base s)) = steady c s"
  "steady c (snd (store_mrp_locked E d m base s)) = steady c s"
  "steady c (tag_mrp_input_if_new_locked n m s) = steady c s"
  "steady c (clear_state_locked s) = steady c s"
  "steady c (s\<lparr>hz_trace := tr\<rparr>) = steady c s"
  "steady c (s\<lparr>hz_hook_had_error := b\<rparr>) = steady c s"
  by (simp_all add: steady_def fh_poly_def fh_mrp_def frame_simps tag_mrp_input_if_new_locked_def)

lemma steady_ensure [simp]: "steady c (ensure_recording_locked s) = steady c s"
  by (simp add: ensure_recording_locked_def start_recording_def Let_def)

lemma inside_lookup: "inside c (lookup_or_create_t E a)"
  unfolding lookup_or_create_t_def by (intro inside_steps) (simp_all add: fh_poly_def Let_def)

lemma inside_copy_result: "inside c (copy_result_t E d a q)"
  unfolding copy_result_t_def by (intro inside_steps inside_lookup) (simp add: fh_poly_def Let_def)

lemma inside_build_pairs: "inside c (build_pairs_t E ps)"
proof (induction ps)
  case (Cons x ps)
  then show ?case
    by (cases x) (simp only: build_pairs_t.simps, intro inside_steps inside_lookup)
qed simp

lemma inside_build_mrp: "inside c (build_mrp_t E ps base)"
  unfolding build_mrp_t_def
  by (intro inside_steps inside_build_pairs) (simp add: Let_def split: prod.split)

lemma inside_mr_store: "inside c (mr_store_t E call d base)"
  unfolding mr_store_t_def by (intro inside_act) (simp add: fh_mrp_def)

lemma inside_fbc_options: "inside c fbc_options_t"
  unfolding fbc_options_t_def by (intro inside_steps)

lemma inside_mod_up_digits: "inside c (mod_up_digits_t E d x tb i ds)"
proof (induction ds arbitrary: i)
  case (Cons db ds)
  show ?case
    unfolding mod_up_digits_t.simps
    by (intro inside_steps inside_fbc_options Cons.IH) (simp_all add: fh_mrp_def Let_def)
qed simp

lemma inside_copy_residues: "inside c (copy_residues_t E ps)"
proof (induction ps)
  case (Cons x ps)
  then show ?case
    by (cases x) (simp only: copy_residues_t.simps, intro inside_steps inside_copy_result)
qed simp

lemma inside_populate: "inside c (populate_t E outs)"
proof (induction outs)
  case (Cons x outs)
  obtain a n where x: "x = (a, n)" by (rule prod.exhaust)
  show ?case
    unfolding x populate_t.simps
    by (intro inside_steps Cons.IH)
      (auto simp: fhetch_result_def fh_poly_def Let_def split: option.split prod.split)
qed simp

lemma steady_tag_srp: "steady c (snd (tag_srp_outputs outs s)) = steady c s"
proof (induction outs arbitrary: s)
  case (Cons x outs)
  then show ?case by (cases x) (simp split: option.split)
qed simp

lemma steady_tag_mrp: "steady c (snd (tag_mrp_outputs E ns s)) = steady c s"
proof (induction ns arbitrary: s)
  case (Cons n ns)
  then show ?case by (simp split: option.split sum.split)
qed simp

lemma steady_tag_pending: "steady c (snd (tag_pending_outputs_locked E s)) = steady c s"
proof -
  obtain r s1 where t: "tag_srp_outputs (pending_outputs (hz_epoch s)) s = (r, s1)" by (rule prod.exhaust)
  then have "steady c s1 = steady c s" using steady_tag_srp [of c "pending_outputs (hz_epoch s)" s] by simp
  then show ?thesis by (simp add: tag_pending_outputs_locked_def t steady_tag_mrp split: sum.split)
qed

lemma steady_finalize_front:
  assumes "steady c s"
  shows "steady c (snd (finalize_front E rr s))"
proof -
  obtain r s1 where t: "tag_pending_outputs_locked E s = (r, s1)" by (rule prod.exhaust)
  then have "steady c s1" using assms steady_tag_pending [of c E s] by simp
  with assms show ?thesis
    by (simp add: finalize_front_def t stop_epoch_def backend_replay_def fh_bool_def
        hazeReplayBridgeTakeHookHadError_def split: sum.split bool.split)
qed

text \<open>Around a section: loads of the flag and of the configuration.\<close>

lemma uniform_comp: "uniform C g \<Longrightarrow> uniform C (\<lambda>s. h (g s))"
  unfolding uniform_def by metis

lemma phased_load:
  assumes "uniform C g" and "\<And>s. C s \<Longrightarrow> Q ph (g s)"
  shows "phased C (act (\<lambda>s. (g s, s))) ph Q"
  using assms(2) by (simp add: act_def) (intro disjI2 uniform_comp [OF assms(1)])

lemma phased_ret: "Q ph x \<Longrightarrow> phased C (Ret x) ph Q"
  by simp

lemma phased_if: "phased C p ph Q \<Longrightarrow> phased C q ph Q \<Longrightarrow> phased C (if b then p else q) ph Q"
  by simp

lemma uniform_steady:
  "uniform (steady c) (\<lambda>s. g (hz_config s))"
  "uniform (steady c) (\<lambda>s. hz_backend_initialized s)"
  by (auto simp: uniform_def steady_def)

lemma phased_cfg: "(\<And>x. Q ph x) \<Longrightarrow> phased (steady c) (cfg_t g) ph Q"
  unfolding cfg_t_def by (intro phased_guard phased_load uniform_steady) simp_all

lemma phased_section:
  assumes "inside c p" and "\<And>x. Q After x"
  shows "phased (steady c) (guard EpochMutex p) Before Q"
  unfolding guard_def using assms by (simp, intro phased_bind, elim phased_mono) simp

lemma phased_ensure: "(\<And>x. Q Before x) \<Longrightarrow> phased (steady c) (ensure_initialized_t E) Before Q"
  unfolding ensure_initialized_t_def
  by (intro phased_bind phased_load uniform_steady) (simp add: steady_def)

lemma phased_session: "inside c body \<Longrightarrow> phased (steady c) (session_t E body) Before outside"
  unfolding session_t_def
  by (intro phased_bind phased_ensure phased_section inside_steps) simp_all

lemma phased_ok: "phased C p ph outside \<Longrightarrow> phased C (plain p) ph outside"
  unfolding plain_def bind_ok_def
  by (intro phased_bind, erule phased_mono) (simp add: outside_def split: sum.split)

lemma phased_compute:
  "phased (steady c) (binary_pp_t E f1 d a b i) Before outside"
  "phased (steady c) (binary_ps_t E f2 d a x i) Before outside"
  "phased (steady c) (unary_pq_t E f3 d a i) Before outside"
  "phased (steady c) (unary_pi_t E d a k) Before outside"
  "phased (steady c) (copy_t E d a) Before outside"
  unfolding binary_pp_t_def binary_ps_t_def unary_pq_t_def unary_pi_t_def copy_t_def
  by (intro phased_session inside_steps inside_lookup inside_copy_result; simp add: fh_poly_def Let_def)+

lemma phased_groups:
  "phased (steady c) (binary_pp_mrp_t E f1 d a b base) Before outside"
  "phased (steady c) (binary_ps_mrp_t E f2 d a ss base) Before outside"
  "phased (steady c) (unary_p_mrp_t E f3 d a base) Before outside"
  "phased (steady c) (unary_pi_mrp_t E f4 d a k base) Before outside"
  "phased (steady c) (copy_mrp_t E d a base) Before outside"
  unfolding binary_pp_mrp_t_def binary_ps_mrp_t_def unary_p_mrp_t_def unary_pi_mrp_t_def copy_mrp_t_def
  by (intro phased_session inside_steps inside_build_mrp inside_mr_store inside_copy_residues; simp)+

lemma phased_conversions:
  "phased (steady c) (basis_convert_t E d a p1) Before outside"
  "phased (steady c) (mod_down_t E d a p2) Before outside"
  "slices_fit p3 \<Longrightarrow> phased (steady c) (mod_up_t E d a p3) Before outside"
  by (auto simp: basis_convert_t_def mod_down_t_def mod_up_t_def slices_fit_def Let_def
      split: sum.split option.split
      intro!: phased_session inside_bind_ok inside_bind inside_build_mrp inside_fbc_options inside_mr_store
        inside_mod_up_digits inside_cases(3))

lemma phased_finalize: "phased (steady c) (finalize_t E rr) Before outside"
  unfolding finalize_t_def
  by (intro phased_section inside_steps inside_populate) (simp_all add: steady_finalize_front)

lemma phased_flush: "phased (steady c) (flush_t E) Before outside"
  unfolding flush_t_def
  by (intro phased_bind phased_cfg phased_if phased_ret phased_finalize) simp_all

text \<open>The calls that record, tag or finalise; the slices of a mod-up must fit its arrays.\<close>

fun records :: "lib_call \<Rightarrow> bool" where
  "records (Run i) \<longleftrightarrow> permitted False (Run i)"
| "records (Tag_Output p) \<longleftrightarrow> True"
| "records Flush \<longleftrightarrow> True"
| "records WriteProgram \<longleftrightarrow> True"
| "records c \<longleftrightarrow> False"

lemma phased_instr: "permitted False (Run i) \<Longrightarrow> phased (steady c) (instr_t E i) Before outside"
  by (cases "(E, i)" rule: instr_t.cases) (simp_all add: phased_compute phased_groups phased_conversions)

lemma phased_call: "records k \<Longrightarrow> phased (steady c) (lib_t E k) Before outside"
  by (cases k) (simp_all add: phased_ok phased_instr phased_flush phased_finalize,
      simp add: epoch_t_def phased_ok phased_section inside_act split: prod.split)

primrec records_only :: "'a client \<Rightarrow> bool" where
  "records_only (Finish x) \<longleftrightarrow> True"
| "records_only (Call c k) \<longleftrightarrow> records c \<and> (\<forall>r. records_only (k r))"

lemma records_all_phased: "records_only a \<Longrightarrow> all_phased E (steady c) a"
  by (induction a) (simp_all add: phased_call)

section \<open>Property\<close>

text \<open>
  C5. Recording is serialisable. Let any number of threads record operations, tag outputs, flush
  and write the program at the same time, on an initialised library. However their lock
  operations and critical sections interleave, once all have returned, the shared state and
  every result that a thread has seen are those of the same calls made one after the other, each
  from entry to return, in some order that respects each thread's own. Nothing is recorded twice,
  lost, or mixed with the recording of another thread.
\<close>

theorem recording_threads_serialise:
  assumes "hz_backend_initialized s" and "\<forall>a \<in> set cs. records_only a"
    and "runs (clients E s cs) w" and "w_threads w = map Ret xs"
  shows "whole_calls E (s, cs) (w_shared w, map Finish xs)"
proof (rule clients_serial [where C = "steady (hz_config s)", OF _ _ assms(3,4)])
  show "steady (hz_config s) s" using assms(1) by (simp add: steady_def)
  show "\<forall>a \<in> set cs. all_phased E (steady (hz_config s)) a"
    using assms(2) by (simp add: records_all_phased)
qed

text \<open>Two threads that multiply into the same polynomial and flush.\<close>

definition up_state :: "(u64 list, sim_mrp) haze" where
  "up_state = demo_state\<lparr>hz_backend_initialized := True, hz_trace := [Compiler (CompilerInit [])]\<rparr>"

lemma ready_up: "ready_state E z up_state"
  unfolding ready_state_def
proof
  fix l
  have "promise E z l demo_state" using ready_demo by (auto simp: ready_state_def)
  then show "promise E z l up_state" by (cases l) (simp_all add: up_state_def inits_def)
qed

theorem recording_threads_serialise_witness:
  "\<exists>w xs. runs (clients sim_env up_state
       [straight [Run (Single (IPP SrMulp 4096 4096 4096 0)), Tag_Output 4096, Flush],
        straight [Run (Single (IPP SrAddp 4096 4096 4096 0)), Flush]]) w \<and>
     whole_calls sim_env (up_state,
       [straight [Run (Single (IPP SrMulp 4096 4096 4096 0)), Tag_Output 4096, Flush],
        straight [Run (Single (IPP SrAddp 4096 4096 4096 0)), Flush]]) (w_shared w, map Finish xs)"
    (is "\<exists>w xs. runs (clients sim_env up_state ?cs) w \<and> _")
proof -
  have ok: "\<forall>c \<in> set ?cs. obeys False c" by simp
  obtain w where w: "runs (clients sim_env up_state ?cs) w" "\<nexists>i w'. wstep i w w'"
    by (rule clients_end [OF ready_up ok, of sim_env])
  from clients_kept [OF ready_up ok w(1)] obtain Hs where k: "kept (haze_protocol sim_env False) w Hs" ..
  have "\<exists>xs. w_threads w = map Ret xs"
    unfolding ex_map_conv by (rule stuck_returned(1) [OF k w(2)])
  then obtain xs where xs: "w_threads w = map Ret xs" ..
  have "hz_backend_initialized up_state" by (simp add: up_state_def)
  moreover have "\<forall>a \<in> set ?cs. records_only a" by simp
  ultimately have "whole_calls sim_env (up_state, ?cs) (w_shared w, map Finish xs)"
    by (rule recording_threads_serialise [OF _ _ w(1) xs])
  with w(1) show ?thesis by (intro exI conjI)
qed

end
