(* ===== verification/Haze_Bridge_Files.thy ===== *)
theory Haze_Bridge_Files
  imports Haze_Flush_Errors Haze_Api
begin

text \<open>
  The replay bridge on disk (replay_bridge/src/openfhe_template.cpp): the directory cleanup of
  \<open>hazeReplayBridgeReset\<close> and \<open>load_serialized_probe\<close>, over a file system that maps a path
  to what it names. Paths are strings joined the way \<open>std::filesystem::path\<close> joins them; the
  file system is lexical (no links, no \<open>..\<close>). What the operating system answers to
  \<open>remove_all\<close> is a parameter; so is OpenFHE's deserialiser.
\<close>

type_synonym 'b disk = "string \<rightharpoonup> 'b"

section \<open>Paths\<close>

text \<open>\<open>operator/\<close> of \<open>std::filesystem::path\<close>: an absolute right side replaces the left.\<close>

definition path_append :: "string \<Rightarrow> string \<Rightarrow> string" where
  "path_append p q =
     (if q \<noteq> [] \<and> hd q = CHR ''/'' then q
      else if p = [] \<or> last p = CHR ''/'' then p @ q
      else p @ ''/'' @ q)"

definition below :: "string \<Rightarrow> string \<Rightarrow> bool" where
  "below p q \<longleftrightarrow> q = p \<or> take (Suc (length p)) q = p @ ''/''"

text \<open>
  \<open>fs::remove_all(p, ec)\<close>: everything below \<open>p\<close> goes, or it stops with an error code or an
  exception having removed some of it (\<open>kept\<close> says what stays). A missing \<open>p\<close> is no error.
\<close>

datatype removal =
  Removed
| RemoveError string "string \<Rightarrow> bool"
| RemoveThrows string "string \<Rightarrow> bool"
| RemoveThrowsUnknown "string \<Rightarrow> bool"

definition drop_below :: "string \<Rightarrow> (string \<Rightarrow> bool) \<Rightarrow> 'b disk \<Rightarrow> 'b disk" where
  "drop_below p kept d = (\<lambda>q. if below p q \<and> \<not> kept q then None else d q)"

section \<open>\<open>hazeReplayBridgeReset\<close>\<close>

text \<open>
  The loop over the two subtrees, with what it writes to stderr: an error code is reported and
  the loop goes on, an exception is reported by the handler around the loop and ends it.
\<close>

fun remove_subtrees ::
    "(string \<Rightarrow> removal) \<Rightarrow> string \<Rightarrow> string list \<Rightarrow> 'b disk \<Rightarrow> string \<times> 'b disk" where
  "remove_subtrees rm dir [] d = ('''', d)"
| "remove_subtrees rm dir (sub # subs) d =
     (let p = path_append dir sub in
      case rm p of
        Removed \<Rightarrow> remove_subtrees rm dir subs (drop_below p (\<lambda>_. False) d)
      | RemoveError message kept \<Rightarrow>
          (case remove_subtrees rm dir subs (drop_below p kept d) of
             (out, d1) \<Rightarrow>
               (log_error ''replay_bridge''
                  (''hazeReplayBridgeReset: remove_all('' @ [CHR 0x27] @ p @ [CHR 0x27] @
                   '') failed: '' @ message) @ out, d1))
      | RemoveThrows what kept \<Rightarrow>
          (log_error ''replay_bridge'' (''hazeReplayBridgeReset: disk cleanup threw: '' @ what),
           drop_below p kept d)
      | RemoveThrowsUnknown kept \<Rightarrow>
          (log_error ''replay_bridge'' ''hazeReplayBridgeReset: disk cleanup threw (unknown)'',
           drop_below p kept d))"

text \<open>
  The program directory is queried live; \<open>None\<close> is an exception of the query. The flag is
  cleared first, whatever the disk does.
\<close>

definition hazeReplayBridgeReset_disk ::
    "(string \<Rightarrow> removal) \<Rightarrow> string option \<Rightarrow> 'b disk \<Rightarrow> ('p, 'm) haze \<Rightarrow>
     string \<times> 'b disk \<times> ('p, 'm) haze" where
  "hazeReplayBridgeReset_disk rm program_dir d s =
     (let s1 = hazeReplayBridgeReset s in
      case program_dir of
        None \<Rightarrow> ('''', d, s1)
      | Some dir \<Rightarrow>
          if dir = [] then ('''', d, s1)
          else (case remove_subtrees rm dir [''serialized_probes'', ''ciphertext_templates''] d of
                  (out, d1) \<Rightarrow> (out, d1, s1)))"

section \<open>Reading a probe\<close>

definition probe_path :: "string \<Rightarrow> string \<Rightarrow> string" where
  "probe_path dir name = path_append (path_append dir ''serialized_probes'') (name @ ''.ct'')"

definition load_serialized_probe ::
    "('b \<Rightarrow> ciphertext option) \<Rightarrow> string \<Rightarrow> 'b disk \<Rightarrow> string \<Rightarrow> string \<times> ciphertext option" where
  "load_serialized_probe deserialize dir d name =
     (let ct_path = probe_path dir name in
      case d ct_path of
        None \<Rightarrow>
          (log_error ''fhetch::result''
             ([CHR 0x27] @ name @ [CHR 0x27] @ '' not found at '' @ ct_path), None)
      | Some file \<Rightarrow>
          (case deserialize file of
             None \<Rightarrow> (log_error ''fhetch::result'' (''failed to deserialize '' @ ct_path), None)
           | Some ct \<Rightarrow> ('''', Some ct)))"

text \<open>
  An environment whose probes are files: \<open>disk_at\<close> says what is on disk after the calls made
  so far (the replay writes the probes).
\<close>

definition probes_from_disk ::
    "('b \<Rightarrow> ciphertext option) \<Rightarrow> string \<Rightarrow> (('p, 'm) trace \<Rightarrow> 'b disk) \<Rightarrow>
     ('p, 'm) fh_env \<Rightarrow> ('p, 'm) fh_env" where
  "probes_from_disk deserialize dir disk_at E =
     E\<lparr>load_probe := \<lambda>tr name. snd (load_serialized_probe deserialize dir (disk_at tr) name)\<rparr>"

section \<open>Lemmas\<close>

lemma below_refl [simp]: "below p p"
  by (simp add: below_def)

lemma below_extend [simp]: "below p (p @ ''/'' @ q)"
  by (simp add: below_def)

lemma probe_below:
  assumes "dir \<noteq> []" and "CHR ''/'' \<notin> set name"
  shows "below (path_append dir ''serialized_probes'') (probe_path dir name)"
proof -
  have "hd (name @ ''.ct'') \<noteq> CHR ''/''"
    using assms(2) by (cases name) auto
  then show ?thesis
    using below_extend [of _ "name @ ''.ct''"]
    by (simp add: probe_path_def path_append_def below_def)
qed

lemma below_prefix: "below p q \<Longrightarrow> \<exists>r. q = p @ r"
  by (metis append_Nil2 append_assoc append_take_drop_id below_def)

lemma probes_not_templates:
  assumes "dir \<noteq> []" and "below (path_append dir ''serialized_probes'') q"
  shows "\<not> below (path_append dir ''ciphertext_templates'') q"
proof
  assume "below (path_append dir ''ciphertext_templates'') q"
  then obtain r where r: "q = path_append dir ''ciphertext_templates'' @ r"
    using below_prefix by blast
  obtain r' where "q = path_append dir ''serialized_probes'' @ r'"
    using assms(2) below_prefix by blast
  with r assms(1) show False by (auto simp: path_append_def split: if_splits)
qed

lemma load_none:
  "d (probe_path dir name) = None \<Longrightarrow> snd (load_serialized_probe deser dir d name) = None"
  by (simp add: load_serialized_probe_def)

lemma load_cong:
  "d (probe_path dir name) = d' (probe_path dir name) \<Longrightarrow>
     load_serialized_probe deser dir d name = load_serialized_probe deser dir d' name"
  by (simp add: load_serialized_probe_def)

lemma fhetch_result_cong:
  assumes "load_probe E (hz_trace s) name = load_probe E2 (hz_trace s) name"
    and "poly_of E = poly_of E2"
  shows "fhetch_result E name s = fhetch_result E2 name s"
proof -
  have "fh_poly E = fh_poly E2" by (intro ext) (simp add: fh_poly_def assms(2))
  then show ?thesis by (simp add: fhetch_result_def assms(1) Let_def split: option.split)
qed

lemma disk_load_probe [simp]:
  "load_probe (probes_from_disk deser dir disk_at E) tr name =
     snd (load_serialized_probe deser dir (disk_at tr) name)"
  by (simp add: probes_from_disk_def)

text \<open>What the cleanup leaves, one subtree after the other.\<close>

definition spared :: "removal \<Rightarrow> string \<Rightarrow> bool" where
  "spared r q = (case r of Removed \<Rightarrow> False | RemoveError _ kept \<Rightarrow> kept q
     | RemoveThrows _ kept \<Rightarrow> kept q | RemoveThrowsUnknown kept \<Rightarrow> kept q)"

definition throwing :: "removal \<Rightarrow> bool" where
  "throwing r = (case r of Removed \<Rightarrow> False | RemoveError _ _ \<Rightarrow> False
     | RemoveThrows _ _ \<Rightarrow> True | RemoveThrowsUnknown _ \<Rightarrow> True)"

lemma remove_subtrees_disk:
  "snd (remove_subtrees rm dir (sub # subs) d) =
     (let p = path_append dir sub; d1 = drop_below p (spared (rm p)) d in
      if throwing (rm p) then d1 else snd (remove_subtrees rm dir subs d1))"
  by (simp add: Let_def spared_def throwing_def drop_below_def split: removal.split prod.split)

lemma remove_subtrees_last:
  "snd (remove_subtrees rm dir [sub] d) =
     drop_below (path_append dir sub) (spared (rm (path_append dir sub))) d"
  by (simp only: remove_subtrees_disk Let_def) simp

lemma remove_subtrees_quiet:
  "fst (remove_subtrees rm dir subs d) = '''' \<longleftrightarrow>
     (\<forall>sub\<in>set subs. rm (path_append dir sub) = Removed)"
  by (induction subs arbitrary: d) (auto simp: Let_def log_error_def split: removal.split prod.split)

declare remove_subtrees.simps(2) [simp del]

section \<open>Properties\<close>

abbreviation probes_dir :: "string \<Rightarrow> string" where
  "probes_dir dir \<equiv> path_append dir ''serialized_probes''"

abbreviation templates_dir :: "string \<Rightarrow> string" where
  "templates_dir dir \<equiv> path_append dir ''ciphertext_templates''"

lemma reset_disk_form:
  assumes "dir \<noteq> []" and "hazeReplayBridgeReset_disk rm (Some dir) d s = (out, d1, s1)"
  shows "s1 = s\<lparr>hz_hook_had_error := False\<rparr>"
    and "out = fst (remove_subtrees rm dir [''serialized_probes'', ''ciphertext_templates''] d)"
    and "d1 = (let d2 = drop_below (probes_dir dir) (spared (rm (probes_dir dir))) d in
           if throwing (rm (probes_dir dir)) then d2
           else drop_below (templates_dir dir) (spared (rm (templates_dir dir))) d2)"
  using assms remove_subtrees_disk [of rm dir "''serialized_probes''" "[''ciphertext_templates'']" d]
  by (auto simp: remove_subtrees_last hazeReplayBridgeReset_disk_def hazeReplayBridgeReset_def Let_def
      split: prod.splits if_splits)

lemma reset_disk_probe:
  assumes "dir \<noteq> []" and "hazeReplayBridgeReset_disk rm (Some dir) d s = (out, d1, s1)"
    and "CHR ''/'' \<notin> set name"
  shows "snd (load_serialized_probe deserialize dir d1 name) =
    (if spared (rm (probes_dir dir)) (probe_path dir name)
     then snd (load_serialized_probe deserialize dir d name) else None)"
proof -
  have b: "below (probes_dir dir) (probe_path dir name)"
    by (rule probe_below [OF assms(1,3)])
  then have "d1 (probe_path dir name) =
      (if spared (rm (probes_dir dir)) (probe_path dir name) then d (probe_path dir name) else None)"
    using probes_not_templates [OF assms(1) b]
    by (simp add: reset_disk_form(3) [OF assms(1,2)] Let_def drop_below_def)
  then show ?thesis
    using load_cong [of d1 dir name d] load_none [of d1 dir name] by auto
qed

text \<open>
  C32. The disk after a reset, on every answer of the operating system: the hook flag is
  cleared; nothing outside the two subtrees is touched; a probe is gone unless the removal of
  the probe subtree failed and spared its file, and then it reads exactly as before; the
  templates are attempted unless the first removal threw. Nothing is printed precisely when
  both removals succeed.
\<close>

theorem reset_cleans_disk:
  assumes "dir \<noteq> []" and "hazeReplayBridgeReset_disk rm (Some dir) d s = (out, d1, s1)"
  shows "s1 = s\<lparr>hz_hook_had_error := False\<rparr> \<and>
    (\<forall>q. \<not> below (probes_dir dir) q \<and> \<not> below (templates_dir dir) q \<longrightarrow> d1 q = d q) \<and>
    (\<forall>name. CHR ''/'' \<notin> set name \<longrightarrow>
       snd (load_serialized_probe deserialize dir d1 name) =
         (if spared (rm (probes_dir dir)) (probe_path dir name)
          then snd (load_serialized_probe deserialize dir d name) else None)) \<and>
    (\<forall>q. below (templates_dir dir) q \<longrightarrow>
       d1 q = (if throwing (rm (probes_dir dir)) \<or> spared (rm (templates_dir dir)) q
               then d q else None)) \<and>
    (out = '''' \<longleftrightarrow> rm (probes_dir dir) = Removed \<and> rm (templates_dir dir) = Removed)"
proof (intro conjI allI impI)
  note f = reset_disk_form [OF assms]
  show "s1 = s\<lparr>hz_hook_had_error := False\<rparr>" by (rule f(1))
  show "d1 q = d q" if "\<not> below (probes_dir dir) q \<and> \<not> below (templates_dir dir) q" for q
    using that by (simp add: f(3) Let_def drop_below_def)
  show "d1 q = (if throwing (rm (probes_dir dir)) \<or> spared (rm (templates_dir dir)) q
                then d q else None)" if "below (templates_dir dir) q" for q
    using that probes_not_templates [OF assms(1), of q]
    by (auto simp: f(3) Let_def drop_below_def)
  show "out = '''' \<longleftrightarrow> rm (probes_dir dir) = Removed \<and> rm (templates_dir dir) = Removed"
    by (simp add: f(2) remove_subtrees_quiet)
qed (rule reset_disk_probe [OF assms])

text \<open>A directory with a probe, a template and a file of its own; the probe subtree is denied.\<close>

definition demo_disk :: "ciphertext disk" where
  "demo_disk = [''run/serialized_probes/haze_out_0.ct'' \<mapsto>
       [[\<lparr>np_values = [5, 6], np_format = Evaluation, np_modulus = 97\<rparr>]],
     ''run/ciphertext_templates/t0.ct'' \<mapsto> [], ''run/program.json'' \<mapsto> []]"

definition denied :: "string \<Rightarrow> removal" where
  "denied p = (if p = ''run/serialized_probes'' then RemoveError ''Permission denied'' (\<lambda>_. True)
     else Removed)"

theorem reset_cleans_disk_witness:
  "case hazeReplayBridgeReset_disk denied (Some ''run'') demo_disk demo of
     (out, d1, s1) \<Rightarrow>
       d1 ''run/program.json'' = Some [] \<and> d1 ''run/ciphertext_templates/t0.ct'' = None \<and>
       snd (load_serialized_probe Some ''run'' d1 ''haze_out_0'') \<noteq> None \<and> out \<noteq> ''''"
proof -
  obtain out d1 s1 where
      r: "hazeReplayBridgeReset_disk denied (Some ''run'') demo_disk demo = (out, d1, s1)"
    by (rule prod_cases3)
  have p: "probes_dir ''run'' = ''run/serialized_probes''"
      "templates_dir ''run'' = ''run/ciphertext_templates''"
    by (simp_all add: path_append_def)
  have "\<not> below ''run/serialized_probes'' ''run/program.json''"
      "\<not> below ''run/ciphertext_templates'' ''run/program.json''"
      "below ''run/ciphertext_templates'' ''run/ciphertext_templates/t0.ct''"
      "CHR ''/'' \<notin> set ''haze_out_0''"
    by (simp_all add: below_def)
  moreover have "spared (denied ''run/serialized_probes'') (probe_path ''run'' ''haze_out_0'')"
      "\<not> throwing (denied ''run/serialized_probes'')"
      "\<not> spared (denied ''run/ciphertext_templates'') ''run/ciphertext_templates/t0.ct''"
    by (simp_all add: spared_def throwing_def denied_def)
  moreover have "snd (load_serialized_probe Some ''run'' demo_disk ''haze_out_0'') \<noteq> None"
    by (simp add: load_serialized_probe_def probe_path_def path_append_def demo_disk_def)
  moreover have "demo_disk ''run/program.json'' = Some []" by (simp add: demo_disk_def)
  moreover have "denied ''run/serialized_probes'' \<noteq> Removed" by (simp add: denied_def)
  ultimately show ?thesis
    using reset_cleans_disk [OF _ r, unfolded p, of Some] by (auto simp: r)
qed

text \<open>The read-back loop stops at an output that has no probe; later outputs are not touched.\<close>

lemma populate_missing:
  assumes "\<And>h. load_probe E h name = None" and "populate_shadows E (pre @ (a, name) # post) s = (r, s')"
  shows "(\<exists>e \<in> readback_errors. r = Inl e) \<and>
    (\<forall>b. b \<notin> fst ` set pre \<longrightarrow> shadow_data (hz_alloc s') b = shadow_data (hz_alloc s) b)"
  using assms(2)
proof (induction pre arbitrary: s)
  case Nil
  then show ?case by (auto simp: fhetch_result_def assms(1) readback_errors_def)
next
  case (Cons x pre)
  obtain b n where x: "x = (b, n)" by (cases x)
  obtain q s1 where f: "fhetch_result E n s = (q, s1)" by (rule prod.exhaust)
  have al: "hz_alloc s1 = hz_alloc s" using fetch_trace [OF refl, of E n s] by (simp add: f)
  show ?case
  proof (cases "case q of None \<Rightarrow> None | Some p \<Rightarrow> extract_polynomial_values E p s1")
    case None
    with Cons.prems have "s' = s1 \<and> r \<in> Inl ` readback_errors"
      by (auto simp: x f readback_errors_def split: option.splits)
    with al show ?thesis by auto
  next
    case (Some v)
    then obtain p where p: "q = Some p" "extract_polynomial_values E p s1 = Some v"
      by (auto split: option.splits)
    show ?thesis
    proof (cases rule: update_shadow_cases [of b "hz_alloc s1" v])
      case unknown
      with Cons.prems show ?thesis by (auto simp: x f p al readback_errors_def)
    next
      case stored
      with Cons.prems obtain sh where "populate_shadows E (pre @ (a, name) # post)
          (upd_alloc (\<lambda>_. (hz_alloc s)\<lparr>shadow_data := (shadow_data (hz_alloc s))(b \<mapsto> sh)\<rparr>) s1) = (r, s')"
        by (auto simp: x f p al)
      from Cons.IH [OF this] show ?thesis by (auto simp: x)
    qed
  qed
qed

text \<open>
  C36. An output whose probe is not written between a reset and the flush, wherever it stands
  among the pending ones: with a known program directory, a stop that succeeds, no hook failure
  and a data format that is not refused, when the reset printed nothing, the flush fails, in
  replay or while reading back; neither this output nor a later one gets new bytes (an earlier
  one may). When the removal failed and spared the file, the flush reads the probe of the
  earlier session instead: the result is the one the old directory gives. Output names restart
  with every epoch (\<open>haze_out_0\<close>), so the cleanup alone keeps the two apart.
\<close>

theorem unwritten_output_after_reset:
  assumes E': "E' = probes_from_disk deserialize dir disk_at E"
    and "dir \<noteq> []" and rs: "hazeReplayBridgeReset_disk rm (Some dir) d s0 = (out, d1, s1)"
    and "haze_inv s" and "recording (hz_epoch s)" and "\<not> format_refused (hz_config s)"
    and p: "pending_outputs (hz_epoch s) = pre @ (a, name) # post" and "CHR ''/'' \<notin> set name"
    and "\<not> hz_hook_had_error s" and "\<not> hook_fails E (hz_trace s @ output_tags E (hz_epoch s))"
    and "bool_of E (hz_trace s @ output_tags E (hz_epoch s)) (Compiler CompilerStop)"
    and unwritten: "\<And>h. disk_at h (probe_path dir name) = d1 (probe_path dir name)"
  shows "(out = '''' \<longrightarrow>
      fst (flush E' s) \<in> Inl ` (insert BackendReplayFailed readback_errors) \<and>
      (\<forall>b \<in> fst ` set ((a, name) # post).
         shadow_data (hz_alloc (snd (flush E' s))) b = shadow_data (hz_alloc s) b)) \<and>
    (spared (rm (probes_dir dir)) (probe_path dir name) \<longrightarrow>
       fhetch_result E' name s2 =
         fhetch_result (probes_from_disk deserialize dir (\<lambda>_. d) E) name s2)"
proof (intro conjI impI)
  have load: "load_probe E' h name =
      (if spared (rm (probes_dir dir)) (probe_path dir name)
       then snd (load_serialized_probe deserialize dir d name) else None)" for h
  proof -
    have "snd (load_serialized_probe deserialize dir (disk_at h) name) =
        snd (load_serialized_probe deserialize dir d1 name)"
      using load_cong [of "disk_at h" dir name d1] unwritten by simp
    moreover note reset_disk_probe [OF assms(2) rs assms(8), of deserialize]
    ultimately show ?thesis by (simp add: E')
  qed
  {
    assume "spared (rm (probes_dir dir)) (probe_path dir name)"
    then show "fhetch_result E' name s2 =
        fhetch_result (probes_from_disk deserialize dir (\<lambda>_. d) E) name s2"
      by (intro fhetch_result_cong) (simp_all add: load, simp add: E' probes_from_disk_def)
  }
  assume "out = ''''"
  then have gone: "load_probe E' h name = None" for h
    using reset_disk_form(2) [OF assms(2) rs]
    by (simp add: load remove_subtrees_quiet spared_def)
  let ?s1 = "s\<lparr>hz_trace := hz_trace s @ output_tags E' (hz_epoch s)\<rparr>"
  obtain r s' where f: "flush E' s = (r, s')" by (rule prod.exhaust)
  have m: "do_materialize_locked E' True ?s1 = (r, s')" and rec1: "recording (hz_epoch ?s1)"
    using assms(5,6) f p by (simp_all add: flush_form finalize_form [OF assms(4,5)] nothing_pending_def)
  have env: "output_tags E' ep = output_tags E ep" "bool_of E' = bool_of E" "hook_fails E' = hook_fails E" for ep
    by (simp_all add: output_tags_def group_value_def E' probes_from_disk_def)
  have dist: "distinct (map fst (pre @ (a, name) # post))"
    using haze_inv_epoch [OF assms(4)] p by (simp add: epoch_inv_def bindings_inv_def)
  have "r \<in> Inl ` (insert BackendReplayFailed readback_errors) \<and>
      (\<forall>b \<in> fst ` set ((a, name) # post). shadow_data (hz_alloc s') b = shadow_data (hz_alloc s) b)"
    using m rec1
  proof (cases rule: materialize_cases)
    case (read_back s3 s4)
    then have "populate_shadows E' (pre @ (a, name) # post) s3 = (r, s4)" by (simp add: p)
    note missing = populate_missing [OF gone this]
    have "fst ` set ((a, name) # post) \<inter> fst ` set pre = {}" using dist by auto
    then have "\<forall>b \<in> fst ` set ((a, name) # post). shadow_data (hz_alloc s4) b = shadow_data (hz_alloc s3) b"
      using missing by blast
    then show ?thesis using missing read_back(5,7) by auto
  qed (use assms(9-11) in \<open>simp_all add: env\<close>)
  then show "fst (flush E' s) \<in> Inl ` (insert BackendReplayFailed readback_errors)"
    and "\<forall>b \<in> fst ` set ((a, name) # post).
      shadow_data (hz_alloc (snd (flush E' s))) b = shadow_data (hz_alloc s) b"
    by (simp_all add: f)
qed

text \<open>
  The demo directory read back after a reset that could not remove it: the flush reports
  success and address 64 holds the earlier session's residues. After a reset that did, it fails.
\<close>

definition disk_after :: "(string \<Rightarrow> removal) \<Rightarrow> ciphertext disk" where
  "disk_after rm = fst (snd (hazeReplayBridgeReset_disk rm (Some ''run'') demo_disk demo))"

definition disk_env :: "(string \<Rightarrow> removal) \<Rightarrow> (u64 list, sim_mrp) fh_env" where
  "disk_env rm = probes_from_disk Some ''run'' (\<lambda>_. disk_after rm) sim_env"

lemma stale_flush:
  "fst (flush (disk_env denied) overwritten) = Inr ()"
  "shadow_data (hz_alloc (snd (flush (disk_env denied) overwritten))) 64 = Some [5, 6]"
  by code_simp+

theorem unwritten_output_after_reset_witness:
  "isl (fst (flush (disk_env (\<lambda>_. Removed)) overwritten)) \<and>
   fst (fhetch_result (disk_env denied) ''haze_out_0'' overwritten) = Some [5, 6]"
proof -
  have nf: "\<not> format_refused (hz_config overwritten)" by (simp add: format_refused_def config_init_def)
  have eqs: "CHR ''/'' \<notin> set ''haze_out_0''" "''run'' \<noteq> ''''" "\<not> hz_hook_had_error overwritten"
    by (simp_all add: overwritten_def demo_recording_def)
  obtain out1 s1 where r1: "hazeReplayBridgeReset_disk (\<lambda>_. Removed) (Some ''run'') demo_disk demo
      = (out1, disk_after (\<lambda>_. Removed), s1)"
    by (metis disk_after_def prod.collapse)
  obtain out2 s2 where r2: "hazeReplayBridgeReset_disk denied (Some ''run'') demo_disk demo
      = (out2, disk_after denied, s2)"
    by (metis disk_after_def prod.collapse)
  have pend: "pending_outputs (hz_epoch overwritten) = [] @ (64, ''haze_out_0'') # []" by simp
  have "out1 = ''''" using reset_disk_form(2) [OF eqs(2) r1] by (simp add: remove_subtrees_quiet)
  then have 1: "isl (fst (flush (disk_env (\<lambda>_. Removed)) overwritten))"
    using unwritten_output_after_reset [OF disk_env_def eqs(2) r1 overwritten_inv
        overwritten_simps(4) nf pend eqs(1,3)] by (auto simp: isl_def)
  have "spared (denied (probes_dir ''run'')) (probe_path ''run'' ''haze_out_0'')"
    by (simp add: spared_def denied_def path_append_def)
  then have "fhetch_result (disk_env denied) ''haze_out_0'' overwritten =
      fhetch_result (probes_from_disk Some ''run'' (\<lambda>_. demo_disk) sim_env) ''haze_out_0'' overwritten"
    using unwritten_output_after_reset [OF disk_env_def eqs(2) r2 overwritten_inv
        overwritten_simps(4) nf pend eqs(1,3)] by simp
  moreover have "fst (fhetch_result (probes_from_disk Some ''run'' (\<lambda>_. demo_disk) sim_env)
      ''haze_out_0'' overwritten) = Some [5, 6]"
    by code_simp
  ultimately show ?thesis using 1 by simp
qed

end
