(* ===== verification/Haze_Hook.thy ===== *)
theory Haze_Hook
  imports Haze_Synthesis_Spec Haze_Flush_Errors
begin

text \<open>
  The bridge's post-recording hook inside a session: the stop call of
  \<open>do_materialize_locked\<close> (core/epoch.cpp) runs the lambda installed by
  \<open>install_post_recording_hook\<close> (replay_bridge/src/openfhe_template.cpp) on what the compiler
  captured, and the flush reads the flag the lambda leaves. The lambda is there from the
  client's \<open>hazeReplayBridgeInitCryptoContext\<close> to the next reset of the compiler; without one
  (\<open>None\<close>) a stop runs nothing. What the compiler captures after a sequence of calls is its own
  affair: two functions of the trace.
\<close>

definition hook_env ::
    "'cc openfhe \<Rightarrow> 'cc hook_ctx option \<Rightarrow> (('p, 'm) trace \<Rightarrow> captured_input list) \<Rightarrow>
     (('p, 'm) trace \<Rightarrow> (string \<times> CapturedShape) list) \<Rightarrow> ('p, 'm) fh_env \<Rightarrow> ('p, 'm) fh_env" where
  "hook_env F installed inputs outputs E =
     E\<lparr>hook_fails := \<lambda>tr.
       (case installed of
          None \<Rightarrow> False
        | Some hctx \<Rightarrow> fst (on_post_recording F hctx (inputs tr) (outputs tr) False))\<rparr>"

lemma hook_env_simps [simp]:
  "bool_of (hook_env F hk ins outs E) = bool_of E"
  "\<not> hook_fails (hook_env F None ins outs E) tr"
  "hook_fails (hook_env F (Some hctx) ins outs E) tr =
     fst (on_post_recording F hctx (ins tr) (outs tr) False)"
  "output_tags (hook_env F hk ins outs E) ep = output_tags E ep"
  by (simp_all add: hook_env_def output_tags_def group_value_def)

text \<open>A record the hook cannot serve: it has no context, no ciphertext, or is not written.\<close>

definition bad_capture ::
    "'cc openfhe \<Rightarrow> 'cc hook_ctx \<Rightarrow> captured_input list \<Rightarrow> (string \<times> CapturedShape) list \<Rightarrow> bool" where
  "bad_capture F hctx ins outs \<longleftrightarrow>
     (\<exists>rec \<in> set ins. \<not> is_key rec \<and> input_result F hctx rec = None) \<or>
     (\<exists>out \<in> set outs. output_result F hctx out = None)"

lemma hook_flag: "fst (on_post_recording F hctx ins outs flag) \<longleftrightarrow> flag \<or> bad_capture F hctx ins outs"
  by (simp add: on_post_recording_form bad_capture_def)

text \<open>The stop call leaves in the flag what the lambda computes from the flag it finds.\<close>

lemma stop_runs_hook:
  "hz_hook_had_error (snd (stop_epoch (hook_env F (Some hctx) ins outs E) s)) =
     fst (on_post_recording F hctx (ins (hz_trace s)) (outs (hz_trace s)) (hz_hook_had_error s))"
  by (simp add: stop_epoch_def fh_bool_def hook_flag split: prod.splits)

section \<open>Properties\<close>

text \<open>
  C23. From the captured records to the caller. With a hook installed, outputs pending and a stop that succeeds,
  a flush reports \<open>BridgeHookFailed\<close> exactly when the flag was still raised or some record the
  compiler captured (keys aside) cannot be routed to a context, synthesised or written; then
  nothing is replayed and no shadow changes. The files the hook writes are those of exactly
  the other records, in order: one failing record hides no other, and the context cache never
  changes a result.
\<close>

theorem flush_reports_bad_captures:
  assumes "haze_inv s" and "recording (hz_epoch s)" and "\<not> nothing_pending (hz_epoch s)"
    and "\<not> format_refused (hz_config s)"
    and tr: "tr = hz_trace s @ output_tags E (hz_epoch s)"
    and "bool_of E tr (Compiler CompilerStop)"
    and f: "flush (hook_env F (Some hctx) inputs outputs E) s = (r, s')"
  shows "(r = Inl BridgeHookFailed \<longleftrightarrow> hz_hook_had_error s \<or>
      (\<exists>rec \<in> set (inputs tr). \<not> is_key rec \<and> input_result F hctx rec = None) \<or>
      (\<exists>out \<in> set (outputs tr). output_result F hctx out = None)) \<and>
    (r = Inl BridgeHookFailed \<longrightarrow> hz_alloc s' = hz_alloc s \<and>
      hz_trace s' = tr @ [Compiler CompilerStop, Compiler ClearCaptured]) \<and>
    snd (on_post_recording F hctx (inputs tr) (outputs tr) (hz_hook_had_error s)) =
      concat (map (\<lambda>rec. opt_list (input_result F hctx rec))
                (filter (\<lambda>rec. \<not> is_key rec) (inputs tr))) @
      concat (map (\<lambda>out. opt_list (output_result F hctx out)) (outputs tr))"
proof (intro conjI)
  let ?E = "hook_env F (Some hctx) inputs outputs E"
  let ?s1 = "s\<lparr>hz_trace := tr\<rparr>"
  have m: "do_materialize_locked ?E True ?s1 = (r, s')"
    using assms(3,4) f by (simp add: flush_form finalize_form [OF assms(1,2)] tr)
  have rec1: "recording (hz_epoch ?s1)" using assms(2) by simp
  have main: "(r = Inl BridgeHookFailed \<longleftrightarrow> hz_hook_had_error s \<or> bad_capture F hctx (inputs tr) (outputs tr)) \<and>
    (r = Inl BridgeHookFailed \<longrightarrow> hz_alloc s' = hz_alloc s \<and>
      hz_trace s' = tr @ [Compiler CompilerStop, Compiler ClearCaptured])"
    using m rec1
  proof (cases rule: materialize_cases)
    case (read_back s3 s4)
    from populate_prefix [OF read_back(6)] have "r \<noteq> Inl BridgeHookFailed"
      by (auto simp: readback_errors_def)
    with read_back show ?thesis by (simp add: hook_flag)
  qed (use assms(6) in \<open>simp_all add: hook_flag\<close>)
  then show "r = Inl BridgeHookFailed \<longleftrightarrow> hz_hook_had_error s \<or>
      (\<exists>rec \<in> set (inputs tr). \<not> is_key rec \<and> input_result F hctx rec = None) \<or>
      (\<exists>out \<in> set (outputs tr). output_result F hctx out = None)"
    and "r = Inl BridgeHookFailed \<longrightarrow> hz_alloc s' = hz_alloc s \<and>
      hz_trace s' = tr @ [Compiler CompilerStop, Compiler ClearCaptured]"
    by (simp_all add: bad_capture_def)
qed (simp add: on_post_recording_form)

text \<open>
  A captured array whose elements have different modulus chains, beside one that is served:
  the flush of the demo session fails, and the second file is written all the same.
\<close>

definition demo_ctx :: "nat hook_ctx" where
  "demo_ctx = \<lparr>hk_ring_dim = 2, hk_primary = \<lparr>cx_ring_dim = 2, cx_cc = 1\<rparr>\<rparr>"

definition ragged :: captured_input where
  "ragged = \<lparr>ci_name = ''ragged'', ci_addr_ids = [1], ci_shape = \<lparr>cs_kind = SRPArray,
     cs_per_element_moduli = [[97], [193]]\<rparr>, ci_values = [[1, 2], [3, 4]]\<rparr>"

definition plain_input :: captured_input where
  "plain_input = \<lparr>ci_name = ''plain'', ci_addr_ids = [2], ci_shape = \<lparr>cs_kind = SRP,
     cs_per_element_moduli = [[97]]\<rparr>, ci_values = [[5, 6]]\<rparr>"

theorem flush_reports_bad_captures_witness:
  "fst (flush (hook_env sim_openfhe (Some demo_ctx) (\<lambda>_. [ragged, plain_input]) (\<lambda>_. []) sim_env) overwritten)
     = Inl BridgeHookFailed \<and>
   snd (on_post_recording sim_openfhe demo_ctx [ragged, plain_input] [] False) \<noteq> []"
proof -
  let ?E = "hook_env sim_openfhe (Some demo_ctx) (\<lambda>_. [ragged, plain_input]) (\<lambda>_. []) sim_env"
  obtain r s' where f: "flush ?E overwritten = (r, s')" by (rule prod.exhaust)
  have "\<not> nothing_pending (hz_epoch overwritten)" by (simp add: nothing_pending_def)
  moreover have "\<not> format_refused (hz_config overwritten)"
    by (simp add: format_refused_def config_init_def)
  moreover have "input_result sim_openfhe demo_ctx ragged = None" by code_simp
  moreover have "input_result sim_openfhe demo_ctx plain_input \<noteq> None" by code_simp
  moreover have "\<not> is_key ragged" "\<not> is_key plain_input"
    by (simp_all add: is_key_def ragged_def plain_input_def)
  moreover have "hz_hook_had_error overwritten = False"
    by (simp add: overwritten_def demo_recording_def)
  ultimately show ?thesis
    using flush_reports_bad_captures [OF overwritten_inv overwritten_simps(4) _ _ refl _ f]
    by (auto simp: f opt_list_def)
qed

end
