(* ===== verification/Haze_Handles.thy ===== *)
theory Haze_Handles
  imports Haze_Api
begin

text \<open>
  The heap objects behind the opaque stream and event handles (core/stream.hpp and
  core/stream.cpp): a handle is the address of a struct that holds its id. The answer of
  \<open>new (std::nothrow)\<close> is an argument, \<open>None\<close> for null. Deleting an address that is not a live
  object (a double free) is undefined: \<open>None\<close>. \<open>Haze_Device_Stream\<close> keeps the ids only; the
  lemmas here say that this loses nothing but these misuses.
\<close>

record haze_stream_s =
  stream_id :: u64

record haze_event_s =
  event_id :: u64

record handles =
  hd_streams :: "hostptr \<rightharpoonup> haze_stream_s"
  hd_events :: "hostptr \<rightharpoonup> haze_event_s"

type_synonym ('p, 'm) world = "('p, 'm) haze \<times> handles"

section \<open>Creation and destruction\<close>

definition stream_create_at :: "hostptr option \<Rightarrow> ('p, 'm) world \<Rightarrow> hostptr \<times> ('p, 'm) world" where
  "stream_create_at a = (\<lambda>(s, h).
     (case stream_create (a = None) s of
        (None, s1) \<Rightarrow> (0, s1, h)
      | (Some i, s1) \<Rightarrow>
          (the a, s1, h\<lparr>hd_streams := (hd_streams h)(the a \<mapsto> \<lparr>stream_id = i\<rparr>)\<rparr>)))"

definition stream_destroy_at :: "hostptr \<Rightarrow> ('p, 'm) world \<Rightarrow> ('p, 'm) world option" where
  "stream_destroy_at p = (\<lambda>(s, h).
     if p = 0 then Some (s, h)
     else (case hd_streams h p of
             None \<Rightarrow> None
           | Some st \<Rightarrow> Some (s, h\<lparr>hd_streams := (hd_streams h)(p := None)\<rparr>)))"

definition event_create_at :: "hostptr option \<Rightarrow> ('p, 'm) world \<Rightarrow> hostptr \<times> ('p, 'm) world" where
  "event_create_at a = (\<lambda>(s, h).
     (case event_create (a = None) s of
        (None, s1) \<Rightarrow> (0, s1, h)
      | (Some i, s1) \<Rightarrow>
          (the a, s1, h\<lparr>hd_events := (hd_events h)(the a \<mapsto> \<lparr>event_id = i\<rparr>)\<rparr>)))"

definition event_destroy_at :: "hostptr \<Rightarrow> ('p, 'm) world \<Rightarrow> ('p, 'm) world option" where
  "event_destroy_at p = (\<lambda>(s, h).
     if p = 0 then Some (s, h)
     else (case hd_events h p of
             None \<Rightarrow> None
           | Some e \<Rightarrow> Some (s, h\<lparr>hd_events := (hd_events h)(p := None)\<rparr>)))"

section \<open>The contract of a handle kind\<close>

datatype handle_op = New "hostptr option" | Delete hostptr

fun run_handles ::
    "(hostptr option \<Rightarrow> 's \<Rightarrow> hostptr \<times> 's) \<Rightarrow> (hostptr \<Rightarrow> 's \<Rightarrow> 's option) \<Rightarrow>
     handle_op list \<Rightarrow> 's \<Rightarrow> 's option" where
  "run_handles create destroy [] w = Some w"
| "run_handles create destroy (New a # ops) w = run_handles create destroy ops (snd (create a w))"
| "run_handles create destroy (Delete p # ops) w =
     (case destroy p w of None \<Rightarrow> None | Some w1 \<Rightarrow> run_handles create destroy ops w1)"

text \<open>
  What the two sides promise about a sequence, over the set of live addresses: \<open>operator new\<close>
  returns neither null nor a live address, the client deletes null or what it holds.
\<close>

fun proper :: "hostptr set \<Rightarrow> handle_op list \<Rightarrow> bool" where
  "proper L [] = True"
| "proper L (New None # ops) = proper L ops"
| "proper L (New (Some p) # ops) = (p \<noteq> 0 \<and> p \<notin> L \<and> proper (insert p L) ops)"
| "proper L (Delete p # ops) = ((p = 0 \<or> p \<in> L) \<and> proper (L - {p}) ops)"

locale handle_kind =
  fixes create :: "hostptr option \<Rightarrow> 's \<Rightarrow> hostptr \<times> 's"
    and destroy :: "hostptr \<Rightarrow> 's \<Rightarrow> 's option"
    and live :: "'s \<Rightarrow> hostptr \<rightharpoonup> u64" and counter :: "'s \<Rightarrow> u64"
  assumes create_null: "create None w = (0, w)"
    and create_new: "fst (create (Some p) w) = p"
      "live (snd (create (Some p) w)) = (live w)(p \<mapsto> counter w)"
      "counter (snd (create (Some p) w)) = counter w + 1"
    and destroy_null: "destroy 0 w = Some w"
    and destroy_live: "p \<noteq> 0 \<Longrightarrow> destroy p w = Some w1 \<Longrightarrow>
      live w1 = (live w)(p := None) \<and> counter w1 = counter w"
    and destroy_defined: "p \<noteq> 0 \<Longrightarrow> destroy p w = None \<longleftrightarrow> live w p = None"
begin

definition ids_ok :: "'s \<Rightarrow> bool" where
  "ids_ok w \<longleftrightarrow> inj_on (live w) (dom (live w)) \<and> (\<forall>p i. live w p = Some i \<longrightarrow> i < counter w) \<and>
     live w 0 = None"

lemma ids_ok_create:
  assumes "ids_ok w" and "p \<noteq> 0" and "live w p = None" and "unat (counter w) + 1 < 2 ^ 64"
  shows "ids_ok (snd (create (Some p) w))"
proof -
  have lt: "i < counter w + 1" if "i \<le> counter w" for i
    using that assms(4) by (simp add: word_less_nat_alt word_le_nat_alt unat_word_ariths)
  have "inj_on ((live w)(p \<mapsto> counter w)) (dom ((live w)(p \<mapsto> counter w)))"
    using assms(1) by (fastforce simp: ids_ok_def inj_on_def dom_def)
  moreover have "i < counter w + 1" if "((live w)(p \<mapsto> counter w)) q = Some i" for q i
    using that assms(1) lt by (auto simp: ids_ok_def split: if_splits intro: less_imp_le)
  ultimately show ?thesis
    using assms(1,2) by (simp add: ids_ok_def create_new)
qed

lemma ids_ok_destroy:
  assumes "ids_ok w" and "destroy p w = Some w1"
  shows "ids_ok w1"
proof (cases "p = 0")
  case True
  with assms show ?thesis by (simp add: destroy_null)
next
  case False
  with assms(2) have "live w1 = (live w)(p := None)" "counter w1 = counter w"
    using destroy_live by blast+
  with assms(1) show ?thesis by (auto simp: ids_ok_def inj_on_def dom_def)
qed

text \<open>
  A proper sequence is never undefined, and as long as the counter does not wrap, the live
  handles have pairwise different ids.
\<close>

lemma proper_runs:
  assumes "proper (dom (live w)) ops" and "ids_ok w" and "unat (counter w) + length ops < 2 ^ 64"
  shows "\<exists>w1. run_handles create destroy ops w = Some w1 \<and> ids_ok w1"
  using assms
proof (induction ops arbitrary: w)
  case (Cons op ops)
  show ?case
  proof (cases op)
    case (New a)
    show ?thesis
    proof (cases a)
      case None
      with Cons New show ?thesis by (simp add: create_null)
    next
      case (Some p)
      have "unat (counter w + 1) = unat (counter w) + 1"
        using Cons.prems(3) by (simp add: unat_word_ariths)
      then have "unat (counter (snd (create (Some p) w))) + length ops < 2 ^ 64"
        using Cons.prems(3) by (simp add: create_new)
      moreover have "ids_ok (snd (create (Some p) w))"
        using Cons.prems New Some by (intro ids_ok_create) auto
      moreover have "proper (dom (live (snd (create (Some p) w)))) ops"
        using Cons.prems(1) New Some by (simp add: create_new)
      ultimately have "\<exists>w1. run_handles create destroy ops (snd (create (Some p) w)) = Some w1 \<and> ids_ok w1"
        using Cons.IH by blast
      then show ?thesis by (simp add: New Some)
    qed
  next
    case (Delete p)
    show ?thesis
    proof (cases "p = 0")
      case True
      moreover have "dom (live w) - {0} = dom (live w)"
        using Cons.prems(2) by (auto simp: ids_ok_def)
      ultimately show ?thesis
        using Cons Delete by (simp add: destroy_null)
    next
      case False
      with Cons.prems(1) Delete obtain w1 where d: "destroy p w = Some w1"
        using destroy_defined [of p w] by auto
      with False have l: "live w1 = (live w)(p := None)" "counter w1 = counter w"
        using destroy_live [of p w w1] by auto
      have "proper (dom (live w1)) ops" using Cons.prems(1) Delete by (simp add: l)
      moreover have "unat (counter w1) + length ops < 2 ^ 64" using Cons.prems(3) by (simp add: l)
      ultimately have "\<exists>w2. run_handles create destroy ops w1 = Some w2 \<and> ids_ok w2"
        using Cons.IH ids_ok_destroy [OF Cons.prems(2) d] by blast
      then show ?thesis by (simp add: Delete d)
    qed
  qed
qed simp

text \<open>A double free is the only way to leave the defined behaviour.\<close>

lemma double_free: "p \<noteq> 0 \<Longrightarrow> destroy p w = Some w1 \<Longrightarrow> destroy p w1 = None"
  using destroy_live [of p w w1] destroy_defined [of p w1] by simp

end

section \<open>Streams and events\<close>

definition live_streams :: "('p, 'm) world \<Rightarrow> hostptr \<rightharpoonup> u64" where
  "live_streams w = (\<lambda>p. map_option stream_id (hd_streams (snd w) p))"

definition live_events :: "('p, 'm) world \<Rightarrow> hostptr \<rightharpoonup> u64" where
  "live_events w = (\<lambda>p. map_option event_id (hd_events (snd w) p))"

interpretation streams: handle_kind stream_create_at stream_destroy_at live_streams
    "\<lambda>w. hz_next_stream_id (fst w)"
  by unfold_locales
    (auto simp: stream_create_at_def stream_destroy_at_def stream_create_def live_streams_def
      fun_eq_iff split: prod.splits option.splits)

interpretation events: handle_kind event_create_at event_destroy_at live_events
    "\<lambda>w. hz_next_event_id (fst w)"
  by unfold_locales
    (auto simp: event_create_at_def event_destroy_at_def event_create_def live_events_def
      fun_eq_iff split: prod.splits option.splits)

text \<open>No operation of one kind touches the handles of the other.\<close>

lemma kinds_independent:
  "hd_events (snd (snd (stream_create_at a w))) = hd_events (snd w)"
  "stream_destroy_at p w = Some w1 \<Longrightarrow> hd_events (snd w1) = hd_events (snd w)"
  "hd_streams (snd (snd (event_create_at a w))) = hd_streams (snd w)"
  "event_destroy_at p w = Some w2 \<Longrightarrow> hd_streams (snd w2) = hd_streams (snd w)"
  by (auto simp: stream_create_at_def stream_destroy_at_def event_create_at_def event_destroy_at_def
      split: prod.splits option.splits if_splits)

text \<open>
  The id model: creation advances the library's state as \<open>stream_create\<close> does, whatever
  address the object gets; destruction does not touch it.
\<close>

lemma ids_refine:
  "fst (snd (stream_create_at a w)) = snd (stream_create (a = None) (fst w))"
  "stream_destroy_at p w = Some w1 \<Longrightarrow> fst w1 = stream_destroy i (fst w)"
  "fst (snd (event_create_at a w)) = snd (event_create (a = None) (fst w))"
  "event_destroy_at p w = Some w2 \<Longrightarrow> fst w2 = event_destroy i (fst w)"
  by (auto simp: stream_create_at_def stream_destroy_at_def stream_destroy_def event_create_at_def
      event_destroy_at_def event_destroy_def split: prod.splits option.splits if_splits)

text \<open>
  From the fresh library with an empty heap: streams created and destroyed properly have
  pairwise different ids while they live.
\<close>

definition no_handles :: handles where
  "no_handles = \<lparr>hd_streams = Map.empty, hd_events = Map.empty\<rparr>"

theorem stream_ids_distinct:
  assumes "proper {} ops" and "length ops < 2 ^ 63"
  shows "\<exists>w. run_handles stream_create_at stream_destroy_at ops
      (haze_init h :: ('p, 'm) haze, no_handles) = Some w \<and>
    inj_on (live_streams w) (dom (live_streams w))"
proof -
  let ?w = "(haze_init h :: ('p, 'm) haze, no_handles)"
  have l: "live_streams ?w = Map.empty" by (simp add: live_streams_def no_handles_def)
  have "streams.ids_ok ?w" by (simp add: streams.ids_ok_def l)
  moreover have "unat (hz_next_stream_id (fst ?w)) + length ops < 2 ^ 64"
    using assms(2) by (simp add: haze_init_def)
  moreover have "proper (dom (live_streams ?w)) ops" using assms(1) by (simp add: l)
  ultimately obtain w where "run_handles stream_create_at stream_destroy_at ops ?w = Some w"
      and "streams.ids_ok w"
    using streams.proper_runs [of ?w ops] by blast
  then show ?thesis by (intro exI [of _ w]) (simp add: streams.ids_ok_def)
qed

text \<open>
  A device reset restarts the counter and leaves the handles of the client alive, so after it
  two live streams can hold the same id. Nothing in the library reads the id.
\<close>

lemma reset_repeats_ids:
  "case stream_create_at (Some 16) (haze_init h, no_handles) of (p1, s1, h1) \<Rightarrow>
   case stream_create_at (Some 32) (reset_all s1, h1) of (p2, w2) \<Rightarrow>
     live_streams w2 p1 = Some 1 \<and> live_streams w2 p2 = Some 1"
  by (simp add: stream_create_at_def stream_create_def live_streams_def no_handles_def haze_init_def
      reset_all_def Let_def fh_emit_def hazeReplayBridgeReset_def device_reset_def events_reset_def
      streams_reset_def)

end
