(* ===== verification/Haze_Header.thy ===== *)
theory Haze_Header
  imports Haze_System
begin

text \<open>
  The public header (include/haze/haze.h): one constructor per declared function, in the
  header's order and sections, with the parameters the library looks at, and what a call does.
  An out pointer is the flag that it is null; \<open>oom\<close> and \<open>got\<close> are the answers of the host's
  allocator. \<open>exec_call\<close> is the ABI as one function of the call, and has the same steps as the
  relation \<open>api_step\<close>. It covers calls whose arguments the caller may pass in C: stream and
  event handles are live or null (\<open>Haze_Handles\<close> has the stale ones, and a double destruction is
  undefined there), \<open>hazeFreeHost\<close> gets null or what \<open>hazeHostAlloc\<close> returned, host buffers are
  valid, and an array has at least the entries its length announces (the models of loops over
  several arrays stop at the shortest list, so they say nothing about shorter ones). \<open>None\<close> is
  undefined behaviour inside the library: a read-back past its vector, a digit slice past its
  array. Functions are \<open>noexcept\<close>: where the compiler throws out of \<open>start\<close> or \<open>stop\<close>, which the
  library does not catch, the process ends, and a call of the model is one in which it returned.
\<close>

section \<open>The declared functions\<close>

datatype device_call =
  HazeGetDeviceCount bool
| HazeSetDevice int
| HazeGetDevice bool
| HazeGetDeviceProperties bool int
| HazeDeviceSynchronize
| HazeDeviceReset
| HazeDeviceEnablePeerAccess int int
| HazeDeviceCanAccessPeer bool int int

datatype memory_call =
  HazeMalloc bool u64
| HazeFree hostptr
| HazeMallocAsync bool u64 "u64 option"
| HazeFreeAsync hostptr "u64 option"
| HazeHostAlloc "hostptr option" bool u64
| HazeFreeHost hostptr
| HazePointerGetAttributes bool hostptr

datatype transfer_call =
  HazeMemcpy hostptr hostptr u64 int
| HazeMemcpyAsync hostptr hostptr u64 int "u64 option"
| HazeMemset hostptr int u64
| HazeMemsetAsync hostptr int u64 "u64 option"
| HazeMemcpyPeerAsync hostptr int hostptr int u64 "u64 option"
| HazeMemcpyMrp "hostptr list option" "hostptr list option" u64 int "u64 list option"

datatype group_call =
  HazeMallocMrp bool u64 u64
| HazeFreeMrp "hostptr list option"

datatype program_call =
  HazeTagOutput hostptr
| HazeFlush
| HazeWriteProgram

datatype config_call =
  HazeSetRingDimension u64
| HazeSetCiphertextModulus int u64
| HazeSetTwiddleFactors int u64
| HazeConfigureDevice
| HazeSetProgramInfo "string option" "string option" "string option"
| HazeSetProgramDirectory "string option"
| HazeSetTarget "string option"
| HazeSetMontgomery int
| HazeSetBitReversal int
| HazeSetReducedNoise int

datatype stream_call =
  HazeStreamCreate bool bool
| HazeStreamCreateWithPriority bool bool int int
| HazeStreamDestroy "u64 option"
| HazeStreamSynchronize "u64 option"
| HazeStreamWaitEvent "u64 option" "u64 option" int
| HazeEventCreate bool bool
| HazeEventCreateWithFlags bool bool int
| HazeEventDestroy "u64 option"
| HazeEventRecord "u64 option" "u64 option"

datatype compute_call =
  HazeAdd hostptr hostptr hostptr int
| HazeSub hostptr hostptr hostptr int
| HazeMul hostptr hostptr hostptr int
| HazeAddScalar hostptr hostptr u64 int
| HazeSubScalar hostptr hostptr u64 int
| HazeMulScalar hostptr hostptr u64 int
| HazeNTT hostptr hostptr int
| HazeINTT hostptr hostptr int
| HazeAutomorph hostptr hostptr u64

type_synonym ptrs = "hostptr list option"

datatype mrp_call =
  HazeAddMrp ptrs ptrs ptrs "u64 list option"
| HazeSubMrp ptrs ptrs ptrs "u64 list option"
| HazeMulMrp ptrs ptrs ptrs "u64 list option"
| HazeAddScalarMrp ptrs ptrs "u64 list option" "u64 list option"
| HazeSubScalarMrp ptrs ptrs "u64 list option" "u64 list option"
| HazeMulScalarMrp ptrs ptrs "u64 list option" "u64 list option"
| HazeNTTMrp ptrs ptrs "u64 list option"
| HazeINTTMrp ptrs ptrs "u64 list option"
| HazeAutomorphMrp ptrs ptrs u64 "u64 list option"
| HazeRotAutomorphCoeffMrp ptrs ptrs u64 "u64 list option"

datatype basis_call =
  HazeBasisConvert ptrs ptrs "hazeBasisConvertParams option"
| HazeModDown ptrs ptrs "hazeModDownParams option"
| HazeModUp ptrs ptrs "hazeModUpParams option"

datatype graph_call =
  HazeStreamBeginCapture "u64 option"
| HazeStreamEndCapture "u64 option" bool
| HazeGraphInstantiate bool "u64 option"
| HazeGraphLaunch "u64 option" "u64 option"
| HazeGraphExecUpdate "u64 option" "u64 option"
| HazeGraphExecDestroy "u64 option"
| HazeGraphDestroy "u64 option"

text \<open>\<open>HostWrite\<close> is not a call: the client writes its own memory.\<close>

datatype call =
  HostWrite hostmem
| HazeGetLastError
| HazeGetPerformanceCounters
| Device device_call
| Memory memory_call
| Transfer transfer_call
| Group_Memory group_call
| Program program_call
| Settings config_call
| Streams stream_call
| Arithmetic compute_call
| Group_Arithmetic mrp_call
| Basis basis_call
| Graph graph_call

section \<open>What a call does\<close>

text \<open>The code and the state, without what is written through an out pointer.\<close>

definition code_of :: "(hazeError_t \<times> 'o) \<times> 's \<Rightarrow> hazeError_t \<times> 's" where
  "code_of = (\<lambda>((e, out), s). (e, s))"

fun exec_device :: "device_call \<Rightarrow> ('p, 'm) haze \<Rightarrow> hazeError_t \<times> ('p, 'm) haze" where
  "exec_device (HazeGetDeviceCount b) s = code_of (hazeGetDeviceCount b s)"
| "exec_device (HazeSetDevice i) s = hazeSetDevice i s"
| "exec_device (HazeGetDevice b) s = code_of (hazeGetDevice b s)"
| "exec_device (HazeGetDeviceProperties b i) s = code_of (hazeGetDeviceProperties b i s)"
| "exec_device HazeDeviceSynchronize s = hazeDeviceSynchronize s"
| "exec_device HazeDeviceReset s = hazeDeviceReset s"
| "exec_device (HazeDeviceEnablePeerAccess p f) s = hazeDeviceEnablePeerAccess p f s"
| "exec_device (HazeDeviceCanAccessPeer b i j) s = code_of (hazeDeviceCanAccessPeer b i j s)"

fun exec_memory :: "memory_call \<Rightarrow> ('p, 'm) haze \<Rightarrow> hazeError_t \<times> ('p, 'm) haze" where
  "exec_memory (HazeMalloc b n) s = code_of (hazeMalloc b n s)"
| "exec_memory (HazeFree p) s = hazeFree p s"
| "exec_memory (HazeMallocAsync b n h) s = code_of (hazeMallocAsync b n h s)"
| "exec_memory (HazeFreeAsync p h) s = hazeFreeAsync p h s"
| "exec_memory (HazeHostAlloc got b n) s = code_of (hazeHostAlloc got b n s)"
| "exec_memory (HazeFreeHost p) s = hazeFreeHost p s"
| "exec_memory (HazePointerGetAttributes b p) s = code_of (hazePointerGetAttributes b p s)"

fun exec_transfer ::
    "('p, 'm) fh_env \<Rightarrow> transfer_call \<Rightarrow> ('p, 'm) haze \<Rightarrow> (hazeError_t \<times> ('p, 'm) haze) option" where
  "exec_transfer E (HazeMemcpy d h n k) s = hazeMemcpy E d h n k s"
| "exec_transfer E (HazeMemcpyAsync d h n k st) s = hazeMemcpyAsync E d h n k st s"
| "exec_transfer E (HazeMemset p v n) s = Some (hazeMemset p v n s)"
| "exec_transfer E (HazeMemsetAsync p v n st) s = Some (hazeMemsetAsync p v n st s)"
| "exec_transfer E (HazeMemcpyPeerAsync d i h j n st) s = Some (hazeMemcpyPeerAsync d i h j n st s)"
| "exec_transfer E (HazeMemcpyMrp ds hs n k b) s = hazeMemcpyMrp E ds hs n k b s"

fun exec_group :: "group_call \<Rightarrow> ('p, 'm) haze \<Rightarrow> hazeError_t \<times> ('p, 'm) haze" where
  "exec_group (HazeMallocMrp b c n) s = code_of (hazeMallocMrp b c n s)"
| "exec_group (HazeFreeMrp ps) s = hazeFreeMrp ps s"

fun exec_program ::
    "('p, 'm) fh_env \<Rightarrow> program_call \<Rightarrow> ('p, 'm) haze \<Rightarrow> hazeError_t \<times> ('p, 'm) haze" where
  "exec_program E (HazeTagOutput p) s = hazeTagOutput p s"
| "exec_program E HazeFlush s = hazeFlush E s"
| "exec_program E HazeWriteProgram s = hazeWriteProgram E s"

fun exec_config :: "config_call \<Rightarrow> ('p, 'm) haze \<Rightarrow> hazeError_t \<times> ('p, 'm) haze" where
  "exec_config (HazeSetRingDimension n) s = hazeSetRingDimension n s"
| "exec_config (HazeSetCiphertextModulus i q) s = hazeSetCiphertextModulus i q s"
| "exec_config (HazeSetTwiddleFactors i g) s = hazeSetTwiddleFactors i g s"
| "exec_config HazeConfigureDevice s = hazeConfigureDevice s"
| "exec_config (HazeSetProgramInfo n v d) s = hazeSetProgramInfo n v d s"
| "exec_config (HazeSetProgramDirectory d) s = hazeSetProgramDirectory d s"
| "exec_config (HazeSetTarget t) s = hazeSetTarget t s"
| "exec_config (HazeSetMontgomery k) s = hazeSetMontgomery k s"
| "exec_config (HazeSetBitReversal k) s = hazeSetBitReversal k s"
| "exec_config (HazeSetReducedNoise k) s = hazeSetReducedNoise k s"

fun exec_stream :: "stream_call \<Rightarrow> ('p, 'm) haze \<Rightarrow> hazeError_t \<times> ('p, 'm) haze" where
  "exec_stream (HazeStreamCreate oom b) s = code_of (hazeStreamCreate oom b s)"
| "exec_stream (HazeStreamCreateWithPriority oom b f p) s =
     code_of (hazeStreamCreateWithPriority oom b f p s)"
| "exec_stream (HazeStreamDestroy h) s = hazeStreamDestroy h s"
| "exec_stream (HazeStreamSynchronize h) s = hazeStreamSynchronize h s"
| "exec_stream (HazeStreamWaitEvent h e f) s = hazeStreamWaitEvent h e s"
| "exec_stream (HazeEventCreate oom b) s = code_of (hazeEventCreate oom b s)"
| "exec_stream (HazeEventCreateWithFlags oom b f) s = code_of (hazeEventCreateWithFlags oom b f s)"
| "exec_stream (HazeEventDestroy e) s = hazeEventDestroy e s"
| "exec_stream (HazeEventRecord e h) s = hazeEventRecord e h s"

fun exec_compute ::
    "('p, 'm) fh_env \<Rightarrow> compute_call \<Rightarrow> ('p, 'm) haze \<Rightarrow> hazeError_t \<times> ('p, 'm) haze" where
  "exec_compute E (HazeAdd d a b i) s = hazeAdd E d a b i s"
| "exec_compute E (HazeSub d a b i) s = hazeSub E d a b i s"
| "exec_compute E (HazeMul d a b i) s = hazeMul E d a b i s"
| "exec_compute E (HazeAddScalar d a x i) s = hazeAddScalar E d a x i s"
| "exec_compute E (HazeSubScalar d a x i) s = hazeSubScalar E d a x i s"
| "exec_compute E (HazeMulScalar d a x i) s = hazeMulScalar E d a x i s"
| "exec_compute E (HazeNTT d a i) s = hazeNTT E d a i s"
| "exec_compute E (HazeINTT d a i) s = hazeINTT E d a i s"
| "exec_compute E (HazeAutomorph d a k) s = hazeAutomorph E d a k s"

fun exec_mrp ::
    "('p, 'm) fh_env \<Rightarrow> mrp_call \<Rightarrow> ('p, 'm) haze \<Rightarrow> hazeError_t \<times> ('p, 'm) haze" where
  "exec_mrp E (HazeAddMrp d a b q) s = hazeAddMrp E d a b q s"
| "exec_mrp E (HazeSubMrp d a b q) s = hazeSubMrp E d a b q s"
| "exec_mrp E (HazeMulMrp d a b q) s = hazeMulMrp E d a b q s"
| "exec_mrp E (HazeAddScalarMrp d a x q) s = hazeAddScalarMrp E d a x q s"
| "exec_mrp E (HazeSubScalarMrp d a x q) s = hazeSubScalarMrp E d a x q s"
| "exec_mrp E (HazeMulScalarMrp d a x q) s = hazeMulScalarMrp E d a x q s"
| "exec_mrp E (HazeNTTMrp d a q) s = hazeNTTMrp E d a q s"
| "exec_mrp E (HazeINTTMrp d a q) s = hazeINTTMrp E d a q s"
| "exec_mrp E (HazeAutomorphMrp d a k q) s = hazeAutomorphMrp E d a k q s"
| "exec_mrp E (HazeRotAutomorphCoeffMrp d a k q) s = hazeRotAutomorphCoeffMrp E d a k q s"

fun exec_basis ::
    "('p, 'm) fh_env \<Rightarrow> basis_call \<Rightarrow> ('p, 'm) haze \<Rightarrow> (hazeError_t \<times> ('p, 'm) haze) option" where
  "exec_basis E (HazeBasisConvert d a p) s = hazeBasisConvert E d a p s"
| "exec_basis E (HazeModDown d a p) s = hazeModDown E d a p s"
| "exec_basis E (HazeModUp d a p) s = hazeModUp E d a p s"

fun exec_graph :: "graph_call \<Rightarrow> ('p, 'm) haze \<Rightarrow> hazeError_t \<times> ('p, 'm) haze" where
  "exec_graph (HazeStreamBeginCapture h) s = hazeStreamBeginCapture h s"
| "exec_graph (HazeStreamEndCapture h b) s = code_of (hazeStreamEndCapture h b s)"
| "exec_graph (HazeGraphInstantiate b g) s = code_of (hazeGraphInstantiate b g s)"
| "exec_graph (HazeGraphLaunch x h) s = hazeGraphLaunch x h s"
| "exec_graph (HazeGraphExecUpdate x g) s = hazeGraphExecUpdate x g s"
| "exec_graph (HazeGraphExecDestroy x) s = hazeGraphExecDestroy x s"
| "exec_graph (HazeGraphDestroy g) s = hazeGraphDestroy g s"

fun exec_call ::
    "('p, 'm) fh_env \<Rightarrow> call \<Rightarrow> ('p, 'm) haze \<Rightarrow> (hazeError_t \<times> ('p, 'm) haze) option" where
  "exec_call E (HostWrite hm) s = Some (HAZE_SUCCESS, s\<lparr>hz_host := hm\<rparr>)"
| "exec_call E HazeGetLastError s =
     (case hazeGetLastError (hz_last_error s) of (e, cell) \<Rightarrow> Some (e, s\<lparr>hz_last_error := cell\<rparr>))"
| "exec_call E HazeGetPerformanceCounters s = Some (hazeGetPerformanceCounters s)"
| "exec_call E (Device c) s = Some (exec_device c s)"
| "exec_call E (Memory c) s = Some (exec_memory c s)"
| "exec_call E (Transfer c) s = exec_transfer E c s"
| "exec_call E (Group_Memory c) s = Some (exec_group c s)"
| "exec_call E (Program c) s = Some (exec_program E c s)"
| "exec_call E (Settings c) s = Some (exec_config c s)"
| "exec_call E (Streams c) s = Some (exec_stream c s)"
| "exec_call E (Arithmetic c) s = Some (exec_compute E c s)"
| "exec_call E (Group_Arithmetic c) s = Some (exec_mrp E c s)"
| "exec_call E (Basis c) s = exec_basis E c s"
| "exec_call E (Graph c) s = Some (exec_graph c s)"

text \<open>A sequence of calls and the codes they return; \<open>None\<close> when one of them is undefined.\<close>

fun exec_calls ::
    "('p, 'm) fh_env \<Rightarrow> call list \<Rightarrow> ('p, 'm) haze \<Rightarrow> (hazeError_t list \<times> ('p, 'm) haze) option" where
  "exec_calls E [] s = Some ([], s)"
| "exec_calls E (c # cs) s =
     (case exec_call E c s of
        None \<Rightarrow> None
      | Some (e, s1) \<Rightarrow> map_option (\<lambda>(es, s2). (e # es, s2)) (exec_calls E cs s1))"

section \<open>The same steps as the relation\<close>

lemmas exec_group_defs = exec_device.simps exec_memory.simps exec_transfer.simps exec_group.simps
  exec_program.simps exec_config.simps exec_stream.simps exec_compute.simps exec_mrp.simps
  exec_basis.simps exec_graph.simps

lemmas wrapper_defs = hazeMallocAsync_def hazeFreeAsync_def hazeMemcpyAsync_def hazeMemsetAsync_def
  hazeMemcpyPeerAsync_def hazeDeviceEnablePeerAccess_def hazeStreamBeginCapture_def
  hazeGraphLaunch_def hazeGraphExecUpdate_def hazeGraphExecDestroy_def hazeGraphDestroy_def
  hazeStreamCreateWithPriority_def hazeEventCreateWithFlags_def hazeAdd_def hazeSub_def hazeMul_def
  hazeAddScalar_def hazeSubScalar_def hazeMulScalar_def hazeNTT_def hazeINTT_def hazeAddMrp_def
  hazeSubMrp_def hazeMulMrp_def hazeAddScalarMrp_def hazeSubScalarMrp_def hazeMulScalarMrp_def
  hazeNTTMrp_def hazeINTTMrp_def hazeAutomorphMrp_def hazeRotAutomorphCoeffMrp_def

lemma code_of_eq: "code_of x = (e, s') \<longleftrightarrow> (\<exists>out. x = ((e, out), s'))"
  by (cases x; cases "fst x") (auto simp: code_of_def)

lemma exec_call_step:
  assumes "exec_call E c s = Some (e, s')"
  shows "api_step E s e s'"
proof (cases c)
  case (Device d)
  with assms show ?thesis
    by (cases d) (auto simp: wrapper_defs code_of_eq intro: api_step.intros)
next
  case (Memory d)
  with assms show ?thesis
    by (cases d) (auto simp: wrapper_defs code_of_eq intro: api_step.intros)
next
  case (Transfer d)
  with assms show ?thesis
    by (cases d) (auto simp: wrapper_defs intro: api_step.intros)
next
  case (Group_Memory d)
  with assms show ?thesis by (cases d) (auto simp: code_of_eq intro: api_step.intros)
next
  case (Program d)
  with assms show ?thesis by (cases d) (auto intro: api_step.intros)
next
  case (Settings d)
  with assms show ?thesis by (cases d) (auto intro: api_step.intros)
next
  case (Streams d)
  with assms show ?thesis
    by (cases d) (auto simp: wrapper_defs code_of_eq intro: api_step.intros)
next
  case (Arithmetic d)
  with assms show ?thesis by (cases d) (auto simp: wrapper_defs intro: api_step.intros)
next
  case (Group_Arithmetic d)
  with assms show ?thesis by (cases d) (auto simp: wrapper_defs intro: api_step.intros)
next
  case (Basis d)
  with assms show ?thesis by (cases d) (auto intro: api_step.intros)
next
  case (Graph d)
  with assms show ?thesis
    by (cases d) (auto simp: wrapper_defs code_of_eq intro: api_step.intros)
qed (use assms in \<open>auto split: prod.splits intro: api_step.intros\<close>)

text \<open>The shims that take the fhetch operation as a parameter have one caller per operation.\<close>

lemma exec_shims:
  "\<exists>c. exec_compute E c s = haze_binary_pp E f1 d a b i s"
  "\<exists>c. exec_compute E c s = haze_binary_ps E f2 d a x i s"
  "\<exists>c. exec_compute E c s = haze_unary_pq E f3 d a i s"
  "\<exists>c. exec_mrp E c s = haze_binary_pp_mrp E f4 ds as1 as2 bs s"
  "\<exists>c. exec_mrp E c s = haze_binary_ps_mrp E f5 ds as1 xs bs s"
  "\<exists>c. exec_mrp E c s = haze_unary_p_mrp E f6 ds as1 bs s"
  "\<exists>c. exec_mrp E c s = haze_unary_pi_mrp E f7 ds as1 y bs s"
proof -
  show "\<exists>c. exec_compute E c s = haze_binary_pp E f1 d a b i s"
    by (cases f1; metis exec_compute.simps(1-3) hazeAdd_def hazeSub_def hazeMul_def)
  show "\<exists>c. exec_compute E c s = haze_binary_ps E f2 d a x i s"
    by (cases f2; metis exec_compute.simps(4-6) hazeAddScalar_def hazeSubScalar_def hazeMulScalar_def)
  show "\<exists>c. exec_compute E c s = haze_unary_pq E f3 d a i s"
    by (cases f3; metis exec_compute.simps(7,8) hazeNTT_def hazeINTT_def)
  show "\<exists>c. exec_mrp E c s = haze_binary_pp_mrp E f4 ds as1 as2 bs s"
    by (cases f4; metis exec_mrp.simps(1-3) hazeAddMrp_def hazeSubMrp_def hazeMulMrp_def)
  show "\<exists>c. exec_mrp E c s = haze_binary_ps_mrp E f5 ds as1 xs bs s"
    by (cases f5; metis exec_mrp.simps(4-6) hazeAddScalarMrp_def hazeSubScalarMrp_def
        hazeMulScalarMrp_def)
  show "\<exists>c. exec_mrp E c s = haze_unary_p_mrp E f6 ds as1 bs s"
    by (cases f6; metis exec_mrp.simps(7,8) hazeNTTMrp_def hazeINTTMrp_def)
  show "\<exists>c. exec_mrp E c s = haze_unary_pi_mrp E f7 ds as1 y bs s"
    by (cases f7; metis exec_mrp.simps(9,10) hazeAutomorphMrp_def hazeRotAutomorphCoeffMrp_def)
qed

text \<open>\<open>is_call\<close>: some call does this step. Its rules are read off the equations above.\<close>

definition is_call ::
    "('p, 'm) fh_env \<Rightarrow> ('p, 'm) haze \<Rightarrow> hazeError_t \<Rightarrow> ('p, 'm) haze \<Rightarrow> bool" where
  "is_call E s e s' \<longleftrightarrow> (\<exists>c. exec_call E c s = Some (e, s'))"

lemma is_callI: "exec_call E c s = Some (e, s') \<Longrightarrow> is_call E s e s'"
  by (auto simp: is_call_def)

lemma is_call_memory:
  "hazeMalloc b n s = ((e, out), s') \<Longrightarrow> is_call E s e s'"
  "hazeFree p s = (e, s') \<Longrightarrow> is_call E s e s'"
  "hazeHostAlloc got b n s = ((e, out), s') \<Longrightarrow> is_call E s e s'"
  "hazeFreeHost p s = (e, s') \<Longrightarrow> is_call E s e s'"
  "hazePointerGetAttributes b p s = ((e, at), s') \<Longrightarrow> is_call E s e s'"
  "hazeMallocMrp b c n s = ((e, outs), s') \<Longrightarrow> is_call E s e s'"
  "hazeFreeMrp ps s = (e, s') \<Longrightarrow> is_call E s e s'"
  using is_callI [of E "Memory (HazeMalloc b n)" s e s'] is_callI [of E "Memory (HazeFree p)" s e s']
    is_callI [of E "Memory (HazeHostAlloc got b n)" s e s']
    is_callI [of E "Memory (HazeFreeHost p)" s e s']
    is_callI [of E "Memory (HazePointerGetAttributes b p)" s e s']
    is_callI [of E "Group_Memory (HazeMallocMrp b c n)" s e s']
    is_callI [of E "Group_Memory (HazeFreeMrp ps)" s e s']
  by (simp_all add: code_of_eq)

lemma is_call_transfer:
  "hazeMemcpy E d h n k s = Some (e, s') \<Longrightarrow> is_call E s e s'"
  "hazeMemcpyMrp E ds hs n k bs s = Some (e, s') \<Longrightarrow> is_call E s e s'"
  "hazeMemset p v n s = (e, s') \<Longrightarrow> is_call E s e s'"
  "hazeTagOutput p s = (e, s') \<Longrightarrow> is_call E s e s'"
  "hazeFlush E s = (e, s') \<Longrightarrow> is_call E s e s'"
  "hazeWriteProgram E s = (e, s') \<Longrightarrow> is_call E s e s'"
  using is_callI [of E "Transfer (HazeMemcpy d h n k)" s e s']
    is_callI [of E "Transfer (HazeMemcpyMrp ds hs n k bs)" s e s']
    is_callI [of E "Transfer (HazeMemset p v n)" s e s']
    is_callI [of E "Program (HazeTagOutput p)" s e s'] is_callI [of E "Program HazeFlush" s e s']
    is_callI [of E "Program HazeWriteProgram" s e s']
  by simp_all

lemma is_call_settings:
  "hazeSetRingDimension n s = (e, s') \<Longrightarrow> is_call E s e s'"
  "hazeSetCiphertextModulus i q s = (e, s') \<Longrightarrow> is_call E s e s'"
  "hazeSetTwiddleFactors i q s = (e, s') \<Longrightarrow> is_call E s e s'"
  "hazeConfigureDevice s = (e, s') \<Longrightarrow> is_call E s e s'"
  "hazeSetProgramInfo na ve de s = (e, s') \<Longrightarrow> is_call E s e s'"
  "hazeSetTarget t s = (e, s') \<Longrightarrow> is_call E s e s'"
  "hazeSetProgramDirectory t s = (e, s') \<Longrightarrow> is_call E s e s'"
  "hazeSetMontgomery k s = (e, s') \<Longrightarrow> is_call E s e s'"
  "hazeSetBitReversal k s = (e, s') \<Longrightarrow> is_call E s e s'"
  "hazeSetReducedNoise k s = (e, s') \<Longrightarrow> is_call E s e s'"
  by (metis is_callI exec_call.simps(9) exec_config.simps)+

lemma is_call_device:
  "hazeSetDevice j s = (e, s') \<Longrightarrow> is_call E s e s'"
  "hazeDeviceSynchronize s = (e, s') \<Longrightarrow> is_call E s e s'"
  "hazeDeviceReset s = (e, s') \<Longrightarrow> is_call E s e s'"
  "hazeGetDeviceCount b s = ((e, out_i), s') \<Longrightarrow> is_call E s e s'"
  "hazeGetDevice b s = ((e, out_i), s') \<Longrightarrow> is_call E s e s'"
  "hazeGetDeviceProperties b j s = ((e, pr), s') \<Longrightarrow> is_call E s e s'"
  "hazeDeviceCanAccessPeer b i j s = ((e, out_i), s') \<Longrightarrow> is_call E s e s'"
  by (metis is_callI exec_call.simps(4) exec_device.simps code_of_eq)+

lemma is_call_stream:
  "hazeStreamCreate oom b s = ((e, out), s') \<Longrightarrow> is_call E s e s'"
  "hazeEventCreate oom b s = ((e, out), s') \<Longrightarrow> is_call E s e s'"
  "hazeStreamDestroy h s = (e, s') \<Longrightarrow> is_call E s e s'"
  "hazeStreamSynchronize h s = (e, s') \<Longrightarrow> is_call E s e s'"
  "hazeStreamWaitEvent h h' s = (e, s') \<Longrightarrow> is_call E s e s'"
  "hazeEventDestroy h s = (e, s') \<Longrightarrow> is_call E s e s'"
  "hazeEventRecord h h' s = (e, s') \<Longrightarrow> is_call E s e s'"
  by (metis is_callI exec_call.simps(10) exec_stream.simps code_of_eq)+

lemma is_call_compute:
  "haze_binary_pp E f1 d a b' i s = (e, s') \<Longrightarrow> is_call E s e s'"
  "haze_binary_ps E f2 d a x i s = (e, s') \<Longrightarrow> is_call E s e s'"
  "haze_unary_pq E f3 d a i s = (e, s') \<Longrightarrow> is_call E s e s'"
  "hazeAutomorph E d a x s = (e, s') \<Longrightarrow> is_call E s e s'"
  "haze_binary_pp_mrp E f4 ds as1 as2 bs s = (e, s') \<Longrightarrow> is_call E s e s'"
  "haze_binary_ps_mrp E f5 ds as1 xs bs s = (e, s') \<Longrightarrow> is_call E s e s'"
  "haze_unary_p_mrp E f6 ds as1 bs s = (e, s') \<Longrightarrow> is_call E s e s'"
  "haze_unary_pi_mrp E f7 ds as1 x bs s = (e, s') \<Longrightarrow> is_call E s e s'"
  by (metis is_callI exec_call.simps(11,12) exec_compute.simps(9) exec_shims)+

lemma is_call_rest:
  "hazeBasisConvert E ds as1 p1 s = Some (e, s') \<Longrightarrow> is_call E s e s'"
  "hazeModDown E ds as1 p2 s = Some (e, s') \<Longrightarrow> is_call E s e s'"
  "hazeModUp E ds as1 p3 s = Some (e, s') \<Longrightarrow> is_call E s e s'"
  "hazeStreamEndCapture h b s = ((e, out), s') \<Longrightarrow> is_call E s e s'"
  "hazeGraphInstantiate b h s = ((e, out), s') \<Longrightarrow> is_call E s e s'"
  "unsupported s = (e, s') \<Longrightarrow> is_call E s e s'"
  "hazeGetPerformanceCounters s = (e, s') \<Longrightarrow> is_call E s e s'"
  "hazeGetLastError (hz_last_error s) = (e, cell) \<Longrightarrow> is_call E s e (s\<lparr>hz_last_error := cell\<rparr>)"
  "is_call E s HAZE_SUCCESS (s\<lparr>hz_host := hm\<rparr>)"
  using is_callI [of E "Basis (HazeBasisConvert ds as1 p1)" s e s']
    is_callI [of E "Basis (HazeModDown ds as1 p2)" s e s']
    is_callI [of E "Basis (HazeModUp ds as1 p3)" s e s']
    is_callI [of E "Graph (HazeStreamEndCapture h b)" s e s']
    is_callI [of E "Graph (HazeGraphInstantiate b h)" s e s']
    is_callI [of E "Graph (HazeGraphDestroy None)" s e s']
    is_callI [of E HazeGetPerformanceCounters s e s'] is_callI [of E HazeGetLastError s e]
    is_callI [of E "HostWrite hm" s]
  by (simp_all add: code_of_eq wrapper_defs)

lemmas is_call_rules = is_call_memory is_call_transfer is_call_settings is_call_device
  is_call_stream is_call_compute is_call_rest

lemma step_is_call: "api_step E s e s' \<Longrightarrow> is_call E s e s'"
proof (induction rule: api_step.induct)
  case (st_destroy f h h' s e s')
  then show ?case
    by (auto intro: is_call_device(2) is_call_stream(3-7) is_call_rest(7))
qed (rule is_call_rules; assumption)+

theorem api_step_iff: "api_step E s e s' \<longleftrightarrow> (\<exists>c. exec_call E c s = Some (e, s'))"
  using step_is_call [of E s e s'] exec_call_step [of E _ s e s'] by (auto simp: is_call_def)

lemma reachable_call: "reachable E s \<Longrightarrow> exec_call E c s = Some (e, s') \<Longrightarrow> reachable E s'"
  by (blast intro: reachable.step exec_call_step)

lemma reachable_calls: "reachable E s \<Longrightarrow> exec_calls E cs s = Some (es, s') \<Longrightarrow> reachable E s'"
proof (induction cs arbitrary: s es)
  case (Cons c cs)
  then show ?case by (auto split: option.splits) (blast intro: reachable_call)
qed simp

end
