(* ===== verification/Haze_Codes.thy ===== *)
theory Haze_Codes
  imports Haze_Header Haze_Calls
begin

text \<open>
  Which codes each function of the header can return. The tables are bounds for every call
  from every reachable state and for every environment. \<open>HAZE_ERROR_INTERNAL\<close> is the code of
  failed assertions of the library (a name without binding, a pooled address that is live, a
  group with more addresses than moduli), and of failures of the compiler, the bridge and
  replay: the former never happen, the latter only in a flush or a program write.
\<close>

section \<open>The tables\<close>

text \<open>Codes of a call that looks up its sources, and of one that checks its arguments only.\<close>

definition source_codes :: "hazeError_t set" where
  "source_codes = {HAZE_SUCCESS, HAZE_ERROR_INVALID_VALUE, HAZE_ERROR_CONFIGERR,
     HAZE_ERROR_UNKNOWN_ADDRESS, HAZE_ERROR_SOURCE_UNAVAILABLE}"

definition checked_codes :: "hazeError_t set" where
  "checked_codes = {HAZE_SUCCESS, HAZE_ERROR_INVALID_VALUE}"

fun device_codes :: "device_call \<Rightarrow> hazeError_t set" where
  "device_codes HazeDeviceSynchronize = {HAZE_SUCCESS}"
| "device_codes HazeDeviceReset = {HAZE_SUCCESS}"
| "device_codes (HazeDeviceEnablePeerAccess p f) = {HAZE_ERROR_NOT_SUPPORTED}"
| "device_codes (HazeDeviceCanAccessPeer b i j) = {HAZE_ERROR_NOT_SUPPORTED}"
| "device_codes c = checked_codes"

fun memory_codes :: "memory_call \<Rightarrow> hazeError_t set" where
  "memory_codes (HazeFree p) = {HAZE_SUCCESS, HAZE_ERROR_UNKNOWN_ADDRESS}"
| "memory_codes (HazeFreeAsync p h) = {HAZE_SUCCESS, HAZE_ERROR_UNKNOWN_ADDRESS}"
| "memory_codes (HazeHostAlloc got b n) = checked_codes \<union> {HAZE_ERROR_OUT_OF_MEMORY}"
| "memory_codes (HazeFreeHost p) = {HAZE_SUCCESS}"
| "memory_codes (HazePointerGetAttributes b p) = checked_codes"
| "memory_codes c = checked_codes \<union> {HAZE_ERROR_CONFIGERR, HAZE_ERROR_ALLOC_TOO_SMALL}"

text \<open>By the direction of a copy: upload, read-back, on the device.\<close>

definition copy_codes :: "int \<Rightarrow> hazeError_t set" where
  "copy_codes kind =
     (if kind = 1 then checked_codes \<union> {HAZE_ERROR_UNKNOWN_ADDRESS, HAZE_ERROR_ALLOC_TOO_SMALL,
        HAZE_ERROR_CONFIGERR}
      else if kind = 2 then checked_codes \<union> {HAZE_ERROR_UNKNOWN_ADDRESS, HAZE_ERROR_ALLOC_TOO_SMALL,
        HAZE_ERROR_NOT_FLUSHED}
      else if kind = 3 then source_codes
      else {HAZE_ERROR_INVALID_VALUE})"

fun transfer_codes :: "transfer_call \<Rightarrow> hazeError_t set" where
  "transfer_codes (HazeMemcpy d h n k) = copy_codes k"
| "transfer_codes (HazeMemcpyAsync d h n k st) = copy_codes k"
| "transfer_codes (HazeMemcpyMrp ds hs n k b) = copy_codes k"
| "transfer_codes (HazeMemcpyPeerAsync d i h j n st) = {HAZE_ERROR_NOT_SUPPORTED}"
| "transfer_codes c = checked_codes \<union> {HAZE_ERROR_UNKNOWN_ADDRESS, HAZE_ERROR_ALLOC_TOO_SMALL}"

fun group_codes :: "group_call \<Rightarrow> hazeError_t set" where
  "group_codes (HazeMallocMrp b c n) =
     checked_codes \<union> {HAZE_ERROR_CONFIGERR, HAZE_ERROR_ALLOC_TOO_SMALL}"
| "group_codes (HazeFreeMrp ps) = checked_codes \<union> {HAZE_ERROR_UNKNOWN_ADDRESS}"

fun program_codes :: "program_call \<Rightarrow> hazeError_t set" where
  "program_codes (HazeTagOutput p) = checked_codes \<union> {HAZE_ERROR_SOURCE_UNAVAILABLE}"
| "program_codes HazeFlush = {HAZE_SUCCESS, HAZE_ERROR_NOT_SUPPORTED, HAZE_ERROR_UNKNOWN_ADDRESS,
     HAZE_ERROR_INTERNAL}"
| "program_codes HazeWriteProgram = {HAZE_SUCCESS, HAZE_ERROR_INTERNAL}"

fun config_codes :: "config_call \<Rightarrow> hazeError_t set" where
  "config_codes (HazeSetRingDimension n) = checked_codes \<union> {HAZE_ERROR_CONFIGERR}"
| "config_codes (HazeSetCiphertextModulus i q) = checked_codes \<union> {HAZE_ERROR_CONFIGERR}"
| "config_codes (HazeSetTwiddleFactors i g) = checked_codes \<union> {HAZE_ERROR_CONFIGERR}"
| "config_codes HazeConfigureDevice = {HAZE_SUCCESS, HAZE_ERROR_CONFIGERR}"
| "config_codes (HazeSetMontgomery k) = {HAZE_SUCCESS}"
| "config_codes (HazeSetBitReversal k) = {HAZE_SUCCESS}"
| "config_codes (HazeSetReducedNoise k) = {HAZE_SUCCESS}"
| "config_codes c = checked_codes"

fun stream_codes :: "stream_call \<Rightarrow> hazeError_t set" where
  "stream_codes (HazeStreamCreate oom b) = checked_codes \<union> {HAZE_ERROR_OUT_OF_MEMORY}"
| "stream_codes (HazeStreamCreateWithPriority oom b f p) = checked_codes \<union> {HAZE_ERROR_OUT_OF_MEMORY}"
| "stream_codes (HazeEventCreate oom b) = checked_codes \<union> {HAZE_ERROR_OUT_OF_MEMORY}"
| "stream_codes (HazeEventCreateWithFlags oom b f) = checked_codes \<union> {HAZE_ERROR_OUT_OF_MEMORY}"
| "stream_codes c = {HAZE_SUCCESS}"

fun call_codes :: "call \<Rightarrow> hazeError_t set" where
  "call_codes (HostWrite hm) = {HAZE_SUCCESS}"
| "call_codes HazeGetLastError = UNIV - {HAZE_ERROR_NO_DATA}"
| "call_codes HazeGetPerformanceCounters = {HAZE_SUCCESS}"
| "call_codes (Device c) = device_codes c"
| "call_codes (Memory c) = memory_codes c"
| "call_codes (Transfer c) = transfer_codes c"
| "call_codes (Group_Memory c) = group_codes c"
| "call_codes (Program c) = program_codes c"
| "call_codes (Settings c) = config_codes c"
| "call_codes (Streams c) = stream_codes c"
| "call_codes (Arithmetic c) = source_codes"
| "call_codes (Group_Arithmetic c) = source_codes"
| "call_codes (Basis c) = source_codes"
| "call_codes (Graph c) = {HAZE_ERROR_NOT_SUPPORTED}"

text \<open>
  \<open>HAZE_ERROR_INTERNAL\<close> of a call that reads or uploads shadow bytes: a vector of a length other
  than the ring dimension, or a result with more residues than the destination has pointers.
  \<open>arrays_fit\<close> says that the arrays have the lengths the header and haze_types.h ask for.
\<close>

fun reads_shadow :: "call \<Rightarrow> bool" where
  "reads_shadow (Transfer c) \<longleftrightarrow> True"
| "reads_shadow (Arithmetic c) \<longleftrightarrow> True"
| "reads_shadow (Group_Arithmetic c) \<longleftrightarrow> True"
| "reads_shadow (Basis c) \<longleftrightarrow> True"
| "reads_shadow c \<longleftrightarrow> False"

definition fits_len :: "'a list option \<Rightarrow> 'b list option \<Rightarrow> bool" where
  "fits_len xs ys \<longleftrightarrow>
     (case (xs, ys) of (Some x, Some y) \<Rightarrow> length x \<le> length y | _ \<Rightarrow> True)"

fun group_fits :: "mrp_call \<Rightarrow> bool" where
  "group_fits (HazeAddMrp d a b q) \<longleftrightarrow> fits_len q d"
| "group_fits (HazeSubMrp d a b q) \<longleftrightarrow> fits_len q d"
| "group_fits (HazeMulMrp d a b q) \<longleftrightarrow> fits_len q d"
| "group_fits (HazeAddScalarMrp d a x q) \<longleftrightarrow> fits_len q d"
| "group_fits (HazeSubScalarMrp d a x q) \<longleftrightarrow> fits_len q d"
| "group_fits (HazeMulScalarMrp d a x q) \<longleftrightarrow> fits_len q d"
| "group_fits (HazeNTTMrp d a q) \<longleftrightarrow> fits_len q d"
| "group_fits (HazeINTTMrp d a q) \<longleftrightarrow> fits_len q d"
| "group_fits (HazeAutomorphMrp d a k q) \<longleftrightarrow> fits_len q d"
| "group_fits (HazeRotAutomorphCoeffMrp d a k q) \<longleftrightarrow> fits_len q d"

fun basis_fits :: "basis_call \<Rightarrow> bool" where
  "basis_fits (HazeBasisConvert (Some d) a (Some p)) \<longleftrightarrow>
     length (base_of (bc_dst_base p) (bc_dst_base_len p)) \<le> length d"
| "basis_fits (HazeModDown (Some d) a (Some p)) \<longleftrightarrow>
     length (filter (\<lambda>q. q \<notin> set (base_of (md_rescale_base p) (md_rescale_base_len p)))
       (base_of (md_src_base p) (md_src_base_len p))) \<le> length d"
| "basis_fits (HazeModUp (Some d) a (Some p)) \<longleftrightarrow>
     unat (mu_digit_count p) * (unat (mu_src_base_len p) + unat (mu_p_base_len p)) \<le> length d"
| "basis_fits c \<longleftrightarrow> True"

fun arrays_fit :: "call \<Rightarrow> bool" where
  "arrays_fit (Transfer (HazeMemcpyMrp d a n k q)) \<longleftrightarrow>
     fits_len q d \<and> fits_len q a \<and> (k = 1 \<longrightarrow> fits_len d a)"
| "arrays_fit (Group_Arithmetic c) \<longleftrightarrow> group_fits c"
| "arrays_fit (Basis c) \<longleftrightarrow> basis_fits c"
| "arrays_fit c \<longleftrightarrow> True"

section \<open>Errors of the core operations\<close>

text \<open>
  Every shadow vector has the configured length: what holds as long as the ring dimension is
  not changed after data was stored, and the size in bytes does not wrap.
\<close>

definition clean :: "('p, 'm) haze \<Rightarrow> bool" where
  "clean s \<longleftrightarrow> sized (hz_alloc s) \<and> unat (cf_ring_dim (hz_config s)) < 2 ^ 61"

definition agree :: "('p, 'm) haze \<Rightarrow> bool" where
  "agree s \<longleftrightarrow> poly_bytes (hz_alloc s) = cf_ring_dim (hz_config s) * 8"

definition src_errs :: "('p, 'm) haze \<Rightarrow> HazeInternalError set" where
  "src_errs s = {NotConfigured, UnknownAddress, SourceUnavailable} \<union>
     (if clean s then {} else {ShadowSizeMismatch})"

lemma agree_inv: "haze_inv s \<Longrightarrow> agree s"
  by (simp add: haze_inv_def cfg_inv_def agree_def)

lemma clean_want:
  assumes "agree s" and "clean s"
  shows "of_nat (want_elems (hz_alloc s)) = cf_ring_dim (hz_config s)"
proof -
  have "unat (cf_ring_dim (hz_config s) * 8) = unat (cf_ring_dim (hz_config s)) * 8"
    using assms(2) by (simp add: clean_def unat_mult_lem [THEN iffD1])
  then show ?thesis using assms(1) by (simp add: agree_def want_elems_def)
qed

lemma clean_length:
  "agree s \<Longrightarrow> clean s \<Longrightarrow> shadow_data (hz_alloc s) a = Some v \<Longrightarrow>
     of_nat (length v) = cf_ring_dim (hz_config s)"
  using clean_want [of s] by (auto simp: clean_def sized_def)

text \<open>Operations inside a session keep both.\<close>

lemma records_keep:
  assumes "records s t" and "agree s"
  shows "agree t" and "clean s \<Longrightarrow> clean t" and "src_errs t \<subseteq> src_errs s"
proof -
  from assms(1) have sh: "shrinks (hz_alloc s) (hz_alloc t)" "hz_config t = hz_config s"
    by (simp_all add: records_def)
  then show "agree t" using assms(2) by (simp add: agree_def shrinks_def)
  show c: "clean s \<Longrightarrow> clean t" using sh sized_shrinks by (auto simp: clean_def)
  then show "src_errs t \<subseteq> src_errs s" by (auto simp: src_errs_def)
qed

lemma session_keeps:
  "agree (open_session E s) \<longleftrightarrow> agree s" "src_errs (open_session E s) = src_errs s"
  by (simp_all add: agree_def src_errs_def clean_def frame_simps)

named_theorems errs

lemma lookup_errs [errs]:
  assumes "lookup_or_create_locked E a s = (Inl e, s')" and "agree s"
  shows "e \<in> src_errs s"
proof -
  have "extract_polynomial_components a (cfg_ring_dim (hz_config s)) (hz_alloc s) = (Inl e1, al) \<Longrightarrow>
      e1 \<in> {NotConfigured, UnknownAddress, NoData} \<or> e1 = ShadowSizeMismatch \<and> \<not> clean s" for e1 al
    using assms(2) clean_length [OF assms(2), of a]
    by (auto simp: extract_polynomial_components_def cfg_ring_dim_def agree_def Let_def
        split: if_splits option.splits)
  then show ?thesis
    using assms(1)
    by (fastforce simp: lookup_or_create_locked_def src_errs_def Let_def fh_poly_def
        split: option.splits prod.splits sum.splits if_splits)
qed

lemma copy_result_errs [errs]:
  "copy_result_locked E d a q s = (Inl e, s') \<Longrightarrow> agree s \<Longrightarrow> e \<in> src_errs s"
  by (auto simp: copy_result_locked_def Let_def split: prod.splits sum.splits if_splits
      intro: lookup_errs)

lemma build_pairs_errs [errs]:
  "build_pairs E ps s = (Inl e, s') \<Longrightarrow> agree s \<Longrightarrow> e \<in> src_errs s"
proof (induction ps arbitrary: s s')
  case (Cons x ps)
  obtain ptr q where x: "x = (ptr, q)" by (cases x)
  obtain l s1 where l: "lookup_or_create_locked E (to_dev_addr ptr) s = (l, s1)"
    by (rule prod.exhaust)
  note K = records_keep [OF records_lookup [OF l] Cons.prems(2)]
  show ?case
  proof (cases l)
    case (Inl e1)
    with Cons.prems l show ?thesis by (auto simp: x intro: lookup_errs)
  next
    case (Inr p)
    with Cons.prems(1) l obtain s2 where "build_pairs E ps s1 = (Inl e, s2)"
      by (auto simp: x split: prod.splits sum.splits)
    from Cons.IH [OF this K(1)] K(3) show ?thesis by blast
  qed
qed simp

lemma build_mrp_errs [errs]:
  "build_mrp_locked E ps b s = (Inl e, s') \<Longrightarrow> agree s \<Longrightarrow> e \<in> src_errs s"
  by (auto simp: build_mrp_locked_def Let_def split: prod.splits sum.splits intro: build_pairs_errs)

lemma copy_residues_errs [errs]:
  "copy_residues E ps s = (Inl e, s') \<Longrightarrow> agree s \<Longrightarrow> e \<in> src_errs s"
proof (induction ps arbitrary: s s')
  case (Cons x ps)
  obtain d h q where x: "x = (d, h, q)" by (cases x)
  obtain l s1 where l: "copy_result_locked E (to_dev_addr d) (to_dev_addr h) q s = (l, s1)"
    by (rule prod.exhaust)
  note K = records_keep [OF records_copy_result [OF l] Cons.prems(2)]
  show ?case
  proof (cases l)
    case (Inl e1)
    with Cons.prems l show ?thesis by (auto simp: x intro: copy_result_errs)
  next
    case (Inr p)
    with Cons.prems(1) l have "copy_residues E ps s1 = (Inl e, s')" by (simp add: x)
    from Cons.IH [OF this K(1)] K(3) show ?thesis by blast
  qed
qed simp

text \<open>Storing a group fails only when the destination has fewer pointers than the base has primes.\<close>

lemma register_outputs_errs:
  "register_outputs as b s = (Inl e, s') \<Longrightarrow>
     e = MrpGroupAddrModuliMismatch \<and> length as \<noteq> length b"
  by (auto simp: register_outputs_def register_mrp_output_group_locked_def Let_def
      split: prod.splits option.splits if_splits)

lemma store_mrp_errs:
  assumes "store_mrp_locked E ds m b s = (Inl e, s')"
  shows "e = MrpGroupAddrModuliMismatch \<and> \<not> length b \<le> length ds"
  using register_outputs_errs [OF assms [unfolded store_mrp_locked_def Let_def]] by auto

text \<open>\<open>P\<close> says that the destination is long enough.\<close>

definition group_errs :: "bool \<Rightarrow> ('p, 'm) haze \<Rightarrow> HazeInternalError set" where
  "group_errs P s = src_errs s \<union> (if P then {} else {MrpGroupAddrModuliMismatch})"

lemma group_errsI: "e \<in> src_errs s \<Longrightarrow> e \<in> group_errs P s"
  by (simp add: group_errs_def)

lemma group_errs_store:
  "store_mrp_locked E ds m b s1 = (Inl e, s') \<Longrightarrow> (P \<Longrightarrow> length b \<le> length ds) \<Longrightarrow> e \<in> group_errs P s"
  using store_mrp_errs [of E ds m b s1 e s'] by (auto simp: group_errs_def)

text \<open>The compute templates: the last step stores and cannot fail, the others look up sources.\<close>

lemma lookup2_errs:
  assumes "lookup_or_create_locked E a s = (x, s1)" and "lookup_or_create_locked E b s1 = (Inl e, s2)"
    and "agree s"
  shows "e \<in> src_errs s"
  using records_keep [OF records_lookup [OF assms(1)] assms(3)] lookup_errs [OF assms(2)] by blast

lemma build2_errs:
  assumes "build_mrp_locked E a q s = (x, s1)" and "build_mrp_locked E b q s1 = (Inl e, s2)"
    and "agree s"
  shows "e \<in> src_errs s"
  using records_keep [OF records_build_mrp [OF assms(1)] assms(3)] build_mrp_errs [OF assms(2)] by blast

lemma session_errs:
  "lookup_or_create_locked E a (open_session E s) = (Inl e, s') \<Longrightarrow> agree s \<Longrightarrow> e \<in> src_errs s"
  "copy_result_locked E d a q (open_session E s) = (Inl e, s') \<Longrightarrow> agree s \<Longrightarrow> e \<in> src_errs s"
  "build_mrp_locked E ps b (open_session E s) = (Inl e, s') \<Longrightarrow> agree s \<Longrightarrow> e \<in> src_errs s"
  "copy_residues E rs (open_session E s) = (Inl e, s') \<Longrightarrow> agree s \<Longrightarrow> e \<in> src_errs s"
  "lookup_or_create_locked E a1 (open_session E s) = (x, s1) \<Longrightarrow>
     lookup_or_create_locked E a s1 = (Inl e, s') \<Longrightarrow> agree s \<Longrightarrow> e \<in> src_errs s"
  "build_mrp_locked E ps1 b1 (open_session E s) = (y, s1) \<Longrightarrow>
     build_mrp_locked E ps b1 s1 = (Inl e, s') \<Longrightarrow> agree s \<Longrightarrow> e \<in> src_errs s"
  using lookup_errs copy_result_errs build_mrp_errs copy_residues_errs lookup2_errs build2_errs
  by (metis session_keeps)+

lemma sr_errs:
  assumes "agree s"
  shows "fst (binary_pp_op E f1 d a b i s) = Inl e \<Longrightarrow> e \<in> insert InvalidArgument (src_errs s)"
    and "fst (binary_ps_op E f2 d a x i s) = Inl e \<Longrightarrow> e \<in> insert InvalidArgument (src_errs s)"
    and "fst (unary_pq_op E f3 d a i s) = Inl e \<Longrightarrow> e \<in> insert InvalidArgument (src_errs s)"
    and "fst (unary_pi_op E d a k s) = Inl e \<Longrightarrow> e \<in> src_errs s"
    and "fst (copy_device_to_device E d a n s) = Inl e \<Longrightarrow> e \<in> src_errs s"
proof -
  show "e \<in> insert InvalidArgument (src_errs s)" if "fst (binary_pp_op E f1 d a b i s) = Inl e"
    using that assms
    by (auto simp: binary_pp_op_def Let_def fh_poly_def split: if_splits prod.splits sum.splits
        intro: session_errs)
  show "e \<in> insert InvalidArgument (src_errs s)" if "fst (binary_ps_op E f2 d a x i s) = Inl e"
    using that assms
    by (auto simp: binary_ps_op_def Let_def fh_poly_def split: if_splits prod.splits sum.splits
        intro: session_errs)
  show "e \<in> insert InvalidArgument (src_errs s)" if "fst (unary_pq_op E f3 d a i s) = Inl e"
    using that assms
    by (auto simp: unary_pq_op_def Let_def fh_poly_def split: if_splits prod.splits sum.splits
        intro: session_errs)
  show "e \<in> src_errs s" if "fst (unary_pi_op E d a k s) = Inl e"
    using that assms
    by (auto simp: unary_pi_op_def Let_def fh_poly_def split: if_splits prod.splits sum.splits
        intro: session_errs)
  show "e \<in> src_errs s" if "fst (copy_device_to_device E d a n s) = Inl e"
    using that assms session_errs(2) [of E d a kCopyModulus s e]
    by (simp add: copy_device_to_device_def fst_eqD) (metis prod.collapse)
qed

lemma mr_errs:
  assumes "agree s"
  shows "fst (binary_pp_op_mrp E f1 d a1 a2 b s) = Inl e \<Longrightarrow> e \<in> group_errs (length b \<le> length d) s"
    and "fst (binary_ps_op_mrp E f2 d a1 xs b s) = Inl e \<Longrightarrow> e \<in> group_errs (length b \<le> length d) s"
    and "fst (unary_p_op_mrp E f3 d a1 b s) = Inl e \<Longrightarrow> e \<in> group_errs (length b \<le> length d) s"
    and "fst (unary_pi_op_mrp E f4 d a1 k b s) = Inl e \<Longrightarrow> e \<in> group_errs (length b \<le> length d) s"
proof -
  let ?R = "group_errs (length b \<le> length d) s"
  note defs = binary_pp_op_mrp_def binary_ps_op_mrp_def unary_p_op_mrp_def unary_pi_op_mrp_def
    fh_mrp_def
  have store: "fst (store_mrp_locked E d m b s1) = Inl e \<Longrightarrow> e \<in> ?R" for m s1
    using group_errs_store [of E d m b s1 e] by (metis prod.collapse)
  show "e \<in> ?R" if "fst (binary_pp_op_mrp E f1 d a1 a2 b s) = Inl e"
    using that assms(1)
    by (auto simp: defs split: prod.splits sum.splits intro: group_errsI session_errs store)
  show "e \<in> ?R" if "fst (binary_ps_op_mrp E f2 d a1 xs b s) = Inl e"
    using that assms(1)
    by (auto simp: defs split: prod.splits sum.splits intro: group_errsI session_errs store)
  show "e \<in> ?R" if "fst (unary_p_op_mrp E f3 d a1 b s) = Inl e"
    using that assms(1)
    by (auto simp: defs split: prod.splits sum.splits intro: group_errsI session_errs store)
  show "e \<in> ?R" if "fst (unary_pi_op_mrp E f4 d a1 k b s) = Inl e"
    using that assms(1)
    by (auto simp: defs split: prod.splits sum.splits intro: group_errsI session_errs store)
qed

lemma d2d_mrp_errs:
  assumes "agree s" and "fst (copy_device_to_device_mrp E d h b s) = Inl e"
  shows "e \<in> group_errs (length b \<le> length d \<and> length b \<le> length h) s"
proof -
  have reg: "register_outputs (map f (zip d (zip h b))) b s1 = (Inl e, s2) \<Longrightarrow>
      e \<in> group_errs (length b \<le> length d \<and> length b \<le> length h) s" for f s1 s2
    using register_outputs_errs [of "map f (zip d (zip h b))" b s1 e s2]
    by (auto simp: group_errs_def)
  show ?thesis
    using assms
    by (auto simp: copy_device_to_device_mrp_def split: prod.splits sum.splits
        intro: group_errsI session_errs reg)
      (metis prod.collapse reg)
qed

section \<open>Basis conversion\<close>

text \<open>
  The bases of the results, as fhetch documents them: \<open>from_pairs\<close> has the primes of its pairs,
  a conversion the target base, a rescale the source base without the rescaled primes.
\<close>

definition base_laws :: "('p, 'm) fh_env \<Rightarrow> bool" where
  "base_laws E \<longleftrightarrow>
     (\<forall>ps. mrp_base E (mrp_from_pairs E ps) = map snd ps) \<and>
     (\<forall>h m tb v c. mrp_base E (mrp_of E h (FastBaseConvert m tb v c)) = tb) \<and>
     (\<forall>h m rb v c. mrp_base E (mrp_of E h (RescaleFbc m rb v c)) =
        filter (\<lambda>q. q \<notin> set rb) (mrp_base E m))"

lemma build_pairs_base:
  "build_pairs E ps s = (Inr pairs, s') \<Longrightarrow> map snd pairs = map snd ps"
  by (induction ps arbitrary: s pairs s') (auto split: prod.splits sum.splits)

lemma build_mrp_base:
  assumes "base_laws E" and "build_mrp_locked E ps b s = (Inr m, s')"
  shows "mrp_base E m = take (length ps) b"
proof -
  have "map snd (zip ps b) = take (length ps) b"
    by (simp add: map_snd_zip_take min_def)
  with assms show ?thesis
    by (auto simp: build_mrp_locked_def Let_def base_laws_def split: prod.splits sum.splits
        dest!: build_pairs_base)
qed

lemma validate_errs:
  "validate_basis_convert p = Inl e \<Longrightarrow> e = InvalidArgument"
  "validate_mod_down q = Inl e \<Longrightarrow> e = InvalidArgument"
  "validate_mod_up u = Inl e \<Longrightarrow> e = InvalidArgument"
  by (auto simp: validate_basis_convert_def validate_mod_down_def validate_mod_up_def Let_def
      split: if_splits)

lemma basis_convert_errs:
  assumes "agree s" and "fst (basis_convert E d h p s) = Inl e"
  shows "e \<in> insert InvalidArgument
    (group_errs (length (base_of (bc_dst_base p) (bc_dst_base_len p)) \<le> length d) s)"
proof -
  let ?t = "base_of (bc_dst_base p) (bc_dst_base_len p)"
  have store: "fst (store_mrp_locked E d m ?t s1) = Inl e \<Longrightarrow>
      e \<in> group_errs (length ?t \<le> length d) s" for m s1
    using group_errs_store [of E d m ?t s1 e] by (metis prod.collapse)
  show ?thesis
    using assms
    by (auto simp: basis_convert_def Let_def fh_mrp_def split: prod.splits sum.splits
        intro: group_errsI session_errs store dest: validate_errs)
qed

lemma length_filter_take: "length (filter P (take n xs)) \<le> length (filter P xs)"
  by (metis append_take_drop_id filter_append le_add1 length_append)

lemma mod_down_errs:
  assumes "agree s" and "fst (mod_down E d h p s) = Inl e"
  shows "e \<in> insert InvalidArgument (group_errs (base_laws E \<and>
    length (filter (\<lambda>q. q \<notin> set (base_of (md_rescale_base p) (md_rescale_base_len p)))
           (base_of (md_src_base p) (md_src_base_len p))) \<le> length d) s)"
proof -
  let ?b = "base_of (md_src_base p) (md_src_base_len p)"
  let ?r = "base_of (md_rescale_base p) (md_rescale_base_len p)"
  obtain x s1 where b: "build_mrp_locked E h ?b (open_session E s) = (x, s1)" by (rule prod.exhaust)
  show ?thesis
  proof (cases x)
    case (Inl e1)
    with assms b show ?thesis
      by (auto simp: mod_down_def split: sum.splits intro: group_errsI session_errs dest: validate_errs)
  next
    case (Inr m)
    let ?c = "RescaleFbc m ?r (fbc_variant (hz_config s1)) (fbc_center_shape (hz_config s1))"
    let ?m = "mrp_of E (hz_trace s1) ?c"
    have len: "length (mrp_base E ?m) \<le> length d"
      if "base_laws E" and "length (filter (\<lambda>q. q \<notin> set ?r) ?b) \<le> length d"
    proof -
      have "mrp_base E ?m = filter (\<lambda>q. q \<notin> set ?r) (take (length h) ?b)"
        using that(1) build_mrp_base [OF that(1)] b Inr by (simp add: base_laws_def)
      moreover have "length (filter (\<lambda>q. q \<notin> set ?r) (take (length h) ?b)) \<le> length d"
        using length_filter_take that(2) by (rule order_trans)
      ultimately show ?thesis by simp
    qed
    show ?thesis
    proof (cases "validate_mod_down p")
      case (Inl e1)
      with assms(2) validate_errs(2) [OF Inl] show ?thesis by (simp add: mod_down_def)
    next
      case (Inr u)
      have "mod_down E d h p s = store_mrp_locked E d ?m (mrp_base E ?m) (fh_emit ?c s1)"
        by (simp add: mod_down_def Inr b \<open>x = Inr m\<close> Let_def fh_mrp_def)
      with assms(2) obtain s2 where "store_mrp_locked E d ?m (mrp_base E ?m) (fh_emit ?c s1) = (Inl e, s2)"
        by (metis prod.collapse)
      then show ?thesis by (rule insertI2 [OF group_errs_store]) (use len in blast)
    qed
  qed
qed

lemma slice_digits_length: "slice_digits bs i lens = Some ds \<Longrightarrow> length ds = length lens"
  by (induction lens arbitrary: i ds) (auto split: if_splits option.splits)

lemma mod_up_digits_errs:
  "mod_up_digits E d x tb k ds s = (Inl e, s') \<Longrightarrow> e = MrpGroupAddrModuliMismatch \<and>
     \<not> (base_laws E \<and> (k + length ds) * length tb \<le> length d)"
proof (induction ds arbitrary: k s)
  case (Cons b ds)
  let ?c = "FastBaseConvert (mrp_of E (hz_trace s) (MrSubset x b)) tb
    (fbc_variant (hz_config s)) (fbc_center_shape (hz_config s))"
  let ?m = "mrp_of E (hz_trace s @ [MrSubset x b]) ?c"
  let ?b = "mrp_base E ?m"
  obtain y s1 where st: "store_mrp_locked E (drop (k * length ?b) d) ?m ?b
      (fh_emit ?c (fh_emit (MrSubset x b) s)) = (y, s1)" by (rule prod.exhaust)
  have tb: "base_laws E \<Longrightarrow> ?b = tb" by (simp add: base_laws_def)
  show ?case
  proof (cases y)
    case (Inl e1)
    with Cons.prems st have "e1 = e" by (simp add: fh_mrp_def Let_def)
    with store_mrp_errs [OF st [unfolded Inl]] have
      m: "e = MrpGroupAddrModuliMismatch" "\<not> length ?b \<le> length (drop (k * length ?b) d)" by auto
    have "\<not> (k + length (b # ds)) * length tb \<le> length d" if "base_laws E"
      using m(2) unfolding tb [OF that] by (simp add: algebra_simps)
    with m(1) show ?thesis by blast
  next
    case (Inr u)
    with Cons.prems st have "mod_up_digits E d x tb (Suc k) ds s1 = (Inl e, s')"
      by (simp add: fh_mrp_def Let_def)
    from Cons.IH [OF this] show ?thesis by simp
  qed
qed simp

lemma mod_up_errs:
  assumes "agree s" and "mod_up E d h p s = Some (Inl e, s')"
  shows "e \<in> insert InvalidArgument (group_errs (base_laws E \<and>
    unat (mu_digit_count p) * (unat (mu_src_base_len p) + unat (mu_p_base_len p)) \<le> length d) s)"
proof -
  let ?b = "base_of (mu_src_base p) (mu_src_base_len p)"
  let ?pb = "base_of (mu_p_base p) (mu_p_base_len p)"
  let ?ls = "base_of (mu_digit_base_lens p) (mu_digit_count p)"
  obtain x s1 where b: "build_mrp_locked E h ?b (open_session E s) = (x, s1)" by (rule prod.exhaust)
  have len: "length (base_of a n) \<le> unat n" for a n by (auto simp: base_of_def split: option.split)
  show ?thesis
  proof (cases x)
    case (Inl e1)
    with assms b show ?thesis
      by (auto simp: mod_up_def split: sum.splits intro: group_errsI session_errs dest: validate_errs)
  next
    case (Inr m)
    have target: "length (mrp_base E m @ ?pb) \<le> unat (mu_src_base_len p) + unat (mu_p_base_len p)"
      if "base_laws E"
      using build_mrp_base [OF that] b Inr len [of "mu_src_base p" "mu_src_base_len p"]
        len [of "mu_p_base p" "mu_p_base_len p"] by simp
    show ?thesis
    proof (cases "validate_mod_up p")
      case (Inl e1)
      with assms(2) validate_errs(3) [OF Inl] show ?thesis by (simp add: mod_up_def)
    next
      case (Inr u)
      have "mod_up E d h p s = map_option (\<lambda>ds. mod_up_digits E d m (mrp_base E m @ ?pb) 0 ds s1)
          (slice_digits (base_of (mu_digit_bases p) (mu_digit_bases_total_len p)) 0 ?ls)"
        by (simp add: mod_up_def Inr b \<open>x = Inr m\<close> Let_def split: option.split)
      with assms(2) obtain ds where ds: "slice_digits (base_of (mu_digit_bases p)
            (mu_digit_bases_total_len p)) 0 ?ls = Some ds"
          and e: "mod_up_digits E d m (mrp_base E m @ ?pb) 0 ds s1 = (Inl e, s')"
        by auto
      have "0 + length ds \<le> unat (mu_digit_count p)"
        using slice_digits_length [OF ds] len [of "mu_digit_base_lens p" "mu_digit_count p"] by simp
      from order_trans [OF mult_le_mono [OF this target]] mod_up_digits_errs [OF e]
      show ?thesis by (auto simp: group_errs_def)
    qed
  qed
qed

section \<open>Transfers\<close>

lemma copy_h2d_errs:
  "copy_h2d hm d h n al = (Inl e, al') \<Longrightarrow> e \<in> {InvalidArgument, UnknownAddress, AllocTooSmall}"
  by (auto simp: copy_h2d_def split: if_splits)

lemma tag_h2d_errs:
  assumes "agree s" and "shadow_data (hz_alloc s) a = Some v" and "a \<in> alloc_set (hz_alloc s)"
    and "tag_h2d_input_locked E a s = (Inl e, s')"
  shows "e = NotConfigured \<or> e = ShadowSizeMismatch \<and> \<not> clean s"
  using assms clean_length [OF assms(1), of a v]
  by (auto simp: tag_h2d_input_locked_def read_polynomial_components_def cfg_ring_dim_def agree_def
      Let_def fh_poly_def split: if_splits)

lemma d2h_errs:
  "copy_to_host_entry h d n s = Some (Inl e, s') \<Longrightarrow>
     e \<in> {InvalidArgument, UnknownAddress, AllocTooSmall, OutputNotFlushed}"
  by (auto simp: copy_to_host_entry_def copy_to_host_def split: if_splits option.splits prod.splits)

lemma d2h_mrp_errs:
  "copy_to_host_mrp ps n s = Some (Inl e, s') \<Longrightarrow>
     e \<in> {InvalidArgument, UnknownAddress, AllocTooSmall, OutputNotFlushed}"
  by (induction ps arbitrary: s)
     (auto split: option.splits sum.splits prod.splits dest: d2h_errs)

end
