(* ===== verification/Haze_Codes_Spec.thy ===== *)
theory Haze_Codes_Spec
  imports Haze_Codes Haze_Flush_Errors Haze_Session_Spec Haze_Api_Spec
begin

text \<open>
  The typing of the ABI by the tables of \<open>Haze_Codes\<close>: first the errors of the operations that
  do not look up sources, then one lemma per section of the header, then the theorem.
\<close>

section \<open>Errors of memory, configuration and tags\<close>

lemma allocate_errs:
  "alloc_inv al \<Longrightarrow> allocate n al = (Inl e, al') \<Longrightarrow> e \<in> {NotConfigured, AllocTooSmall}"
  using allocate_result [of al n] by (auto split: if_splits)

lemma allocate_many_errs:
  assumes "alloc_inv al" and "allocate_many c n al = (Inl e, al')"
  shows "e \<in> {NotConfigured, AllocTooSmall}"
proof (cases "poly_bytes al \<noteq> 0 \<and> n = poly_bytes al")
  case True
  then show ?thesis
    using allocate_many_inv [OF assms(1), of n c] assms(2) by (metis Inl_Inr_False Pair_inject)
next
  case False
  with assms(2) show ?thesis
    by (auto simp: allocate_many_def validate_poly_size_locked_def split: if_splits)
qed

lemma free_errs: "alloc_free a al = (Inl e, al') \<Longrightarrow> e = UnknownAddress"
  by (auto simp: alloc_free_def free_one_locked_def split: if_splits)

lemma free_many_errs: "free_many as al = (Inl e, al') \<Longrightarrow> e = UnknownAddress"
proof -
  have "free_many_loop as fe al = (Inl e, al') \<Longrightarrow> e = UnknownAddress \<or> fe = Inl e" for fe
  proof (induction as arbitrary: fe al)
    case (Cons a as)
    then show ?case
      by (fastforce simp: free_one_locked_def split: if_splits sum.splits)
  qed simp
  then show "free_many as al = (Inl e, al') \<Longrightarrow> e = UnknownAddress"
    by (auto simp: free_many_def split: if_splits)
qed

lemma memset_errs: "alloc_memset a v n al = (Inl e, al') \<Longrightarrow> e \<in> {UnknownAddress, AllocTooSmall}"
  by (auto simp: alloc_memset_def split: if_splits)

lemma tag_output_errs: "tag_output a s = (Inl e, s') \<Longrightarrow> e = SourceUnavailable"
  by (auto simp: tag_output_def tag_output_locked_def Let_def split: prod.splits option.splits if_splits)

section \<open>Errors of a whole upload\<close>

lemma h2d_writes_errs:
  "h2d_writes ps n s = (Inl e, s') \<Longrightarrow> e \<in> {InvalidArgument, UnknownAddress, AllocTooSmall}"
proof (induction ps n s rule: h2d_writes.induct)
  case (2 d h rest n s)
  then show ?case by (fastforce dest: copy_h2d_errs split: prod.splits sum.splits)
qed simp

text \<open>Afterwards every destination is live and has bytes.\<close>

definition stored :: "allocator \<Rightarrow> DevAddr set" where
  "stored al = {a \<in> alloc_set al. shadow_data al a \<noteq> None}"

lemma stored_copy:
  "copy_h2d hm d h n al = (Inr u, al') \<Longrightarrow> insert d (stored al) \<subseteq> stored al'"
  by (auto simp: copy_h2d_def stored_def split: if_splits)

lemma h2d_writes_stored:
  assumes "h2d_writes ps n s = (Inr (), s')"
  shows "to_dev_addr ` fst ` set ps \<union> stored (hz_alloc s) \<subseteq> stored (hz_alloc s') \<and>
     hz_config s' = hz_config s \<and> fits (hz_alloc s) (hz_alloc s')"
  using assms
proof (induction ps n s rule: h2d_writes.induct)
  case (2 d h rest n s)
  obtain r al where c: "copy_h2d (hz_host s) (to_dev_addr d) h n (hz_alloc s) = (r, al)"
    by (rule prod.exhaust)
  with 2(2) obtain u where r: "r = Inr u" and rest: "h2d_writes rest n (upd_alloc (\<lambda>_. al) s) = (Inr (), s')"
    by (cases r) simp_all
  have al: "insert (to_dev_addr d) (stored (hz_alloc s)) \<subseteq> stored al"
    using c r stored_copy by blast
  have "fits (hz_alloc s) al" using fits_copy_h2d [of "hz_alloc s" "hz_host s" "to_dev_addr d" h n] c by simp
  with 2(1) [OF c [symmetric] r rest] al show ?case by (auto intro: fits_trans)
qed simp

lemma h2d_tags_errs:
  assumes "h2d_tags E ds s = (Inl e, s')" and "agree s"
    and "to_dev_addr ` set ds \<subseteq> stored (hz_alloc s)"
  shows "e = NotConfigured \<or> e = ShadowSizeMismatch \<and> \<not> clean s"
  using assms
proof (induction ds arbitrary: s)
  case (Cons d ds)
  obtain r s1 where t: "tag_h2d_input_locked E (to_dev_addr d) s = (r, s1)" by (rule prod.exhaust)
  have same: "hz_alloc s1 = hz_alloc s" "hz_config s1 = hz_config s"
    using t by (auto simp: tag_h2d_input_locked_def Let_def fh_poly_def split: if_splits sum.splits)
  then have k: "agree s1 = agree s" "clean s1 = clean s" by (simp_all add: agree_def clean_def)
  show ?case
  proof (cases r)
    case (Inl e1)
    with Cons.prems t have "e1 = e" by simp
    from Cons.prems(3) obtain v where "shadow_data (hz_alloc s) (to_dev_addr d) = Some v"
        "to_dev_addr d \<in> alloc_set (hz_alloc s)" by (auto simp: stored_def)
    with tag_h2d_errs [OF Cons.prems(2) this] t Inl \<open>e1 = e\<close> show ?thesis by auto
  next
    case (Inr u)
    with Cons.prems t have "h2d_tags E ds s1 = (Inl e, s')" by simp
    from Cons.IH [OF this] Cons.prems show ?thesis by (simp add: k same)
  qed
qed simp

definition h2d_errs :: "('p, 'm) haze \<Rightarrow> HazeInternalError set" where
  "h2d_errs s = {InvalidArgument, UnknownAddress, AllocTooSmall, NotConfigured} \<union>
     (if clean s then {} else {ShadowSizeMismatch})"

lemma agree_fits:
  assumes "fits (hz_alloc s) (hz_alloc t)" and "hz_config t = hz_config s"
  shows "agree t \<longleftrightarrow> agree s" and "clean s \<Longrightarrow> clean t"
proof -
  show "agree t \<longleftrightarrow> agree s" using assms by (simp add: agree_def fits_def)
  show "clean s \<Longrightarrow> clean t" using assms fits_sized by (auto simp: clean_def)
qed

lemma copy_h2d_mrp_errs:
  assumes "agree s" and "length d \<le> length h" and "copy_h2d_mrp E d h n s = (Inl e, s')"
  shows "e \<in> h2d_errs s"
proof -
  obtain r s1 where w: "h2d_writes (zip d h) n s = (r, s1)" by (rule prod.exhaust)
  show ?thesis
  proof (cases r)
    case (Inl e1)
    with w assms(3) h2d_writes_errs [of "zip d h" n s e1 s1] show ?thesis
      by (auto simp: copy_h2d_mrp_def h2d_errs_def)
  next
    case (Inr u)
    have wr: "to_dev_addr ` fst ` set (zip d h) \<subseteq> stored (hz_alloc s1)" "hz_config s1 = hz_config s"
        "fits (hz_alloc s) (hz_alloc s1)"
      using h2d_writes_stored [of "zip d h" n s s1] w Inr by auto
    have "fst ` set (zip d h) = set d"
      using assms(2) map_fst_zip_take [of d h] by (metis list.set_map min.absorb1 take_all_iff order_refl)
    with wr have live: "to_dev_addr ` set d \<subseteq> stored (hz_alloc (open_session E s1))"
      by (simp add: frame_simps)
    have keep: "agree (open_session E s1)" "clean s \<Longrightarrow> clean (open_session E s1)"
      using wr(2,3) agree_fits [of s s1] assms(1) by (auto simp: session_keeps clean_def frame_simps)
    have "h2d_tags E d (open_session E s1) = (Inl e, s')"
      using assms(3) w Inr by (simp add: copy_h2d_mrp_def)
    from h2d_tags_errs [OF this keep(1) live] keep(2) show ?thesis by (auto simp: h2d_errs_def)
  qed
qed

lemma upload_errs:
  assumes "agree s" and "copy_h2d hm d h n (hz_alloc s) = (Inr u, al)"
    and "tag_h2d_input E d (upd_alloc (\<lambda>_. al) s) = (Inl e, s')"
  shows "e \<in> h2d_errs s"
proof -
  let ?s1 = "open_session E (upd_alloc (\<lambda>_. al) s)"
  have "fits (hz_alloc s) al" using fits_copy_h2d [of "hz_alloc s" hm d h n] assms(2) by simp
  then have keep: "agree ?s1" "clean s \<Longrightarrow> clean ?s1"
    using agree_fits [of s "upd_alloc (\<lambda>_. al) s"] assms(1)
    by (auto simp: session_keeps clean_def frame_simps)
  obtain v where v: "shadow_data (hz_alloc ?s1) d = Some v" "d \<in> alloc_set (hz_alloc ?s1)"
    using assms(2) by (auto simp: copy_h2d_def frame_simps split: if_splits)
  from tag_h2d_errs [OF keep(1) v assms(3) [unfolded tag_h2d_input_def]] keep(2)
  show ?thesis by (auto simp: h2d_errs_def)
qed

section \<open>Errors of a flush\<close>

lemma materialize_errs:
  assumes "do_materialize_locked E run s = (Inl e, s')" and "recording (hz_epoch s)"
  shows "e \<in> flush_errors \<and> (run \<or> e \<in> {BackendReplayFailed, BridgeHookFailed})"
  using assms
proof (cases rule: materialize_cases)
  case (read_back s3 s4)
  with populate_prefix [OF read_back(6)] show ?thesis by (auto simp: flush_errors_def)
qed (auto simp: flush_errors_def)

lemma finalize_errs:
  assumes "haze_inv s" and "finalize_locked E run s = (Inl e, s')"
  shows "e \<in> flush_errors \<and> (run \<or> e \<in> {BackendReplayFailed, BridgeHookFailed})"
proof (cases "recording (hz_epoch s) \<and> \<not> nothing_pending (hz_epoch s)")
  case True
  let ?s1 = "s\<lparr>hz_trace := hz_trace s @ output_tags E (hz_epoch s)\<rparr>"
  have "do_materialize_locked E run ?s1 = (Inl e, s')"
    using True assms(2) by (simp add: finalize_form [OF assms(1)])
  moreover have "recording (hz_epoch ?s1)" using True by simp
  ultimately show ?thesis by (rule materialize_errs)
next
  case False
  with assms(2) show ?thesis
    by (auto simp: finalize_locked_def nothing_pending_def split: if_splits)
qed

lemma flush_errs:
  assumes "haze_inv s" and "flush E s = (Inl e, s')"
  shows "e \<in> insert UnsupportedDataFormat flush_errors"
  using assms finalize_errs [OF assms(1)]
  by (auto simp: flush_def replay_and_populate_def Let_def split: if_splits)

section \<open>The codes, by section of the header\<close>

definition code_for :: "unit expected \<Rightarrow> hazeError_t" where
  "code_for r = (case r of Inr _ \<Rightarrow> HAZE_SUCCESS | Inl e \<Rightarrow> to_public_error e)"

lemma code_for_simps [simp]:
  "code_for (Inr u) = HAZE_SUCCESS" "code_for (Inl e) = to_public_error e"
  by (simp_all add: code_for_def)

lemma api_result_code [simp]: "fst (api_result p) = code_for (fst p)"
  by (cases p) (auto simp: api_result_def code_for_def set_internal_result_def set_error_def
      split: sum.split)

lemma api_error_code [simp]: "fst (api_error c s) = c"
  by (simp add: api_error_eq)

text \<open>The codes of a set of internal errors, with success.\<close>

lemma code_forI:
  "(\<And>e. r = Inl e \<Longrightarrow> e \<in> I) \<Longrightarrow> HAZE_SUCCESS \<in> C \<Longrightarrow> to_public_error ` I \<subseteq> C \<Longrightarrow> code_for r \<in> C"
  by (auto simp: code_for_def split: sum.split)

lemma device_typed: "fst (exec_device c s) \<in> device_codes c"
  by (cases c)
     (auto simp: code_of_def checked_codes_def hazeGetDeviceCount_def hazeSetDevice_def
      hazeGetDevice_def hazeGetDeviceProperties_def hazeDeviceSynchronize_def hazeDeviceReset_def
      hazeDeviceEnablePeerAccess_def hazeDeviceCanAccessPeer_def unsupported_def unsupported_out_def
      api_error_eq device_set_active_def device_fill_properties_def code_for_def api_result_def
      set_internal_result_def set_error_def Let_def split: prod.splits sum.splits)

lemma graph_typed: "fst (exec_graph c s) = HAZE_ERROR_NOT_SUPPORTED"
  by (cases c) (auto simp: wrapper_defs hazeStreamEndCapture_def hazeGraphInstantiate_def
      unsupported_def unsupported_out_def code_of_def api_error_eq)

lemma stream_typed: "fst (exec_stream c s) \<in> stream_codes c"
  by (cases c)
     (auto simp: wrapper_defs code_of_def checked_codes_def hazeStreamCreate_def hazeStreamDestroy_def
      hazeStreamSynchronize_def hazeStreamWaitEvent_def hazeEventCreate_def hazeEventDestroy_def
      hazeEventRecord_def api_error_eq split: prod.splits option.splits)

lemma inv_alloc: "haze_inv s \<Longrightarrow> alloc_inv (hz_alloc s)"
  by (simp add: haze_inv_def cfg_inv_def)

lemma memory_typed:
  assumes "haze_inv s"
  shows "fst (exec_memory c s) \<in> memory_codes c"
proof (cases c)
  case (HazeMalloc b n)
  then show ?thesis
    using allocate_errs [OF inv_alloc [OF assms], of n]
    by (auto simp: code_of_def hazeMalloc_def checked_codes_def api_error_eq split: prod.splits sum.splits)
next
  case (HazeMallocAsync b n h)
  then show ?thesis
    using allocate_errs [OF inv_alloc [OF assms], of n]
    by (auto simp: code_of_def hazeMallocAsync_def hazeMalloc_def checked_codes_def api_error_eq
        split: prod.splits sum.splits)
qed (auto simp: code_of_def hazeFree_def hazeFreeAsync_def hazeHostAlloc_def hazeFreeHost_def
    hazePointerGetAttributes_def pointer_attributes_def checked_codes_def api_error_eq
    api_alloc_def code_for_def Let_def split: prod.splits sum.splits option.splits
    dest: free_errs)

lemma group_typed:
  assumes "haze_inv s"
  shows "fst (exec_group c s) \<in> group_codes c"
proof (cases c)
  case (HazeMallocMrp b k n)
  then show ?thesis
    using allocate_many_errs [OF inv_alloc [OF assms], of k n]
    by (auto simp: code_of_def hazeMallocMrp_def checked_codes_def api_error_eq split: prod.splits sum.splits)
qed (auto simp: hazeFreeMrp_def checked_codes_def api_alloc_def code_for_def Let_def
    split: prod.splits sum.splits option.splits dest: free_many_errs)

lemma config_typed: "fst (exec_config c s) \<in> config_codes c"
  by (cases c)
     (auto simp: hazeSetRingDimension_def hazeSetCiphertextModulus_def hazeSetTwiddleFactors_def
      hazeConfigureDevice_def hazeSetProgramInfo_def hazeSetProgramDirectory_def hazeSetTarget_def
      hazeSetMontgomery_def hazeSetBitReversal_def hazeSetReducedNoise_def api_config_def
      set_ring_dimension_def set_modulus_def set_twiddle_generator_def configure_device_def
      set_program_info_def set_target_def set_program_directory_def checked_codes_def code_for_def
      Let_def split: prod.splits sum.splits option.splits)

lemma program_typed:
  assumes "haze_inv s"
  shows "fst (exec_program E c s) \<in> program_codes c"
proof (cases c)
  case (HazeTagOutput p)
  then show ?thesis
    by (cases "tag_output (to_dev_addr p) s")
       (auto simp: hazeTagOutput_def checked_codes_def code_for_def split: sum.splits dest: tag_output_errs)
next
  case HazeFlush
  have "code_for (fst (flush E s)) \<in> program_codes HazeFlush"
    by (rule code_forI [of _ "insert UnsupportedDataFormat flush_errors"])
       (auto simp: flush_errors_def readback_errors_def dest!: eq_fst_iff [THEN iffD1, OF sym]
        dest: flush_errs [OF assms])
  with HazeFlush show ?thesis by (simp add: hazeFlush_def)
next
  case HazeWriteProgram
  have "code_for (fst (write_program E s)) \<in> program_codes HazeWriteProgram"
    by (rule code_forI [of _ "{BackendReplayFailed, BridgeHookFailed}"])
       (auto simp: write_program_def materialize_only_def dest!: eq_fst_iff [THEN iffD1, OF sym]
        dest: finalize_errs [OF assms])
  with HazeWriteProgram show ?thesis by (simp add: hazeWriteProgram_def)
qed

section \<open>Calls that read or upload shadow bytes\<close>

definition or_internal :: "bool \<Rightarrow> hazeError_t set \<Rightarrow> hazeError_t set" where
  "or_internal P C = C \<union> (if P then {} else {HAZE_ERROR_INTERNAL})"

lemma or_internalI: "x \<in> C \<Longrightarrow> x \<in> or_internal P C"
  by (simp add: or_internal_def)

lemma source_code:
  "(\<And>e. r = Inl e \<Longrightarrow> e \<in> insert InvalidArgument (group_errs P s)) \<Longrightarrow>
     code_for r \<in> or_internal (clean s \<and> P) source_codes"
  by (cases r) (fastforce simp: code_for_def or_internal_def source_codes_def group_errs_def
      src_errs_def split: if_splits)+

lemma group_errs_True: "group_errs True s = src_errs s"
  by (simp add: group_errs_def)

lemma source_code1:
  "(\<And>e. r = Inl e \<Longrightarrow> e \<in> insert InvalidArgument (src_errs s)) \<Longrightarrow>
     code_for r \<in> or_internal (clean s) source_codes"
  using source_code [of r True s] by (simp add: group_errs_True)

lemma source_invalid [simp]: "HAZE_ERROR_INVALID_VALUE \<in> or_internal P source_codes"
  by (simp add: or_internal_def source_codes_def)

lemma compute_typed:
  assumes "agree s"
  shows "fst (exec_compute E c s) \<in> or_internal (clean s) source_codes"
proof -
  note errs = sr_errs [OF assms]
  have pp: "fst (haze_binary_pp E f d a b i s) \<in> or_internal (clean s) source_codes" for f d a b i
    by (simp add: haze_binary_pp_def source_code1 errs(1) [simplified])
  have ps: "fst (haze_binary_ps E f d a x i s) \<in> or_internal (clean s) source_codes" for f d a x i
    by (simp add: haze_binary_ps_def source_code1 errs(2) [simplified])
  have pq: "fst (haze_unary_pq E f d a i s) \<in> or_internal (clean s) source_codes" for f d a i
    by (simp add: haze_unary_pq_def source_code1 errs(3) [simplified])
  have pi: "fst (hazeAutomorph E d a k s) \<in> or_internal (clean s) source_codes" for d a k
    by (simp add: hazeAutomorph_def source_code1 errs(4))
  show ?thesis
    by (cases c) (simp_all only: exec_compute.simps hazeAdd_def hazeSub_def hazeMul_def
        hazeAddScalar_def hazeSubScalar_def hazeMulScalar_def hazeNTT_def hazeINTT_def pp ps pq pi)
qed

lemma with_arrays_typed:
  assumes "\<And>ds b. \<lbrakk>None \<notin> set arrays; base = Some b\<rbrakk> \<Longrightarrow> fst (k (map the arrays) b s) \<in> C"
    and "HAZE_ERROR_INVALID_VALUE \<in> C"
  shows "fst (with_arrays arrays base k s) \<in> C"
  using assms by (cases base) (simp_all add: with_arrays_def)

lemma mrp_typed:
  assumes "agree s"
  shows "fst (exec_mrp E c s) \<in> or_internal (clean s \<and> group_fits c) source_codes"
proof -
  note errs = mr_errs [OF assms]
  have pp: "fst (haze_binary_pp_mrp E f d a1 a2 q s) \<in> or_internal (clean s \<and> fits_len q d) source_codes"
    for f d a1 a2 q
    unfolding haze_binary_pp_mrp_def
    by (rule with_arrays_typed) (auto simp: fits_len_def split: option.split intro!: source_code dest!: errs(1))
  have ps: "fst (haze_binary_ps_mrp E f d a xs q s) \<in> or_internal (clean s \<and> fits_len q d) source_codes"
    for f d a xs q
    unfolding haze_binary_ps_mrp_def
    by (rule with_arrays_typed) (auto simp: fits_len_def split: option.split intro!: source_code dest!: errs(2))
  have p: "fst (haze_unary_p_mrp E f d a q s) \<in> or_internal (clean s \<and> fits_len q d) source_codes"
    for f d a q
    unfolding haze_unary_p_mrp_def
    by (rule with_arrays_typed) (auto simp: fits_len_def split: option.split intro!: source_code dest!: errs(3))
  have pi: "fst (haze_unary_pi_mrp E f d a k q s) \<in> or_internal (clean s \<and> fits_len q d) source_codes"
    for f d a k q
    unfolding haze_unary_pi_mrp_def
    by (rule with_arrays_typed) (auto simp: fits_len_def split: option.split intro!: source_code dest!: errs(4))
  show ?thesis
    by (cases c) (simp_all only: exec_mrp.simps group_fits.simps hazeAddMrp_def hazeSubMrp_def
        hazeMulMrp_def hazeAddScalarMrp_def hazeSubScalarMrp_def hazeMulScalarMrp_def hazeNTTMrp_def
        hazeINTTMrp_def hazeAutomorphMrp_def hazeRotAutomorphCoeffMrp_def pp ps p pi)
qed

lemma dispatch_typed:
  assumes "basis_dispatch params a dst f s = Some (e, s')"
    and "\<And>p h d r s1. \<lbrakk>params = Some p; a = Some h; dst = Some d; f d h p s = Some (r, s1)\<rbrakk> \<Longrightarrow>
       code_for r \<in> or_internal P source_codes"
  shows "e \<in> or_internal P source_codes"
proof -
  have "HAZE_SUCCESS \<in> or_internal P source_codes" by (simp add: or_internal_def source_codes_def)
  with assms show ?thesis
    by (fastforce simp: basis_dispatch_def api_error_eq code_for_def split: option.splits prod.splits sum.splits)
qed

lemma basis_typed:
  assumes "agree s" and "exec_basis E c s = Some (e, s')"
  shows "e \<in> or_internal (clean s \<and> base_laws E \<and> basis_fits c) source_codes"
proof (cases c)
  case (HazeBasisConvert d a p)
  with assms(2) have x: "hazeBasisConvert E d a p s = Some (e, s')" by simp
  show ?thesis
  proof (rule dispatch_typed [OF x [unfolded hazeBasisConvert_def]], rule source_code)
    fix p' h d' r s1 e1
    assume a: "p = Some p'" "d = Some d'" "Some (basis_convert E d' h p' s) = Some (r, s1)" "r = Inl e1"
    then have "fst (basis_convert E d' h p' s) = Inl e1" by simp
    from basis_convert_errs [OF assms(1) this] a HazeBasisConvert
    show "e1 \<in> insert InvalidArgument (group_errs (base_laws E \<and> basis_fits c) s)"
      by (auto simp: group_errs_def split: if_splits)
  qed
next
  case (HazeModDown d a p)
  with assms(2) have x: "hazeModDown E d a p s = Some (e, s')" by simp
  show ?thesis
  proof (rule dispatch_typed [OF x [unfolded hazeModDown_def]], rule source_code)
    fix p' h d' r s1 e1
    assume a: "p = Some p'" "d = Some d'" "Some (mod_down E d' h p' s) = Some (r, s1)" "r = Inl e1"
    then have "fst (mod_down E d' h p' s) = Inl e1" by simp
    from mod_down_errs [OF assms(1) this] a HazeModDown
    show "e1 \<in> insert InvalidArgument (group_errs (base_laws E \<and> basis_fits c) s)" by simp
  qed
next
  case (HazeModUp d a p)
  with assms(2) have x: "hazeModUp E d a p s = Some (e, s')" by simp
  show ?thesis
  proof (rule dispatch_typed [OF x [unfolded hazeModUp_def]], rule source_code)
    fix p' h d' r s1 e1
    assume a: "p = Some p'" "d = Some d'" "mod_up E d' h p' s = Some (r, s1)" "r = Inl e1"
    from mod_up_errs [OF assms(1) a(3) [unfolded a(4)]] a HazeModUp
    show "e1 \<in> insert InvalidArgument (group_errs (base_laws E \<and> basis_fits c) s)" by simp
  qed
qed

lemma upload_code:
  "(\<And>e. r = Inl e \<Longrightarrow> e \<in> h2d_errs s) \<Longrightarrow> code_for r \<in> or_internal (clean s) (copy_codes 1)"
  by (cases r) (fastforce simp: code_for_def or_internal_def copy_codes_def checked_codes_def
      h2d_errs_def split: if_splits)+

lemma readback_code:
  "(\<And>e. r = Inl e \<Longrightarrow> e \<in> {InvalidArgument, UnknownAddress, AllocTooSmall, OutputNotFlushed}) \<Longrightarrow>
     code_for r \<in> or_internal P (copy_codes 2)"
  by (cases r) (fastforce simp: code_for_def or_internal_def copy_codes_def checked_codes_def)+

lemma or_internal_mono: "x \<in> or_internal P C \<Longrightarrow> (Q \<Longrightarrow> P) \<Longrightarrow> x \<in> or_internal Q C"
  by (auto simp: or_internal_def split: if_splits)

lemma copy_invalid [simp]: "HAZE_ERROR_INVALID_VALUE \<in> or_internal P (copy_codes k)"
  by (simp add: or_internal_def copy_codes_def checked_codes_def source_codes_def)

lemma copy_3: "copy_codes 3 = source_codes"
  by (simp add: copy_codes_def)

lemma result_code: "api_result p = (e, s') \<Longrightarrow> e = code_for (fst p)"
  by (metis api_result_code fst_conv)

lemma memcpy_typed:
  assumes "agree s" and "hazeMemcpy E d h n k s = Some (e, s')"
  shows "e \<in> or_internal (clean s) (copy_codes k)"
proof -
  consider "d = 0 \<or> h = 0 \<or> k \<notin> {1, 2, 3}" | "d \<noteq> 0" "h \<noteq> 0" "k = 1"
    | "d \<noteq> 0" "h \<noteq> 0" "k = 2" | "d \<noteq> 0" "h \<noteq> 0" "k = 3" by blast
  then show ?thesis
  proof cases
    case 1
    with assms(2) show ?thesis by (auto simp: hazeMemcpy_def api_error_eq split: if_splits)
  next
    case 2
    obtain r al where c: "copy_h2d (hz_host s) (to_dev_addr d) h n (hz_alloc s) = (r, al)"
      by (rule prod.exhaust)
    show ?thesis
    proof (cases r)
      case (Inl x)
      with c assms(2) 2 have "e = code_for (Inl x :: unit expected)"
        by (auto simp: hazeMemcpy_def api_alloc_def dest!: result_code)
      moreover have "x \<in> h2d_errs s"
        using copy_h2d_errs [OF c [unfolded Inl]] by (auto simp: h2d_errs_def)
      ultimately show ?thesis using 2 upload_code [of "Inl x" s] by simp
    next
      case (Inr u)
      obtain q s1 where q: "tag_h2d_input E (to_dev_addr d) (upd_alloc (\<lambda>_. al) s) = (q, s1)"
        by (rule prod.exhaust)
      with c Inr assms(2) 2 have "e = code_for q"
        by (auto simp: hazeMemcpy_def api_alloc_def dest!: result_code)
      then show ?thesis
        using 2 upload_errs [OF assms(1) c [unfolded Inr]] q by (auto intro!: upload_code)
    qed
  next
    case 3
    with assms(2) obtain r s1 where "copy_to_host_entry d (to_dev_addr h) n s = Some (r, s1)"
        "e = code_for r" by (auto simp: hazeMemcpy_def dest!: result_code)
    with 3 show ?thesis
      using d2h_errs [of d "to_dev_addr h" n s] by (auto simp del: code_for_simps intro!: readback_code)
  next
    case 4
    with assms(2) have "e = code_for (fst (copy_device_to_device E (to_dev_addr d) (to_dev_addr h) n s))"
      by (auto simp: hazeMemcpy_def dest!: result_code)
    with 4 show ?thesis using sr_errs(5) [OF assms(1)] by (auto simp: copy_3 intro!: source_code1)
  qed
qed

lemma memcpy_mrp_typed:
  assumes "agree s" and "hazeMemcpyMrp E ds hs n k bs s = Some (e, s')"
    and "arrays_fit (Transfer (HazeMemcpyMrp ds hs n k bs))"
  shows "e \<in> or_internal (clean s) (copy_codes k)"
proof (cases "ds = None \<or> hs = None \<or> bs = None \<or> bs = Some [] \<or> k \<notin> {1, 2, 3}")
  case True
  with assms(2) show ?thesis
    by (auto simp: hazeMemcpyMrp_def api_error_eq split: option.splits if_splits)
next
  case False
  then obtain d h b where a: "ds = Some d" "hs = Some h" "bs = Some b" "b \<noteq> []" by auto
  from False consider "k = 1" | "k = 2" | "k = 3" by blast
  then show ?thesis
  proof cases
    case 1
    with assms(2) a have e: "e = code_for (fst (copy_h2d_mrp E d h n s))"
      by (auto simp: hazeMemcpyMrp_def dest!: result_code)
    have "length d \<le> length h" using assms(3) a 1 by (simp add: fits_len_def)
    note up = copy_h2d_mrp_errs [OF assms(1) this]
    have "code_for (fst (copy_h2d_mrp E d h n s)) \<in> or_internal (clean s) (copy_codes 1)"
      by (rule upload_code) (metis up prod.collapse)
    with e 1 show ?thesis by simp
  next
    case 2
    with assms(2) a obtain r s1 where "copy_to_host_mrp (zip d h) n s = Some (r, s1)" "e = code_for r"
      by (auto simp: hazeMemcpyMrp_def dest!: result_code)
    with 2 show ?thesis using d2h_mrp_errs [of "zip d h" n s] by (auto intro!: readback_code)
  next
    case 3
    with assms(2) a have "e = code_for (fst (copy_device_to_device_mrp E d h b s))"
      by (auto simp: hazeMemcpyMrp_def dest!: result_code)
    moreover have "length b \<le> length d" "length b \<le> length h"
      using assms(3) a by (simp_all add: fits_len_def)
    moreover have "code_for (fst (copy_device_to_device_mrp E d h b s)) \<in> or_internal
        (clean s \<and> length b \<le> length d \<and> length b \<le> length h) source_codes"
      using d2d_mrp_errs [OF assms(1)] by (auto intro!: source_code)
    ultimately show ?thesis using 3 by (simp add: copy_3)
  qed
qed

lemma transfer_typed:
  assumes "agree s" and "exec_transfer E c s = Some (e, s')" and "arrays_fit (Transfer c)"
  shows "e \<in> or_internal (clean s) (transfer_codes c)"
proof (cases c)
  case (HazeMemcpy d h n k)
  with assms show ?thesis by (simp add: memcpy_typed)
next
  case (HazeMemcpyAsync d h n k st)
  with assms show ?thesis by (simp add: hazeMemcpyAsync_def memcpy_typed)
next
  case (HazeMemcpyMrp ds hs n k b)
  with assms show ?thesis by (auto intro: memcpy_mrp_typed)
next
  case (HazeMemcpyPeerAsync d i h j n st)
  with assms show ?thesis
    by (auto simp: hazeMemcpyPeerAsync_def unsupported_def api_error_eq intro!: or_internalI)
qed (use assms(2) in \<open>auto simp: hazeMemset_def hazeMemsetAsync_def api_alloc_def api_error_eq
    checked_codes_def code_for_def dest!: result_code dest: memset_errs intro!: or_internalI
    split: if_splits prod.splits sum.splits\<close>)

section \<open>Properties\<close>

lemma last_error_next:
  assumes "exec_call E c s = Some (e, s')"
  shows "hz_last_error s' \<in> {e, hz_last_error s, HAZE_SUCCESS}"
  using api_step_effect [OF exec_call_step [OF assms]] by (auto simp: tidy_def)

lemma call_typed:
  assumes "reachable E s" and "hz_last_error s \<noteq> HAZE_ERROR_NO_DATA" and "arrays_fit c"
    and "exec_call E c s = Some (e, s')"
  shows "e \<in> or_internal (\<not> reads_shadow c \<or> clean s \<and> base_laws E) (call_codes c)"
proof -
  note inv = reachable_inv [OF assms(1)] and ag = agree_inv [OF reachable_inv [OF assms(1)]]
  note call = assms(4)
  show ?thesis
  proof (cases c)
    case HazeGetLastError
    with call assms(2) show ?thesis by (auto simp: hazeGetLastError_def Let_def intro: or_internalI)
  next
    case (Device d)
    with call device_typed [of d s] show ?thesis by (simp add: or_internal_def)
  next
    case (Memory d)
    with call memory_typed [OF inv, of d] show ?thesis by (simp add: or_internal_def)
  next
    case (Transfer d)
    with call transfer_typed [OF ag, of E d e s'] assms(3) show ?thesis
      by (auto elim: or_internal_mono)
  next
    case (Group_Memory d)
    with call group_typed [OF inv, of d] show ?thesis by (simp add: or_internal_def)
  next
    case (Program d)
    with call program_typed [OF inv, of E d] show ?thesis by (simp add: or_internal_def)
  next
    case (Settings d)
    with call config_typed [of d s] show ?thesis by (simp add: or_internal_def)
  next
    case (Streams d)
    with call stream_typed [of d s] show ?thesis by (simp add: or_internal_def)
  next
    case (Arithmetic d)
    with call compute_typed [OF ag, of E d] show ?thesis by (auto elim: or_internal_mono)
  next
    case (Group_Arithmetic d)
    with call mrp_typed [OF ag, of E d] assms(3) show ?thesis by (auto elim: or_internal_mono)
  next
    case (Basis d)
    with call basis_typed [OF ag, of E d e s'] assms(3) show ?thesis by (auto elim: or_internal_mono)
  next
    case (Graph d)
    with call graph_typed [of d s] show ?thesis by (simp add: or_internal_def)
  qed (use call in \<open>auto simp: hazeGetPerformanceCounters_def intro: or_internalI\<close>)
qed

lemma no_data_unlisted: "HAZE_ERROR_NO_DATA \<notin> or_internal P (call_codes c)"
proof -
  have "HAZE_ERROR_NO_DATA \<notin> call_codes c"
  proof (cases c)
    case (Device d) then show ?thesis by (cases d) (simp_all add: checked_codes_def)
  next
    case (Memory d) then show ?thesis by (cases d) (simp_all add: checked_codes_def)
  next
    case (Transfer d) then show ?thesis
      by (cases d) (simp_all add: checked_codes_def copy_codes_def source_codes_def)
  next
    case (Group_Memory d) then show ?thesis by (cases d) (simp_all add: checked_codes_def)
  next
    case (Program d) then show ?thesis by (cases d) (simp_all add: checked_codes_def)
  next
    case (Settings d) then show ?thesis by (cases d) (simp_all add: checked_codes_def)
  next
    case (Streams d) then show ?thesis by (cases d) (simp_all add: checked_codes_def)
  qed (simp_all add: source_codes_def)
  then show ?thesis by (simp add: or_internal_def)
qed

lemma history_typed:
  assumes "exec_calls E cs s = Some (es, s')" and "\<forall>c \<in> set cs. arrays_fit c"
    and "reachable E s" and "hz_last_error s \<noteq> HAZE_ERROR_NO_DATA"
  shows "reachable E s' \<and> hz_last_error s' \<noteq> HAZE_ERROR_NO_DATA"
  using assms
proof (induction cs arbitrary: s es)
  case (Cons c cs)
  from Cons.prems(1) obtain e s1 es1 where c: "exec_call E c s = Some (e, s1)"
      "exec_calls E cs s1 = Some (es1, s')" by (auto split: option.splits)
  have "e \<noteq> HAZE_ERROR_NO_DATA"
    using call_typed [OF Cons.prems(3,4) _ c(1)] Cons.prems(2) no_data_unlisted by (metis list.set_intros(1))
  with last_error_next [OF c(1)] Cons.prems(4) have "hz_last_error s1 \<noteq> HAZE_ERROR_NO_DATA" by auto
  with Cons.IH [OF c(2)] Cons.prems(2) reachable_call [OF Cons.prems(3) c(1)] show ?case by simp
qed simp

text \<open>
  C16. The ABI is typed by the tables of \<open>Haze_Codes\<close>. After any history of calls whose arrays
  have the documented lengths, and for every compiler, bridge and file system, a call returns
  one of the codes listed for its function, and never \<open>HAZE_ERROR_NO_DATA\<close>. Only a call that
  reads or uploads shadow bytes may return \<open>HAZE_ERROR_INTERNAL\<close> besides, when a vector is left
  from another ring dimension (or the ring dimension is so large that sizes in bytes wrap), or
  when fhetch answers with bases other than the documented ones.
\<close>

theorem every_code_is_listed:
  assumes "exec_calls E cs (haze_init hm) = Some (es, s)" and "\<forall>x \<in> set (c # cs). arrays_fit x"
    and "exec_call E c s = Some (e, s')"
  shows "(e \<in> call_codes c \<or>
      e = HAZE_ERROR_INTERNAL \<and> reads_shadow c \<and> \<not> (clean s \<and> base_laws E)) \<and>
    e \<noteq> HAZE_ERROR_NO_DATA"
proof -
  have "reachable E s \<and> hz_last_error s \<noteq> HAZE_ERROR_NO_DATA"
    using history_typed [OF assms(1) _ reachable.start] assms(2) by (simp add: haze_init_def)
  with assms have "e \<in> or_internal (\<not> reads_shadow c \<or> clean s \<and> base_laws E) (call_codes c)"
    by (intro call_typed) auto
  then show ?thesis using no_data_unlisted by (auto simp: or_internal_def split: if_splits)
qed

text \<open>An automorphism of an allocated address that was never written.\<close>

definition unwritten_calls :: "call list" where
  "unwritten_calls = [Settings (HazeSetRingDimension 4), Memory (HazeMalloc False 32)]"

theorem every_code_is_listed_witness:
  "\<exists>s s'. exec_calls sim_env unwritten_calls (haze_init (\<lambda>_. 0)) = Some ([HAZE_SUCCESS, HAZE_SUCCESS], s) \<and>
     exec_call sim_env (Arithmetic (HazeAutomorph kHbmBase kHbmBase 3)) s =
       Some (HAZE_ERROR_SOURCE_UNAVAILABLE, s') \<and>
     HAZE_ERROR_SOURCE_UNAVAILABLE \<in> call_codes (Arithmetic (HazeAutomorph kHbmBase kHbmBase 3))"
proof -
  define s where "s = snd (the (exec_calls sim_env unwritten_calls (haze_init (\<lambda>_. 0))))"
  have "fst (the (exec_calls sim_env unwritten_calls (haze_init (\<lambda>_. 0)))) = [HAZE_SUCCESS, HAZE_SUCCESS]"
    by code_simp
  moreover have "exec_calls sim_env unwritten_calls (haze_init (\<lambda>_. 0)) \<noteq> None"
    by (simp add: unwritten_calls_def split: prod.split)
  ultimately have h: "exec_calls sim_env unwritten_calls (haze_init (\<lambda>_. 0)) =
      Some ([HAZE_SUCCESS, HAZE_SUCCESS], s)"
    unfolding s_def by (metis option.exhaust_sel prod.collapse)
  have "fst (the (exec_call sim_env (Arithmetic (HazeAutomorph kHbmBase kHbmBase 3)) s)) =
      HAZE_ERROR_SOURCE_UNAVAILABLE"
    unfolding s_def by code_simp
  then obtain s' where c: "exec_call sim_env (Arithmetic (HazeAutomorph kHbmBase kHbmBase 3)) s =
      Some (HAZE_ERROR_SOURCE_UNAVAILABLE, s')"
    by (metis exec_call.simps(11) option.sel prod.collapse)
  from every_code_is_listed [OF h _ c] h c show ?thesis by (auto simp: unwritten_calls_def)
qed

text \<open>The simulated environment answers with the documented bases.\<close>

lemma sim_base_laws: "base_laws sim_env"
  by (auto simp: base_laws_def sim_env_def o_def filter_map split_def)

section \<open>Reads inside their arrays\<close>

text \<open>When a ModUp is undefined: a digit slice leaves the array the caller announced.\<close>

lemma mod_up_None:
  "mod_up E d a p s = None \<longleftrightarrow> validate_mod_up p = Inr () \<and>
     \<not> isl (fst (build_mrp_locked E a (base_of (mu_src_base p) (mu_src_base_len p)) (open_session E s))) \<and>
     slice_digits (base_of (mu_digit_bases p) (mu_digit_bases_total_len p)) 0
       (base_of (mu_digit_base_lens p) (mu_digit_count p)) = None"
  by (auto simp: mod_up_def Let_def split: sum.split prod.split option.split)

lemma dispatch_None:
  "basis_dispatch params a dst f s = None \<longleftrightarrow>
     (\<exists>d h p. dst = Some d \<and> a = Some h \<and> params = Some p \<and> f d h p s = None)"
  by (auto simp: basis_dispatch_def api_error_eq split: option.split sum.split prod.split)

text \<open>
  C17. Which reads leave their vector. In a session in which the polynomial size changes only
  while no vector is stored, no call reads past one of the library's vectors, whatever the
  arguments and however compiler, bridge and files answer: every read-back copies at most what
  the vector holds. The one undefined read left is that of a hazeModUp whose parameters pass the
  validation and whose sources are found, but with a digit slice outside the announced digit
  array, and then the call is undefined. The model takes host buffers, handles and the caller's
  other arrays to be valid and as long as announced, and the compiler's start and stop to return.
\<close>

theorem only_mod_up_overruns:
  assumes "steady_run E s"
  shows "exec_call E c s = None \<longleftrightarrow>
    (\<exists>d a p. c = Basis (HazeModUp (Some d) (Some a) (Some p)) \<and> validate_mod_up p = Inr () \<and>
       \<not> isl (fst (build_mrp_locked E a (base_of (mu_src_base p) (mu_src_base_len p)) (open_session E s))) \<and>
       slice_digits (base_of (mu_digit_bases p) (mu_digit_bases_total_len p)) 0
         (base_of (mu_digit_base_lens p) (mu_digit_count p)) = None)"
proof (cases c)
  case (Transfer t)
  with reads_defined [OF assms] show ?thesis by (cases t) (auto simp: hazeMemcpyAsync_def)
next
  case (Basis b)
  then show ?thesis
    by (cases b) (auto simp: hazeModUp_def hazeModDown_def hazeBasisConvert_def dispatch_None mod_up_None)
qed (simp_all split: prod.split)

theorem only_mod_up_overruns_witness:
  "exec_call sim_env (Basis (HazeModUp (Some [16, 24, 32, 40, 48, 56, 64, 72])
      (Some [64, 80, 96]) (Some two_digits))) (haze_init (\<lambda>_. 0)) \<noteq> None"
  using only_mod_up_overruns [OF steady_start [of sim_env "\<lambda>_. 0"], of "Basis (HazeModUp (Some [16, 24, 32, 40, 48, 56, 64, 72])
      (Some [64, 80, 96]) (Some two_digits))"]
  by (simp add: two_digits_def base_of_def)

end
