(* ===== verification/Haze_Program.thy ===== *)
theory Haze_Program
  imports Haze_Client_Spec Haze_Header Haze_Calls Haze_Api_Spec Haze_Flush_Errors
begin

text \<open>
  Whole programs over the public header: reset the device, configure it, allocate, upload,
  compute, tag, flush, read back. Every call is a value of \<open>call\<close>, run by \<open>exec_call\<close> from any
  state a process can be in.
\<close>

section \<open>Client calls as header calls\<close>

text \<open>\<open>n\<close> is the ring dimension; a transfer moves one polynomial.\<close>

fun instr_call :: "u64 \<Rightarrow> instr \<Rightarrow> call" where
  "instr_call n (Single (IPP f d a b i)) = Arithmetic
     (case f of SrAddp \<Rightarrow> HazeAdd d a b i | SrSubp \<Rightarrow> HazeSub d a b i | SrMulp \<Rightarrow> HazeMul d a b i)"
| "instr_call n (Single (IPS f d a x i)) = Arithmetic
     (case f of SrAddps \<Rightarrow> HazeAddScalar d a x i | SrSubps \<Rightarrow> HazeSubScalar d a x i
      | SrMulps \<Rightarrow> HazeMulScalar d a x i)"
| "instr_call n (Single (IPQ f d a i)) = Arithmetic
     (case f of SrNtt \<Rightarrow> HazeNTT d a i | SrIntt \<Rightarrow> HazeINTT d a i)"
| "instr_call n (Single (IAutomorph d a k)) = Arithmetic (HazeAutomorph d a k)"
| "instr_call n (Single (ICopy d a k)) = Transfer (HazeMemcpy d a k 3)"
| "instr_call n (Group (MPP f d a b q)) = Group_Arithmetic
     (case f of MrAddp \<Rightarrow> HazeAddMrp (Some d) (Some a) (Some b) (Some q)
      | MrSubp \<Rightarrow> HazeSubMrp (Some d) (Some a) (Some b) (Some q)
      | MrMulp \<Rightarrow> HazeMulMrp (Some d) (Some a) (Some b) (Some q))"
| "instr_call n (Group (MPS f d a x q)) = Group_Arithmetic
     (case f of MrAddps \<Rightarrow> HazeAddScalarMrp (Some d) (Some a) (Some x) (Some q)
      | MrSubps \<Rightarrow> HazeSubScalarMrp (Some d) (Some a) (Some x) (Some q)
      | MrMulps \<Rightarrow> HazeMulScalarMrp (Some d) (Some a) (Some x) (Some q))"
| "instr_call n (Group (MP f d a q)) = Group_Arithmetic
     (case f of MrNtt \<Rightarrow> HazeNTTMrp (Some d) (Some a) (Some q)
      | MrIntt \<Rightarrow> HazeINTTMrp (Some d) (Some a) (Some q))"
| "instr_call n (Group (MPI f d a k q)) = Group_Arithmetic
     (case f of MrAutomorphEval \<Rightarrow> HazeAutomorphMrp (Some d) (Some a) k (Some q)
      | MrRotAutomorphCoeff \<Rightarrow> HazeRotAutomorphCoeffMrp (Some d) (Some a) k (Some q))"
| "instr_call n (Group (MConvert d a p)) = Basis (HazeBasisConvert (Some d) (Some a) (Some p))"
| "instr_call n (Group (MDown d a p)) = Basis (HazeModDown (Some d) (Some a) (Some p))"
| "instr_call n (Group (MUp d a p)) = Basis (HazeModUp (Some d) (Some a) (Some p))"
| "instr_call n (Group (MCopy d a q)) =
     Transfer (HazeMemcpyMrp (Some d) (Some a) (n * 8) 3 (Some q))"

fun header_call :: "u64 \<Rightarrow> client_call \<Rightarrow> call" where
  "header_call n (Upload d h) = Transfer (HazeMemcpy d h (n * 8) 1)"
| "header_call n (Compute i) = instr_call n i"
| "header_call n (TagOut p) = Program (HazeTagOutput p)"

lemma header_call_exec:
  assumes "poly_bytes (hz_alloc s) = n * 8"
  shows "exec_call E (header_call n x) s = api_call E x s"
proof (cases x)
  case (Compute i)
  show ?thesis
  proof (cases i)
    case (Single j)
    then show ?thesis unfolding Compute by (cases j) (auto simp: wrapper_defs split: sr_pp.split sr_ps.split sr_pq.split)
  next
    case (Group j)
    then show ?thesis unfolding Compute
      using assms by (cases j) (auto simp: wrapper_defs split: mr_pp.split mr_ps.split mr_p.split mr_pi.split)
  qed
qed (use assms in simp_all)

lemma client_call_size:
  assumes "api_call E x s = Some (e, s')"
  shows "poly_bytes (hz_alloc s') = poly_bytes (hz_alloc s)"
proof -
  have "tidy s e s'"
  proof (cases x)
    case (Upload d h)
    with assms show ?thesis by (auto intro: tidy_shims)
  next
    case (TagOut p)
    with assms show ?thesis by (auto intro: tidy_shims)
  next
    case (Compute i)
    show ?thesis
    proof (cases i)
      case (Single j)
      with assms Compute show ?thesis by (cases j) (auto intro: tidy_shims)
    next
      case (Group j)
      with assms Compute show ?thesis by (cases j) (auto intro: tidy_shims)
    qed
  qed
  then show ?thesis by (simp add: tidy_def fits_def)
qed

lemma header_run:
  assumes "api_run E cs s = Some (HAZE_SUCCESS, s')" and "poly_bytes (hz_alloc s) = n * 8"
  shows "exec_calls E (map (header_call n) cs) s = Some (replicate (length cs) HAZE_SUCCESS, s')"
  using assms
proof (induction cs arbitrary: s)
  case (Cons x cs)
  then obtain s1 where c: "api_call E x s = Some (HAZE_SUCCESS, s1)"
      and r: "api_run E cs s1 = Some (HAZE_SUCCESS, s')"
    by (auto split: option.splits if_splits)
  from Cons.IH [OF r] client_call_size [OF c] Cons.prems(2) header_call_exec [OF Cons.prems(2)] c
  show ?case by simp
qed simp

lemma exec_calls_append:
  "exec_calls E xs s = Some (es, s1) \<Longrightarrow> exec_calls E ys s1 = Some (fs, s2) \<Longrightarrow>
     exec_calls E (xs @ ys) s = Some (es @ fs, s2)"
  by (induction xs arbitrary: s es) (auto split: option.splits)

lemma exec_calls_inv: "haze_inv s \<Longrightarrow> exec_calls E cs s = Some (es, s') \<Longrightarrow> haze_inv s'"
proof (induction cs arbitrary: s es)
  case (Cons c cs)
  then show ?case by (auto split: option.splits) (meson api_step_inv exec_call_step)
qed simp

section \<open>Bringing the device up\<close>

text \<open>A reset and the ring dimension; then the moduli, the end of configuration, the polynomials.\<close>

definition restart_calls :: "u64 \<Rightarrow> call list" where
  "restart_calls n = [Device HazeDeviceReset, Settings (HazeSetRingDimension n)]"

definition setup_calls :: "u64 \<Rightarrow> u64 list \<Rightarrow> u64 \<Rightarrow> call list" where
  "setup_calls n qs count =
     map (\<lambda>(i, q). Settings (HazeSetCiphertextModulus (int i) q)) (enumerate 0 qs) @
     [Settings HazeConfigureDevice, Group_Memory (HazeMallocMrp False count (n * 8))]"

definition ring_config :: "u64 \<Rightarrow> u64 list \<Rightarrow> config" where
  "ring_config n qs = config_init\<lparr>cf_ring_dim := n, cf_moduli := qs, cf_configured := True\<rparr>"

text \<open>The addresses of the polynomials, in the order of their allocation.\<close>

definition poly_addr :: "u64 \<Rightarrow> nat \<Rightarrow> DevAddr" where
  "poly_addr n i = kHbmBase + of_nat i * (n * 8)"

lemma allocate_loop_bump:
  "pool_free al = [] \<Longrightarrow> allocate_loop k out al =
     (Inr (out @ map (\<lambda>i. next_addr al + of_nat i * poly_bytes al) [0..<k]),
      al\<lparr>next_addr := next_addr al + of_nat k * poly_bytes al,
         alloc_set := (\<lambda>i. next_addr al + of_nat i * poly_bytes al) ` {..<k} \<union> alloc_set al\<rparr>)"
proof (induction k arbitrary: al out)
  case (Suc k)
  let ?al1 = "al\<lparr>next_addr := next_addr al + poly_bytes al,
                alloc_set := insert (next_addr al) (alloc_set al)\<rparr>"
  have shift: "next_addr ?al1 + of_nat i * poly_bytes ?al1 = next_addr al + of_nat (Suc i) * poly_bytes al" for i
    by (simp add: algebra_simps)
  have up: "map f [0..<Suc k] = f 0 # map (\<lambda>i. f (Suc i)) [0..<k]" for f :: "nat \<Rightarrow> DevAddr"
    by (simp only: upt_conv_Cons [OF zero_less_Suc] list.map map_Suc_upt [symmetric] map_map comp_def)
  have im: "f ` {..<Suc k} = insert (f 0) ((\<lambda>i. f (Suc i)) ` {..<k})" for f :: "nat \<Rightarrow> DevAddr"
    by (simp only: lessThan_Suc_eq_insert_0 image_insert image_image)
  have "allocate_loop (Suc k) out al = allocate_loop k (out @ [next_addr al]) ?al1"
    using Suc.prems by (simp add: allocate_one_bump)
  also have "\<dots> = (Inr ((out @ [next_addr al]) @ map (\<lambda>i. next_addr al + of_nat (Suc i) * poly_bytes al) [0..<k]),
      ?al1\<lparr>next_addr := next_addr al + of_nat (Suc k) * poly_bytes al,
         alloc_set := (\<lambda>i. next_addr al + of_nat (Suc i) * poly_bytes al) ` {..<k} \<union> alloc_set ?al1\<rparr>)"
    using Suc.IH [of ?al1 "out @ [next_addr al]"] Suc.prems
    unfolding shift by (simp add: algebra_simps)
  finally show ?case unfolding up im by simp
qed simp

lemma set_moduli_calls:
  assumes "\<not> cf_configured (hz_config s)" and "0 \<notin> set qs" and "hz_last_error s = HAZE_SUCCESS"
  shows "exec_calls E (map (\<lambda>(i, q). Settings (HazeSetCiphertextModulus (int i) q))
      (enumerate (length (cf_moduli (hz_config s))) qs)) s =
    Some (replicate (length qs) HAZE_SUCCESS,
      s\<lparr>hz_config := (hz_config s)\<lparr>cf_moduli := cf_moduli (hz_config s) @ qs\<rparr>\<rparr>)"
  using assms
proof (induction qs arbitrary: s)
  case (Cons q qs)
  let ?s1 = "s\<lparr>hz_config := (hz_config s)\<lparr>cf_moduli := cf_moduli (hz_config s) @ [q]\<rparr>\<rparr>"
  have "hazeSetCiphertextModulus (int (length (cf_moduli (hz_config s)))) q s = (HAZE_SUCCESS, ?s1)"
    using Cons.prems
    by (simp add: hazeSetCiphertextModulus_def api_config_def set_modulus_def api_result_def)
  with Cons.IH [of ?s1] Cons.prems show ?case by simp
qed simp

text \<open>The state after the calls that bring the device up.\<close>

definition up_state :: "u64 \<Rightarrow> u64 list \<Rightarrow> u64 \<Rightarrow> ('p, 'm) haze \<Rightarrow> ('p, 'm) haze" where
  "up_state n qs count s0 = (haze_init (hz_host s0))\<lparr>
     hz_config := ring_config n qs,
     hz_alloc := allocator_init\<lparr>poly_bytes := n * 8,
       next_addr := kHbmBase + of_nat (unat count) * (n * 8),
       alloc_set := poly_addr n ` {..<unat count}\<rparr>,
     hz_trace := hz_trace s0 @ [Compiler ClearCaptured, Compiler CompilerReset]\<rparr>"

lemma eight_times:
  assumes "n \<noteq> 0" and "unat n < 2 ^ 61"
  shows "unat (n * 8) = unat n * 8" and "n * 8 \<noteq> (0 :: u64)"
proof -
  show e: "unat (n * 8) = unat n * 8"
    using assms(2) by (simp add: unat_word_ariths take_bit_nat_eq_self)
  show "n * 8 \<noteq> 0"
  proof
    assume "n * 8 = 0"
    with e have "unat n = 0" by simp
    with assms(1) show False by (simp add: unat_eq_0)
  qed
qed

definition restarted :: "u64 \<Rightarrow> ('p, 'm) haze \<Rightarrow> ('p, 'm) haze" where
  "restarted n s0 = (haze_init (hz_host s0))\<lparr>
     hz_config := config_init\<lparr>cf_ring_dim := n\<rparr>,
     hz_alloc := allocator_init\<lparr>poly_bytes := n * 8\<rparr>,
     hz_trace := hz_trace s0 @ [Compiler ClearCaptured, Compiler CompilerReset]\<rparr>"

lemma restart_run:
  assumes "is_supported_ring_dim n" and "unat n < 2 ^ 61"
  shows "exec_calls E (restart_calls n) s0 = Some ([HAZE_SUCCESS, HAZE_SUCCESS], restarted n s0)"
proof -
  have "n * 8 \<noteq> 0" using eight_times(2) [OF _ assms(2)] assms(1) by (auto simp: is_supported_ring_dim_def)
  with assms(1) show ?thesis
    by (simp add: restart_calls_def restarted_def device_reset_pristine hazeSetRingDimension_def
        set_ring_dimension_def api_result_def set_polynomial_size_def clear_pool_locked_def
        haze_init_def config_init_def allocator_init_def)
qed

lemma setup_run:
  assumes "is_supported_ring_dim n" and "unat n < 2 ^ 61" and "0 \<notin> set qs"
    and "unat count \<le> kMaxCiphertextModuli"
  shows "exec_calls E (setup_calls n qs count) (restarted n s0) =
    Some (replicate (length qs + 2) HAZE_SUCCESS, up_state n qs count s0)"
proof -
  have n: "n \<noteq> 0" using assms(1) by (simp add: is_supported_ring_dim_def)
  note n8 = eight_times [OF n assms(2)]
  let ?t1 = "restarted n s0"
  let ?c1 = "config_init\<lparr>cf_ring_dim := n\<rparr>" and ?al1 = "allocator_init\<lparr>poly_bytes := n * 8\<rparr>"
  let ?t2 = "?t1\<lparr>hz_config := ?c1\<lparr>cf_moduli := qs\<rparr>\<rparr>"
  let ?t3 = "?t2\<lparr>hz_config := ring_config n qs\<rparr>"
  have 2: "exec_calls E (map (\<lambda>(i, q). Settings (HazeSetCiphertextModulus (int i) q)) (enumerate 0 qs)) ?t1 =
      Some (replicate (length qs) HAZE_SUCCESS, ?t2)"
    using set_moduli_calls [of ?t1 qs E] assms(3) by (simp add: restarted_def haze_init_def config_init_def)
  have 3: "hazeConfigureDevice ?t2 = (HAZE_SUCCESS, ?t3)"
    using n by (simp add: hazeConfigureDevice_def api_config_def configure_device_def api_result_def
        ring_config_def haze_init_def restarted_def)
  have al: "snd (allocate_many count (n * 8) ?al1) = hz_alloc (up_state n qs count s0)"
      "\<exists>as. fst (allocate_many count (n * 8) ?al1) = Inr as"
    using n8(2) allocate_loop_bump [of ?al1 "unat count" "[]"]
    by (auto simp: allocate_many_def validate_poly_size_locked_def up_state_def poly_addr_def
        allocator_init_def)
  then obtain as where "allocate_many count (n * 8) ?al1 = (Inr as, hz_alloc (up_state n qs count s0))"
    by (metis prod.collapse)
  then have 4: "code_of (hazeMallocMrp False count (n * 8) ?t3) = (HAZE_SUCCESS, up_state n qs count s0)"
    using assms(4) by (simp add: code_of_def hazeMallocMrp_def upd_alloc_def up_state_def restarted_def)
  have "exec_calls E [Settings HazeConfigureDevice, Group_Memory (HazeMallocMrp False count (n * 8))] ?t2 =
      Some ([HAZE_SUCCESS, HAZE_SUCCESS], up_state n qs count s0)"
    using 3 4 by simp
  from exec_calls_append [OF 2 this]
  have run: "exec_calls E (setup_calls n qs count) ?t1 =
      Some (replicate (length qs) HAZE_SUCCESS @ [HAZE_SUCCESS, HAZE_SUCCESS], up_state n qs count s0)"
    by (simp only: setup_calls_def)
  have "replicate (length qs) HAZE_SUCCESS @ [HAZE_SUCCESS, HAZE_SUCCESS] =
      replicate (length qs + 2) HAZE_SUCCESS"
    by (rule replicate_eqI) auto
  with run show ?thesis by simp
qed

lemma up_state_ready:
  assumes "is_supported_ring_dim n" and "unat n < 2 ^ 61" and "0 \<notin> set qs"
    and "unat count \<le> kMaxCiphertextModuli"
  shows "ready (up_state n qs count s0)"
proof -
  let ?t0 = "(haze_init (hz_host s0))\<lparr>hz_trace := hz_trace s0 @ [Compiler ClearCaptured, Compiler CompilerReset]\<rparr>"
  have n: "n \<noteq> 0" using assms(1) by (simp add: is_supported_ring_dim_def)
  have "up_state n qs count ?t0 = (up_state n qs count s0)\<lparr>hz_trace := hz_trace ?t0 @
      [Compiler ClearCaptured, Compiler CompilerReset]\<rparr>"
    by (simp add: up_state_def haze_init_def)
  moreover have "haze_inv ?t0" using haze_inv_init [of "hz_host s0"] by (simp add: haze_inv_def)
  from exec_calls_inv [OF this exec_calls_append [OF restart_run [OF assms(1,2)] setup_run [OF assms]]]
  have "haze_inv (up_state n qs count ?t0)" .
  ultimately have "haze_inv (up_state n qs count s0)" by (simp add: haze_inv_def)
  then show ?thesis
    using eight_times [OF n assms(2)] n assms(2)
    by (simp add: ready_def sized_def up_state_def allocator_init_def ring_config_def)
qed

section \<open>Programs\<close>

text \<open>
  Every call of such a program succeeds, and the tagged outputs then read back as the values the
  abstract device holds.
\<close>

lemma program_run:
  assumes "fh_sound E val D" and "mr_sound E val mval D M" and "replay_serves E val" and "starts E"
    and "is_supported_ring_dim n" and "unat n < 2 ^ 61" and "0 \<notin> set qs"
    and "unat count \<le> kMaxCiphertextModuli"
    and "1 \<le> B" and "\<forall>x \<in> set cs. width x \<le> B" and "B * length cs < 2 ^ 64"
    and "client_run D M (ring_config n qs) (poly_addr n ` {..<unat count}) (hz_host s0) cs
           \<lparr>cl_mem = Map.empty, cl_bound = {}, cl_out = {}\<rparr> = Some st"
    and "cl_out st \<noteq> {}" and "\<forall>v \<in> ran (cl_mem st). length v = unat n" and "dst \<noteq> 0"
  shows "\<exists>s. exec_calls E (map (header_call n) cs @ [Program HazeFlush]) (up_state n qs count s0) =
      Some (replicate (Suc (length cs)) HAZE_SUCCESS, s) \<and>
    (\<forall>a \<in> cl_out st. \<exists>s' v. cl_mem st a = Some v \<and>
       exec_call E (Transfer (HazeMemcpy dst a (n * 8) 2)) s = Some (HAZE_SUCCESS, s') \<and>
       hz_host s' = write_host (hz_host s0) dst (vec_bytes v))"
proof -
  let ?s = "up_state n qs count s0"
  have up: "hz_config ?s = ring_config n qs" "alloc_set (hz_alloc ?s) = poly_addr n ` {..<unat count}"
      "hz_host ?s = hz_host s0" "hz_epoch ?s = epoch_init" "\<not> hz_hook_had_error ?s"
      "poly_bytes (hz_alloc ?s) = n * 8"
      "client_start val ?s = \<lparr>cl_mem = Map.empty, cl_bound = {}, cl_out = {}\<rparr>"
    by (simp_all add: up_state_def haze_init_def client_start_def dev_mem_def epoch_init_def
        allocator_init_def fun_eq_iff)
  have nf: "\<not> format_refused (ring_config n qs)"
    by (simp add: format_refused_def ring_config_def config_init_def)
  have len: "\<forall>v \<in> ran (cl_mem st). length v = unat (cf_ring_dim (ring_config n qs))"
    using assms(14) by (simp add: ring_config_def)
  note sim = simulates_start [OF up_state_ready [OF assms(5-8)] up(4,5) assms(11), where val = val,
      unfolded up(1-3,7)]
  from session_run [OF assms(1-4) nf assms(9,10) sim assms(12,13) len assms(15)] up(6)
  obtain s1 s2 where run: "api_run E cs ?s = Some (HAZE_SUCCESS, s1)"
      and fl: "hazeFlush E s1 = (HAZE_SUCCESS, s2)"
      and out: "\<forall>a \<in> cl_out st. \<exists>s3 v. cl_mem st a = Some v \<and>
         hazeMemcpy E dst a (n * 8) 2 s2 = Some (HAZE_SUCCESS, s3) \<and>
         hz_host s3 = write_host (hz_host s0) dst (vec_bytes v)"
    by auto
  have "exec_calls E [Program HazeFlush] s1 = Some ([HAZE_SUCCESS], s2)" using fl by simp
  from exec_calls_append [OF header_run [OF run up(6)] this]
  have "exec_calls E (map (header_call n) cs @ [Program HazeFlush]) ?s =
      Some (replicate (length cs) HAZE_SUCCESS @ [HAZE_SUCCESS], s2)" .
  moreover have "replicate (length cs) HAZE_SUCCESS @ [HAZE_SUCCESS] =
      replicate (Suc (length cs)) HAZE_SUCCESS"
    by (rule replicate_eqI) auto
  ultimately show ?thesis using out by (intro exI [of _ s2]) simp
qed

text \<open>
  A program on the simulated device, started where an epoch of an earlier program was left
  open: two polynomials, an upload, a sum in the second, which is the output.
\<close>

definition sum_calls :: "client_call list" where
  "sum_calls = [Upload (poly_addr 2 0) 512,
     Compute (Single (IPP SrAddp (poly_addr 2 1) (poly_addr 2 0) (poly_addr 2 0) 0)),
     TagOut (poly_addr 2 1)]"

lemma sum_addrs:
  "poly_addr 2 0 = 0x4000000000" "poly_addr 2 1 = 0x4000000010"
  "poly_addr 2 ` {..<unat (2 :: u64)} = {0x4000000000, 0x4000000010}"
proof -
  show a: "poly_addr 2 0 = 0x4000000000" "poly_addr 2 1 = 0x4000000010"
    by (simp_all add: poly_addr_def kHbmBase_def)
  have "{..<unat (2 :: u64)} = {0, 1}" by auto
  with a show "poly_addr 2 ` {..<unat (2 :: u64)} = {0x4000000000, 0x4000000010}" by simp
qed

lemma sum_run:
  "client_run sim_den sim_mr_den (ring_config 2 [97]) (poly_addr 2 ` {..<unat (2 :: u64)}) demo_host sum_calls
     \<lparr>cl_mem = Map.empty, cl_bound = {}, cl_out = {}\<rparr> =
   Some \<lparr>cl_mem = [poly_addr 2 0 \<mapsto> [5, 6], poly_addr 2 1 \<mapsto> [10, 12]],
     cl_bound = {poly_addr 2 0, poly_addr 2 1}, cl_out = {poly_addr 2 1}\<rparr>"
proof -
  have u: "upload_value (ring_config 2 [97]) demo_host 512 = [5, 6]"
    by (rule demo_upload) (simp add: ring_config_def)
  have p: "sim_pp SrAddp [5, 6] [5, 6] 97 = [10, 12]" by code_simp
  have c: "cf_moduli (ring_config 2 [97]) = [97]" by (simp add: ring_config_def)
  show ?thesis
    unfolding sum_calls_def sum_addrs
    by (simp add: to_dev_addr_def ptr_addrs_def u p c with_modulus_def cfg_modulus_def sim_den_def
        fun_eq_iff insert_commute)
qed

end
