(* ===== verification/Haze_Deployed.thy ===== *)
theory Haze_Deployed
  imports Haze_Program Haze_Bridge_Files Haze_Hook
begin

text \<open>
  A process with the replay bridge linked in. Beside libhaze's state it has the hook the bridge
  has installed in the compiler, if any, and the calls the bridge has made to the compiler. The
  stop call of a flush runs the installed hook on what the compiler captured; results are read
  from the probe files the replay wrote; a device reset frees the hook
  (replay_bridge/include/haze/replay_bridge.h), so a client initialises the bridge again after
  every reset. Left to the surroundings are the compiler, OpenFHE, the serialisers and the files.
\<close>

section \<open>The surroundings\<close>

text \<open>
  The bridge's calls to the compiler, each with the number of calls libhaze had made by then:
  what the compiler answers depends on both. \<open>su_throws\<close> says which call of an initialisation
  throws, \<open>su_dir\<close> and \<open>su_disk\<close> are the program directory and what is in the files.
\<close>

type_synonym 'cc bridge_log = "(nat \<times> 'cc init_call) list"

record ('cc, 'p, 'm, 'b) surroundings =
  su_openfhe :: "'cc openfhe"
  su_throws :: "'cc bridge_log \<Rightarrow> 'cc init_call list \<Rightarrow> 'cc init_call \<Rightarrow> bool"
  su_inputs :: "'cc bridge_log \<Rightarrow> ('p, 'm) trace \<Rightarrow> captured_input list"
  su_outputs :: "'cc bridge_log \<Rightarrow> ('p, 'm) trace \<Rightarrow> (string \<times> CapturedShape) list"
  su_deserialize :: "'b \<Rightarrow> ciphertext option"
  su_dir :: "'cc bridge_log \<Rightarrow> ('p, 'm) trace \<Rightarrow> string"
  su_disk :: "'cc bridge_log \<Rightarrow> ('p, 'm) trace \<Rightarrow> 'b disk"
  su_env :: "'cc bridge_log \<Rightarrow> ('p, 'm) fh_env"

text \<open>What libhaze sees while \<open>hook\<close> is installed.\<close>

definition deployed ::
    "('cc, 'p, 'm, 'b) surroundings \<Rightarrow> 'cc bridge_log \<Rightarrow> 'cc hook_ctx option \<Rightarrow> ('p, 'm) fh_env" where
  "deployed W lg hook = hook_env (su_openfhe W) hook (su_inputs W lg) (su_outputs W lg)
     ((su_env W lg)\<lparr>load_probe := \<lambda>tr name.
        snd (load_serialized_probe (su_deserialize W) (su_dir W lg tr) (su_disk W lg tr) name)\<rparr>)"

lemma deployed_simps [simp]:
  "poly_of (deployed W lg hook) = poly_of (su_env W lg)"
  "mrp_of (deployed W lg hook) = mrp_of (su_env W lg)"
  "bool_of (deployed W lg hook) = bool_of (su_env W lg)"
  "throws (deployed W lg hook) = throws (su_env W lg)"
  "mrp_from_pairs (deployed W lg hook) = mrp_from_pairs (su_env W lg)"
  "mrp_at (deployed W lg hook) = mrp_at (su_env W lg)"
  "mrp_base (deployed W lg hook) = mrp_base (su_env W lg)"
  "saved_doc (deployed W lg hook) = saved_doc (su_env W lg)"
  "scalar_u64 (deployed W lg hook) = scalar_u64 (su_env W lg)"
  "load_probe (deployed W lg hook) h n =
     snd (load_serialized_probe (su_deserialize W) (su_dir W lg h) (su_disk W lg h) n)"
  "hook_fails (deployed W lg None) h \<longleftrightarrow> False"
  "hook_fails (deployed W lg (Some hctx)) h \<longleftrightarrow>
     bad_capture (su_openfhe W) hctx (su_inputs W lg h) (su_outputs W lg h)"
  by (simp_all add: deployed_def hook_env_def hook_flag)

section \<open>The process\<close>

record ('cc, 'p, 'm) process =
  pr_haze :: "('p, 'm) haze"
  pr_hook :: "'cc hook_ctx option"
  pr_log :: "'cc bridge_log"

text \<open>
  A call of haze.h, or one of replay_bridge.h with what it answers (the modulus the initialisation
  picked aside). The third function of that header, \<open>hazeReplayBridgeReset\<close>, is run here by the
  device reset; called on its own it is in \<open>Haze_Bridge_Files\<close>.
\<close>

datatype process_call =
  Haze call
| BridgeInit u64 u64 bool
| BridgeTakeFlag

datatype answer = Code hazeError_t | Flag int

fun installed :: "'cc hook_ctx option \<Rightarrow> 'cc init_call list \<Rightarrow> 'cc hook_ctx option" where
  "installed hook [] = hook"
| "installed hook (InstallHook hctx # ks) = installed (Some hctx) ks"
| "installed hook (k # ks) = installed hook ks"

fun exec_process ::
    "('cc, 'p, 'm, 'b) surroundings \<Rightarrow> process_call \<Rightarrow> ('cc, 'p, 'm) process \<Rightarrow>
     (answer \<times> ('cc, 'p, 'm) process) option" where
  "exec_process W (Haze c) P =
     (case exec_call (deployed W (pr_log P) (pr_hook P)) c (pr_haze P) of
        None \<Rightarrow> None
      | Some (e, s) \<Rightarrow> Some (Code e, P\<lparr>pr_haze := s,
          pr_hook := (if c = Device HazeDeviceReset then None else pr_hook P)\<rparr>))"
| "exec_process W (BridgeInit ring_dim desired_modulus picked_null) P =
     (case hazeReplayBridgeInitCryptoContext (su_openfhe W) (su_throws W (pr_log P))
             (hz_config (pr_haze P)) ring_dim desired_modulus picked_null of
        (e, picked, ks) \<Rightarrow> Some (Code e, P\<lparr>
          pr_log := pr_log P @ map (Pair (length (hz_trace (pr_haze P)))) ks,
          pr_hook := (if e = HAZE_SUCCESS then installed (pr_hook P) ks else pr_hook P)\<rparr>))"
| "exec_process W BridgeTakeFlag P =
     (case hazeReplayBridgeTakeHookHadError (pr_haze P) of
        (b, s) \<Rightarrow> Some (Flag (if b then 1 else 0), P\<lparr>pr_haze := s\<rparr>))"

fun exec_processes ::
    "('cc, 'p, 'm, 'b) surroundings \<Rightarrow> process_call list \<Rightarrow> ('cc, 'p, 'm) process \<Rightarrow>
     (answer list \<times> ('cc, 'p, 'm) process) option" where
  "exec_processes W [] P = Some ([], P)"
| "exec_processes W (c # cs) P =
     (case exec_process W c P of
        None \<Rightarrow> None
      | Some (e, P1) \<Rightarrow> map_option (\<lambda>(es, P2). (e # es, P2)) (exec_processes W cs P1))"

lemma exec_processes_append:
  "exec_processes W xs P = Some (es, P1) \<Longrightarrow> exec_processes W ys P1 = Some (fs, P2) \<Longrightarrow>
     exec_processes W (xs @ ys) P = Some (es @ fs, P2)"
  by (induction xs arbitrary: P es) (auto split: option.splits)

lemma exec_haze_calls:
  assumes "Device HazeDeviceReset \<notin> set cs"
    and "exec_calls (deployed W (pr_log P) (pr_hook P)) cs (pr_haze P) = Some (es, s)"
  shows "exec_processes W (map Haze cs) P = Some (map Code es, P\<lparr>pr_haze := s\<rparr>)"
  using assms
proof (induction cs arbitrary: P es)
  case (Cons c cs)
  then obtain e s1 es1 where c: "exec_call (deployed W (pr_log P) (pr_hook P)) c (pr_haze P) = Some (e, s1)"
      "exec_calls (deployed W (pr_log P) (pr_hook P)) cs s1 = Some (es1, s)" "es = e # es1"
    by (auto split: option.splits)
  from Cons.IH [of "P\<lparr>pr_haze := s1\<rparr>" es1] Cons.prems(1) c show ?case by auto
qed simp

section \<open>Records the hook can serve\<close>

text \<open>
  \<open>roots_for_primes\<close> is what OpenFHE documents of \<open>RootOfUnity\<close>: a primitive \<open>m\<close>-th root is
  found for every prime that is 1 modulo \<open>m\<close>. \<open>context_for\<close>: the context haze asks OpenFHE for
  can be generated for these moduli, with a tower for each. \<open>servable\<close>: the shapes haze records,
  single residues and multi-residue values, with such moduli.
\<close>

definition ntt_prime :: "u32 \<Rightarrow> u64 \<Rightarrow> bool" where
  "ntt_prime m q \<longleftrightarrow> 2 \<le> unat q \<and> (\<forall>d \<in> {2..<unat q}. \<not> d dvd unat q) \<and> unat q mod unat m = 1"

definition roots_for_primes :: "'cc openfhe \<Rightarrow> bool" where
  "roots_for_primes F \<longleftrightarrow> (\<forall>m q. ntt_prime m q \<longrightarrow> root_of_unity F m q \<noteq> None)"

definition files_writable :: "'cc openfhe \<Rightarrow> bool" where
  "files_writable F \<longleftrightarrow> (\<forall>name ct ids. write_input_bin F name ct ids = Some True) \<and>
     (\<forall>name ct. write_template F name ct = Some True)"

definition context_for :: "'cc openfhe \<Rightarrow> u64 \<Rightarrow> u64 list \<Rightarrow> bool" where
  "context_for F n ms \<longleftrightarrow> (case build_context F n ms of
     Some (Inr ctx) \<Rightarrow> ms \<noteq> [] \<and> length ms \<le> length (zero_towers F (cx_cc ctx)) | _ \<Rightarrow> False)"

definition plain_modulus :: "u64 \<Rightarrow> bool" where
  "plain_modulus q \<longleftrightarrow> q \<noteq> 0 \<and> q \<noteq> kCopyModulus"

definition servable :: "'cc openfhe \<Rightarrow> u64 \<Rightarrow> CapturedShape \<Rightarrow> u64 list list \<Rightarrow> bool" where
  "servable F n shape vs \<longleftrightarrow>
     (cs_kind shape = SRP \<or>
      cs_kind shape = MRP \<and> (\<exists>ms. cs_per_element_moduli shape = [ms] \<and> list_all plain_modulus ms \<and>
        (vs = [] \<or> length vs = length ms))) \<and>
     (\<forall>ms \<in> set (cs_per_element_moduli shape).
        (\<forall>q \<in> set ms. plain_modulus q \<longrightarrow> ntt_prime (ucast (2 * n)) q) \<and>
        (ms \<noteq> [] \<and> list_all plain_modulus ms \<longrightarrow> context_for F n ms))"

lemma context_forD:
  assumes "context_for F n ms"
  obtains ctx where "build_context F n ms = Some (Inr ctx)" and "ms \<noteq> []"
    and "length ms \<le> length (zero_towers F (cx_cc ctx))" and "cx_ring_dim ctx = n"
proof -
  obtain ctx where b: "build_context F n ms = Some (Inr ctx)" and l: "ms \<noteq> []"
      "length ms \<le> length (zero_towers F (cx_cc ctx))"
    using assms by (auto simp: context_for_def split: option.splits sum.splits)
  from b have "cx_ring_dim ctx = n"
    by (auto simp: build_context_def Let_def split: if_splits option.splits)
  with b l show thesis by (rule that)
qed

lemma switch_tower_up:
  assumes "roots_for_primes F" and "plain_modulus q \<longrightarrow> ntt_prime corder q"
  shows "switch_tower_modulus F e t q corder \<noteq> None"
proof (cases "plain_modulus q")
  case True
  with assms have "root_of_unity F corder q \<noteq> None" unfolding roots_for_primes_def by blast
  then obtain r where "root_of_unity F corder q = Some r" by blast
  then show ?thesis by (simp add: switch_tower_modulus_def)
qed (simp add: switch_tower_modulus_def plain_modulus_def)

lemma switch_towers_up:
  assumes "roots_for_primes F" and "\<forall>q \<in> set qs. plain_modulus q \<longrightarrow> ntt_prime corder q"
  shows "switch_towers F corder i qs e \<noteq> None"
  using assms(2)
proof (induction qs arbitrary: i e)
  case (Cons q qs)
  obtain e1 where "switch_tower_modulus F e i q corder = Some e1"
    using switch_tower_up [OF assms(1)] Cons.prems by fastforce
  with Cons show ?case by simp
qed simp

text \<open>The hook that an initialisation for the ring dimension leaves.\<close>

definition hook_for :: "'cc openfhe \<Rightarrow> u64 \<Rightarrow> 'cc hook_ctx \<Rightarrow> bool" where
  "hook_for F n hctx \<longleftrightarrow> hk_ring_dim hctx = n \<and> cx_ring_dim (hk_primary hctx) = n \<and>
     zero_towers F (cx_cc (hk_primary hctx)) \<noteq> []"

lemma context_up:
  assumes "hook_for F n hctx" and "servable F n shape vs"
  shows "\<exists>ctx. context_choice F hctx shape = Some ctx \<and> zero_towers F (cx_cc ctx) \<noteq> [] \<and>
    cx_ring_dim ctx = n \<and>
    (cs_kind shape = MRP \<longrightarrow>
       length (hd (cs_per_element_moduli shape)) \<le> length (zero_towers F (cx_cc ctx)))"
proof -
  have p: "zero_towers F (cx_cc (hk_primary hctx)) \<noteq> []" "cx_ring_dim (hk_primary hctx) = n"
      "hk_ring_dim hctx = n" using assms(1) by (simp_all add: hook_for_def)
  have kind: "cs_kind shape \<noteq> SRPArray" "cs_kind shape \<noteq> MRPArray"
    using assms(2) by (auto simp: servable_def)
  show ?thesis
  proof (cases "cs_per_element_moduli shape")
    case Nil
    with p assms(2) show ?thesis
      by (auto simp: context_choice_def context_for_shape_def servable_def)
  next
    case (Cons ms rest)
    show ?thesis
    proof (cases "ms = [] \<or> (\<exists>q \<in> set ms. q = 0 \<or> q = kCopyModulus)")
      case True
      with p Cons assms(2) show ?thesis
        by (auto simp: context_choice_def context_for_shape_def servable_def list_all_iff plain_modulus_def)
    next
      case False
      then have "ms \<noteq> []" "list_all plain_modulus ms" by (auto simp: list_all_iff plain_modulus_def)
      with assms(2) Cons have "context_for F n ms" by (simp add: servable_def)
      then obtain ctx where "build_context F n ms = Some (Inr ctx)" "ms \<noteq> []"
          "length ms \<le> length (zero_towers F (cx_cc ctx))" "cx_ring_dim ctx = n"
        by (rule context_forD)
      with False Cons kind p(3) show ?thesis
        by (auto simp: context_choice_def context_for_shape_def)
    qed
  qed
qed

lemma synthesis_up:
  assumes "roots_for_primes F" and "servable F n shape vs" and "zero_towers F (cx_cc ctx) \<noteq> []"
    and "cx_ring_dim ctx = n"
    and "cs_kind shape = MRP \<longrightarrow>
       length (hd (cs_per_element_moduli shape)) \<le> length (zero_towers F (cx_cc ctx))"
  shows "synthesize_for_shape F ctx shape vs \<noteq> None"
proof -
  have corder: "corder_of ctx = ucast (2 * n)" using assms(4) by (simp add: corder_of_def)
  have trim: "trim_towers_to F zs k \<noteq> None" if "k \<le> length zs" for zs k
    using that by (simp add: trim_towers_to_def Let_def)
  have one: "1 \<le> length (zero_towers F (cx_cc ctx))" using assms(3) by (cases "zero_towers F (cx_cc ctx)") auto
  show ?thesis
  proof (cases "cs_kind shape = SRP")
    case True
    obtain d where d: "trim_towers_to F (zero_towers F (cx_cc ctx)) 1 = Some d" using trim [OF one] by blast
    have "plain_modulus (srp_shape_modulus shape) \<longrightarrow> ntt_prime (ucast (2 * n)) (srp_shape_modulus shape)"
      using assms(2) by (cases "cs_per_element_moduli shape"; cases "hd (cs_per_element_moduli shape)")
        (auto simp: servable_def srp_shape_modulus_def plain_modulus_def)
    from switch_tower_up [OF assms(1) this] obtain e
      where "switch_tower_modulus F d 0 (srp_shape_modulus shape) (corder_of ctx) = Some e"
      unfolding corder by blast
    with True d show ?thesis
      by (simp add: synthesize_for_shape_def synthesize_haze_ciphertext_def empty_ct_shell_def Let_def)
  next
    case False
    with assms(2) obtain ms where ms: "cs_kind shape = MRP" "cs_per_element_moduli shape = [ms]"
        "vs = [] \<or> length vs = length ms" by (auto simp: servable_def)
    with assms(5) obtain d where d: "trim_towers_to F (zero_towers F (cx_cc ctx)) (length ms) = Some d"
      using trim by fastforce
    have "\<forall>q \<in> set ms. plain_modulus q \<longrightarrow> ntt_prime (ucast (2 * n)) q"
      using assms(2) ms(2) by (simp add: servable_def)
    from switch_towers_up [OF assms(1) this] obtain e
      where "switch_towers F (corder_of ctx) 0 ms d = Some e" unfolding corder by blast
    with ms d show ?thesis
      by (auto simp: synthesize_for_shape_def synthesize_haze_mrp_ciphertext_def empty_ct_shell_def Let_def)
  qed
qed

lemma no_bad_capture:
  assumes "hook_for F n hctx" and "roots_for_primes F" and "files_writable F"
    and "\<forall>r \<in> set ins. \<not> is_key r \<longrightarrow> servable F n (ci_shape r) (ci_values r)"
    and "\<forall>(name, shape) \<in> set outs. servable F n shape []"
  shows "\<not> bad_capture F hctx ins outs"
proof -
  have served: "record_result F hctx shape vs put mk \<noteq> None"
    if sv: "servable F n shape vs" and wr: "\<And>ct. put ct = Some True" for shape vs put mk
  proof -
    obtain ctx where c: "context_choice F hctx shape = Some ctx" "zero_towers F (cx_cc ctx) \<noteq> []"
        "cx_ring_dim ctx = n" "cs_kind shape = MRP \<longrightarrow>
           length (hd (cs_per_element_moduli shape)) \<le> length (zero_towers F (cx_cc ctx))"
      using context_up [OF assms(1) sv] by blast
    obtain ct where "synthesize_for_shape F ctx shape vs = Some ct"
      using synthesis_up [OF assms(2) sv c(2-4)] by blast
    with c(1) wr show ?thesis by (simp add: record_result_def)
  qed
  have w: "write_input_bin F name ct ids = Some True" "write_template F name ct = Some True" for name ct ids
    using assms(3) by (simp_all add: files_writable_def)
  have "input_result F hctx r \<noteq> None" if "r \<in> set ins" "\<not> is_key r" for r
    unfolding input_result_def by (rule served) (use assms(4) that w in auto)
  moreover have "output_result F hctx out \<noteq> None" if "out \<in> set outs" for out
  proof -
    obtain name shape where out: "out = (name, shape)" by (cases out)
    with that assms(5) have "servable F n shape []" by auto
    with served w show ?thesis by (simp add: output_result_def out del: not_None_eq)
  qed
  ultimately show ?thesis unfolding bad_capture_def by blast
qed

section \<open>The replay contract, from the files\<close>

text \<open>
  What is left to ask of the replay: it stops and runs, a polynomial saves as a document with
  its residues, and the probe file of every tagged output deserialises to a ciphertext whose
  first tower holds the output's value.
\<close>

definition replay_runs :: "('p, 'm) fh_env \<Rightarrow> ('p \<Rightarrow> u64 list) \<Rightarrow> bool" where
  "replay_runs E val \<longleftrightarrow>
     (\<forall>h. bool_of E h (Compiler CompilerStop) \<and>
          \<not> throws E h (Compiler CompilerReplay) \<and> bool_of E h (Compiler CompilerReplay)) \<and>
     (\<forall>h p. val p \<noteq> [] \<longrightarrow>
        (\<exists>doc vs. saved_doc E h p = Saved doc \<and> find_values_array doc = Some vs \<and>
           get_u64s (scalar_u64 E) vs = Some (val p)))"

definition probes_written ::
    "('b \<Rightarrow> ciphertext option) \<Rightarrow> (('p, 'm) trace \<Rightarrow> string) \<Rightarrow> (('p, 'm) trace \<Rightarrow> 'b disk) \<Rightarrow>
     ('p \<Rightarrow> u64 list) \<Rightarrow> bool" where
  "probes_written ds dir disk_at val \<longleftrightarrow>
     (\<forall>h n p. served h n = Some p \<longrightarrow>
        (\<exists>b np towers elements. disk_at h (probe_path (dir h) n) = Some b \<and>
           ds b = Some ((np # towers) # elements) \<and> np_values np = val p))"

definition captures_served :: "'cc openfhe \<Rightarrow> u64 \<Rightarrow> captured_input list \<Rightarrow>
    (string \<times> CapturedShape) list \<Rightarrow> bool" where
  "captures_served F n ins outs \<longleftrightarrow>
     (\<forall>r \<in> set ins. \<not> is_key r \<longrightarrow> servable F n (ci_shape r) (ci_values r)) \<and>
     (\<forall>(name, shape) \<in> set outs. servable F n shape [])"

text \<open>
  The replay contract is asked only of a process whose bridge is initialised: the last thing the
  bridge did was to install its hook.
\<close>

fun hooked :: "'cc bridge_log \<Rightarrow> bool" where
  "hooked lg = (lg \<noteq> [] \<and> (case snd (last lg) of InstallHook hctx \<Rightarrow> True | _ \<Rightarrow> False))"

definition computes ::
    "('cc, 'p, 'm, 'b) surroundings \<Rightarrow> ('p \<Rightarrow> u64 list) \<Rightarrow> fh_denotation \<Rightarrow>
     ('m \<Rightarrow> rns) \<Rightarrow> mr_denotation \<Rightarrow> bool" where
  "computes W val D mval M \<longleftrightarrow>
     (\<forall>lg. fh_sound (su_env W lg) val D \<and> mr_sound (su_env W lg) val mval D M \<and> starts (su_env W lg))"

definition bridge_works :: "('cc, 'p, 'm, 'b) surroundings \<Rightarrow> u64 \<Rightarrow> ('p \<Rightarrow> u64 list) \<Rightarrow> bool" where
  "bridge_works W n val \<longleftrightarrow>
     (\<forall>lg tr c. \<not> su_throws W lg tr c) \<and> roots_for_primes (su_openfhe W) \<and>
     files_writable (su_openfhe W) \<and>
     (\<forall>lg. hooked lg \<longrightarrow> replay_runs (su_env W lg) val \<and>
        probes_written (su_deserialize W) (su_dir W lg) (su_disk W lg) val \<and>
        (\<forall>h. captures_served (su_openfhe W) n (su_inputs W lg h) (su_outputs W lg h)))"

lemma deployed_serves:
  assumes "bridge_works W n val" and "hooked lg" and "hook_for (su_openfhe W) n hctx"
  shows "replay_serves (deployed W lg (Some hctx)) val"
proof -
  have up: "roots_for_primes (su_openfhe W)" "files_writable (su_openfhe W)" "replay_runs (su_env W lg) val"
      "probes_written (su_deserialize W) (su_dir W lg) (su_disk W lg) val"
      "\<And>h. captures_served (su_openfhe W) n (su_inputs W lg h) (su_outputs W lg h)"
    using assms(1,2) by (simp_all only: bridge_works_def)
  have "\<not> bad_capture (su_openfhe W) hctx (su_inputs W lg h) (su_outputs W lg h)" for h
    using up(5) [of h] unfolding captures_served_def
    by (elim conjE) (rule no_bad_capture [OF assms(3) up(1,2)])
  moreover have "\<exists>np ts els. snd (load_serialized_probe (su_deserialize W) (su_dir W lg h) (su_disk W lg h) m) =
      Some ((np # ts) # els) \<and> np_values np = val p" if "served h m = Some p" for h m p
  proof -
    from up(4) that obtain b np ts els where "su_disk W lg h (probe_path (su_dir W lg h) m) = Some b"
        "su_deserialize W b = Some ((np # ts) # els)" "np_values np = val p"
      unfolding probes_written_def by blast
    then show ?thesis by (simp add: load_serialized_probe_def)
  qed
  ultimately show ?thesis using up(3) by (simp add: replay_serves_def replay_runs_def)
qed

lemma deployed_sound:
  "fh_sound (deployed W lg hook) val D \<longleftrightarrow> fh_sound (su_env W lg) val D"
  "mr_sound (deployed W lg hook) val mval D M \<longleftrightarrow> mr_sound (su_env W lg) val mval D M"
  "starts (deployed W lg hook) \<longleftrightarrow> starts (su_env W lg)"
  by (simp_all add: fh_sound_def mr_sound_def starts_def)

section \<open>Programs\<close>

lemma installed_last [simp]: "installed hook (ks @ [InstallHook hctx]) = Some hctx"
  by (induction hook ks rule: installed.induct) simp_all

lemma init_try_quiet: "(\<And>tr c. \<not> th tr c) \<Longrightarrow> init_try th tr cs = (True, tr @ cs)"
  by (induction cs arbitrary: tr) simp_all

text \<open>The bridge's initialisation: the modulus has a context, so the hook is installed last.\<close>

lemma bridge_init_run:
  assumes "context_for F n [q]" and "\<And>tr c. \<not> th tr c"
  shows "\<exists>picked ks hctx. hazeReplayBridgeInitCryptoContext F th conf n q False =
      (HAZE_SUCCESS, picked, ks @ [InstallHook hctx]) \<and> hook_for F n hctx"
proof -
  obtain ctx where ctx: "build_context F n [q] = Some (Inr ctx)"
      "length [q] \<le> length (zero_towers F (cx_cc ctx))" "cx_ring_dim ctx = n"
    using context_forD [OF assms(1)] by metis
  have "first_tower_modulus F (cx_cc ctx) \<noteq> None"
    using ctx(1) by (auto simp: build_context_def first_tower_modulus_def Let_def
        split: if_splits option.splits)
  with ctx show ?thesis
    by (auto simp: hazeReplayBridgeInitCryptoContext_def init_try_quiet [OF assms(2)] hook_for_def
        install_post_recording_hook_def append_assoc [symmetric] simp del: append_assoc)
qed

lemma program_no_reset:
  "Device HazeDeviceReset \<notin> set (setup_calls n qs count @ map (header_call m) cs @ [Program HazeFlush])"
proof -
  have "instr_call m i \<noteq> Device HazeDeviceReset" for i
    by (induction m i rule: instr_call.induct) (simp_all split: sr_pp.split sr_ps.split sr_pq.split
        mr_pp.split mr_ps.split mr_p.split mr_pi.split)
  then have "header_call m x \<noteq> Device HazeDeviceReset" for x by (cases x) simp_all
  then show ?thesis by (auto simp: setup_calls_def dest: sym)
qed

lemma restart_process:
  assumes "is_supported_ring_dim n" and "unat n < 2 ^ 61"
  shows "exec_processes W (map Haze (restart_calls n)) P =
    Some ([Code HAZE_SUCCESS, Code HAZE_SUCCESS], P\<lparr>pr_haze := restarted n (pr_haze P), pr_hook := None\<rparr>)"
proof -
  obtain s1 where r: "hazeDeviceReset (pr_haze P) = (HAZE_SUCCESS, s1)"
      "hazeSetRingDimension n s1 = (HAZE_SUCCESS, restarted n (pr_haze P))"
    using restart_run [OF assms, of undefined "pr_haze P"]
    by (auto simp: restart_calls_def split: option.splits prod.splits)
  then show ?thesis by (simp add: restart_calls_def)
qed

text \<open>
  A program of a client that restarts the device, initialises the bridge again, brings the device
  up, makes its calls and flushes: every call succeeds and the tagged outputs read back.
\<close>

definition whole_program ::
    "u64 \<Rightarrow> u64 \<Rightarrow> u64 list \<Rightarrow> u64 \<Rightarrow> client_call list \<Rightarrow> process_call list" where
  "whole_program n q qs count cs =
     map Haze (restart_calls n) @ [BridgeInit n q False] @
     map Haze (setup_calls n qs count @ map (header_call n) cs @ [Program HazeFlush])"

lemma process_run:
  assumes "computes W val D mval M" and works: "bridge_works W n val" and "context_for (su_openfhe W) n [q]"
    and "is_supported_ring_dim n" and "unat n < 2 ^ 61" and "0 \<notin> set qs"
    and "unat count \<le> kMaxCiphertextModuli"
    and "1 \<le> B" and "\<forall>x \<in> set cs. width x \<le> B" and "B * length cs < 2 ^ 64"
    and "client_run D M (ring_config n qs) (poly_addr n ` {..<unat count}) (hz_host (pr_haze P0)) cs
           \<lparr>cl_mem = Map.empty, cl_bound = {}, cl_out = {}\<rparr> = Some st"
    and "cl_out st \<noteq> {}" and "\<forall>v \<in> ran (cl_mem st). length v = unat n" and "dst \<noteq> 0"
  shows "\<exists>P. exec_processes W (whole_program n q qs count cs) P0 =
      Some (replicate (length qs + length cs + 6) (Code HAZE_SUCCESS), P) \<and>
    (\<forall>a \<in> cl_out st. \<exists>P' v. cl_mem st a = Some v \<and>
       exec_process W (Haze (Transfer (HazeMemcpy dst a (n * 8) 2))) P = Some (Code HAZE_SUCCESS, P') \<and>
       hz_host (pr_haze P') = write_host (hz_host (pr_haze P0)) dst (vec_bytes v))"
proof -
  let ?s0 = "pr_haze P0"
  let ?P1 = "P0\<lparr>pr_haze := restarted n ?s0, pr_hook := None\<rparr>"
  have quiet: "\<And>tr c. \<not> su_throws W (pr_log P0) tr c" using works by (simp add: bridge_works_def)
  obtain picked ks hctx where i: "hazeReplayBridgeInitCryptoContext (su_openfhe W) (su_throws W (pr_log P0))
        (hz_config (restarted n ?s0)) n q False = (HAZE_SUCCESS, picked, ks @ [InstallHook hctx])"
      and hk: "hook_for (su_openfhe W) n hctx"
    using bridge_init_run [where th = "su_throws W (pr_log P0)" and conf = "hz_config (restarted n ?s0)", OF assms(3) quiet] by blast
  define lg where "lg = pr_log P0 @ map (Pair (length (hz_trace (restarted n ?s0)))) (ks @ [InstallHook hctx])"
  let ?P2 = "?P1\<lparr>pr_log := lg, pr_hook := Some hctx\<rparr>"
  let ?E = "deployed W lg (Some hctx)"
  have init: "exec_processes W [BridgeInit n q False] ?P1 = Some ([Code HAZE_SUCCESS], ?P2)"
    by (simp add: i lg_def)
  have "hooked lg" by (simp add: lg_def)
  then have serves: "replay_serves ?E val" by (rule deployed_serves [OF works _ hk])
  have sound: "fh_sound ?E val D" "mr_sound ?E val mval D M" "starts ?E"
    using assms(1) by (simp_all only: deployed_sound computes_def)
  obtain s where run: "exec_calls ?E (map (header_call n) cs @ [Program HazeFlush]) (up_state n qs count ?s0) =
        Some (replicate (Suc (length cs)) HAZE_SUCCESS, s)"
      and out: "\<forall>a \<in> cl_out st. \<exists>s' v. cl_mem st a = Some v \<and>
         exec_call ?E (Transfer (HazeMemcpy dst a (n * 8) 2)) s = Some (HAZE_SUCCESS, s') \<and>
         hz_host s' = write_host (hz_host ?s0) dst (vec_bytes v)"
    using program_run [OF sound(1,2) serves sound(3) assms(4-14)] by blast
  have calls: "exec_calls ?E (setup_calls n qs count @ map (header_call n) cs @ [Program HazeFlush]) (restarted n ?s0) =
      Some (replicate (length qs + 2) HAZE_SUCCESS @ replicate (Suc (length cs)) HAZE_SUCCESS, s)"
    by (rule exec_calls_append [OF setup_run [OF assms(4-7)] run])
  have "exec_processes W (map Haze (setup_calls n qs count @ map (header_call n) cs @ [Program HazeFlush])) ?P2 =
      Some (map Code (replicate (length qs + 2) HAZE_SUCCESS @ replicate (Suc (length cs)) HAZE_SUCCESS),
        ?P2\<lparr>pr_haze := s\<rparr>)"
    using calls by (intro exec_haze_calls [OF program_no_reset]) simp
  from exec_processes_append [OF restart_process [OF assms(4,5)] exec_processes_append [OF init this]]
  have "exec_processes W (whole_program n q qs count cs) P0 =
      Some ([Code HAZE_SUCCESS, Code HAZE_SUCCESS] @ [Code HAZE_SUCCESS] @
        map Code (replicate (length qs + 2) HAZE_SUCCESS @ replicate (Suc (length cs)) HAZE_SUCCESS),
        ?P2\<lparr>pr_haze := s\<rparr>)"
    by (simp only: whole_program_def)
  moreover have "[Code HAZE_SUCCESS, Code HAZE_SUCCESS] @ [Code HAZE_SUCCESS] @
      map Code (replicate (length qs + 2) HAZE_SUCCESS @ replicate (Suc (length cs)) HAZE_SUCCESS) =
      replicate (length qs + length cs + 6) (Code HAZE_SUCCESS)"
    by (rule replicate_eqI) auto
  moreover have "\<exists>P' v. cl_mem st a = Some v \<and>
      exec_process W (Haze (Transfer (HazeMemcpy dst a (n * 8) 2))) (?P2\<lparr>pr_haze := s\<rparr>) =
        Some (Code HAZE_SUCCESS, P') \<and>
      hz_host (pr_haze P') = write_host (hz_host ?s0) dst (vec_bytes v)" if "a \<in> cl_out st" for a
    using bspec [OF out that] by fastforce
  ultimately show ?thesis by (intro exI [of _ "?P2\<lparr>pr_haze := s\<rparr>"]) simp
qed

section \<open>Properties\<close>

text \<open>
  C1. A program delivers what its client computed, from any state of the process. Reset the device, set a supported ring dimension n < 2^61, initialise the bridge again
  (the reset freed its hook) for a modulus with a context, set nonzero moduli, freeze the
  configuration, allocate up to 64 polynomials; make calls the abstract device accepts on the new
  addresses, some output tagged, values of length n, fewer than 2^64 operands; flush. Every call
  returns \<open>HAZE_SUCCESS\<close>, and each tagged output reads back as the bytes of the abstract device's
  value. \<open>computes\<close>: fhetch computes what its operations denote, the compiler starts.
  \<open>bridge_works\<close>: the initialisation's compiler calls do not throw; OpenFHE finds roots of unity
  for primes that are 1 modulo the order; files can be written; with the hook installed, stop and
  replay succeed, saved polynomials parse, captures are single- or multi-residue records over
  such primes (or 0, or the copy modulus) with a context, and each tagged output gets a probe.
\<close>

theorem program_delivers:
  assumes "computes W val D mval M" and "bridge_works W n val" and "context_for (su_openfhe W) n [q]"
    and "is_supported_ring_dim n" and "unat n < 2 ^ 61" and "0 \<notin> set qs"
    and "unat count \<le> kMaxCiphertextModuli"
    and "1 \<le> B" and "\<forall>x \<in> set cs. width x \<le> B" and "B * length cs < 2 ^ 64"
    and "client_run D M (ring_config n qs) (poly_addr n ` {..<unat count}) (hz_host (pr_haze P0)) cs
           \<lparr>cl_mem = Map.empty, cl_bound = {}, cl_out = {}\<rparr> = Some st"
    and "cl_out st \<noteq> {}" and "\<forall>v \<in> ran (cl_mem st). length v = unat n" and "dst \<noteq> 0"
  shows "\<exists>P. exec_processes W
      (map Haze [Device HazeDeviceReset, Settings (HazeSetRingDimension n)] @ [BridgeInit n q False] @
       map Haze (setup_calls n qs count @ map (header_call n) cs @ [Program HazeFlush])) P0 =
      Some (replicate (length qs + length cs + 6) (Code HAZE_SUCCESS), P) \<and>
    (\<forall>a \<in> cl_out st. \<exists>P' v. cl_mem st a = Some v \<and>
       exec_process W (Haze (Transfer (HazeMemcpy dst a (n * 8) 2))) P = Some (Code HAZE_SUCCESS, P') \<and>
       hz_host (pr_haze P') = write_host (hz_host (pr_haze P0)) dst (vec_bytes v))"
  using process_run [OF assms] by (simp only: whole_program_def restart_calls_def)

text \<open>
  The simulated device with files: a probe holds what was tagged under its name, the compiler
  captures one single-residue record, and the program starts where an epoch of an earlier one
  was left open, without a hook.
\<close>

definition sim_disk :: "(u64 list, sim_mrp) trace \<Rightarrow> ciphertext disk" where
  "sim_disk h path =
     (let file_name = (if path \<noteq> [] \<and> hd path = CHR ''/'' then path else drop 22 path)
      in map_option (\<lambda>v. [[\<lparr>np_values = v, np_format = Evaluation, np_modulus = 0\<rparr>]])
           (served h (take (length file_name - 3) file_name)))"

definition sim_surroundings :: "(nat, u64 list, sim_mrp, ciphertext) surroundings" where
  "sim_surroundings = \<lparr>su_openfhe = sim_openfhe, su_throws = (\<lambda>lg tr c. False),
     su_inputs = (\<lambda>lg tr. [plain_input]), su_outputs = (\<lambda>lg tr. []), su_deserialize = Some,
     su_dir = (\<lambda>lg tr. ''run''), su_disk = (\<lambda>lg. sim_disk), su_env = (\<lambda>lg. sim_env)\<rparr>"

lemma sim_probes: "probes_written Some (\<lambda>_. ''run'') sim_disk (\<lambda>p. p)"
proof -
  have suffix: "take (length (n @ ''.ct'') - 3) (n @ ''.ct'') = n" for n by simp
  have "sim_disk h (probe_path ''run'' n) =
      map_option (\<lambda>v. [[\<lparr>np_values = v, np_format = Evaluation, np_modulus = 0\<rparr>]]) (served h n)" for h n
  proof -
    define f where "f = n @ ''.ct''"
    have f: "take (length f - 3) f = n" using suffix by (simp only: f_def)
    show ?thesis
    proof (cases "hd f = CHR ''/''")
      case True
      with f show ?thesis by (simp add: sim_disk_def probe_path_def path_append_def f_def)
    next
      case False
      with f show ?thesis by (simp add: sim_disk_def probe_path_def path_append_def f_def)
    qed
  qed
  then show ?thesis by (auto simp: probes_written_def)
qed

lemma sim_replay_runs: "replay_runs sim_env (\<lambda>p. p)"
  using sim_serves by (simp add: replay_runs_def replay_serves_def)

lemma sim_prime: "ntt_prime 4 97"
  by code_simp

lemma sim_context: "context_for sim_openfhe 2 [97]"
  by code_simp

lemma sim_captures: "captures_served sim_openfhe 2 [plain_input] []"
  using sim_prime sim_context by (simp add: captures_served_def servable_def plain_input_def)

lemma sim_computes: "computes sim_surroundings (\<lambda>p. p) sim_den (\<lambda>m. m) sim_mr_den"
  using sim_sound sim_mr_sound by (simp add: computes_def sim_surroundings_def starts_def)

lemma sim_bridge: "bridge_works sim_surroundings 2 (\<lambda>p. p)"
proof -
  have "roots_for_primes sim_openfhe" "files_writable sim_openfhe"
    by (simp_all add: roots_for_primes_def files_writable_def sim_openfhe_def)
  then show ?thesis
    using sim_probes sim_replay_runs sim_captures by (simp add: bridge_works_def sim_surroundings_def)
qed

theorem program_delivers_witness:
  "\<exists>P P'. exec_processes sim_surroundings
       (map Haze [Device HazeDeviceReset, Settings (HazeSetRingDimension 2)] @ [BridgeInit 2 97 False] @
        map Haze (setup_calls 2 [97] 2 @ map (header_call 2) sum_calls @ [Program HazeFlush]))
       \<lparr>pr_haze = overwritten\<lparr>hz_host := demo_host\<rparr>, pr_hook = None, pr_log = []\<rparr> =
       Some (replicate 10 (Code HAZE_SUCCESS), P) \<and>
     exec_process sim_surroundings (Haze (Transfer (HazeMemcpy 1024 (poly_addr 2 1) (2 * 8) 2))) P =
       Some (Code HAZE_SUCCESS, P') \<and>
     hz_host (pr_haze P') = write_host demo_host 1024 (vec_bytes [10, 12])"
proof -
  have "is_supported_ring_dim 2" by code_simp
  moreover have "\<forall>x \<in> set sum_calls. width x \<le> 1" and "length sum_calls = 3"
    by (simp_all add: sum_calls_def)
  moreover have "context_for (su_openfhe sim_surroundings) 2 [97]"
    using sim_context by (simp add: sim_surroundings_def)
  moreover have "unat (2 :: u64) \<le> kMaxCiphertextModuli" by (simp add: kMaxCiphertextModuli_def)
  moreover have "\<forall>v \<in> ran [poly_addr 2 0 \<mapsto> [5, 6 :: u64], poly_addr 2 1 \<mapsto> [10, 12]]. length v = 2"
    by (auto simp: ran_def split: if_splits)
  ultimately show ?thesis
    using program_delivers [OF sim_computes sim_bridge, of 97 "[97]" 2 1 sum_calls
        "\<lparr>pr_haze = overwritten\<lparr>hz_host := demo_host\<rparr>, pr_hook = None, pr_log = []\<rparr>" _ 1024] sum_run
    by (simp del: exec_process.simps exec_processes.simps One_nat_def)
qed

end
