(* ===== verification/Haze_Galois.thy ===== *)
theory Haze_Galois
  imports Haze_Deployed
begin

text \<open>
  The automorphism and its inverse. include/haze/haze.h documents \<open>hazeAutomorph\<close> as a
  permutation of the evaluation slots and says how to invert it; here that promise is carried
  through a program over the header, from the uploaded bytes to the ones read back.
\<close>

section \<open>The documented action\<close>

text \<open>
  For an odd index below \<open>2N\<close>, output slot \<open>i\<close> reads from input slot \<open>j\<close> where
  \<open>2j+1 = k(2i+1)\<close> modulo \<open>2N\<close>.
\<close>

definition galois_action :: "u64 \<Rightarrow> fh_denotation \<Rightarrow> bool" where
  "galois_action n D \<longleftrightarrow>
     (\<forall>v k. length v = unat n \<and> odd (unat k) \<and> unat k < 2 * unat n \<longrightarrow>
        length (den_automorph D v k) = unat n \<and>
        (\<forall>i < unat n. \<forall>j < unat n. 2 * j + 1 = unat k * (2 * i + 1) mod (2 * unat n) \<longrightarrow>
           den_automorph D v k ! i = v ! j))"

lemma galois_actionD:
  assumes "galois_action n D" and "length v = unat n" and "odd (unat k)" and "unat k < 2 * unat n"
  shows "length (den_automorph D v k) = unat n"
    and "\<lbrakk>i < unat n; j < unat n; 2 * j + 1 = unat k * (2 * i + 1) mod (2 * unat n)\<rbrakk> \<Longrightarrow>
      den_automorph D v k ! i = v ! j"
  using assms unfolding galois_action_def by blast+

lemma slot_exists:
  assumes "odd (k :: nat)" and "0 < N"
  obtains j where "j < N" and "2 * j + 1 = k * (2 * i + 1) mod (2 * N)"
proof -
  let ?r = "k * (2 * i + 1) mod (2 * N)"
  have "odd ?r" using assms(1) by (simp add: dvd_mod_iff)
  then obtain j where j: "?r = 2 * j + 1" by (rule oddE)
  moreover have "?r < 2 * N" using assms(2) by simp
  ultimately show thesis using that [of j] by simp
qed

lemma galois_inverse:
  assumes "galois_action n D" and "length v = unat n" and "n \<noteq> 0"
    and "unat k < 2 * unat n" and "unat k' < 2 * unat n"
    and inv: "unat k * unat k' mod (2 * unat n) = 1"
  shows "den_automorph D (den_automorph D v k) k' = v"
proof -
  let ?N = "unat n"
  have N: "0 < ?N" using assms(3) by (simp add: unat_gt_0)
  have "odd (unat k * unat k')"
    using inv N by (metis even_mod_2_iff dvd_mod_iff dvd_triv_left odd_one)
  then have odds: "odd (unat k)" "odd (unat k')" by simp_all
  note w = galois_actionD [OF assms(1,2) odds(1) assms(4)]
  note u = galois_actionD [OF assms(1) w(1) odds(2) assms(5)]
  show ?thesis
  proof (rule nth_equalityI)
    fix i assume i: "i < length (den_automorph D (den_automorph D v k) k')"
    with u(1) have iN: "i < ?N" by simp
    obtain j where j: "j < ?N" "2 * j + 1 = unat k' * (2 * i + 1) mod (2 * ?N)"
      using slot_exists [OF odds(2) N] .
    have "unat k * (2 * j + 1) mod (2 * ?N) = unat k * (unat k' * (2 * i + 1)) mod (2 * ?N)"
      unfolding j(2) by (simp only: mod_mult_right_eq)
    also have "\<dots> = (unat k * unat k' mod (2 * ?N)) * (2 * i + 1) mod (2 * ?N)"
      by (simp only: mod_mult_left_eq mult.assoc)
    also have "\<dots> = 2 * i + 1" using inv iN by simp
    finally have "2 * i + 1 = unat k * (2 * j + 1) mod (2 * ?N)" by simp
    from w(2) [OF j(1) iN this] u(2) [OF iN j]
    show "den_automorph D (den_automorph D v k) k' ! i = v ! i" by simp
  qed (use u(1) assms(2) in simp)
qed

section \<open>There and back\<close>

definition there_and_back ::
    "u64 \<Rightarrow> DevAddr \<Rightarrow> DevAddr \<Rightarrow> DevAddr \<Rightarrow> u64 \<Rightarrow> u64 \<Rightarrow> hostptr \<Rightarrow> client_call list" where
  "there_and_back n p q r k k' src =
     [Upload p src, Compute (Single (IAutomorph q p k)), Compute (Single (IAutomorph r q k')),
      TagOut r]"

lemma there_and_back_run:
  assumes "galois_action n D" and "n \<noteq> 0" and "unat k < 2 * unat n" and "unat k' < 2 * unat n"
    and "unat k * unat k' mod (2 * unat n) = 1" and "{p, q, r} \<subseteq> A - {0}" and "src \<noteq> 0"
    and "cf_ring_dim c = n"
  shows "\<exists>st. client_run D M c A hm (there_and_back n p q r k k' src)
      \<lparr>cl_mem = Map.empty, cl_bound = {}, cl_out = {}\<rparr> = Some st \<and>
    cl_out st = {r} \<and> cl_mem st r = Some (upload_value c hm src) \<and>
    (\<forall>v \<in> ran (cl_mem st). length v = unat n)"
proof -
  let ?v = "upload_value c hm src"
  let ?w = "den_automorph D ?v k"
  have lv: "length ?v = unat n" using assms(8) by (simp add: upload_value_def length_bytes_vec)
  have "odd (unat k * unat k')"
    using assms(2,5) by (metis even_mod_2_iff dvd_mod_iff dvd_triv_left odd_one)
  then have "odd (unat k)" by simp
  then have lw: "length ?w = unat n" using galois_actionD(1) [OF assms(1) lv] assms(3) by blast
  have inverse: "den_automorph D ?w k' = ?v" by (rule galois_inverse [OF assms(1) lv assms(2-5)])
  show ?thesis
    using assms(6,7) lv lw inverse
    by (auto simp: there_and_back_def to_dev_addr_def ptr_addrs_def ran_def)
qed

section \<open>Properties\<close>

text \<open>
  C28. Automorphisms invert as documented. Let fhetch's automorphism be the documented
  permutation, and k, k' be below 2n with k k' = 1 modulo 2n, n a supported ring dimension below
  2^61. From any state of the process, a program that resets the device, sets the ring dimension
  and initialises the bridge again, brings the device up with nonzero moduli and at most 64
  polynomials, uploads one, applies \<open>hazeAutomorph\<close> with index k and then with index k', tags
  the last result and flushes, succeeds in every call, and reading that result back gives
  exactly the bytes that were uploaded. The three polynomials may be the same. Asked of the
  surroundings is what C1 asks: fhetch computes what its operations denote and the compiler
  starts (\<open>computes\<close>); OpenFHE has a context for the bridge's modulus; initialisation, hook,
  stop, replay and probe files work, and the compiler captures records the hook can serve
  (\<open>bridge_works\<close>).
\<close>

theorem automorph_inverse_restores:
  assumes "computes W val D mval M" and "bridge_works W n val" and "context_for (su_openfhe W) n [m]"
    and "galois_action n D" and "is_supported_ring_dim n" and "unat n < 2 ^ 61" and "0 \<notin> set qs"
    and "unat count \<le> kMaxCiphertextModuli" and "{p, q, r} \<subseteq> poly_addr n ` {..<unat count} - {0}"
    and "unat k < 2 * unat n" and "unat k' < 2 * unat n" and "unat k * unat k' mod (2 * unat n) = 1"
    and "src \<noteq> 0" and "dst \<noteq> 0"
  shows "\<exists>P P'. exec_processes W
      (map Haze [Device HazeDeviceReset, Settings (HazeSetRingDimension n)] @ [BridgeInit n m False] @
       map Haze (setup_calls n qs count @
      [Transfer (HazeMemcpy p src (n * 8) 1), Arithmetic (HazeAutomorph q p k),
       Arithmetic (HazeAutomorph r q k'), Program (HazeTagOutput r), Program HazeFlush])) P0 =
      Some (replicate (length qs + 10) (Code HAZE_SUCCESS), P) \<and>
    exec_process W (Haze (Transfer (HazeMemcpy dst r (n * 8) 2))) P = Some (Code HAZE_SUCCESS, P') \<and>
    hz_host (pr_haze P') = write_host (hz_host (pr_haze P0)) dst
      (read_host (hz_host (pr_haze P0)) src (8 * unat n))"
proof -
  let ?c = "ring_config n qs" and ?cs = "there_and_back n p q r k k' src" and ?hm = "hz_host (pr_haze P0)"
  have "n \<noteq> 0" using assms(5) by (simp add: is_supported_ring_dim_def)
  moreover have ring: "cf_ring_dim ?c = n" by (simp add: ring_config_def)
  ultimately obtain st where st: "client_run D M ?c (poly_addr n ` {..<unat count}) ?hm ?cs
        \<lparr>cl_mem = Map.empty, cl_bound = {}, cl_out = {}\<rparr> = Some st"
      "cl_out st = {r}" "cl_mem st r = Some (upload_value ?c ?hm src)"
      "\<forall>v \<in> ran (cl_mem st). length v = unat n"
    using there_and_back_run [OF assms(4) _ assms(10-12,9,13)] by metis
  have small: "\<forall>x \<in> set ?cs. width x \<le> 1" "length ?cs = 4" "cl_out st \<noteq> {}"
    using st(2) by (auto simp: there_and_back_def)
  have "\<exists>P. exec_processes W (whole_program n m qs count ?cs) P0 =
        Some (replicate (length qs + length ?cs + 6) (Code HAZE_SUCCESS), P) \<and>
      (\<forall>a \<in> cl_out st. \<exists>P' v. cl_mem st a = Some v \<and>
         exec_process W (Haze (Transfer (HazeMemcpy dst a (n * 8) 2))) P = Some (Code HAZE_SUCCESS, P') \<and>
         hz_host (pr_haze P') = write_host ?hm dst (vec_bytes v))"
    by (rule process_run [OF assms(1-3,5-8) _ small(1) _ st(1) small(3) st(4) assms(14)])
      (simp_all add: small(2))
  moreover have "whole_program n m qs count ?cs =
      map Haze [Device HazeDeviceReset, Settings (HazeSetRingDimension n)] @ [BridgeInit n m False] @
       map Haze (setup_calls n qs count @
      [Transfer (HazeMemcpy p src (n * 8) 1), Arithmetic (HazeAutomorph q p k),
       Arithmetic (HazeAutomorph r q k'), Program (HazeTagOutput r), Program HazeFlush])"
    by (simp add: whole_program_def restart_calls_def there_and_back_def)
  moreover have "vec_bytes (upload_value ?c ?hm src) = read_host ?hm src (8 * unat n)"
    unfolding upload_value_def ring by (rule vec_bytes_bytes_vec [where n = "unat n"]) simp
  ultimately show ?thesis
    using st(2,3) small(2) by (simp add: add.commute del: exec_process.simps exec_processes.simps)
qed

lemma sim_galois: "galois_action n sim_den"
proof -
  have "sim_automorph v k ! i = v ! j" if "length v = unat n" "i < unat n"
      "2 * j + 1 = unat k * (2 * i + 1) mod (2 * unat n)" for v k i j
    using that(1,2) arg_cong [OF that(3), of "\<lambda>x. x div 2"] by (simp add: sim_automorph_def)
  then show ?thesis by (simp add: galois_action_def sim_den_def sim_automorph_def)
qed

theorem automorph_inverse_restores_witness:
  "\<exists>P P'. exec_processes sim_surroundings
      (map Haze [Device HazeDeviceReset, Settings (HazeSetRingDimension 2)] @ [BridgeInit 2 97 False] @
       map Haze (setup_calls 2 [97] 3 @
      [Transfer (HazeMemcpy 0x4000000000 512 (2 * 8) 1),
       Arithmetic (HazeAutomorph 0x4000000010 0x4000000000 3),
       Arithmetic (HazeAutomorph 0x4000000020 0x4000000010 3),
       Program (HazeTagOutput 0x4000000020), Program HazeFlush]))
      \<lparr>pr_haze = overwritten\<lparr>hz_host := demo_host\<rparr>, pr_hook = None, pr_log = []\<rparr> =
      Some (replicate 11 (Code HAZE_SUCCESS), P) \<and>
    exec_process sim_surroundings (Haze (Transfer (HazeMemcpy 1024 0x4000000020 (2 * 8) 2))) P =
      Some (Code HAZE_SUCCESS, P') \<and>
    hz_host (pr_haze P') = write_host demo_host 1024 (read_host demo_host 512 16)"
proof -
  have "is_supported_ring_dim 2" by code_simp
  moreover have "unat (3 :: u64) \<le> kMaxCiphertextModuli" by (simp add: kMaxCiphertextModuli_def)
  moreover have "{0x4000000000, 0x4000000010, 0x4000000020} \<subseteq>
      poly_addr 2 ` {..<unat (3 :: u64)} - {0}"
  proof -
    have "{..<unat (3 :: u64)} = {0, 1, 2}" by auto
    then show ?thesis by (simp add: poly_addr_def kHbmBase_def)
  qed
  moreover have "context_for (su_openfhe sim_surroundings) 2 [97]"
    using sim_context by (simp add: sim_surroundings_def)
  ultimately show ?thesis
    using automorph_inverse_restores [OF sim_computes sim_bridge _ sim_galois, of 97 "[97]" 3
        "0x4000000000" "0x4000000010" "0x4000000020" 3 3 512 1024
        "\<lparr>pr_haze = overwritten\<lparr>hz_host := demo_host\<rparr>, pr_hook = None, pr_log = []\<rparr>"]
    by (simp del: exec_process.simps exec_processes.simps)
qed

end
