(* ===== verification/Spec2Isabelle.thy ===== *)
theory Spec2Isabelle
  imports Haze_Flush_Spec Haze_Flush_Errors Haze_Record_Spec Haze_Group_Spec Haze_Api_Spec
    Haze_Synthesis_Spec Haze_Session_Spec Haze_Client_Spec Haze_Serial
    Haze_Bridge_Files Haze_Hook Haze_Handles Haze_Codes_Spec Haze_Deployed Haze_Galois
begin

text \<open>
  HAZE is a CUDA-shaped C library for polynomial arithmetic over residue number systems. It
  does not execute: it records every operation as FHETCH IR through libnbfhetch, and only a
  flush runs the recording and copies the results of the tagged addresses back. This
  development models the library (src/ and replay_bridge/) and proves what its memory,
  recording and flush layers promise.

  \<^bold>\<open>The program.\<close> The C ABI (src/api) translates arguments and errors and forwards to the core
  (src/core). The core has process-wide singletons: \<open>Config\<close> (parameters, target),
  \<open>DeviceAllocator\<close> (device addresses and the staged "shadow" bytes behind them),
  \<open>CompilerBackend\<close> (one-time initialisation and recording control of the compiler) and
  \<open>EpochState\<close> (what each address is bound to in the current recording, which addresses are
  inputs and tagged outputs, which addresses form a multi-residue group). A compute call
  opens an \<open>EpochSession\<close>, promotes source shadows to recorded inputs, calls one fhetch
  operation and binds the result to the destination. \<open>hazeFlush\<close> tags the outputs, stops the
  compiler (which runs the replay bridge's post-recording hook), replays, and stores each
  output's values as the new shadow. The replay bridge builds the OpenFHE ciphertexts the
  replay reads, and reads the results back.

  \<^bold>\<open>Theories.\<close>
  \<^item> \<open>Haze_Prelude\<close>: machine types, bytes of a limb vector, insertion-ordered containers, the
    locales \<open>stateful_component\<close> and \<open>counter_names\<close>.
  \<^item> \<open>Haze_Errors\<close>: common/errors.hpp, errors.cpp, api/error.cpp.
  \<^item> \<open>Haze_Allocator\<close>, \<open>Haze_Allocator_Inv\<close>, \<open>Haze_Allocator_Spec\<close>: core/allocator.cpp, its
    invariants, and its contract; the locale \<open>shadow_store\<close> is what the flush uses of it.
  \<^item> \<open>Haze_Config\<close>: core/config.cpp.
  \<^item> \<open>Haze_Fhetch\<close>: the parameters of the model, that is, the calls haze makes to fhetch, the
    compiler and the files, as the record \<open>fh_env\<close>.
  \<^item> \<open>Haze_State\<close>: the fields of \<open>EpochState\<close> (record \<open>epoch\<close>) and the process state (record
    \<open>haze\<close>).
  \<^item> \<open>Haze_Backend\<close>: core/backend.cpp. \<open>Haze_Polynomial_IO\<close>: core/polynomial_io.cpp.
  \<^item> \<open>Haze_Replay_Bridge\<close>, \<open>Haze_Synthesis\<close>, \<open>Haze_Synthesis_Spec\<close>: openfhe_template.cpp,
    reading side, writing side, and what is proved of them. \<open>Haze_Bridge_Files\<close>: the probe files
    and their cleanup at reset. \<open>Haze_Hook\<close>: the post-recording hook inside a flush.
  \<^item> \<open>Haze_Epoch\<close>, \<open>Haze_Epoch_Inv\<close>: core/epoch.cpp and its bookkeeping invariant.
  \<^item> \<open>Haze_Mrp\<close>: core/mrp_polymap.cpp. \<open>Haze_Compute\<close>: core/compute.hpp and
    core/basis_convert.cpp. \<open>Haze_Device_Stream\<close>: core/device.cpp, core/stream.cpp.
    \<open>Haze_Handles\<close>: the heap objects behind the handles; the locale \<open>handle_kind\<close> is what a
    client can rely on, for streams and for events.
  \<^item> \<open>Haze_Api\<close>: src/api, one definition per entry point. \<open>Haze_System\<close>: the entry points as a
    step relation \<open>api_step\<close> with \<open>reachable\<close> states. \<open>Haze_Header\<close>: include/haze/haze.h, one
    constructor per declared function, and \<open>exec_call\<close>, the ABI as a function of the call,
    with the same steps (\<open>api_step_iff\<close>).
  \<^item> \<open>Haze_Inv\<close>: the invariant \<open>haze_inv\<close> and its preservation by every core operation.
  \<^item> \<open>Haze_Semantics\<close>: what a recording denotes, and eager execution on device memory.
    \<open>Haze_Flush\<close>: the contract of replay and what tagging and populating achieve.
    \<open>Haze_Mrp_Semantics\<close>, \<open>Haze_Mrp_Spec\<close>: the same for the multi-residue operations.
    \<open>Haze_Simulator\<close>: a concrete environment for the witnesses.
  \<^item> \<open>Haze_Frame\<close>: what recorded operations leave unchanged. \<open>Haze_Protocol\<close>: the protocol of the
    calls to the compiler. \<open>Haze_Calls\<close>: returned codes and the length of shadow vectors.
    \<open>Haze_Session_Spec\<close>: their consequences for sessions.
  \<^item> \<open>Haze_Codes\<close>, \<open>Haze_Codes_Spec\<close>: which codes each function of the header can return, and
    which of its reads can leave a vector.
  \<^item> \<open>Haze_Effects\<close>: what operations do to bindings, tags and output names.
    \<open>Haze_Client\<close>, \<open>Haze_Client_Spec\<close>: an abstract device as the client sees it, the simulation
    of it by the ABI, and the contract of a whole session. \<open>Haze_Program\<close>: the same for whole
    programs over the header, from a reset to the read-back. \<open>Haze_Deployed\<close>: a process with the
    modelled bridge in place of the answers of the environment; its state (record \<open>process\<close>) has
    the hook that \<open>hazeReplayBridgeInitCryptoContext\<close> installs and \<open>hazeDeviceReset\<close> frees.
    \<open>Haze_Galois\<close>: automorphisms inverted as the header documents, from uploaded bytes to bytes
    read back.
  \<^item> \<open>Haze_Flush_Spec\<close>, \<open>Haze_Flush_Errors\<close>, \<open>Haze_Record_Spec\<close>, \<open>Haze_Group_Spec\<close>,
    \<open>Haze_Api_Spec\<close>: properties that span components.
  \<^item> \<open>Haze_Threads\<close>: common/thread_safety.hpp, threads as program trees over lock operations
    and critical sections, and their interleaving. \<open>Haze_Lock_Protocol\<close>: the locale
    \<open>lock_protocol\<close>, what threads keep that write a part only under its mutex and take mutexes
    in rank order. \<open>Haze_Threaded\<close>, \<open>Haze_Threaded_Api\<close>: every operation again with its locks
    in place, proved equal to the sequential one when nobody interferes. \<open>Haze_Lock_Inv\<close>,
    \<open>Haze_Lock_Ops\<close>: what each mutex guards, and that every operation keeps the protocol.
    \<open>Haze_Threads_Spec\<close>, \<open>Haze_Serial\<close>: what client threads can rely on.
\<close>

section \<open>Conventions\<close>

text \<open>
  \<^item> \<open>std::expected\<close> is the sum \<open>HazeInternalError + 'a\<close>, \<open>Inl\<close> being the error. An operation
    returns its result and the new state. \<open>None\<close> around such a result is undefined behaviour
    of the C++ program (a read outside an array) or, in the bridge, a thrown exception.
  \<^item> Addresses, sizes, counters and residues are \<open>64 word\<close>, sizes passed to OpenFHE
    \<open>32 word\<close>; arithmetic wraps as in the source. The C type \<open>int\<close> is \<open>int\<close>. Bytes of a limb are
    little-endian.
  \<^item> Unordered containers that the code iterates over are lists in insertion order, because
    the order of emitted calls is observable; the C++ order is unspecified, and this is one of
    the possible ones. Containers that are only looked up are maps and sets.
  \<^item> The sequential theories take an entry point as one step. \<open>Haze_Threaded\<close> and
    \<open>Haze_Threaded_Api\<close> split it at every lock operation: a thread takes a mutex, gives it back,
    or runs the code in between as one step on the shared state. The code in between touches
    only what the held mutexes guard, so finer steps would not show. \<open>initialized_\<close> is an
    atomic load; memory is sequentially consistent.
  \<^item> Functions are \<open>noexcept\<close>; an allocation failure of the C++ library, or an exception out of
    the compiler's \<open>start()\<close> or \<open>stop()\<close>, terminates the process and is not modelled.
    \<open>new (std::nothrow)\<close> returning null is an argument.
  \<^item> Array arguments of the C ABI are lists with at least the announced number of entries, and
    \<open>None\<close> for null. Shorter arrays, stale handles and wild host pointers are undefined
    behaviour of the caller and outside \<open>exec_call\<close>.
  \<^item> The source loops are range loops, and are structural recursions here: no fuel is used
    anywhere and every definition is total.
\<close>

section \<open>Parameters and their hypotheses\<close>

text \<open>
  \<open>fh_env\<close> answers each call to fhetch, the compiler or the files as an arbitrary function of
  all calls made before; nothing is assumed of it unless a theorem says so. \<open>fh_sound\<close> says
  that fhetch operations denote functions of their operands' residue vectors, and that the
  documented copy (a scalar addition of 0 under the copy sentinel) denotes its operand.
  \<open>replay_serves\<close> says that stop and replay succeed and that replay delivers the tagged values
  under their names. \<open>openfhe_ok\<close> says what \<open>DropLastElements\<close>, \<open>SwitchModulusAtIndex\<close> and
  \<open>SetValues\<close> do. \<open>Haze_Simulator\<close> (and \<open>Haze_Synthesis_Spec\<close> for OpenFHE) instantiates them
  by concrete functions on which the witnesses are evaluated.

  With the bridge in place (\<open>Haze_Deployed\<close>) the parameters are the record \<open>surroundings\<close>, whose
  answers also depend on the calls the bridge has made to the compiler. \<open>computes\<close> is \<open>fh_sound\<close>
  and its multi-residue counterpart, with a compiler that starts. \<open>replay_serves\<close> becomes a
  consequence of \<open>bridge_works\<close>: \<open>roots_for_primes\<close> (OpenFHE finds a root of unity for a prime that
  is 1 modulo the order), \<open>files_writable\<close>, no exception out of the compiler during the
  initialisation, and, once the hook is installed, \<open>replay_runs\<close> (stop and replay succeed),
  \<open>probes_written\<close> (the replay wrote each probe) and \<open>captures_served\<close> (the compiler captures
  single- and multi-residue records whose moduli are such primes with a context). \<open>context_for\<close>
  says that OpenFHE can build a context for one list of moduli; it is asked of the modulus the
  program passes to the bridge and of the captured moduli.
\<close>

section \<open>What is shown\<close>

text \<open>
  \<^item> The contract of a session: whatever sequence of uploads, operations and tags the abstract
    device accepts, the calls succeed on, and a flush and read-backs deliver exactly the bytes
    of its values (\<open>Haze_Client_Spec\<close>). The same for a program over the header, from any state of
    the process, which initialises the modelled bridge after its reset (\<open>Haze_Deployed\<close>).
  \<^item> Refinement: a recorded program of single- and multi-residue operations denotes its eager
    execution on device memory, for every branch on which either succeeds; a flush stores
    exactly the tagged values, and a read-back then returns their bytes (\<open>Haze_Flush_Spec\<close>,
    \<open>Haze_Mrp_Spec\<close>).
  \<^item> Sessions: in every reachable state the calls made follow the compiler's protocol; each code
    returned is the one remembered; a read-back never leaves its vector as long as the ring
    dimension is not changed (\<open>Haze_Session_Spec\<close>).
  \<^item> The header: every function returns a code of its table; \<open>HAZE_ERROR_INTERNAL\<close> never comes
    from an assertion of the library about itself; where the polynomial size keeps to the stored
    vectors, the only read that can leave its array is a digit slice of hazeModUp
    (\<open>Haze_Codes_Spec\<close>).
  \<^item> Errors: every outcome of a flush leaves a clean epoch; which bytes survive a failed flush;
    when the bridge's error flag is consumed (\<open>Haze_Flush_Errors\<close>).
  \<^item> Invariants: configuration and allocator agree, live addresses are disjoint and fresh, the
    group index mirrors the groups; all hold in every reachable state of the ABI, for every
    environment (\<open>Haze_Allocator_Spec\<close>, \<open>Haze_Config\<close>, \<open>Haze_Group_Spec\<close>, \<open>Haze_Api_Spec\<close>).
  \<^item> Functional behaviour: allocation, release, transfers, tagging of groups, moduli of
    results, digit slicing, document search, captured-shape regrouping, ciphertext round trip.
  \<^item> The bridge and its surroundings: which captured records make a flush fail, and that one
    failing record hides no other (\<open>Haze_Hook\<close>); what a reset leaves on disk, and which probe a
    later flush reads when the replay wrote none (\<open>Haze_Bridge_Files\<close>).
  \<^item> Threads, under every interleaving of calls other than a device reset: what a mutex guards
    is written by its owner only, and keeps its promise whenever the mutex is free; the compiler
    is initialised once; no deadlock (there the ring dimension must stay, too)
    (\<open>Haze_Threads_Spec\<close>). Threads that only record, tag and flush behave as if
    their calls were made one after the other (\<open>Haze_Serial\<close>).
  \<^item> Behaviour that differs from the comments: a read past a shadow vector after a change of
    ring dimension, a digit-length sum that wraps, a flag that outlives its epoch, an upload
    that keeps an old modulus, a residue of the wrong length written as zeros, a backend that
    never came up going unnoticed, a reset that another thread can tear.
\<close>

section \<open>Not modelled\<close>

text \<open>
  The text written to stderr, except by the reset and by the reading of probes. In the session
  model a probe and the hook's outcome are answers of the environment, \<open>load_probe\<close> and
  \<open>hook_fails\<close>; \<open>Haze_Deployed\<close> instantiates them by the modelled reader and hook, with the disk
  and the captured records as functions of the calls made, since writing
  probes and capturing happen inside libnbfhetch. Exceptions out of the queries of the program
  directory while a probe is read, and out of the deserialiser, terminate the process and are
  not modelled. The file system is lexical: no links, no \<open>..\<close>. Threads share the library, not
  the host buffers they pass to it; the locks inside libnbfhetch and the logger are not
  modelled. \<open>Haze_Handles\<close> stands beside the ABI model, which passes handles as ids. Runs in
  which the compiler's \<open>start()\<close> or \<open>stop()\<close> throws end the process and have no model.
\<close>

end
